(* ===== verification/Prelude.thy ===== *)
theory Prelude
  imports Main "HOL-Library.Word"
begin

text \<open>
  Shared vocabulary of the development: the machine-integer types of the Rust code, the
  collections of simplification rules, and the generic lemmas on options, lists and maps that
  several components use.  A fallible Rust function returns \<open>'e + 'a\<close>, with \<open>Inl\<close> for
  \<open>Err\<close> and \<open>Inr\<close> for \<open>Ok\<close>.
\<close>

unbundle bit_operations_syntax

type_synonym u8 = "8 word"
type_synonym u16 = "16 word"
type_synonym u32 = "32 word"
type_synonym u64 = "64 word"

type_synonym usize = "64 word"
type_synonym i32 = "32 word"

type_synonym ('e, 'a) result = "'e + 'a"

text \<open>\<open>gate_simps\<close>, \<open>box_simps\<close>, \<open>slot_simps\<close>, \<open>enc_simps\<close>, \<open>app_simps\<close>,
  \<open>sched_simps\<close>, \<open>wire_simps\<close> and \<open>dump_simps\<close> collect the definitions a component's proofs
  unfold together.\<close>

named_theorems gate_simps
named_theorems box_simps
named_theorems slot_simps
named_theorems enc_simps
named_theorems hook_simps
named_theorems app_simps
named_theorems sched_simps
named_theorems wire_simps
named_theorems dump_simps

section \<open>The \<open>?\<close> operator\<close>

text \<open>\<open>bind_result r f\<close> is \<open>f(r?)\<close>: an error leaves the function at once.\<close>

fun bind_result :: "('e, 'a) result \<Rightarrow> ('a \<Rightarrow> ('e, 'b) result) \<Rightarrow> ('e, 'b) result" where
  "bind_result (Inl e) f = Inl e"
| "bind_result (Inr a) f = f a"

lemma bind_result_eq_Inr [simp]:
  "bind_result r f = Inr b \<longleftrightarrow> (\<exists>a. r = Inr a \<and> f a = Inr b)"
  by (cases r) auto

lemma bind_result_eq_Inl:
  "bind_result r f = Inl e \<longleftrightarrow> r = Inl e \<or> (\<exists>a. r = Inr a \<and> f a = Inl e)"
  by (cases r) auto

fun is_ok :: "('e, 'a) result \<Rightarrow> bool" where
  "is_ok (Inl _) = False"
| "is_ok (Inr _) = True"

fun map_err :: "('e \<Rightarrow> 'f) \<Rightarrow> ('e, 'a) result \<Rightarrow> ('f, 'a) result" where
  "map_err f (Inl e) = Inl (f e)"
| "map_err f (Inr a) = Inr a"

lemma map_err_eq_Inr [simp]: "map_err f r = Inr a \<longleftrightarrow> r = Inr a"
  by (cases r) auto

fun ok_or :: "'e \<Rightarrow> 'a option \<Rightarrow> ('e, 'a) result" where
  "ok_or e None = Inl e"
| "ok_or e (Some a) = Inr a"

lemma ok_or_eq_Inr [simp]: "ok_or e v = Inr a \<longleftrightarrow> v = Some a"
  by (cases v) auto

text \<open>\<open>collect::<Result<Vec<_>, _>>()\<close>: the first error wins.\<close>

fun collect_results :: "('e, 'a) result list \<Rightarrow> ('e, 'a list) result" where
  "collect_results [] = Inr []"
| "collect_results (r # rs) =
     bind_result r (\<lambda>a. bind_result (collect_results rs) (\<lambda>as. Inr (a # as)))"

lemma collect_results_length:
  "collect_results rs = Inr as \<Longrightarrow> length as = length rs"
  by (induction rs arbitrary: as) auto

lemma collect_results_nth:
  "collect_results rs = Inr as \<Longrightarrow> i < length rs \<Longrightarrow> rs ! i = Inr (as ! i)"
proof (induction rs arbitrary: as i)
  case (Cons r rs)
  then show ?case by (cases i) auto
qed simp

section \<open>Lists\<close>

fun find_first :: "('a \<Rightarrow> bool) \<Rightarrow> 'a list \<Rightarrow> 'a option" where
  "find_first p [] = None"
| "find_first p (x # xs) = (if p x then Some x else find_first p xs)"

lemma find_first_Some: "find_first p xs = Some x \<Longrightarrow> x \<in> set xs \<and> p x"
  by (induction xs) (auto split: if_splits)

lemma find_first_None: "find_first p xs = None \<longleftrightarrow> (\<forall>x \<in> set xs. \<not> p x)"
  by (induction xs) auto

lemma find_first_cong:
  "(\<And>x. x \<in> set xs \<Longrightarrow> p x = q x) \<Longrightarrow> find_first p xs = find_first q xs"
  by (induction xs) auto

lemma fold_invariant:
  assumes "P s" and "\<And>x s. x \<in> set xs \<Longrightarrow> P s \<Longrightarrow> P (f x s)"
  shows "P (fold f xs s)"
  using assms by (induction xs arbitrary: s) auto

end
