(* ===== verification/Base.thy ===== *)
theory Base
  imports Prelude
begin

text \<open>
  The closed error vocabulary of \<open>crates/core/src/error.rs\<close>, the stable ids of
  \<open>crates/core/src/base.rs\<close> and the typed configuration snapshot of
  \<open>crates/core/src/plugin_api/config.rs\<close>.  Message payloads are kept as strings.
\<close>

section \<open>Errors\<close>

datatype hook_error =
    TargetUnavailable
  | SignatureMismatch
  | SiteAlreadyRegistered
  | SlotConflict
  | InstallationFailed
  | OwnershipDrift
  | SlotMalformed
  | EntryPatchUnsupported string

datatype restore_error = OwnershipLost | RestoreFailed

datatype il2cpp_error =
    ImageNotFound
  | ImageIdentityMismatch
  | ExportMissing string
  | ReadinessSymbolMissing string
  | ReadinessDeadlineExceeded
  | ClassNotFound string
  | DomainUnavailable
  | AttachFailed
  | IdentityMismatch
  | MethodResolutionFailed string
  | NotReady

datatype plugin_error =
    ResourceConflict string
  | MissingDependency string
  | Hook hook_error
  | Il2Cpp il2cpp_error
  | Io
  | Message string

section \<open>Ids and the data root\<close>

datatype owner_id = OwnerId (owner_num: u64)
datatype route_id = RouteId u64
datatype topic_id = TopicId u64

text \<open>The derived \<open>Ord\<close> of an owner id is that of its number.\<close>

instantiation owner_id :: linorder
begin

definition less_eq_owner_id :: "owner_id \<Rightarrow> owner_id \<Rightarrow> bool" where
  "a \<le> b \<longleftrightarrow> owner_num a \<le> owner_num b"

definition less_owner_id :: "owner_id \<Rightarrow> owner_id \<Rightarrow> bool" where
  "a < b \<longleftrightarrow> owner_num a < owner_num b"

instance
  by standard (auto simp: less_eq_owner_id_def less_owner_id_def owner_id.expand)

end

text \<open>A path is the list of its components.\<close>

datatype data_root = DataRoot (root_path: "string list")

definition data_root_join :: "data_root \<Rightarrow> string \<Rightarrow> string list" where
  "data_root_join r relative = root_path r @ [relative]"

section \<open>The typed configuration snapshot\<close>

record runtime_config =
  debug_enabled :: bool
  fps_unlock :: bool
  translation_dump :: bool
  recon_enabled :: bool

text \<open>\<open>RuntimeConfig::default()\<close>: every section at its derived default.\<close>

definition default_config :: runtime_config where
  "default_config = \<lparr> debug_enabled = False, fps_unlock = False,
     translation_dump = False, recon_enabled = False \<rparr>"

end
