(* ===== verification/Gate.thy ===== *)
theory Gate
  imports Base
begin

text \<open>
  The runtime gate of \<open>crates/core/src/gate.rs\<close> and the per-plugin gate of
  \<open>crates/runtime/src/gate.rs\<close>.  Each operation is the sequence of its atomic accesses, so that
  an interleaving of two threads can be written down; the operations run without interruption
  are their compositions.  The locale \<open>permanent_gate\<close> is the contract the rest of the runtime
  relies on (closed at first, opened at most once, never open after a close).
\<close>

section \<open>The gate and its atomic accesses\<close>

datatype gate_control = GATE_CLOSED | GATE_OPEN | GATE_FAILED_CLOSED

record runtime_gate =
  gate_flag :: bool
  gate_ctl :: gate_control

definition gate_new :: runtime_gate where
  [gate_simps]: "gate_new = \<lparr> gate_flag = False, gate_ctl = GATE_CLOSED \<rparr>"

text \<open>\<open>GateReader::is_open\<close>\<close>

definition gate_is_open :: "runtime_gate \<Rightarrow> bool" where
  [gate_simps]: "gate_is_open g = gate_flag g"

definition gate_is_closed :: "runtime_gate \<Rightarrow> bool" where
  [gate_simps]: "gate_is_closed g \<longleftrightarrow> gate_ctl g = GATE_FAILED_CLOSED"

text \<open>The two accesses of \<open>open\<close>: the compare-exchange on the control word and, if it
  succeeded, the store to the flag.\<close>

definition open_cas :: "runtime_gate \<Rightarrow> bool \<times> runtime_gate" where
  [gate_simps]: "open_cas g =
     (if gate_ctl g = GATE_CLOSED then (True, g\<lparr> gate_ctl := GATE_OPEN \<rparr>) else (False, g))"

definition open_store :: "runtime_gate \<Rightarrow> runtime_gate" where
  [gate_simps]: "open_store g = g\<lparr> gate_flag := True \<rparr>"

definition gate_open :: "runtime_gate \<Rightarrow> bool \<times> runtime_gate" where
  [gate_simps]: "gate_open g =
     (case open_cas g of (won, g') \<Rightarrow> if won then (True, open_store g') else (False, g'))"

text \<open>The two stores of \<open>close\<close>.\<close>

definition close_control :: "runtime_gate \<Rightarrow> runtime_gate" where
  [gate_simps]: "close_control g = g\<lparr> gate_ctl := GATE_FAILED_CLOSED \<rparr>"

definition close_flag :: "runtime_gate \<Rightarrow> runtime_gate" where
  [gate_simps]: "close_flag g = g\<lparr> gate_flag := False \<rparr>"

definition gate_close :: "runtime_gate \<Rightarrow> runtime_gate" where
  [gate_simps]: "gate_close g = close_flag (close_control g)"

section \<open>The contract\<close>

datatype gate_op = Op_Open | Op_Close

locale permanent_gate =
  fixes fresh :: 'g
    and opn :: "'g \<Rightarrow> 'g"
    and cls :: "'g \<Rightarrow> 'g"
    and rd :: "'g \<Rightarrow> bool"
    and dead :: "'g \<Rightarrow> bool"
    and ok :: "'g \<Rightarrow> bool"
  assumes fresh_ok: "ok fresh" and fresh_shut: "\<not> rd fresh" and fresh_live: "\<not> dead fresh"
    and opn_ok: "ok g \<Longrightarrow> ok (opn g)" and cls_ok: "ok g \<Longrightarrow> ok (cls g)"
    and opn_rd: "ok g \<Longrightarrow> rd (opn g) \<longleftrightarrow> \<not> dead g"
    and opn_dead: "ok g \<Longrightarrow> dead (opn g) = dead g"
    and cls_rd: "ok g \<Longrightarrow> \<not> rd (cls g)"
    and cls_dead: "ok g \<Longrightarrow> dead (cls g)"
begin

primrec apply_op :: "gate_op \<Rightarrow> 'g \<Rightarrow> 'g" where
  "apply_op Op_Open g = opn g"
| "apply_op Op_Close g = cls g"

lemma history_from:
  "ok g \<Longrightarrow> ok (fold apply_op ops g)
     \<and> (dead (fold apply_op ops g) \<longleftrightarrow> dead g \<or> Op_Close \<in> set ops)
     \<and> (dead g \<longrightarrow> ops \<noteq> [] \<longrightarrow> \<not> rd (fold apply_op ops g))
     \<and> (\<not> dead g \<longrightarrow> (rd (fold apply_op ops g) \<longleftrightarrow>
          (rd g \<or> Op_Open \<in> set ops) \<and> Op_Close \<notin> set ops))"
proof (induction ops arbitrary: g)
  case (Cons a ops)
  have "ok (apply_op a g)"
    using Cons.prems by (cases a) (auto intro: opn_ok cls_ok)
  from Cons.IH [OF this] Cons.prems show ?case
    by (cases a; cases "ops = []") (auto simp: opn_rd opn_dead cls_rd cls_dead)
qed simp

lemma history:
  "rd (fold apply_op ops fresh) \<longleftrightarrow> Op_Open \<in> set ops \<and> Op_Close \<notin> set ops"
  using history_from [OF fresh_ok, of ops] fresh_live fresh_shut by simp

end

definition gate_ok :: "runtime_gate \<Rightarrow> bool" where
  [gate_simps]: "gate_ok g \<longleftrightarrow> gate_flag g = (gate_ctl g = GATE_OPEN)"

interpretation rg: permanent_gate gate_new "\<lambda>g. snd (gate_open g)" gate_close
    gate_is_open gate_is_closed gate_ok
proof unfold_locales
  fix g assume "gate_ok g"
  then show "gate_is_open (snd (gate_open g)) \<longleftrightarrow> \<not> gate_is_closed g"
    by (cases "gate_ctl g") (auto simp: gate_simps)
qed (auto simp: gate_simps split: if_splits)

section \<open>The plugin gate\<close>

datatype plugin_gate = PluginGate (gate_inner: runtime_gate)

definition plugin_gate_new :: plugin_gate where
  [gate_simps]: "plugin_gate_new = PluginGate gate_new"

definition plugin_gate_open :: "plugin_gate \<Rightarrow> plugin_gate" where
  [gate_simps]: "plugin_gate_open p = PluginGate (snd (gate_open (gate_inner p)))"

definition plugin_gate_close :: "plugin_gate \<Rightarrow> plugin_gate" where
  [gate_simps]: "plugin_gate_close p = PluginGate (gate_close (gate_inner p))"

definition plugin_gate_is_open :: "plugin_gate \<Rightarrow> bool" where
  [gate_simps]: "plugin_gate_is_open p = gate_is_open (gate_inner p)"

interpretation pg: permanent_gate plugin_gate_new plugin_gate_open plugin_gate_close
    plugin_gate_is_open "\<lambda>p. gate_is_closed (gate_inner p)" "\<lambda>p. gate_ok (gate_inner p)"
proof unfold_locales
  fix p assume "gate_ok (gate_inner p)"
  then show "plugin_gate_is_open (plugin_gate_open p) \<longleftrightarrow> \<not> gate_is_closed (gate_inner p)"
    using rg.opn_rd [of "gate_inner p"] by (simp add: plugin_gate_is_open_def plugin_gate_open_def)
qed (auto simp: plugin_gate_new_def plugin_gate_open_def plugin_gate_close_def plugin_gate_is_open_def
      rg.fresh_ok rg.fresh_shut rg.fresh_live rg.opn_ok rg.cls_ok rg.opn_dead rg.cls_rd rg.cls_dead)

lemma gate_open_result:
  "fst (gate_open g) \<longleftrightarrow> gate_ctl g = GATE_CLOSED"
  by (simp add: gate_simps)

section \<open>Histories and interleavings\<close>

definition run_gate :: "gate_op list \<Rightarrow> runtime_gate \<Rightarrow> runtime_gate" where
  "run_gate ops g =
     fold (\<lambda>p. case p of Op_Open \<Rightarrow> (\<lambda>h. snd (gate_open h)) | Op_Close \<Rightarrow> gate_close) ops g"

lemma run_gate_apply: "run_gate ops g = fold rg.apply_op ops g"
  unfolding run_gate_def by (rule fold_cong) (auto split: gate_op.splits)

definition run_plugin_gate :: "gate_op list \<Rightarrow> plugin_gate \<Rightarrow> plugin_gate" where
  "run_plugin_gate ops g =
     fold (\<lambda>p. case p of Op_Open \<Rightarrow> plugin_gate_open | Op_Close \<Rightarrow> plugin_gate_close) ops g"

lemma run_plugin_gate_apply: "run_plugin_gate ops g = fold pg.apply_op ops g"
  unfolding run_plugin_gate_def by (rule fold_cong) (auto split: gate_op.splits)

section \<open>Threads and their interleavings\<close>

text \<open>Any number of threads share one gate.  A thread is the list of operations it still has to
  start and the point it has reached inside the current one: \<open>Pc_Store\<close> is the opener that has
  won its compare-exchange and has not stored the flag, \<open>Pc_Clear\<close> the closer that has stored the
  control word and has not cleared the flag.  One step of a thread is one atomic access.  A
  schedule names the thread that moves next; entries for finished threads are idle.\<close>

datatype gate_pc = Pc_Idle | Pc_Store | Pc_Clear

record gate_thread =
  th_ops :: "gate_op list"
  th_pc :: gate_pc

definition gate_start :: "gate_op list \<Rightarrow> gate_thread" where
  "gate_start ops = \<lparr> th_ops = ops, th_pc = Pc_Idle \<rparr>"

fun thread_step :: "gate_thread \<Rightarrow> runtime_gate \<Rightarrow> gate_thread \<times> runtime_gate" where
  "thread_step t g =
     (case th_pc t of
        Pc_Store \<Rightarrow> (t\<lparr> th_pc := Pc_Idle \<rparr>, open_store g)
      | Pc_Clear \<Rightarrow> (t\<lparr> th_pc := Pc_Idle \<rparr>, close_flag g)
      | Pc_Idle \<Rightarrow>
          (case th_ops t of
             [] \<Rightarrow> (t, g)
           | Op_Open # ops \<Rightarrow>
               (case open_cas g of (won, g') \<Rightarrow>
                  (\<lparr> th_ops = ops, th_pc = (if won then Pc_Store else Pc_Idle) \<rparr>, g'))
           | Op_Close # ops \<Rightarrow> (\<lparr> th_ops = ops, th_pc = Pc_Clear \<rparr>, close_control g)))"

type_synonym gate_conf = "gate_thread list \<times> runtime_gate"

definition sched_step :: "nat \<Rightarrow> gate_conf \<Rightarrow> gate_conf" where
  "sched_step i c =
     (case c of (ths, g) \<Rightarrow>
        if i < length ths
        then (case thread_step (ths ! i) g of (t, g') \<Rightarrow> (ths[i := t], g'))
        else (ths, g))"

definition gate_run :: "nat list \<Rightarrow> gate_conf \<Rightarrow> gate_conf" where
  "gate_run sched c = fold sched_step sched c"

definition thread_done :: "gate_thread \<Rightarrow> bool" where
  "thread_done t \<longleftrightarrow> th_ops t = [] \<and> th_pc t = Pc_Idle"

definition at_pc :: "gate_pc \<Rightarrow> gate_thread list \<Rightarrow> nat" where
  "at_pc p ths = length (filter (\<lambda>t. th_pc t = p) ths)"

definition to_do :: "gate_op \<Rightarrow> gate_thread list \<Rightarrow> bool" where
  "to_do p ths \<longleftrightarrow> (\<exists>t\<in>set ths. p \<in> set (th_ops t))"

text \<open>One thread alone, run to the end of its operation, does what the uninterrupted operations
  above do.\<close>

lemma thread_open:
  "gate_run [0, 0] ([gate_start [Op_Open]], g) = ([gate_start []], snd (gate_open g))"
  by (simp add: gate_run_def sched_step_def gate_start_def gate_simps)

lemma thread_close:
  "gate_run [0, 0] ([gate_start [Op_Close]], g) = ([gate_start []], gate_close g)"
  by (simp add: gate_run_def sched_step_def gate_start_def gate_simps)

text \<open>The invariant of every interleaving: \<open>o\<close> and \<open>c\<close> say whether some thread had an \<open>open\<close>
  or a \<open>close\<close> to run at the start.\<close>

definition gate_inv :: "bool \<Rightarrow> bool \<Rightarrow> gate_conf \<Rightarrow> bool" where
  "gate_inv opens closes c \<longleftrightarrow>
     (case c of (ths, g) \<Rightarrow>
        (gate_ctl g = GATE_CLOSED \<longrightarrow> \<not> gate_flag g \<and> at_pc Pc_Store ths = 0)
      \<and> (gate_ctl g = GATE_OPEN \<longrightarrow> opens \<and> at_pc Pc_Store ths = (if gate_flag g then 0 else 1))
      \<and> at_pc Pc_Store ths \<le> 1
      \<and> (gate_ctl g = GATE_FAILED_CLOSED \<longrightarrow> closes)
      \<and> (closes \<longrightarrow> to_do Op_Close ths \<or> gate_ctl g = GATE_FAILED_CLOSED)
      \<and> (opens \<longrightarrow> to_do Op_Open ths \<or> gate_ctl g \<noteq> GATE_CLOSED)
      \<and> (to_do Op_Open ths \<longrightarrow> opens) \<and> (to_do Op_Close ths \<longrightarrow> closes)
      \<and> (at_pc Pc_Clear ths \<noteq> 0 \<longrightarrow> gate_ctl g = GATE_FAILED_CLOSED))"

lemma at_pc_split: "at_pc p (xs @ t # ys) = at_pc p xs + (if th_pc t = p then 1 else 0) + at_pc p ys"
  by (simp add: at_pc_def)

lemma to_do_split: "to_do p (xs @ t # ys) \<longleftrightarrow> to_do p xs \<or> p \<in> set (th_ops t) \<or> to_do p ys"
  by (auto simp: to_do_def)

lemma gate_inv_thread:
  assumes "gate_inv op cl (xs @ t # ys, g)" and "thread_step t g = (t', g')"
  shows "gate_inv op cl (xs @ t' # ys, g')"
proof (cases "th_pc t")
  case Pc_Store
  then show ?thesis using assms
    by (cases "gate_ctl g"; cases "gate_flag g";
        clarsimp simp: gate_inv_def at_pc_split to_do_split gate_simps)
next
  case Pc_Clear
  then show ?thesis using assms
    by (cases "gate_ctl g"; cases "gate_flag g";
        clarsimp simp: gate_inv_def at_pc_split to_do_split gate_simps)
next
  case Pc_Idle
  show ?thesis
  proof (cases "th_ops t")
    case Nil
    then show ?thesis using assms Pc_Idle by simp
  next
    case (Cons a ops)
    note inv = assms(1) [unfolded gate_inv_def prod.case at_pc_split to_do_split]
    show ?thesis
    proof (cases a)
      case Op_Close
      then have "t' = \<lparr> th_ops = ops, th_pc = Pc_Clear \<rparr>" "g' = close_control g"
        using assms(2) Pc_Idle Cons by simp_all
      then show ?thesis using inv Pc_Idle Cons Op_Close
        by (simp add: gate_inv_def at_pc_split to_do_split gate_simps)
    next
      case Op_Open
      then have "t' = \<lparr> th_ops = ops, th_pc = (if fst (open_cas g) then Pc_Store else Pc_Idle) \<rparr>"
        "g' = snd (open_cas g)"
        using assms(2) Pc_Idle Cons by (auto split: prod.splits)
      then show ?thesis using inv Pc_Idle Cons Op_Open
        by (cases "gate_ctl g") (simp_all add: gate_inv_def at_pc_split to_do_split gate_simps)
    qed
  qed
qed

lemma gate_inv_step: "gate_inv op cl c \<Longrightarrow> gate_inv op cl (sched_step i c)"
proof (cases c)
  fix ths g assume c: "c = (ths, g)" and inv: "gate_inv op cl c"
  show ?thesis
  proof (cases "i < length ths")
    case True
    obtain t' g' where st: "thread_step (ths ! i) g = (t', g')"
      by (cases "thread_step (ths ! i) g") auto
    have "gate_inv op cl (take i ths @ ths ! i # drop (Suc i) ths, g)"
      using inv c True by (simp flip: id_take_nth_drop)
    from gate_inv_thread [OF this st] show ?thesis
      using c True st by (simp add: sched_step_def upd_conv_take_nth_drop del: thread_step.simps)
  qed (use c inv in \<open>simp add: sched_step_def\<close>)
qed

lemma gate_inv_run: "gate_inv op cl c \<Longrightarrow> gate_inv op cl (gate_run sched c)"
  unfolding gate_run_def by (induction sched arbitrary: c) (simp_all add: gate_inv_step)

lemma gate_inv_start:
  "gate_inv (\<exists>p\<in>set progs. Op_Open \<in> set p) (\<exists>p\<in>set progs. Op_Close \<in> set p)
     (map gate_start progs, gate_new)"
  by (auto simp: gate_inv_def gate_new_def gate_start_def at_pc_def to_do_def filter_map o_def)

lemma at_pc_pos: "(\<exists>t\<in>set ths. th_pc t = p) \<longleftrightarrow> at_pc p ths \<noteq> 0"
  by (auto simp: at_pc_def filter_empty_conv)

text \<open>A gate that is closed for good, reads closed and has no opener parked between its accesses
  stays so under every schedule.\<close>

definition gate_shut :: "gate_conf \<Rightarrow> bool" where
  "gate_shut c \<longleftrightarrow> gate_is_closed (snd c) \<and> \<not> gate_is_open (snd c) \<and> at_pc Pc_Store (fst c) = 0"

lemma gate_shut_step: "gate_shut c \<Longrightarrow> gate_shut (sched_step i c)"
proof (cases c)
  fix ths g assume c: "c = (ths, g)" and shut: "gate_shut c"
  show ?thesis
  proof (cases "i < length ths")
    case True
    have e: "ths = take i ths @ ths ! i # drop (Suc i) ths"
      using True by (rule id_take_nth_drop)
    have z: "at_pc Pc_Store (take i ths) = 0" "at_pc Pc_Store (drop (Suc i) ths) = 0"
      "th_pc (ths ! i) \<noteq> Pc_Store"
      using shut c arg_cong [OF e, of "at_pc Pc_Store"]
      by (auto simp: gate_shut_def at_pc_split split: if_splits)
    show ?thesis
      using c True shut z
      by (cases "th_pc (ths ! i)"; cases "th_ops (ths ! i)"; cases "hd (th_ops (ths ! i))")
        (auto simp: sched_step_def gate_shut_def upd_conv_take_nth_drop at_pc_split gate_simps)
  qed (use c shut in \<open>simp add: sched_step_def\<close>)
qed

lemma gate_shut_run: "gate_shut c \<Longrightarrow> gate_shut (gate_run sched c)"
  unfolding gate_run_def by (induction sched arbitrary: c) (simp_all add: gate_shut_step)

lemma parked_opener_reopens:
  assumes "t \<in> set ths" and "th_pc t = Pc_Store"
  shows "\<exists>sched. gate_is_open (snd (gate_run sched (ths, g)))"
proof -
  obtain i where "i < length ths" "ths ! i = t" using assms(1) by (auto simp: in_set_conv_nth)
  then have "gate_is_open (snd (gate_run [i] (ths, g)))"
    using assms(2) by (simp add: gate_run_def sched_step_def gate_simps)
  then show ?thesis ..
qed

lemma gate_reopens_iff:
  assumes "gate_is_closed g" and "\<not> gate_is_open g"
  shows "(\<exists>sched. gate_is_open (snd (gate_run sched (ths, g)))) \<longleftrightarrow>
     (\<exists>t\<in>set ths. th_pc t = Pc_Store)"
  using assms gate_shut_run [of "(ths, g)"] parked_opener_reopens [of _ ths g]
  by (fastforce simp: gate_shut_def at_pc_pos)

lemma gate_inv_done:
  assumes "gate_inv op cl (ths, g)" and "\<forall>t\<in>set ths. thread_done t"
  shows "gate_is_closed g \<longleftrightarrow> cl" and "\<not> cl \<Longrightarrow> gate_is_open g \<longleftrightarrow> op"
proof -
  have z: "at_pc Pc_Store ths = 0" "\<not> to_do Op_Open ths" "\<not> to_do Op_Close ths"
    using assms(2) by (auto simp: at_pc_def to_do_def thread_done_def filter_empty_conv)
  show "gate_is_closed g \<longleftrightarrow> cl"
    using assms(1) z by (auto simp: gate_inv_def gate_simps)
  show "gate_is_open g \<longleftrightarrow> op" if "\<not> cl"
    using assms(1) z that by (cases "gate_ctl g") (auto simp: gate_inv_def gate_simps split: if_splits)
qed

text \<open>
  The gate is open after a history of uninterrupted \<open>open\<close> and \<open>close\<close> calls exactly when
  it was opened at least once and never closed; so a close is final whatever follows it.
\<close>

theorem gate_history:
  "gate_is_open (run_gate ops gate_new) \<longleftrightarrow> Op_Open \<in> set ops \<and> Op_Close \<notin> set ops"
  unfolding run_gate_apply by (rule rg.history)

text \<open>
  The plugin gate keeps the same contract: whatever sequence of opens and closes the driver
  issues, a retired (closed) plugin gate never reads open again.
\<close>

theorem plugin_gate_history:
  "plugin_gate_is_open (run_plugin_gate ops plugin_gate_new)
     \<longleftrightarrow> Op_Open \<in> set ops \<and> Op_Close \<notin> set ops"
  unfolding run_plugin_gate_apply by (rule pg.history)

text \<open>
  C38: threads that open and close one gate, under every schedule of their atomic accesses
  (sequentially consistent).  At most one thread is ever between a won compare-exchange and its
  store of the flag.  When all threads have finished, the gate is closed for good exactly when
  some thread closed it, and if none did it reads open exactly when some thread opened it.  A gate
  that is closed for good and reads closed can read open again, under some continuation, exactly
  when an opener is parked between its two accesses: that race is the only way a closed gate
  reopens.
\<close>

theorem gate_interleavings:
  assumes run: "gate_run sched (map gate_start progs, gate_new) = (ths, g)"
  shows "length (filter (\<lambda>t. th_pc t = Pc_Store) ths) \<le> 1
    \<and> ((\<forall>t\<in>set ths. thread_done t) \<longrightarrow>
         (gate_is_closed g \<longleftrightarrow> (\<exists>p\<in>set progs. Op_Close \<in> set p))
       \<and> ((\<forall>p\<in>set progs. Op_Close \<notin> set p) \<longrightarrow>
            (gate_is_open g \<longleftrightarrow> (\<exists>p\<in>set progs. Op_Open \<in> set p))))
    \<and> (gate_is_closed g \<and> \<not> gate_is_open g \<longrightarrow>
         ((\<exists>more. gate_is_open (snd (gate_run more (ths, g))))
            \<longleftrightarrow> (\<exists>t\<in>set ths. th_pc t = Pc_Store)))"
proof -
  have inv: "gate_inv (\<exists>p\<in>set progs. Op_Open \<in> set p) (\<exists>p\<in>set progs. Op_Close \<in> set p) (ths, g)"
    using gate_inv_run [OF gate_inv_start, of progs sched] by (simp add: run)
  have "length (filter (\<lambda>t. th_pc t = Pc_Store) ths) \<le> 1"
    using inv by (simp add: gate_inv_def at_pc_def)
  then show ?thesis using gate_inv_done [OF inv] gate_reopens_iff [of g ths] by blast
qed


theorem gate_interleavings_witness:
  "\<exists>more. gate_is_open (snd (gate_run more
       (gate_run [0, 1, 1] (map gate_start [[Op_Open], [Op_Close]], gate_new))))"
proof -
  have run: "gate_run [0, 1, 1] (map gate_start [[Op_Open], [Op_Close]], gate_new)
      = ([\<lparr> th_ops = [], th_pc = Pc_Store \<rparr>, gate_start []],
         \<lparr> gate_flag = False, gate_ctl = GATE_FAILED_CLOSED \<rparr>)"
    by (simp add: gate_run_def sched_step_def gate_start_def gate_simps)
  show ?thesis
    using gate_interleavings [OF run] unfolding run by (simp add: gate_simps)
qed

end
