(* ===== verification/Mailbox.thy ===== *)
theory Mailbox
  imports Base
begin

text \<open>
  The three mailboxes of \<open>crates/core/src/container.rs\<close>, the compact event queue of
  \<open>crates/core/src/event.rs\<close> and the direction-branded endpoints and drains of
  \<open>crates/core/src/plugin_api/route.rs\<close>.

  \<open>crossbeam\<close>'s \<open>ArrayQueue\<close> and \<open>AtomicCell\<close> are not part of the repository: they are the
  parameters \<open>array_queue\<close> and \<open>atomic_cell\<close>, and what their documentation promises is
  \<open>array_queue_laws\<close> and \<open>atomic_cell_laws\<close>.  The receiver \<open>Messages<T>\<close> of \<open>bevy_ecs\<close> is a
  parameter too: its write operation is an argument of the drains.
\<close>

section \<open>Parameters: the lock-free containers\<close>

record ('a, 'q) array_queue =
  aq_new :: "nat \<Rightarrow> 'q"
  aq_push :: "'q \<Rightarrow> 'a \<Rightarrow> bool \<times> 'q"
  aq_pop :: "'q \<Rightarrow> 'a option \<times> 'q"
  aq_len :: "'q \<Rightarrow> nat"

definition array_queue_laws :: "('a, 'q) array_queue \<Rightarrow> ('q \<Rightarrow> nat \<times> 'a list) \<Rightarrow> bool" where
  "array_queue_laws A view \<longleftrightarrow>
     (\<forall>c > 0. view (aq_new A c) = (c, [])) \<and>
     (\<forall>q x c xs. view q = (c, xs) \<longrightarrow>
        fst (aq_push A q x) = (length xs < c) \<and>
        view (snd (aq_push A q x)) = (c, if length xs < c then xs @ [x] else xs)) \<and>
     (\<forall>q c xs. view q = (c, xs) \<longrightarrow>
        fst (aq_pop A q) = (case xs of [] \<Rightarrow> None | x # _ \<Rightarrow> Some x) \<and>
        view (snd (aq_pop A q)) = (c, tl xs)) \<and>
     (\<forall>q. aq_len A q = length (snd (view q)))"

record ('a, 'c) atomic_cell =
  ac_new :: "'a \<Rightarrow> 'c"
  ac_swap :: "'c \<Rightarrow> 'a \<Rightarrow> 'a \<times> 'c"
  ac_load :: "'c \<Rightarrow> 'a"

definition atomic_cell_laws :: "('a, 'c) atomic_cell \<Rightarrow> bool" where
  "atomic_cell_laws C \<longleftrightarrow>
     (\<forall>v. ac_load C (ac_new C v) = v) \<and>
     (\<forall>c v. fst (ac_swap C c v) = ac_load C c \<and> ac_load C (snd (ac_swap C c v)) = v)"

lemma atomic_cell_simps:
  assumes "atomic_cell_laws C"
  shows "ac_load C (ac_new C v) = v" "fst (ac_swap C c v) = ac_load C c"
    "ac_load C (snd (ac_swap C c v)) = v"
  using assms by (simp_all add: atomic_cell_laws_def)

text \<open>Concrete containers for the witnesses.\<close>

definition list_queue :: "('a, nat \<times> 'a list) array_queue" where
  [box_simps]: "list_queue = \<lparr> aq_new = (\<lambda>c. (c, [])),
     aq_push = (\<lambda>(c, xs) x. if length xs < c then (True, (c, xs @ [x])) else (False, (c, xs))),
     aq_pop = (\<lambda>(c, xs). case xs of [] \<Rightarrow> (None, (c, [])) | x # ys \<Rightarrow> (Some x, (c, ys))),
     aq_len = (\<lambda>(c, xs). length xs) \<rparr>"

lemma list_queue_laws: "array_queue_laws list_queue id"
  by (auto simp: array_queue_laws_def list_queue_def split: list.splits)

definition plain_cell :: "('a, 'a) atomic_cell" where
  [box_simps]: "plain_cell = \<lparr> ac_new = id, ac_swap = (\<lambda>c v. (c, v)), ac_load = id \<rparr>"

lemma plain_cell_laws: "atomic_cell_laws plain_cell"
  by (simp add: atomic_cell_laws_def plain_cell_def)

section \<open>Send outcomes\<close>

datatype send_outcome = Accepted | Replaced | Full | Busy

fun is_stored :: "send_outcome \<Rightarrow> bool" where
  "is_stored Accepted = True"
| "is_stored Replaced = True"
| "is_stored Full = False"
| "is_stored Busy = False"

section \<open>\<open>LatestCell\<close>\<close>

definition latest_new :: "('a option, 'c) atomic_cell \<Rightarrow> 'c" where
  [box_simps]: "latest_new C = ac_new C None"

definition latest_try_send :: "('a option, 'c) atomic_cell \<Rightarrow> 'a \<Rightarrow> 'c \<Rightarrow> send_outcome \<times> 'c" where
  [box_simps]: "latest_try_send C v c =
     (case ac_swap C c (Some v) of (old, c') \<Rightarrow>
        (if old \<noteq> None then Replaced else Accepted, c'))"

definition latest_try_read :: "('a option, 'c) atomic_cell \<Rightarrow> 'c \<Rightarrow> 'a option" where
  [box_simps]: "latest_try_read C c = ac_load C c"

definition latest_take :: "('a option, 'c) atomic_cell \<Rightarrow> 'c \<Rightarrow> 'a option \<times> 'c" where
  [box_simps]: "latest_take C c = ac_swap C c None"

section \<open>\<open>BoundedQueue\<close>\<close>

definition bounded_new :: "('a, 'q) array_queue \<Rightarrow> nat \<Rightarrow> 'q" where
  [box_simps]: "bounded_new A n = aq_new A n"

definition bounded_try_send :: "('a, 'q) array_queue \<Rightarrow> 'a \<Rightarrow> 'q \<Rightarrow> send_outcome \<times> 'q" where
  [box_simps]: "bounded_try_send A v q =
     (case aq_push A q v of (ok, q') \<Rightarrow> (if \<not> ok then Full else Accepted, q'))"

definition bounded_try_read :: "('a, 'q) array_queue \<Rightarrow> 'q \<Rightarrow> 'a option \<times> 'q" where
  [box_simps]: "bounded_try_read A q = aq_pop A q"

definition bounded_len :: "('a, 'q) array_queue \<Rightarrow> 'q \<Rightarrow> nat" where
  [box_simps]: "bounded_len A q = aq_len A q"

section \<open>\<open>SharedSlot\<close>\<close>

text \<open>A standard mutex seen by \<open>try_lock\<close>: whether another thread holds it, and whether a
  panic poisoned it.\<close>

record 'a mutex =
  mx_held :: bool
  mx_poisoned :: bool
  mx_val :: 'a

definition mutex_new :: "'a \<Rightarrow> 'a mutex" where
  [box_simps]: "mutex_new v = \<lparr> mx_held = False, mx_poisoned = False, mx_val = v \<rparr>"

datatype slot_busy = SlotBusy

type_synonym 'a shared_slot = "'a option mutex"

definition shared_new :: "'a shared_slot" where
  [box_simps]: "shared_new = mutex_new None"

definition shared_try_send ::
  "'a \<Rightarrow> 'a shared_slot \<Rightarrow> (slot_busy, send_outcome) result \<times> 'a shared_slot" where
  [box_simps]: "shared_try_send v s =
     (if mx_held s then (Inl SlotBusy, s)
      else if mx_poisoned s then (Inl SlotBusy, s)
      else (Inr (if mx_val s \<noteq> None then Replaced else Accepted), s\<lparr> mx_val := Some v \<rparr>))"

text \<open>The helper \<open>lock\<close> recovers the guard of a poisoned mutex; only contention is refused.\<close>

definition slot_lock :: "'a mutex \<Rightarrow> 'a option" where
  [box_simps]: "slot_lock m = (if mx_held m then None else Some (mx_val m))"

definition shared_try_read :: "'a shared_slot \<Rightarrow> 'a option" where
  [box_simps]: "shared_try_read s = (case slot_lock s of None \<Rightarrow> None | Some v \<Rightarrow> v)"

definition shared_take :: "'a shared_slot \<Rightarrow> 'a option \<times> 'a shared_slot" where
  [box_simps]: "shared_take s =
     (case slot_lock s of None \<Rightarrow> (None, s) | Some v \<Rightarrow> (v, s\<lparr> mx_val := None \<rparr>))"

definition shared_is_set :: "'a shared_slot \<Rightarrow> bool" where
  [box_simps]: "shared_is_set s =
     (if mx_held s \<or> mx_poisoned s then True else mx_val s \<noteq> None)"

section \<open>Compact events\<close>

definition CALLBACK_EVENT_QUEUE_CAPACITY :: nat where
  "CALLBACK_EVENT_QUEUE_CAPACITY = 4096"

datatype compact_level = CL_Info | CL_Warn | CL_Error

record compact_event =
  ce_code :: u16
  ce_level :: compact_level
  ce_owner :: u32
  ce_site :: u32
  ce_arg0 :: u64
  ce_arg1 :: u64

definition event_new :: "u16 \<Rightarrow> compact_level \<Rightarrow> compact_event" where
  "event_new code level = \<lparr> ce_code = code, ce_level = level, ce_owner = 0, ce_site = 0,
     ce_arg0 = 0, ce_arg1 = 0 \<rparr>"

definition event_owner :: "u32 \<Rightarrow> compact_event \<Rightarrow> compact_event" where
  "event_owner w e = e\<lparr> ce_owner := w \<rparr>"

definition event_site :: "u32 \<Rightarrow> compact_event \<Rightarrow> compact_event" where
  "event_site i e = e\<lparr> ce_site := i \<rparr>"

definition event_args :: "u64 \<Rightarrow> u64 \<Rightarrow> compact_event \<Rightarrow> compact_event" where
  "event_args a b e = e\<lparr> ce_arg0 := a, ce_arg1 := b \<rparr>"

record 'q callback_observability =
  co_queue :: 'q
  co_dropped :: u64

definition obs_with_capacity :: "(compact_event, 'q) array_queue \<Rightarrow> nat \<Rightarrow> 'q callback_observability"
where
  "obs_with_capacity A n = \<lparr> co_queue = aq_new A n, co_dropped = 0 \<rparr>"

definition obs_new :: "(compact_event, 'q) array_queue \<Rightarrow> 'q callback_observability" where
  "obs_new A = obs_with_capacity A CALLBACK_EVENT_QUEUE_CAPACITY"

definition obs_try_emit ::
  "(compact_event, 'q) array_queue \<Rightarrow> compact_event \<Rightarrow> 'q callback_observability
     \<Rightarrow> bool \<times> 'q callback_observability" where
  "obs_try_emit A e ob =
     (case aq_push A (co_queue ob) e of (ok, q') \<Rightarrow>
        if ok then (True, ob\<lparr> co_queue := q' \<rparr>)
        else (False, ob\<lparr> co_queue := q', co_dropped := co_dropped ob + 1 \<rparr>))"

text \<open>\<open>(0..max).map_while(|_| queue.pop())\<close>\<close>

fun pop_while :: "('a, 'q) array_queue \<Rightarrow> nat \<Rightarrow> 'q \<Rightarrow> 'a list \<times> 'q" where
  "pop_while A 0 q = ([], q)"
| "pop_while A (Suc n) q =
     (case aq_pop A q of
        (None, q') \<Rightarrow> ([], q')
      | (Some x, q') \<Rightarrow> (case pop_while A n q' of (xs, q'') \<Rightarrow> (x # xs, q'')))"

definition obs_drain ::
  "(compact_event, 'q) array_queue \<Rightarrow> nat \<Rightarrow> 'q callback_observability
     \<Rightarrow> compact_event list \<times> 'q callback_observability" where
  "obs_drain A n ob = (case pop_while A n (co_queue ob) of (es, q') \<Rightarrow> (es, ob\<lparr> co_queue := q' \<rparr>))"

lemma array_queue_push:
  assumes "array_queue_laws A view" "view q = (c, xs)"
  shows "fst (aq_push A q x) = (length xs < c)"
    "view (snd (aq_push A q x)) = (c, if length xs < c then xs @ [x] else xs)"
  using assms by (auto simp: array_queue_laws_def)

lemma array_queue_pop:
  assumes "array_queue_laws A view" "view q = (c, xs)"
  shows "fst (aq_pop A q) = (case xs of [] \<Rightarrow> None | x # _ \<Rightarrow> Some x)"
    "view (snd (aq_pop A q)) = (c, tl xs)"
  using assms by (auto simp: array_queue_laws_def)

lemma pop_while_view:
  assumes "array_queue_laws A view"
  shows "view q = (c, xs) \<Longrightarrow>
    fst (pop_while A n q) = take n xs \<and> view (snd (pop_while A n q)) = (c, drop n xs)"
proof (induction n arbitrary: q xs)
  case (Suc n)
  obtain r q' where p: "aq_pop A q = (r, q')" by fastforce
  with array_queue_pop [OF assms Suc.prems]
  have r: "r = (case xs of [] \<Rightarrow> None | x # _ \<Rightarrow> Some x)" and q': "view q' = (c, tl xs)" by auto
  from Suc.IH [OF q'] p r q' show ?case
    by (cases xs) (auto split: prod.splits)
qed simp

section \<open>Endpoints\<close>

text \<open>The capability tokens of the two execution domains.  An endpoint operation takes the token
  of its own domain, so an endpoint used from the other domain does not type-check.\<close>

datatype callback_ctx = CallbackCtx
datatype update_ctx = UpdateCtx

definition main_latest_writer_try_send ::
  "('a option, 'c) atomic_cell \<Rightarrow> update_ctx \<Rightarrow> 'a \<Rightarrow> 'c \<Rightarrow> send_outcome \<times> 'c" where
  [box_simps]: "main_latest_writer_try_send C _ v c = latest_try_send C v c"

definition callback_latest_reader_try_read ::
  "('a option, 'c) atomic_cell \<Rightarrow> callback_ctx \<Rightarrow> 'c \<Rightarrow> 'a option" where
  [box_simps]: "callback_latest_reader_try_read C _ c = latest_try_read C c"

definition main_bounded_writer_try_send ::
  "('a, 'q) array_queue \<Rightarrow> update_ctx \<Rightarrow> 'a \<Rightarrow> 'q \<Rightarrow> send_outcome \<times> 'q" where
  [box_simps]: "main_bounded_writer_try_send A _ v q = bounded_try_send A v q"

definition callback_bounded_reader_try_read ::
  "('a, 'q) array_queue \<Rightarrow> callback_ctx \<Rightarrow> 'q \<Rightarrow> 'a option \<times> 'q" where
  [box_simps]: "callback_bounded_reader_try_read A _ q = bounded_try_read A q"

definition main_shared_writer_try_send ::
  "update_ctx \<Rightarrow> 'a \<Rightarrow> 'a shared_slot \<Rightarrow> (slot_busy, send_outcome) result \<times> 'a shared_slot" where
  [box_simps]: "main_shared_writer_try_send _ v s = shared_try_send v s"

definition callback_shared_reader_try_read :: "callback_ctx \<Rightarrow> 'a shared_slot \<Rightarrow> 'a option" where
  [box_simps]: "callback_shared_reader_try_read _ s = shared_try_read s"

definition callback_latest_writer_try_send ::
  "('a option, 'c) atomic_cell \<Rightarrow> callback_ctx \<Rightarrow> 'a \<Rightarrow> 'c \<Rightarrow> send_outcome \<times> 'c" where
  [box_simps]: "callback_latest_writer_try_send C _ v c = latest_try_send C v c"

definition callback_bounded_writer_try_send ::
  "('a, 'q) array_queue \<Rightarrow> callback_ctx \<Rightarrow> 'a \<Rightarrow> 'q \<Rightarrow> send_outcome \<times> 'q" where
  [box_simps]: "callback_bounded_writer_try_send A _ v q = bounded_try_send A v q"

definition callback_shared_writer_try_send ::
  "callback_ctx \<Rightarrow> 'a \<Rightarrow> 'a shared_slot \<Rightarrow> (slot_busy, send_outcome) result \<times> 'a shared_slot" where
  [box_simps]: "callback_shared_writer_try_send _ v s = shared_try_send v s"

section \<open>Drains into the main-side receiver\<close>

text \<open>The receiver is the world's \<open>Messages\<close> resource for the payload, when it is registered;
  \<open>wr\<close> writes one message into it.\<close>

definition main_latest_depth :: "('a option, 'c) atomic_cell \<Rightarrow> 'c \<Rightarrow> nat" where
  [box_simps]: "main_latest_depth C c = (if latest_try_read C c \<noteq> None then 1 else 0)"

definition main_latest_drain ::
  "('a option, 'c) atomic_cell \<Rightarrow> ('a \<Rightarrow> 'r \<Rightarrow> 'r) \<Rightarrow> 'r option \<Rightarrow> nat \<Rightarrow> 'c \<Rightarrow> nat \<times> 'r option \<times> 'c" where
  [box_simps]: "main_latest_drain C wr recv watermark c =
     (case latest_take C c of
        (None, c') \<Rightarrow> (0, recv, c')
      | (Some v, c') \<Rightarrow>
          (case recv of Some r \<Rightarrow> (1, Some (wr v r), c') | None \<Rightarrow> (0, None, c')))"

definition main_bounded_depth :: "('a, 'q) array_queue \<Rightarrow> 'q \<Rightarrow> nat" where
  [box_simps]: "main_bounded_depth A q = bounded_len A q"

definition main_bounded_drain ::
  "('a, 'q) array_queue \<Rightarrow> ('a \<Rightarrow> 'r \<Rightarrow> 'r) \<Rightarrow> 'r option \<Rightarrow> nat \<Rightarrow> 'q \<Rightarrow> nat \<times> 'r option \<times> 'q" where
  [box_simps]: "main_bounded_drain A wr recv watermark q =
     (case recv of
        None \<Rightarrow> (0, None, q)
      | Some r \<Rightarrow> (case pop_while A watermark q of
           (xs, q') \<Rightarrow> (length xs, Some (fold wr xs r), q')))"

definition main_shared_depth :: "'a shared_slot \<Rightarrow> nat" where
  [box_simps]: "main_shared_depth s = (if shared_try_read s \<noteq> None then 1 else 0)"

definition main_shared_drain ::
  "('a \<Rightarrow> 'r \<Rightarrow> 'r) \<Rightarrow> 'r option \<Rightarrow> nat \<Rightarrow> 'a shared_slot \<Rightarrow> nat \<times> 'r option \<times> 'a shared_slot" where
  [box_simps]: "main_shared_drain wr recv watermark s =
     (case shared_take s of
        (None, s') \<Rightarrow> (0, recv, s')
      | (Some v, s') \<Rightarrow>
          (case recv of Some r \<Rightarrow> (1, Some (wr v r), s') | None \<Rightarrow> (0, None, s')))"

text \<open>One route in the \<open>CommandDrain\<close> stage: the depth on entry is the watermark.\<close>

definition drain_with_watermark ::
  "('s \<Rightarrow> nat) \<Rightarrow> ('r option \<Rightarrow> nat \<Rightarrow> 's \<Rightarrow> nat \<times> 'r option \<times> 's) \<Rightarrow> 'r option \<Rightarrow> 's
     \<Rightarrow> 'r option \<times> 's" where
  "drain_with_watermark depth drain recv s =
     (let watermark = depth s in
      if watermark > 0 then (case drain recv watermark s of (_, recv', s') \<Rightarrow> (recv', s'))
      else (recv, s))"

text \<open>
  \<open>MainRouteDrain\<close>: with a registered receiver a drain moves a prefix of what the mailbox holds,
  at most the watermark, to the receiver in order, and keeps the rest.
\<close>

locale main_route_drain =
  fixes depth :: "'s \<Rightarrow> nat"
    and drain :: "'r option \<Rightarrow> nat \<Rightarrow> 's \<Rightarrow> nat \<times> 'r option \<times> 's"
    and wr :: "'m \<Rightarrow> 'r \<Rightarrow> 'r"
    and contents :: "'s \<Rightarrow> 'm list"
  assumes depth_le: "depth s \<le> length (contents s)"
    and drain_prefix: "drain (Some r) w s = (n, recv', s') \<Longrightarrow> w > 0 \<Longrightarrow>
      \<exists>ms. recv' = Some (fold wr ms r) \<and> contents s = ms @ contents s' \<and> n = length ms \<and> n \<le> w"
begin

lemma stage_conserves:
  assumes "drain_with_watermark depth drain (Some r) s = (recv', s')"
  shows "\<exists>ms. recv' = Some (fold wr ms r) \<and> contents s = ms @ contents s' \<and> length ms \<le> depth s"
proof (cases "depth s > 0")
  case True
  with assms obtain n where "drain (Some r) (depth s) s = (n, recv', s')"
    by (auto simp: drain_with_watermark_def split: prod.splits)
  from drain_prefix [OF this True] show ?thesis by auto
next
  case False
  with assms have "recv' = Some (fold wr [] r) \<and> contents s = [] @ contents s'"
    by (simp add: drain_with_watermark_def)
  then show ?thesis by fastforce
qed

end

interpretation shared_drain: main_route_drain main_shared_depth "main_shared_drain wr" wr
    "\<lambda>s. case mx_val s of None \<Rightarrow> [] | Some v \<Rightarrow> [v]" for wr :: "'a \<Rightarrow> 'r \<Rightarrow> 'r"
  by unfold_locales (auto simp: box_simps split: option.splits if_splits)

lemma latest_is_route_drain:
  assumes "atomic_cell_laws C"
  shows "main_route_drain (main_latest_depth C) (main_latest_drain C wr) wr
    (\<lambda>c. case ac_load C c of None \<Rightarrow> [] | Some v \<Rightarrow> [v])"
proof (unfold_locales, goal_cases)
  case (1 s)
  then show ?case by (auto simp: box_simps split: option.splits)
next
  case (2 r w s n recv' s')
  obtain old c where sw: "ac_swap C s None = (old, c)" by fastforce
  with atomic_cell_simps [OF assms] have "old = ac_load C s" "ac_load C c = None"
    by (metis fst_conv, metis snd_conv)
  with 2 sw show ?case by (auto simp: box_simps split: option.splits)
qed

lemma bounded_is_route_drain:
  assumes "array_queue_laws A view"
  shows "main_route_drain (main_bounded_depth A) (main_bounded_drain A wr) wr (\<lambda>q. snd (view q))"
proof (unfold_locales, goal_cases)
  case (1 s)
  then show ?case using assms by (simp add: box_simps array_queue_laws_def)
next
  case (2 r w s n recv' s')
  obtain xs q where pw: "pop_while A w s = (xs, q)" by fastforce
  with pop_while_view [OF assms, of s "fst (view s)" "snd (view s)" w]
  have "xs = take w (snd (view s))" "snd (view q) = drop w (snd (view s))" by auto
  with 2 pw show ?case by (auto simp: box_simps)
qed

section \<open>Mailbox properties\<close>

text \<open>A history of sends into one mailbox.\<close>

definition send_all_latest :: "('a option, 'c) atomic_cell \<Rightarrow> 'a list \<Rightarrow> 'c \<Rightarrow> 'c" where
  "send_all_latest C vs c = fold (\<lambda>v c. snd (latest_try_send C v c)) vs c"

definition send_all_bounded ::
  "('a, 'q) array_queue \<Rightarrow> 'a list \<Rightarrow> 'q \<Rightarrow> send_outcome list \<times> 'q" where
  "send_all_bounded A vs q =
     fold (\<lambda>v (os, q). case bounded_try_send A v q of (r, q') \<Rightarrow> (os @ [r], q')) vs ([], q)"

lemma send_all_bounded_view:
  assumes "array_queue_laws A view"
  shows "view q = (c, xs) \<Longrightarrow> length xs \<le> c \<Longrightarrow>
    view (snd (fold (\<lambda>v (os, q). case bounded_try_send A v q of (r, q') \<Rightarrow> (os @ [r], q')) vs (os, q)))
      = (c, take c (xs @ vs)) \<and>
    fst (fold (\<lambda>v (os, q). case bounded_try_send A v q of (r, q') \<Rightarrow> (os @ [r], q')) vs (os, q))
      = os @ replicate (min (length vs) (c - length xs)) Accepted
           @ replicate (length vs - (c - length xs)) Full"
proof (induction vs arbitrary: q xs os)
  case (Cons v vs)
  obtain ok q' where p: "aq_push A q v = (ok, q')" by fastforce
  from array_queue_push [OF assms Cons.prems(1), of v] p
  have ok: "ok = (length xs < c)" and q': "view q' = (c, if length xs < c then xs @ [v] else xs)"
    by auto
  show ?case
  proof (cases "length xs < c")
    case True
    with q' have v: "view q' = (c, xs @ [v])" by simp
    from True have le: "length (xs @ [v]) \<le> c" by simp
    obtain k where k: "c - length xs = Suc k" using True by (metis Suc_diff_Suc)
    then have k': "c - length (xs @ [v]) = k" by simp
    from Cons.IH [OF v le, of "os @ [Accepted]"] show ?thesis
      unfolding k' using True ok p k by (simp add: box_simps)
  next
    case False
    with Cons.prems have c: "length xs = c" by simp
    with q' have v: "view q' = (c, xs)" by simp
    from Cons.IH [OF v, of "os @ [Full]"] c show ?thesis
      using ok p by (simp add: box_simps replicate_append_same [symmetric])
  qed
qed simp

definition emit_all ::
  "(compact_event, 'q) array_queue \<Rightarrow> compact_event list \<Rightarrow> 'q callback_observability
     \<Rightarrow> 'q callback_observability" where
  "emit_all A es ob = fold (\<lambda>e ob. snd (obs_try_emit A e ob)) es ob"

lemma obs_try_emit_view:
  assumes "array_queue_laws A view" "view (co_queue ob) = (c, xs)"
  shows "view (co_queue (snd (obs_try_emit A e ob))) = (c, if length xs < c then xs @ [e] else xs)"
    "co_dropped (snd (obs_try_emit A e ob)) = co_dropped ob + (if length xs < c then 0 else 1)"
  using array_queue_push [OF assms, of e]
  by (auto simp: obs_try_emit_def split: prod.splits)

lemma emit_all_view:
  assumes "array_queue_laws A view"
  shows "view (co_queue ob) = (c, xs) \<Longrightarrow> length xs \<le> c \<Longrightarrow>
    view (co_queue (emit_all A es ob)) = (c, take c (xs @ es)) \<and>
    co_dropped (emit_all A es ob) = co_dropped ob + of_nat (length es - (c - length xs))"
proof (induction es arbitrary: ob xs)
  case (Cons e es)
  let ?ob = "snd (obs_try_emit A e ob)"
  note v = obs_try_emit_view [OF assms Cons.prems(1), of e]
  show ?case
  proof (cases "length xs < c")
    case True
    then have le: "length (xs @ [e]) \<le> c" and k: "c - length xs = Suc (c - length (xs @ [e]))"
      by simp_all
    have vv: "view (co_queue ?ob) = (c, xs @ [e])" using v True by simp
    from Cons.IH [OF vv le] v(2) True k show ?thesis by (simp add: emit_all_def)
  next
    case False
    with Cons.prems have c: "length xs = c" by simp
    have vv: "view (co_queue ?ob) = (c, xs)" using v False by simp
    from Cons.IH [OF vv] v(2) c show ?thesis by (simp add: emit_all_def)
  qed
qed (simp add: emit_all_def)

lemma send_all_latest_load:
  assumes "atomic_cell_laws C"
  shows "ac_load C (send_all_latest C vs c) = (if vs = [] then ac_load C c else Some (last vs))"
proof (induction vs arbitrary: c)
  case (Cons v vs)
  have "ac_load C (snd (latest_try_send C v c)) = Some v"
    using atomic_cell_simps [OF assms] by (simp add: box_simps split: prod.splits) (metis snd_conv)
  with Cons.IH [of "snd (latest_try_send C v c)"] show ?case by (simp add: send_all_latest_def)
qed (simp add: send_all_latest_def)

text \<open>
  A bounded mailbox of capacity \<open>n\<close> that receives any sequence of sends accepts exactly the
  first \<open>n\<close> and answers \<open>Full\<close> to every later one; the command-drain stage then writes exactly
  the accepted messages, in sending order, into the registered receiver and leaves the mailbox
  empty; without a registered receiver nothing is taken out.
\<close>

theorem bounded_queue_history:
  assumes "array_queue_laws A view" and "n > 0"
    and "send_all_bounded A vs (bounded_new A n) = (outcomes, q)"
  shows "outcomes = replicate (min (length vs) n) Accepted @ replicate (length vs - n) Full \<and>
    fst (drain_with_watermark (main_bounded_depth A) (main_bounded_drain A wr) (Some r) q)
      = Some (fold wr (take n vs) r) \<and>
    view (snd (drain_with_watermark (main_bounded_depth A) (main_bounded_drain A wr) (Some r) q))
      = (n, []) \<and>
    drain_with_watermark (main_bounded_depth A) (main_bounded_drain A wr) None q = (None, q)"
proof -
  have new: "view (bounded_new A n) = (n, [])"
    using assms(1,2) by (simp add: box_simps array_queue_laws_def)
  from send_all_bounded_view [OF assms(1) new, of vs "[]"] assms(3)
  have q: "view q = (n, take n vs)"
    and o1: "outcomes = replicate (min (length vs) n) Accepted @ replicate (length vs - n) Full"
    by (auto simp: send_all_bounded_def)
  have len: "main_bounded_depth A q = length (take n vs)"
    using assms(1) q by (simp add: box_simps array_queue_laws_def)
  note pw = pop_while_view [OF assms(1) q, of "length (take n vs)"]
  have "drain_with_watermark (main_bounded_depth A) (main_bounded_drain A wr) None q = (None, q)"
    by (simp add: drain_with_watermark_def main_bounded_drain_def Let_def)
  moreover have "fst (drain_with_watermark (main_bounded_depth A) (main_bounded_drain A wr) (Some r) q)
      = Some (fold wr (take n vs) r) \<and>
    view (snd (drain_with_watermark (main_bounded_depth A) (main_bounded_drain A wr) (Some r) q))
      = (n, [])"
    using pw len q by (cases "take n vs") (auto simp: drain_with_watermark_def
        main_bounded_drain_def Let_def split: prod.splits)
  ultimately show ?thesis using o1 by simp
qed

theorem bounded_queue_history_witness:
  "send_all_bounded list_queue [7, 8, 9 :: nat] (bounded_new list_queue 2)
     = ([Accepted, Accepted, Full], (2, [7, 8])) \<and>
   fst (drain_with_watermark (main_bounded_depth list_queue)
     (main_bounded_drain list_queue (\<lambda>m ms. ms @ [m])) (Some [1]) (2, [7, 8 :: nat]))
     = Some [1, 7, 8]"
proof -
  have s: "send_all_bounded list_queue [7, 8, 9 :: nat] (bounded_new list_queue 2)
     = ([Accepted, Accepted, Full], (2, [7, 8]))"
    by (simp add: send_all_bounded_def box_simps)
  have two: "(2 :: nat) > 0" by simp
  from bounded_queue_history [OF list_queue_laws two s, of "\<lambda>m ms. ms @ [m]" "[1]"] s
  show ?thesis by (simp add: numeral_2_eq_2)
qed

text \<open>
  The latest-value mailbox keeps only the last value sent: after any non-empty sequence of
  sends a reader sees that value, the drain hands that one value to the receiver and empties the
  cell, and when the receiver is not registered the drain removes the value all the same.
\<close>

theorem latest_cell_history:
  assumes "atomic_cell_laws C" and "vs \<noteq> []"
    and "c = send_all_latest C vs (latest_new C)"
  shows "latest_try_read C c = Some (last vs) \<and>
    fst (drain_with_watermark (main_latest_depth C) (main_latest_drain C wr) (Some r) c)
      = Some (wr (last vs) r) \<and>
    latest_try_read C (snd (drain_with_watermark (main_latest_depth C)
       (main_latest_drain C wr) (Some r) c)) = None \<and>
    latest_try_read C (snd (drain_with_watermark (main_latest_depth C)
       (main_latest_drain C wr) None c)) = None"
proof -
  have l: "ac_load C c = Some (last vs)"
    using send_all_latest_load [OF assms(1)] assms(2,3) by simp
  obtain old c' where sw: "ac_swap C c None = (old, c')" by fastforce
  with atomic_cell_simps [OF assms(1)] l have "old = Some (last vs)" "ac_load C c' = None"
    by (metis fst_conv, metis snd_conv)
  with sw l show ?thesis by (simp add: drain_with_watermark_def box_simps)
qed

theorem latest_cell_history_witness:
  "latest_try_read plain_cell (send_all_latest plain_cell [3, 4 :: nat] (latest_new plain_cell))
     = Some 4"
  using latest_cell_history [OF plain_cell_laws, of "[3, 4 :: nat]", OF _ refl,
      of "\<lambda>m ms. ms @ [m]" "[]"] by simp

text \<open>
  The compact event queue keeps the first \<open>CALLBACK_EVENT_QUEUE_CAPACITY\<close> events of a burst in
  emission order and counts every later one as dropped; a drain of at most \<open>k\<close> returns the oldest
  \<open>k\<close> of the kept events and keeps the rest, in order.
\<close>

theorem observability_history:
  assumes "array_queue_laws A view"
    and "ob = emit_all A es (obs_new A)"
  shows "co_dropped ob = of_nat (length es - CALLBACK_EVENT_QUEUE_CAPACITY) \<and>
    fst (obs_drain A k ob) = take k (take CALLBACK_EVENT_QUEUE_CAPACITY es) \<and>
    snd (view (co_queue (snd (obs_drain A k ob)))) = drop k (take CALLBACK_EVENT_QUEUE_CAPACITY es) \<and>
    co_dropped (snd (obs_drain A k ob)) = co_dropped ob"
proof -
  have new: "view (co_queue (obs_new A)) = (CALLBACK_EVENT_QUEUE_CAPACITY, [])"
    using assms(1) by (simp add: obs_new_def obs_with_capacity_def array_queue_laws_def
        CALLBACK_EVENT_QUEUE_CAPACITY_def)
  from emit_all_view [OF assms(1) new, of es]
  have v: "view (co_queue ob) = (CALLBACK_EVENT_QUEUE_CAPACITY, take CALLBACK_EVENT_QUEUE_CAPACITY es)"
    and d: "co_dropped ob = of_nat (length es - CALLBACK_EVENT_QUEUE_CAPACITY)"
    by (simp_all add: assms(2) obs_new_def obs_with_capacity_def)
  from pop_while_view [OF assms(1) v, of k] d show ?thesis
    by (auto simp: obs_drain_def split: prod.splits)
qed

theorem observability_history_witness:
  "fst (obs_drain list_queue 1 (emit_all list_queue
     [event_new 5 CL_Warn, event_site 9 (event_new 6 CL_Error)] (obs_new list_queue)))
   = [event_new 5 CL_Warn]"
  using observability_history [OF list_queue_laws refl,
      of "[event_new 5 CL_Warn, event_site 9 (event_new 6 CL_Error)]" 1]
  by (simp add: CALLBACK_EVENT_QUEUE_CAPACITY_def)

text \<open>
  Once a panic has poisoned the mutex of a shared slot, every later send is refused as
  contended and changes nothing, although the slot is not contended and the reader, which recovers
  the poisoned guard, still takes the stored value; taking it does not clear the poison.
\<close>

theorem shared_slot_poisoned:
  assumes "mx_poisoned s" and "\<not> mx_held s"
  shows "fold (\<lambda>v t. snd (shared_try_send v t)) vs s = s \<and>
    (\<forall>v. fst (shared_try_send v s) = Inl SlotBusy) \<and>
    shared_try_read s = mx_val s \<and> fst (shared_take s) = mx_val s \<and>
    mx_poisoned (snd (shared_take s)) \<and> shared_is_set (snd (shared_take s))"
proof -
  have "fold (\<lambda>v t. snd (shared_try_send v t)) vs s = s"
    using assms by (induction vs) (simp_all add: box_simps)
  with assms show ?thesis by (simp add: box_simps)
qed

theorem shared_slot_poisoned_witness:
  "fst (shared_try_send 4 \<lparr> mx_held = False, mx_poisoned = True, mx_val = Some (3 :: nat) \<rparr>)
     = Inl SlotBusy"
  using shared_slot_poisoned [of "\<lparr> mx_held = False, mx_poisoned = True, mx_val = Some (3 :: nat) \<rparr>"]
  by simp

end
