(* ===== verification/Original_Guard.thy ===== *)
theory Original_Guard
  imports Base
begin

text \<open>
  The three-phase guard of \<open>crates/core/src/original.rs\<close>.  The cell is the phase itself; each
  operation returns its result and the new phase.
\<close>

datatype original_phase = BeforeOriginal | CallingOriginal | AfterOriginal

record original_guard =
  og_phase :: original_phase

definition guard_new :: original_guard where
  [hook_simps]: "guard_new = \<lparr> og_phase = BeforeOriginal \<rparr>"

definition guard_phase :: "original_guard \<Rightarrow> original_phase" where
  [hook_simps]: "guard_phase g = og_phase g"

definition guard_needs_original :: "original_guard \<Rightarrow> bool" where
  [hook_simps]: "guard_needs_original g \<longleftrightarrow> guard_phase g = BeforeOriginal"

definition guard_begin_call :: "original_guard \<Rightarrow> bool \<times> original_guard" where
  [hook_simps]: "guard_begin_call g =
     (case og_phase g of
        BeforeOriginal \<Rightarrow> (True, g\<lparr> og_phase := CallingOriginal \<rparr>)
      | _ \<Rightarrow> (False, g))"

definition guard_end_call :: "original_guard \<Rightarrow> original_guard" where
  [hook_simps]: "guard_end_call g =
     (if og_phase g = CallingOriginal then g\<lparr> og_phase := AfterOriginal \<rparr> else g)"

datatype guard_op = Guard_Begin | Guard_End

text \<open>A run of guard operations returns the number of granted calls.\<close>

fun run_guard :: "guard_op list \<Rightarrow> original_guard \<Rightarrow> nat \<times> original_guard" where
  "run_guard [] g = (0, g)"
| "run_guard (Guard_Begin # ops) g =
     (case guard_begin_call g of (ok, g') \<Rightarrow>
        case run_guard ops g' of (n, g'') \<Rightarrow> (if ok then Suc n else n, g''))"
| "run_guard (Guard_End # ops) g = run_guard ops (guard_end_call g)"

lemma run_guard_started:
  "og_phase g \<noteq> BeforeOriginal \<Longrightarrow>
     fst (run_guard ops g) = 0 \<and> og_phase (snd (run_guard ops g)) \<noteq> BeforeOriginal"
proof (induction ops arbitrary: g)
  case (Cons p ops)
  then have n: "guard_begin_call g = (False, g)" "og_phase (guard_end_call g) \<noteq> BeforeOriginal"
    by (auto simp: hook_simps split: original_phase.splits)
  show ?case
    using Cons.IH [OF n(2)] Cons.IH [OF Cons.prems] n(1)
    by (cases p) (auto split: prod.splits)
qed simp

text \<open>
  Whatever sequence of begins and ends is driven through one guard, it grants the original
  call once if a begin occurs at all and never a second time, and it never returns to the phase
  that would still ask for the original.
\<close>

theorem guard_grants_once:
  "fst (run_guard ops guard_new) = (if Guard_Begin \<in> set ops then 1 else 0) \<and>
   (guard_needs_original (snd (run_guard ops guard_new)) \<longleftrightarrow> Guard_Begin \<notin> set ops)"
proof (induction ops)
  case Nil
  then show ?case by (simp add: hook_simps)
next
  case (Cons p ops)
  have e: "guard_end_call guard_new = guard_new" by (simp add: hook_simps)
  have b: "guard_begin_call guard_new = (True, \<lparr> og_phase = CallingOriginal \<rparr>)"
    by (simp add: hook_simps)
  show ?case
    using Cons.IH e b run_guard_started [of "\<lparr> og_phase = CallingOriginal \<rparr>" ops]
    by (cases p) (auto simp: guard_needs_original_def guard_phase_def split: prod.splits)
qed

end
