(* ===== verification/A64.thy ===== *)
theory A64
  imports Base
begin

text \<open>
  The part of the A64 instruction set that the entry patch and its trampoline use, as the
  architecture manual gives it: the immediate branches, the conditional branches, \<open>movz\<close> and
  \<open>movk\<close>, \<open>br\<close> and the 64-bit literal load.  It is the specification against which the relocation
  of \<open>crates/core/src/entry_patch.rs\<close> is judged; every other instruction has no step here.
\<close>

section \<open>Bit blasting\<close>

lemma all_below_32:
  "(\<forall>n<(32::nat). P n) \<longleftrightarrow> P 0 \<and> P 1 \<and> P 2 \<and> P 3 \<and> P 4 \<and> P 5 \<and> P 6 \<and> P 7 \<and> P 8 \<and> P 9 \<and> P 10
     \<and> P 11 \<and> P 12 \<and> P 13 \<and> P 14 \<and> P 15 \<and> P 16 \<and> P 17 \<and> P 18 \<and> P 19 \<and> P 20 \<and> P 21 \<and> P 22 \<and> P 23
     \<and> P 24 \<and> P 25 \<and> P 26 \<and> P 27 \<and> P 28 \<and> P 29 \<and> P 30 \<and> P 31"
proof -
  have "(\<forall>n<(32::nat). P n) \<longleftrightarrow> (\<forall>n \<in> {0,1,2,3,4,5,6,7,8,9,10,11,12,13,14,15,16,17,18,19,20,21,
     22,23,24,25,26,27,28,29,30,31}. P n)"
    by (rule iffI; intro ballI allI impI; (elim insertE emptyE)?; (simp (no_asm_simp))?)
       (drule_tac x = n in bspec, simp_all, arith)
  then show ?thesis by simp
qed

lemma w32_eq: "(a :: 32 word) = b \<longleftrightarrow> (\<forall>n<32. bit a n = bit b n)"
  by (auto simp: bit_eq_iff)

lemmas blast32 = w32_eq all_below_32

section \<open>Registers and fields\<close>

record cpu =
  pc :: u64
  regs :: "u32 \<Rightarrow> u64"
  flags :: "u32 \<Rightarrow> bool"

text \<open>Signed immediates.\<close>

definition simm :: "nat \<Rightarrow> u32 \<Rightarrow> u64" where
  "simm n w = word_of_int (signed_take_bit (n - 1) (uint w))"

text \<open>\<open>ConditionHolds\<close>: the low bit negates, except that both codes of \<open>111x\<close> hold always.\<close>

definition cond_holds :: "cpu \<Rightarrow> u32 \<Rightarrow> bool" where
  "cond_holds c cond =
     (if drop_bit 1 cond = 7 then True else (flags c (drop_bit 1 cond) \<noteq> bit cond 0))"

definition is_zero_reg :: "cpu \<Rightarrow> bool \<Rightarrow> u32 \<Rightarrow> bool" where
  "is_zero_reg c wide rt =
     (if rt = 31 then True
      else if wide then regs c rt = 0 else take_bit 32 (regs c rt) = 0)"

definition set_reg :: "u32 \<Rightarrow> u64 \<Rightarrow> cpu \<Rightarrow> cpu" where
  "set_reg r v c = (if r = 31 then c else c\<lparr> regs := (regs c)(r := v) \<rparr>)"

definition get_reg :: "u32 \<Rightarrow> cpu \<Rightarrow> u64" where
  "get_reg r c = (if r = 31 then 0 else regs c r)"

section \<open>One step\<close>

datatype a64_insn =
    I_B u64
  | I_BL u64
  | I_BCond u32 u64
  | I_CB bool bool u32 u64
  | I_TB nat bool u32 u64
  | I_MovZ u32 nat u64
  | I_MovK u32 nat u64
  | I_BR u32
  | I_LdrLit u32 u64

text \<open>The decoder gives byte offsets for the branches and the literal load.\<close>

definition a64_decode :: "u32 \<Rightarrow> a64_insn option" where
  "a64_decode w =
     (if drop_bit 26 w = 5 then Some (I_B (4 * simm 26 (w AND 0x3FFFFFF)))
      else if drop_bit 26 w = 0x25 then Some (I_BL (4 * simm 26 (w AND 0x3FFFFFF)))
      else if drop_bit 24 w = 0x54 \<and> \<not> bit w 4
        then Some (I_BCond (w AND 0xF) (4 * simm 19 (drop_bit 5 w AND 0x7FFFF)))
      else if drop_bit 25 w AND 0x3F = 0x1A
        then Some (I_CB (bit w 31) (bit w 24) (w AND 0x1F) (4 * simm 19 (drop_bit 5 w AND 0x7FFFF)))
      else if drop_bit 25 w AND 0x3F = 0x1B
        then Some (I_TB (unat (drop_bit 19 w AND 0x1F) + (if bit w 31 then 32 else 0)) (bit w 24)
          (w AND 0x1F) (4 * simm 14 (drop_bit 5 w AND 0x3FFF)))
      else if drop_bit 23 w = 0x1A5
        then Some (I_MovZ (w AND 0x1F) (16 * unat (drop_bit 21 w AND 3))
          (ucast (drop_bit 5 w AND 0xFFFF)))
      else if drop_bit 23 w = 0x1E5
        then Some (I_MovK (w AND 0x1F) (16 * unat (drop_bit 21 w AND 3))
          (ucast (drop_bit 5 w AND 0xFFFF)))
      else if w AND 0xFFFFFC1F = 0xD61F0000 then Some (I_BR (drop_bit 5 w AND 0x1F))
      else if drop_bit 24 w = 0x58
        then Some (I_LdrLit (w AND 0x1F) (4 * simm 19 (drop_bit 5 w AND 0x7FFFF)))
      else None)"

fun a64_exec :: "(u64 \<Rightarrow> u64) \<Rightarrow> a64_insn \<Rightarrow> cpu \<Rightarrow> cpu" where
  "a64_exec ld (I_B off) c = c\<lparr> pc := pc c + off \<rparr>"
| "a64_exec ld (I_BL off) c = set_reg 30 (pc c + 4) (c\<lparr> pc := pc c + off \<rparr>)"
| "a64_exec ld (I_BCond cond off) c =
     c\<lparr> pc := pc c + (if cond_holds c cond then off else 4) \<rparr>"
| "a64_exec ld (I_CB wide nz rt off) c =
     c\<lparr> pc := pc c + (if is_zero_reg c wide rt \<noteq> nz then off else 4) \<rparr>"
| "a64_exec ld (I_TB k nz rt off) c =
     c\<lparr> pc := pc c + (if bit (get_reg rt c) k = nz then off else 4) \<rparr>"
| "a64_exec ld (I_MovZ rd sh v) c = set_reg rd (push_bit sh v) (c\<lparr> pc := pc c + 4 \<rparr>)"
| "a64_exec ld (I_MovK rd sh v) c =
     set_reg rd ((get_reg rd c AND NOT (push_bit sh 0xFFFF)) OR push_bit sh v) (c\<lparr> pc := pc c + 4 \<rparr>)"
| "a64_exec ld (I_BR rn) c = c\<lparr> pc := get_reg rn c \<rparr>"
| "a64_exec ld (I_LdrLit rt off) c = set_reg rt (ld (pc c + off)) (c\<lparr> pc := pc c + 4 \<rparr>)"

section \<open>Running a block of words\<close>

text \<open>\<open>fetch\<close> reads the instruction word at an address; a run makes \<open>n\<close> steps.\<close>

fun a64_run :: "(u64 \<Rightarrow> u32 option) \<Rightarrow> (u64 \<Rightarrow> u64) \<Rightarrow> nat \<Rightarrow> cpu \<Rightarrow> cpu option" where
  "a64_run fetch ld 0 c = Some c"
| "a64_run fetch ld (Suc n) c =
     (case fetch (pc c) of
        None \<Rightarrow> None
      | Some w \<Rightarrow>
          (case a64_decode w of
             None \<Rightarrow> None
           | Some i \<Rightarrow> a64_run fetch ld n (a64_exec ld i c)))"

lemma simm_small:
  assumes "- (2 ^ (n - 1)) \<le> k" "k < 2 ^ (n - 1)" "0 < n" "n \<le> 32"
  shows "simm n (take_bit n (word_of_int k)) = word_of_int k"
proof -
  have "uint (word_of_int k :: u32) = take_bit 32 k"
    by (simp add: uint_word_of_int take_bit_eq_mod)
  then have "uint (take_bit n (word_of_int k :: u32)) = take_bit n k"
    using assms(4) by (simp add: unsigned_take_bit_eq min_absorb1)
  moreover have "signed_take_bit (n - 1) (take_bit n k) = signed_take_bit (n - 1) k"
    using assms(3) by (cases n) (simp_all add: signed_take_bit_take_bit)
  ultimately show ?thesis
    using assms(1,2) by (simp add: simm_def signed_take_bit_int_eq_self)
qed

end
