(* ===== verification/Method_Slot.thy ===== *)
theory Method_Slot
  imports Base
begin

text \<open>
  The method-pointer slot of \<open>crates/core/src/method_slot.rs\<close>: the declared and the resolved
  identity of a hook target, the \<open>SlotMemory\<close> trait (a record of its two methods, with its
  documented contract as a locale), the raw word that implements it in production, and the
  compare-and-swap protocol of \<open>MethodPointerSlot\<close>.  The game may write the word between the two
  accesses of an operation: \<open>env\<close> is that interference.
\<close>

section \<open>Targets\<close>

datatype hook_mechanism = MethodPointerSlotMech | EntryPatchMech

record target_id =
  t_assembly :: string
  t_namespace :: string
  t_class :: string
  t_method :: string
  t_param_count :: u32
  t_is_static :: bool
  t_return_type :: string
  t_parameter_types :: "string list"

record method_ref =
  m_assembly :: string
  m_namespace :: string
  m_class :: string
  m_method :: string
  m_param_count :: u32
  m_is_static :: bool
  m_return_type :: string
  m_parameter_types :: "string list"
  m_is_generic :: bool
  m_is_inflated :: bool
  m_method_info :: usize
  m_method_pointer_slot :: usize

definition target_matches :: "target_id \<Rightarrow> method_ref \<Rightarrow> bool" where
  [slot_simps]: "target_matches t a \<longleftrightarrow>
     t_assembly t = m_assembly a
     \<and> t_namespace t = m_namespace a
     \<and> t_class t = m_class a
     \<and> t_method t = m_method a
     \<and> t_param_count t = m_param_count a
     \<and> length (t_parameter_types t) = unat (t_param_count t)
     \<and> t_is_static t = m_is_static a
     \<and> t_return_type t = m_return_type a
     \<and> t_parameter_types t = m_parameter_types a
     \<and> \<not> m_is_generic a
     \<and> \<not> m_is_inflated a"

definition method_ref_matches_target :: "method_ref \<Rightarrow> target_id \<Rightarrow> bool" where
  [slot_simps]: "method_ref_matches_target a t = target_matches t a"

section \<open>\<open>SlotMemory\<close>\<close>

record 'm slot_ops =
  so_read :: "'m \<Rightarrow> usize option"
  so_cas :: "usize \<Rightarrow> usize \<Rightarrow> 'm \<Rightarrow> (usize, unit) result \<times> 'm"

definition raw_read :: "usize \<Rightarrow> usize option" where
  [slot_simps]: "raw_read w = Some w"

definition raw_compare_exchange :: "usize \<Rightarrow> usize \<Rightarrow> usize \<Rightarrow> (usize, unit) result \<times> usize" where
  [slot_simps]: "raw_compare_exchange expected new w =
     (if w = expected then (Inr (), new) else (Inl w, w))"

definition raw_slot_memory :: "usize slot_ops" where
  [slot_simps]: "raw_slot_memory = \<lparr> so_read = raw_read, so_cas = raw_compare_exchange \<rparr>"

text \<open>\<open>RawSlotMemory::from_addr\<close>: \<open>None\<close> is the assertion's panic.\<close>

definition raw_from_addr :: "usize \<Rightarrow> usize option" where
  [slot_simps]: "raw_from_addr addr =
     (if addr \<noteq> 0 \<and> unat addr mod 8 = 0 then Some addr else None)"

section \<open>\<open>MethodPointerSlot\<close>\<close>

text \<open>The slot is its memory (a trait object with its state) and the pointer read at bind time.\<close>

record 'm method_pointer_slot =
  mps_memory :: 'm
  mps_original :: usize

definition slot_bind :: "'m slot_ops \<Rightarrow> 'm \<Rightarrow> (hook_error, 'm method_pointer_slot) result" where
  [slot_simps]: "slot_bind M m =
     bind_result (ok_or SlotMalformed (so_read M m)) (\<lambda>current.
       if current = 0 then Inl SlotMalformed
       else Inr \<lparr> mps_memory = m, mps_original = current \<rparr>)"

definition slot_original :: "'m method_pointer_slot \<Rightarrow> usize" where
  [slot_simps]: "slot_original s = mps_original s"

definition slot_install ::
  "'m slot_ops \<Rightarrow> ('m \<Rightarrow> 'm) \<Rightarrow> usize \<Rightarrow> 'm method_pointer_slot
     \<Rightarrow> (hook_error, unit) result \<times> 'm method_pointer_slot" where
  [slot_simps]: "slot_install M env replacement s =
     (case so_cas M (mps_original s) replacement (mps_memory s) of
        (Inl _, m) \<Rightarrow> (Inl SlotConflict, s\<lparr> mps_memory := m \<rparr>)
      | (Inr _, m) \<Rightarrow>
          (let m' = env m in
           (if so_read M m' = Some replacement then Inr () else Inl InstallationFailed,
            s\<lparr> mps_memory := m' \<rparr>)))"

definition slot_restore ::
  "'m slot_ops \<Rightarrow> ('m \<Rightarrow> 'm) \<Rightarrow> usize \<Rightarrow> 'm method_pointer_slot
     \<Rightarrow> (hook_error, unit) result \<times> 'm method_pointer_slot" where
  [slot_simps]: "slot_restore M env replacement s =
     (case so_cas M replacement (mps_original s) (mps_memory s) of
        (Inl _, m) \<Rightarrow> (Inl OwnershipDrift, s\<lparr> mps_memory := m \<rparr>)
      | (Inr _, m) \<Rightarrow>
          (let m' = env m in
           (if so_read M m' = Some (mps_original s) then Inr () else Inl InstallationFailed,
            s\<lparr> mps_memory := m' \<rparr>)))"

definition slot_current :: "'m slot_ops \<Rightarrow> 'm method_pointer_slot \<Rightarrow> usize option" where
  [slot_simps]: "slot_current M s = so_read M (mps_memory s)"

section \<open>The contract of \<open>SlotMemory\<close> and what the protocol gives under it\<close>

text \<open>\<open>Ok(())\<close> means the slot held \<open>expected\<close> and now holds \<open>new\<close>; an error leaves the word.
  \<open>wf\<close> is the implementation's own invariant.\<close>

locale slot_memory =
  fixes M :: "'m slot_ops"
    and wf :: "'m \<Rightarrow> bool"
  assumes cas_ok: "wf m \<Longrightarrow> so_cas M e n m = (Inr (), m') \<Longrightarrow>
      so_read M m = Some e \<and> so_read M m' = Some n \<and> wf m'"
    and cas_err: "wf m \<Longrightarrow> so_cas M e n m = (Inl a, m') \<Longrightarrow>
      so_read M m' = so_read M m \<and> wf m'"
    and cas_mismatch: "wf m \<Longrightarrow> so_read M m \<noteq> Some e \<Longrightarrow> \<exists>a m'. so_cas M e n m = (Inl a, m')"
begin

lemma bind_reads:
  "slot_bind M m = Inr s \<Longrightarrow>
     mps_memory s = m \<and> so_read M m = Some (mps_original s) \<and> mps_original s \<noteq> 0"
  by (auto simp: slot_bind_def split: if_splits)

lemma install_word:
  assumes "wf (mps_memory s)" and "slot_install M id repl s = (r, s')"
  shows "wf (mps_memory s') \<and> mps_original s' = mps_original s \<and>
    (if r = Inr () then slot_current M s = Some (mps_original s) \<and> slot_current M s' = Some repl
     else r = Inl SlotConflict \<and> slot_current M s' = slot_current M s)"
proof (cases "so_cas M (mps_original s) repl (mps_memory s)")
  case (Pair r0 m)
  show ?thesis
  proof (cases r0)
    case (Inl a)
    with Pair cas_err [OF assms(1)] have "so_read M m = so_read M (mps_memory s)" "wf m" by auto
    with assms(2) Pair Inl show ?thesis by (auto simp: slot_install_def slot_current_def)
  next
    case (Inr u)
    with Pair cas_ok [OF assms(1)] have "so_read M (mps_memory s) = Some (mps_original s)"
      "so_read M m = Some repl" "wf m" by auto
    with assms(2) Pair Inr show ?thesis by (auto simp: slot_install_def slot_current_def Let_def)
  qed
qed

lemma restore_word:
  assumes "wf (mps_memory s)" and "slot_restore M id repl s = (r, s')"
  shows "wf (mps_memory s') \<and> mps_original s' = mps_original s \<and>
    (if r = Inr () then slot_current M s = Some repl \<and> slot_current M s' = Some (mps_original s)
     else r = Inl OwnershipDrift \<and> slot_current M s' = slot_current M s)"
proof (cases "so_cas M repl (mps_original s) (mps_memory s)")
  case (Pair r0 m)
  show ?thesis
  proof (cases r0)
    case (Inl a)
    with Pair cas_err [OF assms(1)] have "so_read M m = so_read M (mps_memory s)" "wf m" by auto
    with assms(2) Pair Inl show ?thesis by (auto simp: slot_restore_def slot_current_def)
  next
    case (Inr u)
    with Pair cas_ok [OF assms(1)] have "so_read M (mps_memory s) = Some repl"
      "so_read M m = Some (mps_original s)" "wf m" by auto
    with assms(2) Pair Inr show ?thesis by (auto simp: slot_restore_def slot_current_def Let_def)
  qed
qed

lemma install_foreign:
  assumes "wf (mps_memory s)" and "slot_current M s \<noteq> Some (mps_original s)"
  shows "fst (slot_install M env repl s) = Inl SlotConflict \<and>
    slot_current M (snd (slot_install M env repl s)) = slot_current M s"
proof -
  from cas_mismatch [OF assms(1)] assms(2) obtain a m where
    c: "so_cas M (mps_original s) repl (mps_memory s) = (Inl a, m)"
    unfolding slot_current_def by blast
  with cas_err [OF assms(1) c] show ?thesis by (simp add: slot_install_def slot_current_def)
qed

lemma restore_foreign:
  assumes "wf (mps_memory s)" and "slot_current M s \<noteq> Some repl"
  shows "fst (slot_restore M env repl s) = Inl OwnershipDrift \<and>
    slot_current M (snd (slot_restore M env repl s)) = slot_current M s"
proof -
  from cas_mismatch [OF assms(1)] assms(2) obtain a m where
    c: "so_cas M repl (mps_original s) (mps_memory s) = (Inl a, m)"
    unfolding slot_current_def by blast
  with cas_err [OF assms(1) c] show ?thesis by (simp add: slot_restore_def slot_current_def)
qed

end

interpretation raw: slot_memory raw_slot_memory "\<lambda>_. True"
  by unfold_locales (auto simp: slot_simps split: if_splits)

section \<open>Histories of one slot\<close>

datatype slot_op = Slot_Install | Slot_Restore | Game_Write usize

definition slot_op_step ::
  "usize \<Rightarrow> slot_op \<Rightarrow> usize method_pointer_slot \<Rightarrow> usize method_pointer_slot" where
  "slot_op_step repl p s =
     (case p of
        Slot_Install \<Rightarrow> snd (slot_install raw_slot_memory id repl s)
      | Slot_Restore \<Rightarrow> snd (slot_restore raw_slot_memory id repl s)
      | Game_Write w \<Rightarrow> s\<lparr> mps_memory := w \<rparr>)"

definition foreign_to :: "usize \<Rightarrow> usize method_pointer_slot \<Rightarrow> bool" where
  "foreign_to repl s \<longleftrightarrow> mps_memory s \<noteq> mps_original s \<and> mps_memory s \<noteq> repl"

lemma slot_op_step_original: "mps_original (slot_op_step repl p s) = mps_original s"
  by (auto simp: slot_op_step_def slot_simps Let_def split: slot_op.splits)

text \<open>
  C28: a value written into the slot by the game (neither the bound original nor the replacement)
  survives every later sequence of installs and restores: none of them ever overwrites a word
  they do not own, each of them reports the conflict or the drift.
\<close>

theorem slot_foreign_value_survives:
  assumes "foreign_to repl s" and "\<forall>p \<in> set ops. p = Slot_Install \<or> p = Slot_Restore"
  shows "fold (slot_op_step repl) ops s = s \<and>
    fst (slot_install raw_slot_memory env repl s) = Inl SlotConflict \<and>
    fst (slot_restore raw_slot_memory env repl s) = Inl OwnershipDrift"
proof -
  have "fold (slot_op_step repl) ops s = s"
    using assms by (induction ops)
      (auto simp: slot_op_step_def foreign_to_def slot_simps)
  moreover have "slot_current raw_slot_memory s \<noteq> Some (mps_original s)"
    and "slot_current raw_slot_memory s \<noteq> Some repl"
    using assms(1) by (simp_all add: foreign_to_def slot_simps)
  ultimately show ?thesis using raw.install_foreign raw.restore_foreign by simp
qed

theorem slot_foreign_value_survives_witness:
  "fold (slot_op_step 16) [Slot_Install, Slot_Restore, Slot_Install]
     \<lparr> mps_memory = 99, mps_original = 8 \<rparr> = \<lparr> mps_memory = 99, mps_original = 8 \<rparr>"
  using slot_foreign_value_survives [of 16 "\<lparr> mps_memory = 99, mps_original = 8 \<rparr>"
      "[Slot_Install, Slot_Restore, Slot_Install]" id]
  by (simp add: foreign_to_def)

text \<open>
  A bind followed by a successful install and a restore leaves the slot exactly as it was;
  the install succeeds from the bound state, a second install is refused as a conflict and a
  second restore as drift, and in both refusals nothing is written.
\<close>

theorem slot_install_restore_round_trip:
  assumes "slot_bind raw_slot_memory w = Inr s" and "repl \<noteq> w"
  shows "slot_install raw_slot_memory id repl s = (Inr (), s\<lparr> mps_memory := repl \<rparr>) \<and>
    slot_install raw_slot_memory id repl (s\<lparr> mps_memory := repl \<rparr>)
      = (Inl SlotConflict, s\<lparr> mps_memory := repl \<rparr>) \<and>
    slot_restore raw_slot_memory id repl (s\<lparr> mps_memory := repl \<rparr>) = (Inr (), s) \<and>
    slot_restore raw_slot_memory id repl s = (Inl OwnershipDrift, s) \<and> w \<noteq> 0"
  using assms by (auto simp: slot_simps split: if_splits)

theorem slot_install_restore_round_trip_witness:
  "slot_bind raw_slot_memory 8 = Inr \<lparr> mps_memory = 8, mps_original = 8 \<rparr> \<and>
   slot_install raw_slot_memory id 16 \<lparr> mps_memory = 8, mps_original = 8 \<rparr>
     = (Inr (), \<lparr> mps_memory = 16, mps_original = 8 \<rparr>)"
proof -
  have b: "slot_bind raw_slot_memory 8 = Inr \<lparr> mps_memory = 8, mps_original = 8 \<rparr>"
    by (simp add: slot_simps)
  have n: "(16 :: usize) \<noteq> 8" by simp
  show ?thesis using slot_install_restore_round_trip [OF b n] b by simp
qed

end
