(* ===== verification/Entry_Patch.thy ===== *)
theory Entry_Patch
  imports Entry_Reloc Method_Slot Mailbox
begin

text \<open>
  The physical half of \<open>crates/core/src/entry_patch.rs\<close>: the staging page, the full-page remap that
  writes an entry patch, the trampoline page and \<open>EntryPatchMemory\<close>, which implements the
  \<open>SlotMemory\<close> contract over a function entry.

  The process is its byte memory, the list of mapped pages and the staging page already created.
  The system calls of \<open>libc\<close> and of the Mach kernel are the parameter \<open>os\<close>; what their
  documentation promises is \<open>os_laws\<close>.  Every protection flip may fail, every mapping may fail.
\<close>

section \<open>The process and its system calls\<close>

record process =
  pr_mem :: "usize \<Rightarrow> u8"
  pr_pages :: "usize list"
  pr_stage :: "usize option"

datatype prot = PROT_RW | PROT_RX

record os =
  os_sysconf_pagesize :: int
  os_mmap :: "usize \<Rightarrow> bool \<Rightarrow> process \<Rightarrow> usize option \<times> process"
  os_mprotect :: "usize \<Rightarrow> usize \<Rightarrow> prot \<Rightarrow> process \<Rightarrow> bool"
  os_remap :: "usize \<Rightarrow> usize \<Rightarrow> usize \<Rightarrow> process \<Rightarrow> bool \<times> process"

text \<open>The page of an address, for pages of \<open>2 ^ k\<close> bytes.\<close>

definition page_of :: "nat \<Rightarrow> usize \<Rightarrow> usize" where
  "page_of k a = a AND NOT (mask k)"

text \<open>\<open>mmap\<close> without a fixed address returns a page that was not mapped and touches no other one.\<close>

definition mmap_law :: "nat \<Rightarrow> os \<Rightarrow> bool" where
  "mmap_law k os \<longleftrightarrow> (\<forall>sz jit p b p'. os_mmap os sz jit p = (Some b, p') \<longrightarrow>
     b \<noteq> 0 \<and> page_of k b = b \<and> b \<notin> set (pr_pages p) \<and> pr_pages p' = b # pr_pages p \<and>
     pr_stage p' = pr_stage p \<and> (\<forall>a. page_of k a \<noteq> b \<longrightarrow> pr_mem p' a = pr_mem p a))"

text \<open>A successful overwriting remap replaces the page by a copy of the source page.\<close>

definition remap_law :: "nat \<Rightarrow> os \<Rightarrow> bool" where
  "remap_law k os \<longleftrightarrow> (\<forall>page sz src p p'. os_remap os page sz src p = (True, p') \<longrightarrow>
     p' = p\<lparr> pr_mem := (\<lambda>a. if page_of k a = page then pr_mem p (src + (a - page)) else pr_mem p a) \<rparr>)"

definition fail_law :: "os \<Rightarrow> bool" where
  "fail_law os \<longleftrightarrow>
     (\<forall>sz jit p p'. os_mmap os sz jit p = (None, p') \<longrightarrow> p' = p) \<and>
     (\<forall>page sz src p p'. os_remap os page sz src p = (False, p') \<longrightarrow> p' = p)"

definition os_laws :: "nat \<Rightarrow> os \<Rightarrow> bool" where
  "os_laws k os \<longleftrightarrow> 12 \<le> k \<and> k \<le> 16 \<and> os_sysconf_pagesize os = 2 ^ k \<and>
     mmap_law k os \<and> remap_law k os \<and> fail_law os"

definition read_bytes :: "(usize \<Rightarrow> u8) \<Rightarrow> usize \<Rightarrow> nat \<Rightarrow> u8 list" where
  "read_bytes m a n = map (\<lambda>i. m (a + of_nat i)) [0..<n]"

definition write_bytes :: "usize \<Rightarrow> u8 list \<Rightarrow> (usize \<Rightarrow> u8) \<Rightarrow> usize \<Rightarrow> u8" where
  "write_bytes dst bs m = (\<lambda>a. if unat (a - dst) < length bs then bs ! unat (a - dst) else m a)"

definition copy_bytes :: "usize \<Rightarrow> usize \<Rightarrow> nat \<Rightarrow> (usize \<Rightarrow> u8) \<Rightarrow> usize \<Rightarrow> u8" where
  "copy_bytes src dst n m = (\<lambda>a. if unat (a - dst) < n then m (src + (a - dst)) else m a)"

section \<open>Pages, cache lines and the remap\<close>

definition page_size :: "os \<Rightarrow> (hook_error, usize) result" where
  "page_size os =
     (let value = os_sysconf_pagesize os in
      if value \<le> 0 then Inl (EntryPatchUnsupported ''page size unavailable'')
      else Inr (word_of_int value))"

text \<open>The lines \<open>sync_icache\<close> visits; addresses are taken as naturals, below the end of memory.\<close>

function icache_lines :: "nat \<Rightarrow> nat \<Rightarrow> nat list" where
  "icache_lines va stop = (if va < stop then va # icache_lines (va + 64) stop else [])"
  by pat_completeness auto
termination by (relation "measure (\<lambda>(va, stop). stop - va)") auto

declare icache_lines.simps [simp del]

definition sync_icache :: "nat \<Rightarrow> nat \<Rightarrow> nat list" where
  "sync_icache start len =
     (let line = 64; first = start - start mod line;
          stop = (start + len + line - 1) - (start + len + line - 1) mod line in
      icache_lines first stop)"

definition staging_page :: "os \<Rightarrow> process \<Rightarrow> (hook_error, usize) result \<times> process" where
  "staging_page os p =
     (case pr_stage p of
        Some stage \<Rightarrow> (Inr stage, p)
      | None \<Rightarrow>
          (case page_size os of
             Inl e \<Rightarrow> (Inl e, p)
           | Inr ps \<Rightarrow>
               (case os_mmap os ps True p of
                  (None, p') \<Rightarrow> (Inl (EntryPatchUnsupported ''staging page mmap failed''), p')
                | (Some mem, p') \<Rightarrow> (Inr mem, p'\<lparr> pr_stage := Some mem \<rparr>))))"

definition remap_patch :: "os \<Rightarrow> usize \<Rightarrow> u8 list \<Rightarrow> process \<Rightarrow> (hook_error, unit) result \<times> process" where
  "remap_patch os addr bytes p =
     (case page_size os of
        Inl e \<Rightarrow> (Inl e, p)
      | Inr ps \<Rightarrow>
          (let page = addr AND NOT (ps - 1); off = addr - page in
           if unat off + length bytes > unat ps
           then (Inl (EntryPatchUnsupported ''patch crosses a page boundary''), p)
           else
             (case staging_page os p of
                (Inl e, p1) \<Rightarrow> (Inl e, p1)
              | (Inr stage, p1) \<Rightarrow>
                  if \<not> os_mprotect os stage ps PROT_RW p1 then (Inl InstallationFailed, p1)
                  else
                    (let p2 = p1\<lparr> pr_mem := copy_bytes page stage (unat ps) (pr_mem p1) \<rparr>;
                         p3 = p2\<lparr> pr_mem := write_bytes (stage + off) bytes (pr_mem p2) \<rparr> in
                     if \<not> os_mprotect os stage ps PROT_RX p3 then (Inl InstallationFailed, p3)
                     else
                       (case os_remap os page ps stage p3 of
                          (False, p4) \<Rightarrow> (Inl InstallationFailed, p4)
                        | (True, p4) \<Rightarrow>
                            if read_bytes (pr_mem p4) (page + off) (length bytes) \<noteq> bytes
                            then (Inl InstallationFailed, p4)
                            else (Inr (), p4))))))"

section \<open>The trampoline page\<close>

definition write_words :: "usize \<Rightarrow> u32 list \<Rightarrow> (usize \<Rightarrow> u8) \<Rightarrow> usize \<Rightarrow> u8" where
  "write_words base ws m =
     fold (\<lambda>i. write_bytes (base + of_nat i * 4) (u32_to_le (ws ! i))) [0..<length ws] m"

definition build_trampoline ::
  "os \<Rightarrow> usize \<Rightarrow> u32 list \<Rightarrow> process \<Rightarrow> (hook_error, usize) result \<times> process" where
  "build_trampoline os entry ops p =
     (let win = \<lparr> win_start = entry, win_end = entry + of_nat (length ops) * 4 \<rparr> in
      case plan_ops entry ops of
        Inl e \<Rightarrow> (Inl e, p)
      | Inr plans \<Rightarrow>
          (let sizes = map (\<lambda>pl. plan_size pl win) plans;
               ops_pos = op_positions sizes 0 in
           case page_size os of
             Inl e \<Rightarrow> (Inl e, p)
           | Inr ps \<Rightarrow>
               (case os_mmap os ps False p of
                  (None, p1) \<Rightarrow> (Inl (EntryPatchUnsupported ''trampoline mmap failed''), p1)
                | (Some base, p1) \<Rightarrow>
                    (case emit_loop plans 0 ops_pos win base [] of
                       Inl e \<Rightarrow> (Inl e, p1)
                     | Inr buf \<Rightarrow>
                         (let displaced = of_nat (length ops) * 4;
                              m1 = write_words base buf (pr_mem p1);
                              tail = of_nat (length buf) * 4;
                              m2 = write_bytes (base + tail) (u32_to_le LDR_X16_LITERAL_8) m1;
                              m3 = write_bytes (base + tail + 4) (u32_to_le BR_X16) m2;
                              m4 = write_bytes (base + tail + 8) (u64_to_le (entry + displaced)) m3;
                              p2 = p1\<lparr> pr_mem := m4 \<rparr> in
                          if \<not> os_mprotect os base ps PROT_RX p2
                          then (Inl (EntryPatchUnsupported ''trampoline mprotect failed''), p2)
                          else (Inr base, p2))))))"

section \<open>\<open>EntryPatchMemory\<close>\<close>

record entry_patch_memory =
  ep_entry :: usize
  ep_replacement :: usize
  ep_trampoline :: usize
  ep_patch :: "u8 list"
  ep_original :: "u8 list"
  ep_installed :: bool
  ep_failure :: "string option mutex"

definition u64_from_le :: "u8 list \<Rightarrow> u64" where
  "u64_from_le bs = foldr (\<lambda>b acc. push_bit 8 acc OR ucast b) bs 0"

text \<open>\<open>chunks_exact(4)\<close>\<close>

fun chunks4 :: "u8 list \<Rightarrow> u8 list list" where
  "chunks4 (a # b # c # d # rest) = [a, b, c, d] # chunks4 rest"
| "chunks4 _ = []"

definition entry_patch_new ::
  "os \<Rightarrow> method_ref \<Rightarrow> usize \<Rightarrow> process \<Rightarrow> (hook_error, entry_patch_memory) result \<times> process" where
  "entry_patch_new os method replacement p =
     (let slot = m_method_pointer_slot method in
      if slot = 0 \<or> unat slot mod 8 \<noteq> 0 then (Inl SlotMalformed, p)
      else
        (let entry = u64_from_le (read_bytes (pr_mem p) slot 8) in
         if entry = 0 \<or> unat entry mod 4 \<noteq> 0 then (Inl SlotMalformed, p)
         else
           (let patch = entry_patch_bytes entry replacement;
                displaced = length patch;
                original = read_bytes (pr_mem p) entry displaced;
                ops = map u32_from_le (chunks4 original) in
            case build_trampoline os entry ops p of
              (Inl e, p') \<Rightarrow> (Inl e, p')
            | (Inr trampoline, p') \<Rightarrow>
                (Inr \<lparr> ep_entry = entry, ep_replacement = replacement, ep_trampoline = trampoline,
                   ep_patch = patch, ep_original = original, ep_installed = False,
                   ep_failure = mutex_new None \<rparr>, p'))))"

definition ep_last_failure :: "entry_patch_memory \<Rightarrow> string option" where
  "ep_last_failure e = (if mx_poisoned (ep_failure e) then None else mx_val (ep_failure e))"

definition ep_state_word :: "entry_patch_memory \<Rightarrow> usize" where
  "ep_state_word e = (if ep_installed e then ep_replacement e else ep_trampoline e)"

definition ep_record_failure :: "string \<Rightarrow> entry_patch_memory \<Rightarrow> entry_patch_memory" where
  "ep_record_failure msg e =
     (if mx_poisoned (ep_failure e) then e
      else e\<lparr> ep_failure := (ep_failure e)\<lparr> mx_val := Some msg \<rparr> \<rparr>)"

definition ep_patch_entry ::
  "os \<Rightarrow> entry_patch_memory \<times> process \<Rightarrow> (hook_error, unit) result \<times> entry_patch_memory \<times> process" where
  "ep_patch_entry os m =
     (case m of (e, p) \<Rightarrow>
        (case remap_patch os (ep_entry e) (ep_patch e) p of
           (Inr _, p') \<Rightarrow> (Inr (), e, p')
         | (Inl error, p') \<Rightarrow> (Inl error, ep_record_failure ''entry patch write failed'' e, p')))"

definition ep_unpatch_entry ::
  "os \<Rightarrow> entry_patch_memory \<times> process \<Rightarrow> (hook_error, unit) result \<times> entry_patch_memory \<times> process" where
  "ep_unpatch_entry os m =
     (case m of (e, p) \<Rightarrow>
        (case remap_patch os (ep_entry e) (ep_original e) p of
           (Inr _, p') \<Rightarrow> (Inr (), e, p')
         | (Inl error, p') \<Rightarrow> (Inl error, ep_record_failure ''entry restore write failed'' e, p')))"

definition ep_read :: "entry_patch_memory \<times> process \<Rightarrow> usize option" where
  "ep_read m = Some (ep_state_word (fst m))"

definition ep_compare_exchange ::
  "os \<Rightarrow> usize \<Rightarrow> usize \<Rightarrow> entry_patch_memory \<times> process
     \<Rightarrow> (usize, unit) result \<times> entry_patch_memory \<times> process" where
  "ep_compare_exchange os expected new m =
     (let current = ep_state_word (fst m) in
      if expected \<noteq> current then (Inl current, m)
      else
        (let step =
           (if new = ep_replacement (fst m) \<and> \<not> ep_installed (fst m) then
              (case ep_patch_entry os m of (r, m') \<Rightarrow> (map_err (\<lambda>_. current) r, m'))
            else if new = ep_trampoline (fst m) \<and> ep_installed (fst m) then
              (case ep_unpatch_entry os m of (r, m') \<Rightarrow> (map_err (\<lambda>_. current) r, m'))
            else (Inl current, m)) in
         case step of
           (Inl a, m') \<Rightarrow> (Inl a, m')
         | (Inr _, e, p) \<Rightarrow> (Inr (), e\<lparr> ep_installed := (new = ep_replacement e) \<rparr>, p)))"

definition entry_patch_slot :: "os \<Rightarrow> (entry_patch_memory \<times> process) slot_ops" where
  "entry_patch_slot os = \<lparr> so_read = ep_read, so_cas = ep_compare_exchange os \<rparr>"

section \<open>Pages\<close>

lemma page_of_add:
  assumes "page_of k d = d" "unat x < 2 ^ k" "k < 64"
  shows "page_of k (d + x) = d"
proof -
  have x: "take_bit k x = x"
    using assms(2) by (simp add: word_unat_eq_iff unsigned_take_bit_eq take_bit_nat_eq_self)
  then have hx: "bit x n \<Longrightarrow> n < k" for n by (metis bit_take_bit_iff)
  have dj: "\<not> bit d n \<or> \<not> bit x n" for n
  proof (cases "n < k")
    case True
    have "\<not> bit (page_of k d) n" using True by (simp add: page_of_def bit_simps)
    then show ?thesis using assms(1) by simp
  qed (use hx in blast)
  have "d + x = d OR x" by (rule disjunctive_add) (rule dj)
  moreover have "page_of k (d OR x) = page_of k d"
    by (rule bit_eqI) (auto simp: page_of_def bit_simps dest: hx)
  ultimately show ?thesis using assms(1) by simp
qed

lemma page_of_offset:
  assumes "k < 64"
  shows "unat (a - page_of k a) < 2 ^ k" and "page_of k (page_of k a) = page_of k a"
proof -
  show i: "page_of k (page_of k a) = page_of k a"
    by (rule bit_eqI) (auto simp: page_of_def bit_simps)
  have "page_of k a + take_bit k a = page_of k a OR take_bit k a"
    by (rule disjunctive_add) (auto simp: page_of_def bit_simps)
  also have "\<dots> = a" by (rule bit_eqI) (auto simp: page_of_def bit_simps)
  finally have "a - page_of k a = take_bit k a" by (simp add: algebra_simps)
  then show "unat (a - page_of k a) < 2 ^ k"
    by (simp add: unsigned_take_bit_eq)
qed

lemma in_page_iff:
  assumes "page_of k d = d" "k < 64"
  shows "unat (a - d) < 2 ^ k \<longleftrightarrow> page_of k a = d"
  using page_of_add [OF assms(1) _ assms(2), of "a - d"] page_of_offset(1) [OF assms(2), of a] by auto

lemma unat_add_small:
  "unat x + unat y < 2 ^ 64 \<Longrightarrow> unat (x + y :: u64) = unat x + unat y"
  by (simp add: unat_word_ariths(1))

lemma in_span_page:
  assumes "k < 64" "unat (addr - page_of k addr) + n \<le> 2 ^ k" "unat (a - addr) < n"
  shows "page_of k a = page_of k addr"
proof -
  let ?o = "addr - page_of k addr"
  have "(2 :: nat) ^ k < 2 ^ 64" using power_strict_increasing [OF assms(1), of "2 :: nat"] by simp
  with assms(2,3) have "unat (?o + (a - addr)) = unat ?o + unat (a - addr)"
    by (intro unat_add_small) linarith
  with assms(2,3) have "unat (?o + (a - addr)) < 2 ^ k" by simp
  from page_of_add [OF page_of_offset(2) [OF assms(1), of addr] this assms(1)] show ?thesis by simp
qed

section \<open>What a remap does\<close>

text \<open>\<open>apart k A p\<close>: the pages \<open>A\<close> are mapped and none of them is the staging page.\<close>

definition apart :: "nat \<Rightarrow> usize set \<Rightarrow> process \<Rightarrow> bool" where
  "apart k A p \<longleftrightarrow> A \<subseteq> set (pr_pages p) \<and>
     (\<forall>st. pr_stage p = Some st \<longrightarrow> page_of k st = st \<and> st \<notin> A)"

definition same_on :: "nat \<Rightarrow> usize set \<Rightarrow> process \<Rightarrow> process \<Rightarrow> bool" where
  "same_on k A p p' \<longleftrightarrow> (\<forall>a. page_of k a \<in> A \<longrightarrow> pr_mem p' a = pr_mem p a)"

lemma os_page_size:
  assumes "os_laws k os"
  shows "page_size os = Inr (2 ^ k)" "(2 :: usize) ^ k - 1 = mask k" "unat ((2 :: usize) ^ k) = 2 ^ k"
    "k < 64"
proof -
  have k: "k < 64" and s: "os_sysconf_pagesize os = 2 ^ k" using assms by (auto simp: os_laws_def)
  show "k < 64" by fact
  show "page_size os = Inr (2 ^ k)" by (simp add: page_size_def s Let_def)
  show "(2 :: usize) ^ k - 1 = mask k" by (simp add: mask_eq_exp_minus_1)
  show "unat ((2 :: usize) ^ k) = 2 ^ k" 
    using unat_of_nat [of "2 ^ k", where ?'a = 64] power_strict_increasing [OF k, of "2 :: nat"] by simp
qed

lemma os_mmap_Some:
  assumes "os_laws k os" "os_mmap os sz jit p = (Some b, p')"
  shows "b \<noteq> 0" "page_of k b = b" "b \<notin> set (pr_pages p)" "pr_pages p' = b # pr_pages p"
    "pr_stage p' = pr_stage p" "page_of k a \<noteq> b \<Longrightarrow> pr_mem p' a = pr_mem p a"
proof -
  have "mmap_law k os" using assms(1) by (simp add: os_laws_def)
  note l = this [unfolded mmap_law_def, rule_format, OF assms(2)]
  from l show "b \<noteq> 0" "page_of k b = b" "b \<notin> set (pr_pages p)" "pr_pages p' = b # pr_pages p"
    "pr_stage p' = pr_stage p" "page_of k a \<noteq> b \<Longrightarrow> pr_mem p' a = pr_mem p a" by simp_all
qed

lemma os_remap_True:
  assumes "os_laws k os" "os_remap os page sz src p = (True, p')"
  shows "p' = p\<lparr> pr_mem := (\<lambda>a. if page_of k a = page then pr_mem p (src + (a - page)) else pr_mem p a) \<rparr>"
proof -
  have "remap_law k os" using assms(1) by (simp add: os_laws_def)
  from this [unfolded remap_law_def, rule_format, OF assms(2)] show ?thesis .
qed

lemma os_fail:
  assumes "os_laws k os"
  shows "os_mmap os sz jit p = (None, p') \<Longrightarrow> p' = p"
    and "os_remap os page sz src p = (False, p') \<Longrightarrow> p' = p"
proof -
  have "fail_law os" using assms(1) by (simp add: os_laws_def)
  then show "os_mmap os sz jit p = (None, p') \<Longrightarrow> p' = p"
    and "os_remap os page sz src p = (False, p') \<Longrightarrow> p' = p"
    unfolding fail_law_def by simp_all
qed

lemma staging_page_spec:
  assumes os: "os_laws k os" and ap: "apart k A p" and st: "staging_page os p = (r, p1)"
  shows "apart k A p1 \<and> same_on k A p p1 \<and>
    (\<forall>stage. r = Inr stage \<longrightarrow> pr_stage p1 = Some stage)"
proof (cases "pr_stage p")
  case (Some s)
  with st ap show ?thesis by (auto simp: staging_page_def same_on_def)
next
  case None
  obtain v p2 where m: "os_mmap os (2 ^ k) True p = (v, p2)" by fastforce
  show ?thesis
  proof (cases v)
    case None
    with m os_fail(1) [OF os] have "p2 = p" by blast
    with st m None \<open>pr_stage p = None\<close> os_page_size(1) [OF os] ap show ?thesis
      by (auto simp: staging_page_def same_on_def)
  next
    case (Some b)
    note b = os_mmap_Some(2,3,4,6) [OF os m [unfolded Some]]
    from b(2) ap have nb: "b \<notin> A" by (auto simp: apart_def)
    from st m Some \<open>pr_stage p = None\<close> os_page_size(1) [OF os]
    have r: "r = Inr b" and p1: "p1 = p2\<lparr> pr_stage := Some b \<rparr>"
      by (simp_all add: staging_page_def)
    have "apart k A p1" using ap b(1,3) nb by (auto simp: apart_def p1)
    moreover have "same_on k A p p1" using nb by (auto simp: same_on_def p1 intro!: b(4))
    ultimately show ?thesis by (simp add: r p1)
  qed
qed

lemma same_on_trans: "same_on k A p q \<Longrightarrow> same_on k A q r \<Longrightarrow> same_on k A p r"
  by (simp add: same_on_def)

lemma read_bytes_eqI:
  assumes "\<And>i. i < n \<Longrightarrow> m' (a + of_nat i) = m (a + of_nat i)"
  shows "read_bytes m' a n = read_bytes m a n"
  using assms by (auto simp: read_bytes_def)

text \<open>The copy of the target page into the staging page, patched there.\<close>

lemma staged_bytes:
  assumes os: "os_laws k os" and st: "page_of k stage = stage" "stage \<noteq> page"
    and pg: "page_of k page = page" "addr = page + off" "unat off + length bytes \<le> 2 ^ k"
  shows "page_of k a \<noteq> stage \<Longrightarrow>
      write_bytes (stage + off) bytes (copy_bytes page stage (2 ^ k) m) a = m a"
    and "page_of k a = page \<Longrightarrow>
      write_bytes (stage + off) bytes (copy_bytes page stage (2 ^ k) m) (stage + (a - page))
        = write_bytes addr bytes m a"
proof -
  have k: "k < 64" by (rule os_page_size(4) [OF os])
  have off: "unat (stage + off - page_of k (stage + off)) + length bytes \<le> 2 ^ k"
    if "bytes \<noteq> []"
  proof -
    have "0 < length bytes" using that by simp
    with pg(3) have "unat off < 2 ^ k" by linarith
    from page_of_add [OF st(1) this k] have "page_of k (stage + off) = stage" .
    with pg(3) show ?thesis by simp
  qed
  {
    assume n: "page_of k a \<noteq> stage"
    have "\<not> unat (a - (stage + off)) < length bytes"
    proof
      assume l: "unat (a - (stage + off)) < length bytes"
      then have ne: "bytes \<noteq> []" by auto
      from l pg(3) have "unat off < 2 ^ k" by linarith
      with page_of_add [OF st(1) this k] in_span_page [OF k off [OF ne] l] n show False by simp
    qed
    moreover have "\<not> unat (a - stage) < 2 ^ k" using in_page_iff [OF st(1) k] n by simp
    ultimately show "write_bytes (stage + off) bytes (copy_bytes page stage (2 ^ k) m) a = m a"
      by (simp add: write_bytes_def copy_bytes_def)
  }
  assume "page_of k a = page"
  then have "unat (a - page) < 2 ^ k" using in_page_iff [OF pg(1) k] by simp
  then show "write_bytes (stage + off) bytes (copy_bytes page stage (2 ^ k) m) (stage + (a - page))
        = write_bytes addr bytes m a"
    by (simp add: write_bytes_def copy_bytes_def pg(2) diff_diff_eq)
qed

lemma read_written: "length bs < 2 ^ 64 \<Longrightarrow> read_bytes (write_bytes a bs m) a (length bs) = bs"
  by (rule nth_equalityI) (simp_all add: read_bytes_def write_bytes_def unat_of_nat)

lemma write_bytes_outside:
  assumes "k < 64" "unat (addr - page_of k addr) + length bytes \<le> 2 ^ k" "page_of k a \<noteq> page_of k addr"
  shows "write_bytes addr bytes m a = m a"
  using in_span_page [OF assms(1,2), of a] assms(3) by (auto simp: write_bytes_def)

lemma staged_remap:
  assumes os: "os_laws k os" and fit: "unat (addr - page_of k addr) + length bytes \<le> 2 ^ k"
    and st: "page_of k stage = stage" "stage \<noteq> page_of k addr"
    and m3: "pr_mem p3 = write_bytes (stage + (addr - page_of k addr)) bytes
        (copy_bytes (page_of k addr) stage (2 ^ k) m)"
    and rm: "os_remap os (page_of k addr) ps stage p3 = (True, p4)"
  shows "page_of k a \<noteq> stage \<Longrightarrow> pr_mem p4 a = write_bytes addr bytes m a"
    and "read_bytes (pr_mem p4) addr (length bytes) = bytes"
    and "pr_pages p4 = pr_pages p3" "pr_stage p4 = pr_stage p3"
proof -
  have k: "k < 64" by (rule os_page_size(4) [OF os])
  have pp: "page_of k (page_of k addr) = page_of k addr" by (rule page_of_offset(2) [OF k])
  note sb = staged_bytes [OF os st pp _ fit]
  have p4: "p4 = p3\<lparr> pr_mem := (\<lambda>a. if page_of k a = page_of k addr
      then pr_mem p3 (stage + (a - page_of k addr)) else pr_mem p3 a) \<rparr>"
    by (rule os_remap_True [OF os rm])
  show v: "pr_mem p4 a = write_bytes addr bytes m a" if "page_of k a \<noteq> stage" for a
    using sb [where a = a and m = m] that write_bytes_outside [OF k fit, where a = a and m = m] by (simp add: p4 m3)
  show "pr_pages p4 = pr_pages p3" "pr_stage p4 = pr_stage p3" by (simp_all add: p4)
  have len: "length bytes < 2 ^ 64"
    using fit power_strict_increasing [OF k, of "2 :: nat"] by simp
  have "read_bytes (pr_mem p4) addr (length bytes)
    = read_bytes (write_bytes addr bytes m) addr (length bytes)"
  proof (rule read_bytes_eqI)
    fix i assume i: "i < length bytes"
    with len have "unat (of_nat i :: usize) = i" by (simp add: unat_of_nat)
    with i have "unat (addr + of_nat i - addr) < length bytes" by simp
    from in_span_page [OF k fit this] st(2)
    show "pr_mem p4 (addr + of_nat i) = write_bytes addr bytes m (addr + of_nat i)"
      by (intro v) simp
  qed
  then show "read_bytes (pr_mem p4) addr (length bytes) = bytes"
    using read_written [OF len] by simp
qed

text \<open>A successful remap writes the bytes and nothing else; a refused one writes nothing, as far as
  the pages other than the staging page are concerned.\<close>

lemma remap_patch_spec:
  assumes os: "os_laws k os" and ap: "apart k A p" "page_of k addr \<in> A"
    and rp: "remap_patch os addr bytes p = (r, p')"
  shows "apart k A p' \<and>
    (if r = Inr () then unat (addr - page_of k addr) + length bytes \<le> 2 ^ k \<and>
       (\<forall>a. page_of k a \<in> A \<longrightarrow> pr_mem p' a = write_bytes addr bytes (pr_mem p) a)
     else same_on k A p p')"
proof -
  note ps = os_page_size [OF os]
  let ?page = "page_of k addr" and ?off = "addr - page_of k addr"
  have pg: "addr AND NOT (2 ^ k - 1) = ?page" by (simp add: ps(2) page_of_def)
  note rp' = rp [unfolded remap_patch_def Let_def ps(1) sum.case pg ps(3)]
  show ?thesis
  proof (cases "unat ?off + length bytes \<le> 2 ^ k")
    case False
    with rp' ap show ?thesis by (auto simp: same_on_def)
  next
    case fit: True
    obtain r1 p1 where sp: "staging_page os p = (r1, p1)" by fastforce
    note s = staging_page_spec [OF os ap(1) sp]
    show ?thesis
    proof (cases r1)
      case (Inl e)
      with rp' sp s fit show ?thesis by auto
    next
      case (Inr stage)
      with s ap(2) have st: "page_of k stage = stage" "stage \<notin> A" "stage \<noteq> ?page"
        by (auto simp: apart_def)
      let ?m3 = "write_bytes (stage + ?off) bytes (copy_bytes ?page stage (2 ^ k) (pr_mem p1))"
      let ?p2 = "p1\<lparr> pr_mem := copy_bytes ?page stage (2 ^ k) (pr_mem p1) \<rparr>"
      let ?p3 = "?p2\<lparr> pr_mem := write_bytes (stage + ?off) bytes (pr_mem ?p2) \<rparr>"
      have k: "page_of k ?page = ?page" by (rule page_of_offset(2) [OF ps(4)])
      have same3: "same_on k A p1 ?p3"
        unfolding same_on_def
      proof (intro allI impI)
        fix a assume "page_of k a \<in> A"
        with st(2) have "page_of k a \<noteq> stage" by auto
        from staged_bytes(1) [OF os st(1,3) k _ fit this] show "pr_mem ?p3 a = pr_mem p1 a" by simp
      qed
      have ap3: "apart k A ?p3" using s by (simp add: apart_def)
      have q: "(if \<not> os_mprotect os stage (2 ^ k) PROT_RW p1 then (Inl InstallationFailed, p1)
         else if \<not> os_mprotect os stage (2 ^ k) PROT_RX ?p3 then (Inl InstallationFailed, ?p3)
         else (case os_remap os ?page (2 ^ k) stage ?p3 of
            (False, p4) \<Rightarrow> (Inl InstallationFailed, p4)
          | (True, p4) \<Rightarrow> if read_bytes (pr_mem p4) (?page + ?off) (length bytes) \<noteq> bytes
              then (Inl InstallationFailed, p4) else (Inr (), p4))) = (r, p')"
        using rp' leD [OF fit] unfolding sp Inr by (simp only: prod.case sum.case if_False)
      show ?thesis
      proof (cases "os_mprotect os stage (2 ^ k) PROT_RW p1 \<and> os_mprotect os stage (2 ^ k) PROT_RX ?p3")
        case False
        with q s same3 ap3 show ?thesis
          by (auto split: if_splits intro: same_on_trans)
      next
        case True
        obtain ok p4 where rm: "os_remap os ?page (2 ^ k) stage ?p3 = (ok, p4)" by fastforce
        show ?thesis
        proof (cases ok)
          case False
          then have no: "ok = False" by simp
          have "p4 = ?p3" by (rule os_fail(2) [OF os rm [unfolded no]])
          with q True rm False same3 ap3 s show ?thesis by (auto intro: same_on_trans)
        next
          case ok: True
          then have yes: "ok = True" by simp
          note sr = staged_remap [OF os fit st(1,3) _ rm [unfolded yes], of "pr_mem p1"]
          have m3: "pr_mem ?p3 = ?m3" by simp
          from q True rm ok sr(2) [OF m3] have "r = Inr ()" "p' = p4" by auto
          moreover have "pr_mem p4 a = write_bytes addr bytes (pr_mem p) a" if "page_of k a \<in> A" for a
          proof -
            from that st(2) have "page_of k a \<noteq> stage" by auto
            from sr(1) [OF m3 this] s that show ?thesis by (simp add: same_on_def write_bytes_def)
          qed
          moreover have "apart k A p4" using ap3 sr(3,4) [OF m3] by (simp add: apart_def)
          ultimately show ?thesis using fit by simp
        qed
      qed
    qed
  qed
qed

section \<open>The slot contract of an entry patch\<close>

text \<open>The invariant: the entry's bytes are the patch exactly when the state says installed, the
  pages of the entry and of the trampoline are mapped and apart from the staging page, and the two
  state words differ.\<close>

definition ep_wf :: "nat \<Rightarrow> os \<Rightarrow> entry_patch_memory \<times> process \<Rightarrow> bool" where
  "ep_wf k os m \<longleftrightarrow> os_laws k os \<and> (case m of (e, p) \<Rightarrow>
     ep_trampoline e \<noteq> ep_replacement e \<and>
     length (ep_original e) = length (ep_patch e) \<and> length (ep_patch e) < 2 ^ 12 \<and>
     apart k {page_of k (ep_entry e), page_of k (ep_trampoline e)} p \<and>
     page_of k (ep_entry e) \<noteq> page_of k (ep_trampoline e) \<and>
     read_bytes (pr_mem p) (ep_entry e) (length (ep_patch e))
       = (if ep_installed e then ep_patch e else ep_original e))"

lemma remap_patch_crossing:
  assumes "os_laws k os" "\<not> unat (addr - page_of k addr) + length bytes \<le> 2 ^ k"
  shows "remap_patch os addr bytes p
    = (Inl (EntryPatchUnsupported ''patch crosses a page boundary''), p)"
  using assms(2) os_page_size [OF assms(1)]
  by (simp add: remap_patch_def page_of_def)

lemma read_after_remap:
  assumes "os_laws k os" "apart k A p" "page_of k addr \<in> A" "length bytes < 2 ^ 12"
    and rp: "remap_patch os addr bytes p = (r, p')"
  shows "read_bytes (pr_mem p') addr (length bytes)
    = (if r = Inr () then bytes else read_bytes (pr_mem p) addr (length bytes))"
proof (cases "unat (addr - page_of k addr) + length bytes \<le> 2 ^ k")
  case False
  with remap_patch_crossing [OF assms(1) False] rp show ?thesis by auto
next
  case fit: True
  note k = os_page_size(4) [OF assms(1)]
  note rs = remap_patch_spec [OF assms(1-3) rp]
  have pg: "page_of k (addr + of_nat i) \<in> A" if "i < length bytes" for i
  proof -
    from that assms(4) have "unat (addr + of_nat i - addr) < length bytes" by (simp add: unat_of_nat)
    from in_span_page [OF k fit this] assms(3) show ?thesis by simp
  qed
  show ?thesis
  proof (cases "r = Inr ()")
    case True
    with rs pg have "read_bytes (pr_mem p') addr (length bytes)
      = read_bytes (write_bytes addr bytes (pr_mem p)) addr (length bytes)"
      by (intro read_bytes_eqI) simp
    with read_written assms(4) True show ?thesis by simp
  next
    case False
    with rs pg have "read_bytes (pr_mem p') addr (length bytes) = read_bytes (pr_mem p) addr (length bytes)"
      by (intro read_bytes_eqI) (simp add: same_on_def)
    with False show ?thesis by simp
  qed
qed

lemma ep_record_failure_simps [simp]:
  "ep_entry (ep_record_failure msg e) = ep_entry e"
  "ep_replacement (ep_record_failure msg e) = ep_replacement e"
  "ep_trampoline (ep_record_failure msg e) = ep_trampoline e"
  "ep_patch (ep_record_failure msg e) = ep_patch e"
  "ep_original (ep_record_failure msg e) = ep_original e"
  "ep_installed (ep_record_failure msg e) = ep_installed e"
  by (simp_all add: ep_record_failure_def)

lemma ep_step_wf:
  assumes wf: "ep_wf k os (e, p)"
    and bs: "bs = (if ep_installed e then ep_original e else ep_patch e)"
    and rp: "remap_patch os (ep_entry e) bs p = (r, p')"
  shows "r = Inr () \<Longrightarrow> ep_wf k os (e\<lparr> ep_installed := \<not> ep_installed e \<rparr>, p')"
    and "r \<noteq> Inr () \<Longrightarrow> ep_wf k os (ep_record_failure msg e, p')"
proof -
  let ?A = "{page_of k (ep_entry e), page_of k (ep_trampoline e)}"
  from wf have os: "os_laws k os" and ap: "apart k ?A p" and lb: "length bs = length (ep_patch e)"
    and l: "length bs < 2 ^ 12"
    by (simp_all add: ep_wf_def bs)
  have in_a: "page_of k (ep_entry e) \<in> ?A" by simp
  note rd = read_after_remap [OF os ap in_a l rp]
  have ap': "apart k ?A p'" using remap_patch_spec [OF os ap in_a rp] by simp
  show "r = Inr () \<Longrightarrow> ep_wf k os (e\<lparr> ep_installed := \<not> ep_installed e \<rparr>, p')"
    using wf rd ap' lb bs by (auto simp: ep_wf_def)
  show "r \<noteq> Inr () \<Longrightarrow> ep_wf k os (ep_record_failure msg e, p')"
    using wf rd ap' lb by (auto simp: ep_wf_def)
qed

lemma ep_cas_cases:
  assumes wf: "ep_wf k os m" and c: "ep_compare_exchange os expected new m = (r, m')"
  shows "ep_wf k os m' \<and>
    (if r = Inr () then ep_read m = Some expected \<and> ep_read m' = Some new
     else ep_read m' = ep_read m)"
proof (cases "expected = ep_state_word (fst m)")
  case False
  with c wf show ?thesis by (auto simp: ep_compare_exchange_def)
next
  case ex: True
  obtain e p where m: "m = (e, p)" by fastforce
  have tr: "ep_trampoline e \<noteq> ep_replacement e" using wf by (simp add: ep_wf_def m)
  consider (inst) "new = ep_replacement e" "\<not> ep_installed e"
    | (rest) "new = ep_trampoline e" "ep_installed e"
    | (other) "\<not> (new = ep_replacement e \<and> \<not> ep_installed e)" "\<not> (new = ep_trampoline e \<and> ep_installed e)"
    by blast
  then show ?thesis
  proof cases
    case inst
    obtain r1 p1 where rp: "remap_patch os (ep_entry e) (ep_patch e) p = (r1, p1)" by fastforce
    have bs: "ep_patch e = (if ep_installed e then ep_original e else ep_patch e)" using inst by simp
    note w = ep_step_wf [OF wf [unfolded m] bs rp]
    show ?thesis
      using c ex inst rp w tr unfolding m
      by (cases r1) (auto simp: ep_compare_exchange_def ep_patch_entry_def ep_read_def
          ep_state_word_def)
  next
    case rest
    obtain r1 p1 where rp: "remap_patch os (ep_entry e) (ep_original e) p = (r1, p1)" by fastforce
    have bs: "ep_original e = (if ep_installed e then ep_original e else ep_patch e)" using rest by simp
    note w = ep_step_wf [OF wf [unfolded m] bs rp]
    show ?thesis
      using c ex rest rp w tr unfolding m
      by (cases r1) (auto simp: ep_compare_exchange_def ep_unpatch_entry_def ep_read_def
          ep_state_word_def)
  next
    case other
    with c ex wf show ?thesis unfolding m by (auto simp: ep_compare_exchange_def)
  qed
qed

interpretation entry_patch: slot_memory "entry_patch_slot os" "ep_wf k os" for k :: nat and os :: os
proof (unfold_locales, goal_cases)
  case (1 m e n m')
  with ep_cas_cases [OF 1(1), of e n "Inr ()" m'] show ?case by (simp add: entry_patch_slot_def)
next
  case (2 m e n a m')
  with ep_cas_cases [OF 2(1), of e n "Inl a" m'] show ?case by (simp add: entry_patch_slot_def)
next
  case (3 m e n)
  then show ?case by (auto simp: entry_patch_slot_def ep_read_def ep_compare_exchange_def)
qed

end
