(* ===== verification/Entry_Reloc_Correct.thy ===== *)
theory Entry_Reloc_Correct
  imports Entry_Reloc
begin

text \<open>
  Correctness of the relocation of \<open>Entry_Reloc\<close> against the instruction semantics of \<open>A64\<close>:
  what each emitted word decodes to, that \<open>plan_op\<close> reads a displaced branch as the architecture
  does, that the two passes of \<open>build_trampoline\<close> agree on every position, and that running the
  words emitted for a branch ends where the branch ended.
\<close>

section \<open>Decoding of emitted words\<close>

lemma sext_simm:
  assumes "0 < n" "n \<le> 32"
  shows "sext w n = simm n w"
proof -
  have "sint (push_bit (32 - n) w) = push_bit (32 - n) (signed_take_bit (n - 1) (uint w))"
  proof (rule bit_eqI)
    fix k
    show "bit (sint (push_bit (32 - n) w)) k
       = bit (push_bit (32 - n) (signed_take_bit (n - 1) (uint w))) k"
      using assms by (cases "k < 31") (auto simp: bit_simps min_def)
  qed
  then show ?thesis
    by (simp add: sext_def simm_def Let_def scast_eq sint_signed_drop_bit_eq
        drop_bit_push_bit_int)
qed

lemma cb_class:
  assumes "drop_bit 25 (w :: u32) AND 0x3F = 0x1A \<or> drop_bit 25 w AND 0x3F = 0x1B"
  shows "drop_bit 26 w \<noteq> 5" "drop_bit 26 w \<noteq> 0x25" "drop_bit 24 w \<noteq> 0x54"
proof -
  have "drop_bit 26 w AND 0x1F = drop_bit 1 (drop_bit 25 w AND 0x3F)"
    unfolding blast32 by (simp add: bit_simps)
  moreover have "drop_bit 1 (0x1A :: u32) = 0xD" "drop_bit 1 (0x1B :: u32) = 0xD"
    unfolding blast32 by (simp_all add: bit_simps)
  ultimately have "drop_bit 26 w AND 0x1F = 0xD" using assms by metis
  then show "drop_bit 26 w \<noteq> 5" "drop_bit 26 w \<noteq> 0x25" by auto
  have "drop_bit 25 w AND 0x3F = drop_bit 1 (drop_bit 24 w) AND 0x3F"
    unfolding blast32 by (simp add: bit_simps)
  moreover have "drop_bit 1 (0x54 :: u32) AND 0x3F = 0x2A"
    unfolding blast32 by (simp add: bit_simps)
  ultimately have "drop_bit 24 w = 0x54 \<Longrightarrow> drop_bit 25 w AND 0x3F = 0x2A" by simp
  with assms show "drop_bit 24 w \<noteq> 0x54" by auto
qed

lemma decode_b: "a64_decode (b_enc 5 d) = Some (I_B (4 * simm 26 (ucast d AND 0x3FFFFFF)))"
proof -
  have "drop_bit 26 (b_enc 5 d) = 5" "b_enc 5 d AND 0x3FFFFFF = ucast d AND 0x3FFFFFF"
    unfolding b_enc_def blast32 by (simp_all add: bit_simps)
  then show ?thesis by (simp add: a64_decode_def)
qed

lemma decode_bl: "a64_decode (b_enc 0x25 d) = Some (I_BL (4 * simm 26 (ucast d AND 0x3FFFFFF)))"
proof -
  have "drop_bit 26 (b_enc 0x25 d) = 0x25" "b_enc 0x25 d AND 0x3FFFFFF = ucast d AND 0x3FFFFFF"
    unfolding b_enc_def blast32 by (simp_all add: bit_simps)
  then show ?thesis by (simp add: a64_decode_def)
qed

lemma decode_bcond:
  "a64_decode (0x54000000 OR push_bit 5 (x AND 0x7FFFF) OR (k AND 0xF))
     = Some (I_BCond (k AND 0xF) (4 * simm 19 (x AND 0x7FFFF)))"
proof -
  let ?w = "0x54000000 OR push_bit 5 (x AND 0x7FFFF) OR (k AND 0xF)"
  have "drop_bit 26 ?w = 0x15" "drop_bit 24 ?w = 0x54" "drop_bit 5 ?w AND 0x7FFFF = x AND 0x7FFFF"
    "?w AND 0xF = k AND 0xF"
    unfolding blast32 by (simp_all add: bit_simps)
  moreover have "\<not> bit ?w 4" by (simp add: bit_simps)
  ultimately show ?thesis by (simp add: a64_decode_def)
qed

lemma decode_cb:
  assumes "drop_bit 25 w AND 0x3F = 0x1A"
  shows "a64_decode ((w AND 0xFF000000) OR push_bit 5 (x AND 0x7FFFF) OR (w AND 0x1F))
     = Some (I_CB (bit w 31) (bit w 24) (w AND 0x1F) (4 * simm 19 (x AND 0x7FFFF)))"
proof -
  let ?w = "(w AND 0xFF000000) OR push_bit 5 (x AND 0x7FFFF) OR (w AND 0x1F)"
  have d: "drop_bit 25 ?w AND 0x3F = 0x1A" "drop_bit 5 ?w AND 0x7FFFF = x AND 0x7FFFF"
    "?w AND 0x1F = w AND 0x1F" "bit ?w 31 = bit w 31" "bit ?w 24 = bit w 24"
    unfolding assms [symmetric] blast32 by (simp_all add: bit_simps)
  with cb_class [of ?w] show ?thesis by (simp add: a64_decode_def)
qed

lemma decode_cb_far:
  assumes "drop_bit 25 w AND 0x3F = 0x1A"
  shows "a64_decode ((((w XOR 0x01000000) AND 0xFF00001F) OR push_bit 5 5) OR (w AND 0x1F))
     = Some (I_CB (bit w 31) (\<not> bit w 24) (w AND 0x1F) (4 * simm 19 5))"
proof -
  let ?w = "(((w XOR 0x01000000) AND 0xFF00001F) OR push_bit 5 5) OR (w AND 0x1F)"
  have d: "drop_bit 25 ?w AND 0x3F = 0x1A" "drop_bit 5 ?w AND 0x7FFFF = 5"
    "?w AND 0x1F = w AND 0x1F" "bit ?w 31 = bit w 31" "bit ?w 24 = (\<not> bit w 24)"
    unfolding assms [symmetric] blast32 by (simp_all add: bit_simps)
  with cb_class [of ?w] show ?thesis by (simp add: a64_decode_def)
qed

lemma decode_tb:
  assumes "drop_bit 25 w AND 0x3F = 0x1B" and "drop_bit 15 w AND 0xF = 0"
  shows "a64_decode ((w AND 0xFFFF8000) OR push_bit 5 (x AND 0x3FF) OR (w AND 0x1F))
     = Some (I_TB (unat (drop_bit 19 w AND 0x1F) + (if bit w 31 then 32 else 0)) (bit w 24)
         (w AND 0x1F) (4 * simm 14 (x AND 0x3FF)))"
proof -
  let ?w = "(w AND 0xFFFF8000) OR push_bit 5 (x AND 0x3FF) OR (w AND 0x1F)"
  from assms(2) have z: "\<not> bit w 15" "\<not> bit w 16" "\<not> bit w 17" "\<not> bit w 18"
    unfolding blast32 by (simp_all add: bit_simps)
  have d: "drop_bit 25 ?w AND 0x3F = 0x1B" "?w AND 0x1F = w AND 0x1F"
    "bit ?w 31 = bit w 31" "bit ?w 24 = bit w 24" "drop_bit 19 ?w AND 0x1F = drop_bit 19 w AND 0x1F"
    unfolding assms(1) [symmetric] blast32 by (simp_all add: bit_simps)
  have "drop_bit 5 ?w AND 0x3FFF = x AND 0x3FF"
    unfolding blast32 using z by (simp add: bit_simps)
  with d cb_class [of ?w] show ?thesis by (simp add: a64_decode_def)
qed

lemma decode_tb_far:
  assumes "drop_bit 25 w AND 0x3F = 0x1B" and "drop_bit 16 w AND 7 = 0"
  shows "a64_decode ((((w XOR 0x01000000) AND 0xFFFF001F) OR push_bit 5 5) OR (w AND 0x1F))
     = Some (I_TB (unat (drop_bit 19 w AND 0x1F) + (if bit w 31 then 32 else 0)) (\<not> bit w 24)
         (w AND 0x1F) (4 * simm 14 5))"
proof -
  let ?w = "(((w XOR 0x01000000) AND 0xFFFF001F) OR push_bit 5 5) OR (w AND 0x1F)"
  from assms(2) have z: "\<not> bit w 16" "\<not> bit w 17" "\<not> bit w 18"
    unfolding blast32 by (simp_all add: bit_simps)
  have d: "drop_bit 25 ?w AND 0x3F = 0x1B" "?w AND 0x1F = w AND 0x1F"
    "bit ?w 31 = bit w 31" "bit ?w 24 = (\<not> bit w 24)"
    "drop_bit 19 ?w AND 0x1F = drop_bit 19 w AND 0x1F"
    unfolding assms(1) [symmetric] blast32 by (simp_all add: bit_simps)
  have "drop_bit 5 ?w AND 0x3FFF = 5"
    unfolding blast32 using z by (simp add: bit_simps)
  with d cb_class [of ?w] show ?thesis by (simp add: a64_decode_def)
qed

lemma and_ffff: "(x :: u64) AND 0xFFFF = take_bit 16 x"
  by (simp add: take_bit_eq_mask mask_eq_exp_minus_1)

lemma ucast_16: "ucast (ucast (x AND 0xFFFF) :: u32) = (x AND 0xFFFF :: u64)"
  unfolding and_ffff by (rule bit_eqI) (auto simp: bit_simps)

lemma decode_movz:
  "a64_decode (0xD2800000 OR push_bit 5 (ucast (x AND 0xFFFF)) OR (k AND 0x1F))
     = Some (I_MovZ (k AND 0x1F) 0 (x AND 0xFFFF))"
proof -
  let ?w = "0xD2800000 OR push_bit 5 (ucast (x AND 0xFFFF)) OR (k AND 0x1F) :: u32"
  have d: "drop_bit 26 ?w = 0x34" "drop_bit 24 ?w = 0xD2" "drop_bit 25 ?w AND 0x3F = 0x29"
    "drop_bit 23 ?w = 0x1A5" "?w AND 0x1F = k AND 0x1F" "drop_bit 21 ?w AND 3 = 0"
    "drop_bit 5 ?w AND 0xFFFF = ucast (x AND 0xFFFF)"
    unfolding blast32 by (simp_all add: bit_simps)
  then show ?thesis by (simp add: a64_decode_def ucast_16)
qed

lemma decode_movk:
  "a64_decode (0xF2800000 OR 0x00200000 OR push_bit 5 (ucast (x AND 0xFFFF)) OR (k AND 0x1F))
     = Some (I_MovK (k AND 0x1F) 16 (x AND 0xFFFF))"
  "a64_decode (0xF2800000 OR 0x00400000 OR push_bit 5 (ucast (x AND 0xFFFF)) OR (k AND 0x1F))
     = Some (I_MovK (k AND 0x1F) 32 (x AND 0xFFFF))"
proof -
  let ?w = "0xF2800000 OR 0x00200000 OR push_bit 5 (ucast (x AND 0xFFFF)) OR (k AND 0x1F) :: u32"
  have d: "drop_bit 26 ?w = 0x3C" "drop_bit 24 ?w = 0xF2" "drop_bit 25 ?w AND 0x3F = 0x39"
    "drop_bit 23 ?w = 0x1E5" "?w AND 0x1F = k AND 0x1F" "drop_bit 21 ?w AND 3 = 1"
    "drop_bit 5 ?w AND 0xFFFF = ucast (x AND 0xFFFF)"
    unfolding blast32 by (simp_all add: bit_simps)
  then show "a64_decode ?w = Some (I_MovK (k AND 0x1F) 16 (x AND 0xFFFF))"
    by (simp add: a64_decode_def ucast_16)
next
  let ?w = "0xF2800000 OR 0x00400000 OR push_bit 5 (ucast (x AND 0xFFFF)) OR (k AND 0x1F) :: u32"
  have d: "drop_bit 26 ?w = 0x3C" "drop_bit 24 ?w = 0xF2" "drop_bit 25 ?w AND 0x3F = 0x39"
    "drop_bit 23 ?w = 0x1E5" "?w AND 0x1F = k AND 0x1F" "drop_bit 21 ?w AND 3 = 2"
    "drop_bit 5 ?w AND 0xFFFF = ucast (x AND 0xFFFF)"
    unfolding blast32 by (simp_all add: bit_simps)
  then show "a64_decode ?w = Some (I_MovK (k AND 0x1F) 32 (x AND 0xFFFF))"
    by (simp add: a64_decode_def ucast_16)
qed

lemma decode_fixed:
  "a64_decode 0xD61F0200 = Some (I_BR 16)"
  "a64_decode LDR_X16_LITERAL_8 = Some (I_LdrLit 16 8)"
  "a64_decode BR_X16 = Some (I_BR 16)"
  by (simp_all add: a64_decode_def LDR_X16_LITERAL_8_def BR_X16_def simm_def signed_take_bit_numeral_bit1
      signed_take_bit_numeral_bit0)

section \<open>\<open>plan_op\<close> reads the displaced branches\<close>

lemma class_bits:
  "drop_bit 26 w = 5 \<Longrightarrow> w AND 0x7C000000 = (0x14000000 :: u32)"
  "drop_bit 26 w = 0x25 \<Longrightarrow> w AND 0x7C000000 = (0x14000000 :: u32)"
  "drop_bit 24 w = 0x54 \<Longrightarrow> w AND 0x7C000000 = (0x54000000 :: u32)"
  "drop_bit 24 w = 0x54 \<Longrightarrow> w AND 0xFC000000 = (0x54000000 :: u32)"
  "drop_bit 25 w AND 0x3F = 0x1A \<Longrightarrow> w AND 0x7C000000 = (0x34000000 :: u32)"
  "drop_bit 25 w AND 0x3F = 0x1B \<Longrightarrow> w AND 0x7C000000 = (0x34000000 :: u32)"
  unfolding blast32 by (simp_all add: bit_simps)

lemma cb_top8:
  assumes "drop_bit 25 (w :: u32) AND 0x3F = 0x1A"
  shows "drop_bit 24 w AND 0x7E = 0x34" "drop_bit 24 w AND 0xFE \<noteq> 0x54" "drop_bit 24 w AND 0x9F \<noteq> 0x10"
    "drop_bit 24 w AND 0x9F \<noteq> 0x90" "drop_bit 24 w AND 0x1F \<noteq> 0x18" "w AND 0xFC000000 \<noteq> 0x94000000"
  using assms unfolding blast32 by (simp_all add: bit_simps)

lemma tb_top8:
  assumes "drop_bit 25 (w :: u32) AND 0x3F = 0x1B"
  shows "drop_bit 24 w AND 0x7E = 0x36" "drop_bit 24 w AND 0xFE \<noteq> 0x54" "drop_bit 24 w AND 0x9F \<noteq> 0x10"
    "drop_bit 24 w AND 0x9F \<noteq> 0x90" "drop_bit 24 w AND 0x1F \<noteq> 0x18" "w AND 0xFC000000 \<noteq> 0x94000000"
  using assms unfolding blast32 by (simp_all add: bit_simps)

lemma simm_14: "simm 14 (x AND 0x3FFFF) = simm 14 (x AND 0x3FFF)"
proof -
  have m: "(0x3FFFF :: u32) = mask 18" "(0x3FFF :: u32) = mask 14"
    by (simp_all add: mask_eq_exp_minus_1)
  have "signed_take_bit 13 (uint (x AND 0x3FFFF)) = signed_take_bit 13 (uint (x AND 0x3FFF))"
    unfolding m by (rule bit_eqI) (auto simp: bit_simps)
  then show ?thesis by (simp add: simm_def)
qed

lemma decode_cases:
  assumes "a64_decode w = Some i"
  shows "i = I_B off \<Longrightarrow> drop_bit 26 w = 5 \<and> off = 4 * simm 26 (w AND 0x3FFFFFF)"
    and "i = I_BL off \<Longrightarrow> drop_bit 26 w = 0x25 \<and> off = 4 * simm 26 (w AND 0x3FFFFFF)"
    and "i = I_BCond k off \<Longrightarrow> drop_bit 24 w = 0x54 \<and> \<not> bit w 4 \<and> k = w AND 0xF
       \<and> off = 4 * simm 19 (drop_bit 5 w AND 0x7FFFF)"
    and "i = I_CB wide nz rt off \<Longrightarrow> drop_bit 25 w AND 0x3F = 0x1A \<and> rt = w AND 0x1F
       \<and> wide = bit w 31 \<and> nz = bit w 24 \<and> off = 4 * simm 19 (drop_bit 5 w AND 0x7FFFF)"
    and "i = I_TB bp nz rt off \<Longrightarrow> drop_bit 25 w AND 0x3F = 0x1B \<and> rt = w AND 0x1F
       \<and> bp = unat (drop_bit 19 w AND 0x1F) + (if bit w 31 then 32 else 0) \<and> nz = bit w 24
       \<and> off = 4 * simm 14 (drop_bit 5 w AND 0x3FFF)"
  using assms by (auto simp: a64_decode_def split: if_splits)

lemma plan_op_branch:
  assumes "a64_decode w = Some i"
  shows "i = I_B off \<Longrightarrow> plan_op w a = Inr (Plan_B (a + off))"
    and "i = I_BL off \<Longrightarrow> plan_op w a = Inr (Plan_Bl (a + off))"
    and "i = I_BCond k off \<Longrightarrow> plan_op w a = Inr (Plan_BCond k False (a + off))"
    and "i = I_CB wide nz rt off \<Longrightarrow> plan_op w a = Inr (Plan_CbzCbnz w rt (a + off))"
    and "i = I_TB bp nz rt off \<Longrightarrow> plan_op w a = Inr (Plan_TbzTbnz w rt (a + off))"
proof -
  have "a64_decode PACIBSP = None"
    by (simp add: a64_decode_def PACIBSP_def)
  then have np: "w \<noteq> PACIBSP" using assms by auto
  note dc = decode_cases [OF assms]
  show "plan_op w a = Inr (Plan_B (a + off))" if "i = I_B off"
    using np dc(1) [OF that] class_bits(1) [of w]
    by (simp add: plan_op_def Let_def sext_simm mult.commute)
  show "plan_op w a = Inr (Plan_Bl (a + off))" if "i = I_BL off"
    using np dc(2) [OF that] class_bits(2) [of w]
    by (simp add: plan_op_def Let_def sext_simm mult.commute)
  show "plan_op w a = Inr (Plan_BCond k False (a + off))" if "i = I_BCond k off"
    using np dc(3) [OF that] class_bits(3,4) [of w]
    by (simp add: plan_op_def Let_def sext_simm mult.commute)
  show "plan_op w a = Inr (Plan_CbzCbnz w rt (a + off))" if "i = I_CB wide nz rt off"
    using np dc(4) [OF that] class_bits(5) [of w] cb_top8 [of w]
    by (simp add: plan_op_def Let_def sext_simm mult.commute)
  show "plan_op w a = Inr (Plan_TbzTbnz w rt (a + off))" if "i = I_TB bp nz rt off"
    using np dc(5) [OF that] class_bits(6) [of w] tb_top8 [of w] simm_14 [of "drop_bit 5 w"]
    by (simp add: plan_op_def Let_def sext_simm mult.commute)
qed

section \<open>Running emitted words\<close>

definition placed :: "(u64 \<Rightarrow> u32 option) \<Rightarrow> u64 \<Rightarrow> u32 list \<Rightarrow> bool" where
  "placed fetch a ws \<longleftrightarrow> (\<forall>k < length ws. fetch (a + 4 * of_nat k) = Some (ws ! k))"

lemma placed_Nil [simp]: "placed fetch a []"
  by (simp add: placed_def)

lemma placed_Cons [simp]:
  "placed fetch a (w # ws) \<longleftrightarrow> fetch a = Some w \<and> placed fetch (a + 4) ws"
proof -
  have e: "a + 4 * of_nat (Suc k) = a + 4 + 4 * of_nat k" for k :: nat
    by (simp add: algebra_simps)
  show ?thesis
    by (auto simp: placed_def less_Suc_eq_0_disj e simp del: of_nat_Suc)
qed

lemma placed_append [simp]:
  "placed fetch a (xs @ ys) \<longleftrightarrow> placed fetch a xs \<and> placed fetch (a + 4 * of_nat (length xs)) ys"
  by (induction xs arbitrary: a) (simp_all add: algebra_simps)

lemma mov48_value:
  fixes v :: u64
  assumes "v < 2 ^ 48"
  shows "(((v AND 0xFFFF) AND NOT (push_bit 16 0xFFFF) OR push_bit 16 (drop_bit 16 v AND 0xFFFF))
      AND NOT (push_bit 32 0xFFFF)) OR push_bit 32 (drop_bit 32 v AND 0xFFFF) = v"
proof -
  have m: "(0xFFFF :: u64) = mask 16" by (simp add: mask_eq_exp_minus_1)
  have "uint v < 2 ^ 48" using assms by (simp add: word_less_def)
  then have "take_bit 48 v = v"
    by (simp add: word_uint_eq_iff unsigned_take_bit_eq take_bit_int_eq_self)
  then have hb: "bit v n \<Longrightarrow> n < 48" for n by (metis bit_take_bit_iff)
  show ?thesis
    unfolding m
  proof (rule bit_eqI, goal_cases)
    case (1 n)
    consider "n < 16" | "16 \<le> n \<and> n < 32" | "32 \<le> n" by linarith
    then show ?case by cases (auto simp: bit_simps dest: hb)
  qed
qed

lemma run_mov48:
  assumes "placed fetch a (mov_imm48 rd v)" "pc c = a" "v < 2 ^ 48" "rd AND 0x1F = rd" "rd \<noteq> 31"
  shows "a64_run fetch ld (Suc (Suc (Suc n))) c
    = a64_run fetch ld n (c\<lparr> pc := a + 12, regs := (regs c)(rd := v) \<rparr>)"
proof -
  note dz = decode_movz [of v rd, unfolded assms(4)]
  note dk = decode_movk(1) [of "drop_bit 16 v" rd, unfolded assms(4)]
    decode_movk(2) [of "drop_bit 32 v" rd, unfolded assms(4)]
  from assms(1) have f: "fetch a = Some (0xD2800000 OR push_bit 5 (ucast (v AND 0xFFFF)) OR rd)"
    "fetch (a + 4) = Some (0xF2800000 OR 0x00200000 OR push_bit 5 (ucast (drop_bit 16 v AND 0xFFFF)) OR rd)"
    "fetch (a + 8) = Some (0xF2800000 OR 0x00400000 OR push_bit 5 (ucast (drop_bit 32 v AND 0xFFFF)) OR rd)"
    by (simp_all add: mov_imm48_def Let_def add.assoc)
  show ?thesis
    using f assms(2,5) mov48_value [OF assms(3)]
    by (simp add: dz dk set_reg_def get_reg_def add.assoc del: push_bit_numeral)
qed

lemma four_steps: "(4 :: nat) = Suc (Suc (Suc 1))" and five_steps: "(5 :: nat) = Suc 4"
    and seven_steps: "(7 :: nat) = Suc (Suc (Suc 4))"
  by simp_all

lemma run_far_jump:
  assumes "placed fetch a (far_jump_seq t)" "pc c = a" "t < 2 ^ 48"
  shows "a64_run fetch ld 4 c = Some (c\<lparr> pc := t, regs := (regs c)(16 := t) \<rparr>)"
proof -
  from assms(1) have p: "placed fetch a (mov_imm48 16 t)" and b: "fetch (a + 12) = Some 0xD61F0200"
    by (simp_all add: far_jump_seq_def mov_imm48_def Let_def add.assoc)
  have "a64_run fetch ld (Suc (Suc (Suc 1))) c
    = a64_run fetch ld 1 (c\<lparr> pc := a + 12, regs := (regs c)(16 := t) \<rparr>)"
    by (rule run_mov48 [OF p assms(2,3)]) simp_all
  then show ?thesis
    unfolding four_steps using b by (simp add: decode_fixed get_reg_def)
qed

text \<open>A conditional branch that skips the far sequence.\<close>

lemma run_skip_far:
  assumes w: "fetch a = Some w" "a64_decode w = Some i"
    and x: "a64_exec ld i c = c\<lparr> pc := a + (if skip then 20 else 4) \<rparr>"
    and p: "placed fetch (a + 4) (far_jump_seq t)" "pc c = a" "t < 2 ^ 48"
  shows "a64_run fetch ld (if skip then 1 else 5) c
    = Some (if skip then c\<lparr> pc := a + 20 \<rparr> else c\<lparr> pc := t, regs := (regs c)(16 := t) \<rparr>)"
proof (cases skip)
  case False
  have "a64_run fetch ld 4 (c\<lparr> pc := a + 4 \<rparr>) = Some (c\<lparr> pc := t, regs := (regs c)(16 := t) \<rparr>)"
    using run_far_jump [OF p(1) _ p(3), of "c\<lparr> pc := a + 4 \<rparr>"] by simp
  then have "a64_run fetch ld (Suc 4) c = Some (c\<lparr> pc := t, regs := (regs c)(16 := t) \<rparr>)"
    using w x p(2) False by (subst a64_run.simps(2)) simp
  with False show ?thesis unfolding five_steps by simp
qed (use w x p(2) in simp)

lemma simm_5: "4 * simm 19 5 = 20" "4 * simm 14 5 = 20"
  by (simp_all add: simm_def signed_take_bit_numeral_bit1)

lemma cond_holds_invert:
  assumes "drop_bit 1 k \<noteq> 7"
  shows "cond_holds c (k XOR 1) \<longleftrightarrow> \<not> cond_holds c k"
proof -
  have "drop_bit 1 (k XOR 1) = drop_bit 1 k"
    unfolding blast32 by (simp add: bit_simps)
  moreover have "bit (k XOR 1) 0 \<longleftrightarrow> \<not> bit k 0" by (simp add: bit_simps)
  ultimately show ?thesis using assms unfolding cond_holds_def by metis
qed

section \<open>Where a displaced address lives in the trampoline\<close>

text \<open>\<open>reloc_addr\<close> relates an address the original code would go to with the one the trampoline
  goes to: an address inside the displaced window is the trampoline copy of that instruction, the
  end of the window is itself or the jump-back tail, and any other address is itself.\<close>

definition reloc_addr :: "window \<Rightarrow> usize \<Rightarrow> nat list \<Rightarrow> nat \<Rightarrow> u64 \<Rightarrow> u64 \<Rightarrow> bool" where
  "reloc_addr win base pos tlen t a \<longleftrightarrow>
     (if in_window win t then a = base + of_nat (pos ! target_index t win) * 4
      else a = t \<or> t = win_end win \<and> a = base + of_nat tlen * 4)"

definition mk_window :: "usize \<Rightarrow> nat \<Rightarrow> window" where
  "mk_window entry n = \<lparr> win_start = entry, win_end = entry + of_nat n * 4 \<rparr>"

definition window_fits :: "usize \<Rightarrow> nat \<Rightarrow> bool" where
  "window_fits entry n \<longleftrightarrow> uint entry + 4 * int n < 2 ^ 64"

lemma unat_words: "4 * j < 2 ^ 64 \<Longrightarrow> unat (of_nat j * 4 :: u64) = 4 * j"
  using unat_of_nat [of "4 * j", where ?'a = 64] by (simp add: mult.commute)

lemma window_bound:
  assumes "window_fits entry n" "j \<le> n"
  shows "unat entry + 4 * j < 2 ^ 64" "4 * j < 2 ^ 64"
proof -
  have "int (unat entry + 4 * j) \<le> uint entry + 4 * int n"
    using assms(2) by simp
  also have "\<dots> < int (2 ^ 64)" using assms(1) by (simp add: window_fits_def)
  finally show "unat entry + 4 * j < 2 ^ 64" by linarith
  then show "4 * j < 2 ^ 64" by linarith
qed

lemma window_offset:
  assumes "window_fits entry n" "j \<le> n"
  shows "unat (entry + of_nat j * 4) = unat entry + 4 * j"
  using window_bound [OF assms] unat_words [of j] by (simp add: unat_word_ariths(1))

lemma in_window_iff:
  assumes "window_fits entry n" "j \<le> n"
  shows "in_window (mk_window entry n) (entry + of_nat j * 4) \<longleftrightarrow> j < n"
    and "target_index (entry + of_nat j * 4) (mk_window entry n) = j"
proof -
  note o = window_offset [OF assms] window_offset [OF assms(1) order.refl]
  show "in_window (mk_window entry n) (entry + of_nat j * 4) \<longleftrightarrow> j < n"
    using o by (simp add: in_window_def mk_window_def word_le_nat_alt word_less_nat_alt)
  have "unat (of_nat j * 4 :: u64) = 4 * j"
    by (rule unat_words) (rule window_bound(2) [OF assms])
  then show "target_index (entry + of_nat j * 4) (mk_window entry n) = j"
    by (simp add: target_index_def mk_window_def)
qed

lemma in_window_index:
  assumes "window_fits entry n" "in_window (mk_window entry n) t" "t = entry + 4 * x"
  shows "\<exists>j < n. t = entry + of_nat j * 4 \<and> target_index t (mk_window entry n) = j"
proof -
  let ?d = "unat (t - entry)"
  have "?d = unat (4 * x)" using assms(3) by simp
  also have "\<dots> = (4 * unat x) mod 2 ^ 64" by (simp add: unat_word_ariths)
  finally have "?d mod 4 = 0" by (simp add: mod_mod_cancel)
  then have d: "?d = 4 * (?d div 4)" by presburger
  have le: "entry \<le> t" "t < entry + of_nat n * 4"
    using assms(2) by (simp_all add: in_window_def mk_window_def)
  have "unat t = unat entry + ?d" using le(1) by (simp add: unat_sub word_le_nat_alt)
  with le(2) window_offset [OF assms(1) order.refl] have lt: "?d div 4 < n"
    by (simp add: word_less_nat_alt)
  have "t = entry + of_nat ?d" by simp
  also have "(of_nat ?d :: u64) = of_nat (?d div 4) * 4"
    by (subst d) simp
  finally have "t = entry + of_nat (?d div 4) * 4" .
  with lt in_window_iff(2) [OF assms(1), of "?d div 4"] show ?thesis
    by (metis less_or_eq_imp_le)
qed

section \<open>The trampoline simulates each displaced branch\<close>

definition layout_ok :: "usize \<Rightarrow> nat list \<Rightarrow> nat list \<Rightarrow> nat \<Rightarrow> bool" where
  "layout_ok entry sizes pos tlen \<longleftrightarrow>
     window_fits entry (length sizes) \<and> length pos = length sizes \<and> tlen < 512 \<and>
     length sizes < 512 \<and>
     (\<forall>i < length sizes. pos ! i < 512 \<and>
        (if Suc i < length sizes then pos ! Suc i else tlen) = pos ! i + sizes ! i)"

lemma ucast_int_64_32: "(ucast (word_of_int k :: u64) :: u32) = word_of_int k"
  by (rule bit_eqI) (simp add: bit_simps)

lemma layout_next:
  assumes "layout_ok entry sizes pos tlen" "i < length sizes"
  shows "(if Suc i < length sizes then pos ! Suc i else tlen) = pos ! i + sizes ! i"
  using assms unfolding layout_ok_def by blast

lemma delta_words:
  assumes "a < 512" "b < 512"
  shows "4 * simm 26 (ucast (of_nat a - of_nat b :: u64) AND 0x3FFFFFF) = (of_nat a - of_nat b) * 4"
    and "4 * simm 19 (ucast (of_nat a - of_nat b :: u64) AND 0x7FFFF) = (of_nat a - of_nat b) * 4"
    and "b \<le> a \<Longrightarrow> ucast (of_nat a - of_nat b :: u64) AND 0x3FFFF = (ucast (of_nat a - of_nat b :: u64) AND 0x3FF :: u32)"
    and "b \<le> a \<Longrightarrow> 4 * simm 14 (ucast (of_nat a - of_nat b :: u64) AND 0x3FF) = (of_nat a - of_nat b) * 4"
proof -
  have m: "(0x3FFFFFF :: u32) = mask 26" "(0x7FFFF :: u32) = mask 19" "(0x3FFFF :: u32) = mask 18"
    "(0x3FF :: u32) = mask 10"
    by (simp_all add: mask_eq_exp_minus_1)
  let ?k = "int a - int b"
  have d: "(of_nat a - of_nat b :: u64) = word_of_int ?k" by simp
  have u: "(ucast (word_of_int ?k :: u64) :: u32) = word_of_int ?k"
    by (rule ucast_int_64_32)
  show "4 * simm 26 (ucast (of_nat a - of_nat b :: u64) AND 0x3FFFFFF) = (of_nat a - of_nat b) * 4"
    unfolding d u m take_bit_eq_mask [symmetric]
    using assms by (subst simm_small) simp_all
  show "4 * simm 19 (ucast (of_nat a - of_nat b :: u64) AND 0x7FFFF) = (of_nat a - of_nat b) * 4"
    unfolding d u m take_bit_eq_mask [symmetric]
    using assms by (subst simm_small) simp_all
  assume le: "b \<le> a"
  have t: "take_bit l (word_of_int ?k :: u32) = word_of_int ?k" if "10 \<le> l" "l \<le> 18" for l :: nat
  proof -
    have "?k < 2 ^ 10" using assms le by simp
    also have "(2 :: int) ^ 10 \<le> 2 ^ l" using that by (intro power_increasing) simp_all
    finally have "take_bit l ?k = ?k" using le by (simp add: take_bit_int_eq_self)
    then show ?thesis by (metis take_bit_of_int of_int_eq_id)
  qed
  show "ucast (of_nat a - of_nat b :: u64) AND 0x3FFFF = (ucast (of_nat a - of_nat b :: u64) AND 0x3FF :: u32)"
    unfolding d u m take_bit_eq_mask [symmetric] using t [of 18] t [of 10] by simp
  have "simm 14 (take_bit 14 (word_of_int ?k)) = word_of_int ?k"
    using assms le by (intro simm_small) simp_all
  then show "4 * simm 14 (ucast (of_nat a - of_nat b :: u64) AND 0x3FF) = (of_nat a - of_nat b) * 4"
    unfolding d u m take_bit_eq_mask [symmetric] using t [of 14] t [of 10] by simp
qed

lemma reloc_in:
  assumes "layout_ok entry sizes pos tlen" "i < length sizes"
    and "in_window (mk_window entry (length sizes)) t" "t = entry + of_nat i * 4 + 4 * x"
  shows "reloc_addr (mk_window entry (length sizes)) base pos tlen t
      (base + of_nat (pos ! i) * 4
        + (of_nat (pos ! target_index t (mk_window entry (length sizes))) - of_nat (pos ! i)) * 4)"
    and "pos ! target_index t (mk_window entry (length sizes)) < 512" "pos ! i < 512"
proof -
  show "reloc_addr (mk_window entry (length sizes)) base pos tlen t
      (base + of_nat (pos ! i) * 4
        + (of_nat (pos ! target_index t (mk_window entry (length sizes))) - of_nat (pos ! i)) * 4)"
    using assms(3) by (simp add: reloc_addr_def algebra_simps)
  have "t = entry + 4 * (of_nat i + x)" using assms(4) by (simp add: algebra_simps)
  with in_window_index [OF _ assms(3) this] assms(1) obtain j
    where "j < length sizes" "target_index t (mk_window entry (length sizes)) = j"
    by (auto simp: layout_ok_def)
  with assms(1,2) show "pos ! target_index t (mk_window entry (length sizes)) < 512" "pos ! i < 512"
    by (auto simp: layout_ok_def)
qed

lemma reloc_next:
  assumes "layout_ok entry sizes pos tlen" "i < length sizes"
  shows "reloc_addr (mk_window entry (length sizes)) base pos tlen (entry + of_nat i * 4 + 4)
    (base + of_nat (pos ! i) * 4 + of_nat (sizes ! i) * 4)"
proof -
  let ?n = "length sizes"
  have e: "entry + of_nat i * 4 + 4 = entry + of_nat (Suc i) * 4"
    by (simp add: algebra_simps)
  have w: "window_fits entry ?n" using assms(1) by (simp add: layout_ok_def)
  note iw = in_window_iff [OF w, of "Suc i"]
  show ?thesis
  proof (cases "Suc i < ?n")
    case True
    with layout_next [OF assms] have "pos ! Suc i = pos ! i + sizes ! i" by simp
    with iw True show ?thesis
      unfolding e reloc_addr_def by (simp add: algebra_simps)
  next
    case False
    with assms(2) have n: "?n = Suc i" by simp
    with layout_next [OF assms] have "tlen = pos ! i + sizes ! i" by simp
    with iw n show ?thesis
      unfolding e reloc_addr_def by (simp add: mk_window_def algebra_simps)
  qed
qed

lemma layout_mono:
  assumes "layout_ok entry sizes pos tlen"
  shows "i \<le> j \<Longrightarrow> j < length sizes \<Longrightarrow> pos ! i \<le> pos ! j"
proof (induction j rule: dec_induct)
  case (step j)
  with layout_next [OF assms, of j] show ?case by simp
qed simp

lemma forward_tb:
  assumes "layout_ok entry sizes pos tlen" "i < length sizes" "drop_bit 15 w AND 0xF = 0"
    and "t = entry + of_nat i * 4 + 4 * simm 14 (drop_bit 5 w AND 0x3FFF)"
    and "in_window (mk_window entry (length sizes)) t"
  shows "pos ! i \<le> pos ! target_index t (mk_window entry (length sizes))"
proof -
  from assms(3) have z: "\<not> bit w 15" "\<not> bit w 16" "\<not> bit w 17" "\<not> bit w 18"
    unfolding blast32 by (simp_all add: bit_simps)
  let ?x = "drop_bit 5 w AND 0x3FF"
  have x: "drop_bit 5 w AND 0x3FFF = ?x"
    unfolding blast32 using z by (simp add: bit_simps)
  have "?x \<le> 0x3FF" by (rule word_and_le1)
  then have u: "uint ?x \<le> 0x3FF" by (simp add: word_le_def)
  have "- ((2 :: int) ^ 13) \<le> uint ?x" by (rule order_trans [OF _ uint_ge_0]) simp
  with u have "signed_take_bit 13 (uint ?x) = uint ?x"
    by (intro signed_take_bit_int_eq_self) simp_all
  then have "simm 14 ?x = of_nat (unat ?x)"
    by (simp add: simm_def)
  with assms(4) x have t: "t = entry + of_nat (i + unat ?x) * 4"
    by (simp add: algebra_simps)
  have w: "window_fits entry (length sizes)" "length sizes < 512"
    using assms(1) by (simp_all add: layout_ok_def)
  have "4 * (i + unat ?x) < 2 ^ 64"
    using u assms(2) w(2) by (simp add: nat_le_iff flip: nat_uint_eq)
  from unat_words [OF this] t have ti: "target_index t (mk_window entry (length sizes)) = i + unat ?x"
    by (simp add: target_index_def mk_window_def)
  from in_window_index [OF w(1) assms(5), of "of_nat (i + unat ?x)"] t ti
  have "i + unat ?x < length sizes" by (auto simp: mult.commute)
  with layout_mono [OF assms(1), of i "i + unat ?x"] ti show ?thesis by simp
qed

definition branch_simulated ::
  "window \<Rightarrow> usize \<Rightarrow> nat list \<Rightarrow> nat \<Rightarrow> a64_insn \<Rightarrow> cpu \<Rightarrow> cpu \<Rightarrow> bool" where
  "branch_simulated win base pos tlen i c0 c' \<longleftrightarrow>
     reloc_addr win base pos tlen (pc c0) (pc c') \<and> flags c' = flags c0 \<and>
     (\<forall>r. r \<noteq> 16 \<and> r \<noteq> 30 \<longrightarrow> regs c' r = regs c0 r) \<and>
     (case i of I_BL _ \<Rightarrow> reloc_addr win base pos tlen (regs c0 30) (regs c' 30)
      | _ \<Rightarrow> regs c' 30 = regs c0 30)"

definition link_address :: "window \<Rightarrow> usize \<Rightarrow> nat list \<Rightarrow> nat \<Rightarrow> usize" where
  "link_address win base pos i =
     (if Suc i < length pos then base + of_nat (pos ! Suc i) * 4 else win_end win)"

text \<open>What the relocation needs of a branch.  The source checks none of it: a far target and the return
  address fit the 48 bits that \<open>mov_imm48\<close> writes; a far conditional branch is not one of the two
  always-true codes, which have no inverse; a test-bit branch to a place in the window is forward (the upper
  four bits of its field are clear), and one that leaves it is forward by less than 8 KiB (the upper
  three are).  The test-bit branches outside of that are the ones \<open>far_test_branch_skip_wrong\<close> and
  \<open>backward_test_branch_bit_wrong\<close> below show to be miscompiled.\<close>

definition reloc_side :: "window \<Rightarrow> usize \<Rightarrow> nat list \<Rightarrow> nat \<Rightarrow> u64 \<Rightarrow> u32 \<Rightarrow> a64_insn \<Rightarrow> bool" where
  "reloc_side win base pos i a w insn =
     (let near = (\<lambda>off. in_window win (a + off)); ok = (\<lambda>off. near off \<or> a + off < 2 ^ 48) in
      case insn of
        I_B off \<Rightarrow> ok off
      | I_BL off \<Rightarrow> ok off \<and> link_address win base pos i < 2 ^ 48
      | I_BCond k off \<Rightarrow> ok off \<and> (near off \<or> drop_bit 1 k \<noteq> 7)
      | I_CB wide nz rt off \<Rightarrow> ok off
      | I_TB b nz rt off \<Rightarrow> ok off \<and> (if near off then drop_bit 15 w AND 0xF = 0 else drop_bit 16 w AND 7 = 0)
      | _ \<Rightarrow> False)"

lemma reloc_link:
  assumes "layout_ok entry sizes pos tlen" "i < length sizes"
  shows "reloc_addr (mk_window entry (length sizes)) base pos tlen (entry + of_nat i * 4 + 4)
    (link_address (mk_window entry (length sizes)) base pos i)"
proof -
  have l: "length pos = length sizes" and w: "window_fits entry (length sizes)"
    using assms(1) by (simp_all add: layout_ok_def)
  show ?thesis
  proof (cases "Suc i < length sizes")
    case True
    with reloc_next [OF assms, of base] layout_next [OF assms] l show ?thesis
      by (simp add: link_address_def algebra_simps)
  next
    case False
    with assms(2) have n: "length sizes = Suc i" by simp
    with in_window_iff(1) [OF w, of "Suc i"] l show ?thesis
      by (simp add: link_address_def reloc_addr_def mk_window_def algebra_simps)
  qed
qed

lemma sim_one_step:
  assumes "placed fetch a [v]" "a64_decode v = Some i'"
    and "branch_simulated win base pos tlen i c0 (a64_exec ld i' (c\<lparr> pc := a \<rparr>))"
  shows "\<exists>m \<le> 7. \<exists>c'. a64_run fetch ld m (c\<lparr> pc := a \<rparr>) = Some c' \<and>
    branch_simulated win base pos tlen i c0 c'"
  using assms by (intro exI [of _ 1]) simp

lemma sim_skip:
  assumes "placed fetch a (v # far_jump_seq t)" "a64_decode v = Some i'" "t < 2 ^ 48"
    and "a64_exec ld i' (c\<lparr> pc := a \<rparr>) = c\<lparr> pc := a + (if skip then 20 else 4) \<rparr>"
    and "skip \<Longrightarrow> branch_simulated win base pos tlen i c0 (c\<lparr> pc := a + 20 \<rparr>)"
    and "\<not> skip \<Longrightarrow> branch_simulated win base pos tlen i c0 (c\<lparr> pc := t, regs := (regs c)(16 := t) \<rparr>)"
  shows "\<exists>m \<le> 7. \<exists>c'. a64_run fetch ld m (c\<lparr> pc := a \<rparr>) = Some c' \<and>
    branch_simulated win base pos tlen i c0 c'"
proof -
  have "a64_run fetch ld (if skip then 1 else 5) (c\<lparr> pc := a \<rparr>)
    = Some (if skip then c\<lparr> pc := a + 20 \<rparr> else c\<lparr> pc := t, regs := (regs c)(16 := t) \<rparr>)"
    using run_skip_far [of fetch a v i' ld "c\<lparr> pc := a \<rparr>" skip t] assms(1-4) by simp
  with assms(5,6) show ?thesis
    by (intro exI [of _ "if skip then 1 else 5"]) (cases skip, simp_all)
qed

lemma sim_plan_b:
  assumes lay: "layout_ok entry sizes pos tlen" "i < length sizes"
    and e: "t = entry + of_nat i * 4 + off" "off = 4 * x"
    and far: "in_window (mk_window entry (length sizes)) t \<or> t < 2 ^ 48"
    and p: "placed fetch (base + of_nat (pos ! i) * 4)
        (emit_words (Plan_B t) i (pos ! i) pos (mk_window entry (length sizes)) base)"
  shows "\<exists>m \<le> 7. \<exists>c'. a64_run fetch ld m (c\<lparr> pc := base + of_nat (pos ! i) * 4 \<rparr>) = Some c' \<and>
    branch_simulated (mk_window entry (length sizes)) base pos tlen (I_B off)
      (a64_exec ld (I_B off) (c\<lparr> pc := entry + of_nat i * 4 \<rparr>)) c'"
proof (cases "in_window (mk_window entry (length sizes)) t")
  case True
  note r = reloc_in(1) [OF lay True e(1) [unfolded e(2)], of base]
  note b = reloc_in(2,3) [OF lay True e(1) [unfolded e(2)]]
  show ?thesis
    by (rule sim_one_step [OF _ decode_b])
      (use p True r [folded delta_words(1) [OF b]] in
        \<open>simp_all add: emit_words_def Let_def branch_simulated_def e(1) [symmetric]\<close>)
next
  case False
  with p far have j: "placed fetch (base + of_nat (pos ! i) * 4) (far_jump_seq t)" "t < 2 ^ 48"
    by (simp_all add: emit_words_def)
  show ?thesis
    using run_far_jump [OF j(1) _ j(2), of "c\<lparr> pc := base + of_nat (pos ! i) * 4 \<rparr>" ld] False e
    by (intro exI [of _ 4]) (simp add: branch_simulated_def reloc_addr_def)
qed

lemma sim_plan_bl:
  assumes lay: "layout_ok entry sizes pos tlen" "i < length sizes"
    and sz: "sizes ! i = plan_size (Plan_Bl t) (mk_window entry (length sizes))"
    and e: "t = entry + of_nat i * 4 + off" "off = 4 * x"
    and far: "in_window (mk_window entry (length sizes)) t \<or> t < 2 ^ 48"
    and link: "link_address (mk_window entry (length sizes)) base pos i < 2 ^ 48"
    and p: "placed fetch (base + of_nat (pos ! i) * 4)
        (emit_words (Plan_Bl t) i (pos ! i) pos (mk_window entry (length sizes)) base)"
  shows "\<exists>m \<le> 7. \<exists>c'. a64_run fetch ld m (c\<lparr> pc := base + of_nat (pos ! i) * 4 \<rparr>) = Some c' \<and>
    branch_simulated (mk_window entry (length sizes)) base pos tlen (I_BL off)
      (a64_exec ld (I_BL off) (c\<lparr> pc := entry + of_nat i * 4 \<rparr>)) c'"
proof (cases "in_window (mk_window entry (length sizes)) t")
  case True
  note r = reloc_in(1) [OF lay True e(1) [unfolded e(2)], of base]
  note b = reloc_in(2,3) [OF lay True e(1) [unfolded e(2)]]
  show ?thesis
    by (rule sim_one_step [OF _ decode_bl])
      (use p True r [folded delta_words(1) [OF b]] reloc_next [OF lay, of base] sz in
        \<open>simp_all add: emit_words_def Let_def branch_simulated_def e(1) [symmetric] set_reg_def\<close>)
next
  case False
  let ?win = "mk_window entry (length sizes)" and ?a = "base + of_nat (pos ! i) * 4"
  let ?ret = "link_address ?win base pos i"
  have ret: "reloc_addr ?win base pos tlen (entry + of_nat i * 4 + 4) ?ret"
    by (rule reloc_link [OF lay])
  from p False have "placed fetch ?a (mov_imm48 16 t @ mov_imm48 30 ?ret @ [0xD61F0200])"
    by (simp add: emit_words_def link_address_def)
  then have q: "placed fetch ?a (mov_imm48 16 t)" "placed fetch (?a + 12) (mov_imm48 30 ?ret)"
    "fetch (?a + 24) = Some 0xD61F0200"
    by (simp_all add: mov_imm48_def Let_def add.assoc)
  let ?c1 = "c\<lparr> pc := ?a + 12, regs := (regs c)(16 := t) \<rparr>"
  have "a64_run fetch ld 7 (c\<lparr> pc := ?a \<rparr>) = a64_run fetch ld 4 ?c1"
    unfolding seven_steps using run_mov48 [OF q(1), of "c\<lparr> pc := ?a \<rparr>" ld 4] far False by simp
  also have "\<dots> = a64_run fetch ld 1 (?c1\<lparr> pc := ?a + 24, regs := (regs ?c1)(30 := ?ret) \<rparr>)"
    unfolding four_steps using run_mov48 [OF q(2), of ?c1 ld 1] link by (simp add: add.assoc)
  also have "\<dots> = Some (c\<lparr> pc := t, regs := (regs c)(16 := t, 30 := ?ret) \<rparr>)"
    using q(3) by (simp add: decode_fixed get_reg_def)
  finally show ?thesis
    using False ret e(1) by (intro exI [of _ 7])
      (simp add: branch_simulated_def set_reg_def reloc_addr_def)
qed

lemma sim_plan_bcond:
  assumes lay: "layout_ok entry sizes pos tlen" "i < length sizes"
    and sz: "sizes ! i = plan_size (Plan_BCond k False t) (mk_window entry (length sizes))"
    and e: "t = entry + of_nat i * 4 + off" "off = 4 * x" and k: "k = w AND 0xF"
    and far: "in_window (mk_window entry (length sizes)) t \<or> t < 2 ^ 48 \<and> drop_bit 1 k \<noteq> 7"
    and p: "placed fetch (base + of_nat (pos ! i) * 4)
        (emit_words (Plan_BCond k False t) i (pos ! i) pos (mk_window entry (length sizes)) base)"
  shows "\<exists>m \<le> 7. \<exists>c'. a64_run fetch ld m (c\<lparr> pc := base + of_nat (pos ! i) * 4 \<rparr>) = Some c' \<and>
    branch_simulated (mk_window entry (length sizes)) base pos tlen (I_BCond k off)
      (a64_exec ld (I_BCond k off) (c\<lparr> pc := entry + of_nat i * 4 \<rparr>)) c'"
proof -
  let ?win = "mk_window entry (length sizes)" and ?a = "base + of_nat (pos ! i) * 4"
  have cp: "cond_holds (c\<lparr> pc := b \<rparr>) j = cond_holds c j" for b :: u64 and j by (simp add: cond_holds_def)
  note nx = reloc_next [OF lay, of base]
  show ?thesis
  proof (cases "in_window ?win t")
    case True
    note r = reloc_in(1) [OF lay True e(1) [unfolded e(2)], of base]
    note b = reloc_in(2,3) [OF lay True e(1) [unfolded e(2)]]
    show ?thesis
      by (rule sim_one_step [OF _ decode_bcond [of
          "ucast (of_nat (pos ! target_index t ?win) - of_nat (pos ! i) :: u64)" w, folded k]])
        (use p True r [folded delta_words(2) [OF b]] nx sz in
          \<open>simp_all add: emit_words_def Let_def branch_simulated_def e(1) [symmetric] cp del: push_bit_and\<close>)
  next
    case False
    with far have f: "t < 2 ^ 48" "drop_bit 1 k \<noteq> 7" by simp_all
    have kx: "(w XOR 1) AND 0xF = k XOR 1"
      unfolding k blast32 by (simp add: bit_simps)
    have k5: "(5 :: u32) AND 0x7FFFF = 5" by simp
    note d = decode_bcond [of 5 "w XOR 1", unfolded kx k5]
    show ?thesis
      by (rule sim_skip [OF _ d f(1), where skip = "cond_holds c (k XOR 1)"])
        (use p False nx sz e(1) cond_holds_invert [OF f(2), of c] in
          \<open>simp_all add: emit_words_def branch_simulated_def cp simm_5 reloc_addr_def\<close>)
  qed
qed

lemma sim_plan_cb:
  assumes lay: "layout_ok entry sizes pos tlen" "i < length sizes"
    and sz: "sizes ! i = plan_size (Plan_CbzCbnz w rt t) (mk_window entry (length sizes))"
    and e: "t = entry + of_nat i * 4 + off" "off = 4 * x"
    and w: "rt = w AND 0x1F" "drop_bit 25 w AND 0x3F = 0x1A"
    and far: "in_window (mk_window entry (length sizes)) t \<or> t < 2 ^ 48"
    and p: "placed fetch (base + of_nat (pos ! i) * 4)
        (emit_words (Plan_CbzCbnz w rt t) i (pos ! i) pos (mk_window entry (length sizes)) base)"
  shows "\<exists>m \<le> 7. \<exists>c'. a64_run fetch ld m (c\<lparr> pc := base + of_nat (pos ! i) * 4 \<rparr>) = Some c' \<and>
    branch_simulated (mk_window entry (length sizes)) base pos tlen (I_CB (bit w 31) (bit w 24) rt off)
      (a64_exec ld (I_CB (bit w 31) (bit w 24) rt off) (c\<lparr> pc := entry + of_nat i * 4 \<rparr>)) c'"
proof -
  let ?win = "mk_window entry (length sizes)"
  have cp: "is_zero_reg (c\<lparr> pc := b \<rparr>) wide r = is_zero_reg c wide r" for b :: u64 and wide r
    by (simp add: is_zero_reg_def)
  note nx = reloc_next [OF lay, of base]
  show ?thesis
  proof (cases "in_window ?win t")
    case True
    note r = reloc_in(1) [OF lay True e(1) [unfolded e(2)], of base]
    note b = reloc_in(2,3) [OF lay True e(1) [unfolded e(2)]]
    show ?thesis
      by (rule sim_one_step [OF _ decode_cb [OF w(2), of
            "ucast (of_nat (pos ! target_index t ?win) - of_nat (pos ! i) :: u64)", folded w(1)]])
        (use p True r [folded delta_words(2) [OF b]] nx sz in
          \<open>simp_all add: emit_words_def Let_def branch_simulated_def e(1) [symmetric] cp
            del: push_bit_and\<close>)
  next
    case False
    with far have f: "t < 2 ^ 48" by simp
    show ?thesis
      by (rule sim_skip [OF _ decode_cb_far [OF w(2), folded w(1)] f,
            where skip = "is_zero_reg c (bit w 31) rt = bit w 24"])
        (use p False nx sz e(1) in
          \<open>simp_all add: emit_words_def branch_simulated_def cp simm_5 reloc_addr_def\<close>)
  qed
qed

lemma sim_plan_tb:
  assumes lay: "layout_ok entry sizes pos tlen" "i < length sizes"
    and sz: "sizes ! i = plan_size (Plan_TbzTbnz w rt t) (mk_window entry (length sizes))"
    and e: "t = entry + of_nat i * 4 + off" "off = 4 * simm 14 (drop_bit 5 w AND 0x3FFF)"
    and w: "rt = w AND 0x1F" "drop_bit 25 w AND 0x3F = 0x1B"
    and tb: "if in_window (mk_window entry (length sizes)) t then drop_bit 15 w AND 0xF = 0 else drop_bit 16 w AND 7 = 0"
    and k: "k = unat (drop_bit 19 w AND 0x1F) + (if bit w 31 then 32 else 0)"
    and far: "in_window (mk_window entry (length sizes)) t \<or> t < 2 ^ 48"
    and p: "placed fetch (base + of_nat (pos ! i) * 4)
        (emit_words (Plan_TbzTbnz w rt t) i (pos ! i) pos (mk_window entry (length sizes)) base)"
  shows "\<exists>m \<le> 7. \<exists>c'. a64_run fetch ld m (c\<lparr> pc := base + of_nat (pos ! i) * 4 \<rparr>) = Some c' \<and>
    branch_simulated (mk_window entry (length sizes)) base pos tlen (I_TB k (bit w 24) rt off)
      (a64_exec ld (I_TB k (bit w 24) rt off) (c\<lparr> pc := entry + of_nat i * 4 \<rparr>)) c'"
proof -
  let ?win = "mk_window entry (length sizes)"
  let ?x = "ucast (of_nat (pos ! target_index t ?win) - of_nat (pos ! i) :: u64)"
  have cp: "get_reg r (c\<lparr> pc := b \<rparr>) = get_reg r c" for b :: u64 and r
    by (simp add: get_reg_def)
  note nx = reloc_next [OF lay, of base]
  show ?thesis
  proof (cases "in_window ?win t")
    case True
    with tb have w3: "drop_bit 15 w AND 0xF = 0" by simp
    note r = reloc_in(1) [OF lay True e(1) [unfolded e(2)], of base]
    note b = reloc_in(2,3) [OF lay True e(1) [unfolded e(2)]]
    have fw: "pos ! i \<le> pos ! target_index t ?win"
      by (rule forward_tb [OF lay w3 e(1) [unfolded e(2)] True])
    have dw: "?x AND 0x3FFFF = (?x AND 0x3FF :: u32)" by (rule delta_words(3) [OF b fw])
    have p1: "placed fetch (base + of_nat (pos ! i) * 4)
        [(w AND 0xFFFF8000) OR push_bit 5 (?x AND 0x3FF) OR rt]"
      using p True by (simp add: emit_words_def Let_def dw del: push_bit_and)
    show ?thesis
      by (rule sim_one_step [OF p1 decode_tb [OF w(2) w3, of ?x, folded w(1) k]])
        (use True r [folded delta_words(4) [OF b fw]] nx sz in
          \<open>simp_all add: branch_simulated_def e(1) [symmetric] cp\<close>)
  next
    case False
    with far have f: "t < 2 ^ 48" by simp
    from tb False have "drop_bit 16 w AND 7 = 0" by simp
    note d = decode_tb_far [OF w(2) this, folded w(1) k]
    show ?thesis
      by (rule sim_skip [OF _ d f, where skip = "bit (get_reg rt c) k \<noteq> bit w 24"])
        (use p False nx sz e(1) in
          \<open>simp_all add: emit_words_def branch_simulated_def cp simm_5 reloc_addr_def\<close>)
  qed
qed

section \<open>The two passes agree\<close>

lemma emit_words_length:
  "length (emit_words p index pos ops_pos win base) = plan_size p win"
  by (cases p) (simp_all add: emit_words_def Let_def far_jump_seq_def mov_imm48_def)

lemma op_positions_length [simp]: "length (op_positions ns acc) = length ns"
  by (induction ns arbitrary: acc) simp_all

lemma op_positions_nth:
  "i < length ns \<Longrightarrow> op_positions ns acc ! i = acc + sum_list (take i ns)"
proof (induction ns arbitrary: acc i)
  case (Cons n ns)
  then show ?case by (cases i) simp_all
qed simp

text \<open>No padding is ever inserted: the words of each plan start exactly where the first pass put
  them.\<close>

lemma emit_loop_words:
  assumes "sizes = map (\<lambda>p. plan_size p win) all" "pos = op_positions sizes 0"
  shows "drop idx all = ps \<Longrightarrow> length buf = sum_list (take idx sizes) \<Longrightarrow>
    emit_loop ps idx pos win base buf
      = Inr (buf @ concat (map (\<lambda>i. emit_words (all ! i) i (pos ! i) pos win base) [idx..<length all]))"
proof (induction ps arbitrary: idx buf)
  case Nil
  then show ?case by simp
next
  case (Cons p ps)
  from Cons.prems(1) have i: "idx < length all" and p: "all ! idx = p" and d: "drop (Suc idx) all = ps"
    by (metis drop_eq_Nil linorder_not_less list.distinct(1))
       (metis Cons.prems(1) nth_via_drop, metis Cons.prems(1) drop_Suc drop_tl list.sel(3))
  from i assms have pos: "pos ! idx = sum_list (take idx sizes)" by (simp add: op_positions_nth)
  let ?b = "buf @ emit_words p idx (pos ! idx) pos win base"
  have "length ?b = sum_list (take (Suc idx) sizes)"
    using Cons.prems(2) i p assms(1) by (simp add: emit_words_length take_Suc_conv_app_nth)
  from Cons.IH [OF d this] show ?case
    using pos Cons.prems(2) i p by (simp add: Let_def emit_op_def upt_rec [of idx "length all"])
qed

lemma plan_size_bounds: "1 \<le> plan_size p win" "plan_size p win \<le> 7"
  by (cases p; simp)+

lemma sum_sizes_bound: "sum_list (map (\<lambda>p. plan_size p win) ps) \<le> 7 * length ps"
  using plan_size_bounds(2) by (induction ps) (simp_all add: add_le_mono)

lemma build_layout:
  assumes "window_fits entry (length ps)" "length ps \<le> 64"
    and "sizes = map (\<lambda>p. plan_size p win) ps" "pos = op_positions sizes 0"
  shows "layout_ok entry sizes pos (sum_list sizes)"
proof -
  have tot: "sum_list sizes < 512"
    using sum_sizes_bound [of win ps] assms(2,3) by simp
  have "sum_list (take i sizes) \<le> sum_list sizes" for i
    by (metis append_take_drop_id le_add1 sum_list_append)
  with tot have b: "sum_list (take i sizes) < 512" for i by (meson le_less_trans)
  show ?thesis
    unfolding layout_ok_def
  proof (intro conjI allI impI)
    fix i assume i: "i < length sizes"
    show "pos ! i < 512" using i b assms(4) by (simp add: op_positions_nth)
    show "(if Suc i < length sizes then pos ! Suc i else sum_list sizes) = pos ! i + sizes ! i"
    proof (cases "Suc i < length sizes")
      case True
      then show ?thesis using assms(4) by (simp add: op_positions_nth take_Suc_conv_app_nth)
    next
      case False
      with i have "take (Suc i) sizes = sizes" by simp
      then have "sum_list sizes = sum_list (take i sizes) + sizes ! i"
        using i by (metis sum_list_append sum_list_simps(2) sum_list.Nil take_Suc_conv_app_nth add.right_neutral)
      then show ?thesis using False i assms(4) by (simp add: op_positions_nth)
    qed
  qed (use assms tot in simp_all)
qed

lemma plan_ops_nth:
  assumes "plan_ops entry ws = Inr plans"
  shows "length plans = length ws"
    and "i < length ws \<Longrightarrow> plan_op (ws ! i) (entry + of_nat i * 4) = Inr (plans ! i)"
  using collect_results_length [OF assms [unfolded plan_ops_def]]
    collect_results_nth [OF assms [unfolded plan_ops_def], of i] by simp_all

lemma emit_placed:
  assumes "emit_loop plans 0 pos win base [] = Inr buf" "i < length plans"
    and "pos = op_positions (map (\<lambda>p. plan_size p win) plans) 0"
    and "placed fetch base buf"
  shows "placed fetch (base + of_nat (pos ! i) * 4) (emit_words (plans ! i) i (pos ! i) pos win base)"
    and "length buf = sum_list (map (\<lambda>p. plan_size p win) plans)"
proof -
  let ?f = "\<lambda>i. emit_words (plans ! i) i (pos ! i) pos win base"
  let ?xss = "map ?f [0..<length plans]"
  have buf: "buf = concat ?xss"
    using emit_loop_words [OF refl assms(3), of 0 plans "[]" base] assms(1) by simp
  have len: "map length ?xss = map (\<lambda>p. plan_size p win) plans"
    by (rule nth_equalityI) (simp_all add: emit_words_length)
  then show "length buf = sum_list (map (\<lambda>p. plan_size p win) plans)"
    by (simp add: buf length_concat)
  have pos: "length (concat (take i ?xss)) = pos ! i"
    using assms(2,3) len by (simp add: op_positions_nth length_concat take_map [symmetric] del: take_map)
  have i: "i < length ?xss" using assms(2) by simp
  have "buf = concat (take i ?xss) @ ?xss ! i @ concat (drop (Suc i) ?xss)"
    unfolding buf by (subst (1) id_take_nth_drop [OF i]) (simp only: concat_append concat.simps)
  from assms(4) [unfolded this]
  have "placed fetch (base + 4 * of_nat (length (concat (take i ?xss)))) (?xss ! i)"
    unfolding placed_append by blast
  with pos assms(2) show "placed fetch (base + of_nat (pos ! i) * 4) (?f i)"
    by (simp add: mult.commute)
qed

text \<open>The whole trampoline, for any way of fetching its words.\<close>

lemma placed_simulates_branch:
  assumes plans: "plan_ops entry ws = Inr plans"
    and len: "length ws \<le> 64" "window_fits entry (length ws)"
    and win: "win = mk_window entry (length ws)"
    and pos: "pos = op_positions (map (\<lambda>p. plan_size p win) plans) 0"
    and buf: "emit_loop plans 0 pos win base [] = Inr buf"
    and pl0: "placed fetch base buf"
    and i: "i < length ws" "a64_decode (ws ! i) = Some insn"
    and side: "reloc_side win base pos i (entry + of_nat i * 4) (ws ! i) insn"
  shows "\<exists>m \<le> 7. \<exists>c'.
    a64_run fetch ld m
      (c\<lparr> pc := base + of_nat (pos ! i) * 4 \<rparr>) = Some c' \<and>
    branch_simulated win base pos (length buf) insn
      (a64_exec ld insn (c\<lparr> pc := entry + of_nat i * 4 \<rparr>)) c'"
proof -
  note pl = plan_ops_nth [OF plans]
  let ?a = "entry + of_nat i * 4"
  define sizes where "sizes = map (\<lambda>p. plan_size p win) plans"
  have p: "plan_op (ws ! i) ?a = Inr (plans ! i)" by (rule pl(2)) (rule i)
  have n: "length sizes = length ws" "i < length sizes" using pl(1) i by (simp_all add: sizes_def)
  have w: "mk_window entry (length sizes) = win" using win n by simp
  have sz: "sizes ! i = plan_size (plans ! i) win" using n by (simp add: sizes_def)
  have lb: "length buf = sum_list sizes"
    using emit_placed(2) [OF buf _ pos pl0] i(1) pl(1) by (simp add: sizes_def)
  have lay: "layout_ok entry sizes pos (length buf)"
    unfolding lb by (rule build_layout [OF _ _ sizes_def pos [folded sizes_def]])
      (use len pl(1) in simp_all)
  have pd: "placed fetch (base + of_nat (pos ! i) * 4)
      (emit_words (plans ! i) i (pos ! i) pos win base)"
    using emit_placed(1) [OF buf _ pos pl0] i(1) pl(1) by simp
  note dc = decode_cases [OF i(2)] and po = plan_op_branch [OF i(2), where a = ?a]
  note facts = side [unfolded reloc_side_def Let_def]
  show ?thesis
  proof (cases insn)
    case (I_B off)
    with po(1) p have q: "plans ! i = Plan_B (?a + off)" by simp
    with dc(1) facts I_B show ?thesis
      using sim_plan_b [OF lay n(2) refl, unfolded w, of off] pd by simp
  next
    case (I_BL off)
    with po(2) p have q: "plans ! i = Plan_Bl (?a + off)" by simp
    with dc(2) facts I_BL show ?thesis
      using sim_plan_bl [OF lay n(2) sz [unfolded q, folded w] refl, unfolded w] pd by simp
  next
    case (I_BCond k off)
    with po(3) p have q: "plans ! i = Plan_BCond k False (?a + off)" by simp
    from dc(3) [OF I_BCond] have k: "k = ws ! i AND 0xF"
      and off: "off = 4 * simm 19 (drop_bit 5 (ws ! i) AND 0x7FFFF)" by simp_all
    have far: "in_window win (?a + off) \<or> ?a + off < 2 ^ 48 \<and> drop_bit 1 k \<noteq> 7"
      using facts I_BCond by auto
    show ?thesis
      unfolding I_BCond
      by (rule sim_plan_bcond [OF lay n(2) sz [unfolded q, folded w] refl off k, unfolded w,
            OF far pd [unfolded q]])
  next
    case (I_CB wide nz rt off)
    with po(4) p have q: "plans ! i = Plan_CbzCbnz (ws ! i) rt (?a + off)" by simp
    with dc(4) facts I_CB show ?thesis
      using sim_plan_cb [OF lay n(2) sz [unfolded q, folded w] refl, unfolded w] pd by simp
  next
    case (I_TB k nz rt off)
    with po(5) p have q: "plans ! i = Plan_TbzTbnz (ws ! i) rt (?a + off)" by simp
    have tb: "in_window win (?a + off) \<or> ?a + off < 2 ^ 48"
      "if in_window win (?a + off) then drop_bit 15 (ws ! i) AND 0xF = 0 else drop_bit 16 (ws ! i) AND 7 = 0"
      using facts I_TB by simp_all
    with dc(5) q I_TB show ?thesis
      using sim_plan_tb [OF lay n(2) sz [unfolded q, folded w] refl, unfolded w] pd by simp
  qed (use facts in simp_all)
qed

text \<open>The displaced \<open>cbz x1, #12\<close> at \<open>0x1000\<close>, alone in its window, with the trampoline at
  \<open>0x200000\<close>.\<close>

lemma cbz_example:
  "plan_ops 0x1000 [0xB4000061] = Inr [Plan_CbzCbnz 0xB4000061 1 0x100C]"
  "a64_decode 0xB4000061 = Some (I_CB True False 1 12)"
  "\<not> in_window (mk_window 0x1000 1) 0x100C"
  by (simp_all add: plan_ops_def plan_op_def PACIBSP_def Let_def sext_simm simm_def a64_decode_def
      in_window_def mk_window_def signed_take_bit_numeral_bit1 numeral_eq_Suc [of "num.One"])

text \<open>
  A far test-bit branch is miscompiled unless its displacement is forward and below 8 KiB: the
  mask that should clear the old \<open>imm14\<close> field keeps its three high bits, so the inverted branch
  does not skip the 20 bytes of the far jump.
\<close>

theorem far_test_branch_skip_wrong:
  assumes "a64_decode w = Some (I_TB k nz rt off)" and "drop_bit 16 w AND 7 \<noteq> 0"
    and "plan_op w a = Inr p" and "\<not> in_window win (a + off)"
  shows "\<exists>off'. a64_decode (hd (emit_words p i pos ops_pos win base)) = Some (I_TB k (\<not> nz) rt off')
    \<and> off' \<noteq> 20"
proof -
  note d = decode_cases(5) [OF assms(1) refl]
  have p: "p = Plan_TbzTbnz w rt (a + off)"
    using plan_op_branch(5) [OF assms(1) refl, of a] assms(3) by simp
  let ?w = "(((w XOR 0x01000000) AND 0xFFFF001F) OR push_bit 5 5) OR (w AND 0x1F)"
  have e: "hd (emit_words p i pos ops_pos win base) = ?w"
    using assms(4) d by (simp add: p emit_words_def)
  have "drop_bit 25 ?w AND 0x3F = drop_bit 25 w AND 0x3F" "?w AND 0x1F = w AND 0x1F"
    "bit ?w 31 = bit w 31" "bit ?w 24 = (\<not> bit w 24)"
    "drop_bit 19 ?w AND 0x1F = drop_bit 19 w AND 0x1F"
    unfolding blast32 by (simp_all add: bit_simps)
  then have dec: "a64_decode ?w = Some (I_TB k (\<not> nz) rt (4 * simm 14 (drop_bit 5 ?w AND 0x3FFF)))"
    using d cb_class [of ?w] by (simp add: a64_decode_def)
  let ?y = "drop_bit 5 ?w AND 0x3FFF"
  from assms(2) have "bit w 16 \<or> bit w 17 \<or> bit w 18"
    unfolding blast32 by (auto simp: bit_simps)
  then have y: "bit ?y 11 \<or> bit ?y 12 \<or> bit ?y 13" by (simp add: bit_simps)
  have "bit (4 * simm 14 ?y) (j + 2) = bit ?y j" if "j \<le> 13" for j
  proof -
    have "4 * simm 14 ?y = push_bit 2 (simm 14 ?y)" by (simp add: push_bit_eq_mult)
    then have "bit (4 * simm 14 ?y) (j + 2) = bit (simm 14 ?y) j"
      using that by (simp add: bit_push_bit_iff)
    also have "\<dots> = bit ?y j" using that by (simp add: simm_def bit_simps min_def)
    finally show ?thesis .
  qed
  from this [of 11] this [of 12] this [of 13] y
  have "bit (4 * simm 14 ?y) 13 \<or> bit (4 * simm 14 ?y) 14 \<or> bit (4 * simm 14 ?y) 15" by simp
  moreover have "\<not> bit (20 :: u64) 13" "\<not> bit (20 :: u64) 14" "\<not> bit (20 :: u64) 15" by simp_all
  ultimately have "4 * simm 14 ?y \<noteq> 20" by metis
  with dec show ?thesis unfolding e by (intro exI conjI)
qed

theorem far_test_branch_skip_wrong_witness:
  "\<exists>off'. a64_decode (hd (emit_words (Plan_TbzTbnz 0x3607FFE0 0 0xFFC) 0 0 [0]
      (mk_window 0x1000 1) 0x200000)) = Some (I_TB 0 True 0 off') \<and> off' \<noteq> 20"
proof -
  have d: "a64_decode 0x3607FFE0 = Some (I_TB 0 False 0 (-4))"
    by (simp add: a64_decode_def simm_def signed_take_bit_numeral_bit1)
  have b: "drop_bit 16 (0x3607FFE0 :: u32) AND 7 \<noteq> 0" by simp
  have p: "plan_op 0x3607FFE0 0x1000 = Inr (Plan_TbzTbnz 0x3607FFE0 0 0xFFC)"
    using plan_op_branch(5) [OF d refl, of "0x1000"] by simp
  have f: "\<not> in_window (mk_window 0x1000 1) (0x1000 + - 4)"
    by (simp add: in_window_def mk_window_def)
  from far_test_branch_skip_wrong [OF d b p f] show ?thesis by simp
qed

lemma unat_mod_16:
  assumes "(k :: u32) AND 0xF = 0xF"
  shows "unat k mod 16 = 15"
proof -
  have "unat (take_bit 4 k) = take_bit 4 (unat k)" by (rule unsigned_take_bit_eq)
  moreover have "take_bit 4 k = k AND 0xF" by (simp add: take_bit_eq_mask mask_eq_exp_minus_1)
  ultimately show ?thesis using assms by (simp add: take_bit_eq_mod)
qed

lemma mod16_shift: "k mod 16 = 15 \<Longrightarrow> (k + (if b then 32 else 0 :: nat)) mod 16 = 15"
  using mod_add_right_eq [of k 32 16] by (cases b) simp_all

text \<open>
  A backward test-bit branch inside the window is miscompiled: the new offset is cut to 18 bits
  instead of the 14 of the field, so its sign bits overwrite the number of the tested bit, and the
  relocated branch tests a bit whose number is 15 modulo 16.
\<close>

theorem backward_test_branch_bit_wrong:
  assumes "a64_decode w = Some (I_TB k nz rt off)" and "plan_op w a = Inr p"
    and "in_window win (a + off)"
    and "pos < 512" and "ops_pos ! target_index (a + off) win < pos"
  shows "\<exists>k' off'. a64_decode (hd (emit_words p i pos ops_pos win base)) = Some (I_TB k' nz rt off')
    \<and> k' mod 16 = 15"
proof -
  note d = decode_cases(5) [OF assms(1) refl]
  let ?b = "ops_pos ! target_index (a + off) win"
  let ?x = "ucast (of_nat ?b - of_nat pos :: u64) :: u32"
  have p: "p = Plan_TbzTbnz w rt (a + off)"
    using plan_op_branch(5) [OF assms(1) refl, of a] assms(2) by simp
  let ?w = "(w AND 0xFFFF8000) OR push_bit 5 (?x AND 0x3FFFF) OR (w AND 0x1F)"
  have e: "hd (emit_words p i pos ops_pos win base) = ?w"
    using assms(3) d by (simp add: p emit_words_def Let_def del: push_bit_and)
  have "?x = word_of_int (int ?b - int pos)"
    using ucast_int_64_32 [of "int ?b - int pos"] by simp
  then have "bit ?x j = bit (int ?b - int pos) j" if "j < 32" for j
    using that by (simp only: bit_word_of_int_iff) simp
  moreover have "bit (int ?b - int pos) j" if "9 \<le> j" for j
  proof -
    have "(512 :: int) \<le> 2 ^ j" using power_increasing [OF that, of "2 :: int"] by simp
    then have "0 \<le> int ?b - int pos + 2 ^ j" "int ?b - int pos + 2 ^ j < 2 ^ j"
      using assms(4,5) by linarith+
    then have "(int ?b - int pos) div 2 ^ j = -1"
      by (intro int_div_pos_eq [where r = "int ?b - int pos + 2 ^ j"]) simp_all
    then show ?thesis by (simp add: bit_iff_odd)
  qed
  ultimately have x: "bit ?x 14" "bit ?x 15" "bit ?x 16" "bit ?x 17" by simp_all
  have c: "drop_bit 25 ?w AND 0x3F = drop_bit 25 w AND 0x3F" "?w AND 0x1F = w AND 0x1F"
    "bit ?w 24 = bit w 24"
    unfolding blast32 by (simp_all add: bit_simps)
  let ?k = "drop_bit 19 ?w AND 0x1F"
  have "?k AND 0xF = 0xF"
    unfolding blast32 using x by (simp add: bit_simps)
  then have "unat ?k mod 16 = 15" by (rule unat_mod_16)
  then have "(unat ?k + (if bit ?w 31 then 32 else 0)) mod 16 = 15" by (rule mod16_shift)
  moreover have "a64_decode ?w = Some (I_TB (unat ?k + (if bit ?w 31 then 32 else 0)) nz rt
      (4 * simm 14 (drop_bit 5 ?w AND 0x3FFF)))"
    using d c cb_class [of ?w] by (simp add: a64_decode_def)
  ultimately show ?thesis unfolding e by (intro exI conjI)
qed

theorem backward_test_branch_bit_wrong_witness:
  "\<exists>k' off'. a64_decode (hd (emit_words (Plan_TbzTbnz 0x3607FFE0 0 0x1000) 1 1 [0, 1]
      (mk_window 0x1000 2) 0x200000)) = Some (I_TB k' False 0 off') \<and> k' mod 16 = 15"
proof -
  have d: "a64_decode 0x3607FFE0 = Some (I_TB 0 False 0 (-4))"
    by (simp add: a64_decode_def simm_def signed_take_bit_numeral_bit1)
  have p: "plan_op 0x3607FFE0 0x1004 = Inr (Plan_TbzTbnz 0x3607FFE0 0 0x1000)"
    using plan_op_branch(5) [OF d refl, of "0x1004"] by simp
  have f: "in_window (mk_window 0x1000 2) (0x1004 + - 4)"
    by (simp add: in_window_def mk_window_def)
  have n: "(1 :: nat) < 512" by simp
  have t: "[0, 1] ! target_index (0x1004 + - 4) (mk_window 0x1000 2) < (1 :: nat)"
    by (simp add: target_index_def mk_window_def)
  from backward_test_branch_bit_wrong [OF d p f n t] show ?thesis by simp
qed

text \<open>
  \<open>plan_op\<close> refuses every \<open>adr\<close>, \<open>adrp\<close> and integer literal load, the instructions a copy would
  break; but its literal-load test compares five bits of the top byte, so it lets every SIMD literal
  load through as a verbatim copy and refuses the ordinary stores and loads with top byte \<open>0xF8\<close>,
  which do not depend on the program counter.
\<close>

theorem plan_op_pc_relative:
  "map (\<lambda>b. plan_op (push_bit 24 b OR (x AND 0xFFFFFF)) a) [0x10, 0x30, 0x50, 0x70, 0x90, 0xB0, 0xD0, 0xF0]
     = map (\<lambda>_. Inl (EntryPatchUnsupported ''adr/adrp in the displaced prologue'')) [1 .. 8] \<and>
   map (\<lambda>b. plan_op (push_bit 24 b OR (x AND 0xFFFFFF)) a) [0x18, 0x58, 0x98, 0xD8, 0xF8]
     = map (\<lambda>_. Inl (EntryPatchUnsupported ''literal load in the displaced prologue'')) [1 .. 5] \<and>
   map (\<lambda>b. plan_op (push_bit 24 b OR (x AND 0xFFFFFF)) a) [0x1C, 0x5C, 0x9C]
     = map (\<lambda>b. Inr (Plan_Verbatim (push_bit 24 b OR (x AND 0xFFFFFF)))) [0x1C, 0x5C, 0x9C]"
proof -
  have t: "drop_bit 24 (push_bit 24 b OR (x AND 0xFFFFFF)) = b AND 0xFF" for b :: u32
    unfolding blast32 by (simp add: bit_simps)
  have h: "w AND 0x7C000000 = push_bit 24 (drop_bit 24 w AND 0x7C)"
    "w AND 0xFC000000 = push_bit 24 (drop_bit 24 w AND 0xFC)" for w :: u32
    unfolding blast32 by (simp_all add: bit_simps)
  have p: "drop_bit 24 PACIBSP = 0xD5" by (simp add: PACIBSP_def)
  define f where "f b = push_bit 24 b OR (x AND 0xFFFFFF)" for b
  have np: "b AND 0xFF \<noteq> 0xD5 \<Longrightarrow> f b \<noteq> PACIBSP" for b
    using p t [of b] unfolding f_def by metis
  show ?thesis
    unfolding f_def [symmetric]
    by (simp add: plan_op_def h t [folded f_def] np Let_def upto_rec1)
qed

end
