(* ===== verification/Entry_Patch_Correct.thy ===== *)
theory Entry_Patch_Correct
  imports Entry_Patch Entry_Reloc_Correct
begin

text \<open>
  End to end properties of the entry patch: what the trampoline page holds and does when it is
  executed from the process memory, that a patched entry reaches the replacement, and that
  \<open>EntryPatchMemory\<close> behaves like a method-pointer slot.
\<close>

section \<open>Bytes and words\<close>

lemma u32_le_round_trip: "u32_from_le (u32_to_le w) = w"
  unfolding u32_to_le_def blast32 by (simp add: bit_simps)

lemma u32_to_le_length [simp]: "length (u32_to_le w) = 4" "length (u64_to_le v) = 8"
  by (simp_all add: u32_to_le_def u64_to_le_def)

lemma le_step:
  "push_bit 8 (drop_bit (n + 8) (v :: u64)) OR ucast (ucast (drop_bit n v) :: u8) = drop_bit n v"
proof (rule bit_eqI)
  fix k assume "possible_bit TYPE(64 word) k"
  then show "bit (push_bit 8 (drop_bit (n + 8) v) OR ucast (ucast (drop_bit n v) :: u8)) k
    = bit (drop_bit n v) k"
    by (cases "k < 8") (auto simp: bit_simps add.commute add.left_commute dest: bit_imp_le_length)
qed

lemma u64_le_round_trip: "u64_from_le (u64_to_le v) = v"
proof -
  have z: "drop_bit 64 v = 0" by (rule bit_eqI) (auto simp: bit_simps dest: bit_imp_le_length)
  have "u64_from_le (u64_to_le v) = push_bit 8 (push_bit 8 (push_bit 8 (push_bit 8 (push_bit 8
      (push_bit 8 (push_bit 8 (push_bit 8 (drop_bit (56 + 8) v) OR ucast (ucast (drop_bit 56 v) :: u8))
      OR ucast (ucast (drop_bit 48 v) :: u8)) OR ucast (ucast (drop_bit 40 v) :: u8))
      OR ucast (ucast (drop_bit 32 v) :: u8)) OR ucast (ucast (drop_bit 24 v) :: u8))
      OR ucast (ucast (drop_bit 16 v) :: u8)) OR ucast (ucast (drop_bit 8 v) :: u8))
      OR ucast (ucast (drop_bit 0 v) :: u8)"
    using z by (simp add: u64_from_le_def u64_to_le_def)
  also have "\<dots> = v"
    using le_step [of 56 v] le_step [of 48 v] le_step [of 40 v] le_step [of 32 v] le_step [of 24 v]
      le_step [of 16 v] le_step [of 8 v] le_step [of 0 v]
    by (simp only: numeral_plus_numeral add_num_simps add_0) simp
  finally show ?thesis .
qed

definition mem_fetch :: "(usize \<Rightarrow> u8) \<Rightarrow> usize \<Rightarrow> u32 option" where
  "mem_fetch m a = Some (u32_from_le (read_bytes m a 4))"

definition mem_ld64 :: "(usize \<Rightarrow> u8) \<Rightarrow> usize \<Rightarrow> u64" where
  "mem_ld64 m a = u64_from_le (read_bytes m a 8)"

lemma write_bytes_append:
  assumes "length xs + length ys < 2 ^ 64"
  shows "write_bytes (a + of_nat (length xs)) ys (write_bytes a xs m) = write_bytes a (xs @ ys) m"
proof
  fix b
  let ?d = "unat (b - a)"
  have u: "unat (of_nat (length xs) :: usize) = length xs" using assms by (simp add: unat_of_nat)
  have s: "b - (a + of_nat (length xs)) = (b - a) - of_nat (length xs)" by simp
  show "write_bytes (a + of_nat (length xs)) ys (write_bytes a xs m) b = write_bytes a (xs @ ys) m b"
  proof (cases "length xs \<le> ?d")
    case True
    then have "(of_nat (length xs) :: usize) \<le> b - a" using u by (simp add: word_le_nat_alt)
    then have "unat (b - (a + of_nat (length xs))) = ?d - length xs"
      unfolding s using u by (simp add: unat_sub)
    with True show ?thesis by (auto simp: write_bytes_def nth_append)
  next
    case False
    let ?n = "of_nat (length xs) :: usize"
    from False u have "\<not> ?n \<le> b - a" by (simp add: word_le_nat_alt)
    with u have "unat (b - (a + ?n)) = ?d + 2 ^ 64 - length xs"
      unfolding s by (subst unat_sub_if') (simp add: word_le_nat_alt)
    then have "\<not> unat (b - (a + ?n)) < length ys" using assms by linarith
    with False show ?thesis by (simp add: write_bytes_def nth_append)
  qed
qed

lemma read_within:
  assumes "i + n \<le> length xs" "length xs < 2 ^ 64"
  shows "read_bytes (write_bytes a xs m) (a + of_nat i) n = take n (drop i xs)"
proof (rule nth_equalityI)
  fix j assume j: "j < length (read_bytes (write_bytes a xs m) (a + of_nat i) n)"
  then have "j < n" by (simp add: read_bytes_def)
  moreover from this have "unat (of_nat i + of_nat j :: usize) = i + j"
    using assms unat_of_nat [of "i + j", where ?'a = 64] by simp
  ultimately show "read_bytes (write_bytes a xs m) (a + of_nat i) n ! j = take n (drop i xs) ! j"
    using assms by (simp add: read_bytes_def write_bytes_def)
qed (use assms in \<open>simp add: read_bytes_def\<close>)

lemma write_words_bytes:
  assumes "4 * length ws < 2 ^ 64"
  shows "write_words base ws m = write_bytes base (concat (map u32_to_le ws)) m"
  using assms
proof (induction ws rule: rev_induct)
  case Nil
  then show ?case by (simp add: write_words_def write_bytes_def fun_eq_iff)
next
  case (snoc w ws)
  have len: "length (concat (map u32_to_le ws)) = 4 * length ws"
    by (induction ws) simp_all
  have pre: "write_words base (ws @ [w]) m
    = write_bytes (base + of_nat (length ws) * 4) (u32_to_le w) (write_words base ws m)"
  proof -
    have "fold (\<lambda>i. write_bytes (base + of_nat i * 4) (u32_to_le ((ws @ [w]) ! i))) [0..<length ws] m
      = fold (\<lambda>i. write_bytes (base + of_nat i * 4) (u32_to_le (ws ! i))) [0..<length ws] m"
      by (rule fold_cong) (simp_all add: nth_append)
    then show ?thesis by (simp add: write_words_def)
  qed
  have "base + of_nat (length ws) * 4 = base + of_nat (length (concat (map u32_to_le ws)))"
    unfolding len by (simp add: mult.commute)
  with snoc pre show ?case
    using write_bytes_append [of "concat (map u32_to_le ws)" "u32_to_le w" base m] len by simp
qed

lemma slice_words:
  "k < length ws \<Longrightarrow> take 4 (drop (4 * k) (concat (map u32_to_le ws) @ rest)) = u32_to_le (ws ! k)"
proof (induction ws arbitrary: k)
  case (Cons w ws)
  then show ?case by (cases k) simp_all
qed simp

lemma placed_written:
  assumes "length (concat (map u32_to_le ws) @ rest) < 2 ^ 64"
  shows "placed (mem_fetch (write_bytes base (concat (map u32_to_le ws) @ rest) m)) base ws"
  unfolding placed_def
proof (intro allI impI)
  fix k assume k: "k < length ws"
  let ?bs = "concat (map u32_to_le ws) @ rest"
  have len: "length (concat (map u32_to_le ws)) = 4 * length ws" by (induction ws) simp_all
  have "read_bytes (write_bytes base ?bs m) (base + of_nat (4 * k)) 4 = take 4 (drop (4 * k) ?bs)"
    by (rule read_within) (use k len assms in simp_all)
  with slice_words [OF k, of rest]
  show "mem_fetch (write_bytes base ?bs m) (base + 4 * of_nat k) = Some (ws ! k)"
    by (simp add: mem_fetch_def u32_le_round_trip)
qed

section \<open>The trampoline in memory\<close>

definition tramp_plans :: "usize \<Rightarrow> u32 list \<Rightarrow> plan list" where
  "tramp_plans entry ws = (case plan_ops entry ws of Inr plans \<Rightarrow> plans | Inl _ \<Rightarrow> [])"

definition tramp_sizes :: "usize \<Rightarrow> u32 list \<Rightarrow> nat list" where
  "tramp_sizes entry ws =
     map (\<lambda>pl. plan_size pl (mk_window entry (length ws))) (tramp_plans entry ws)"

definition tramp_pos :: "usize \<Rightarrow> u32 list \<Rightarrow> nat list" where
  "tramp_pos entry ws = op_positions (tramp_sizes entry ws) 0"

definition tramp_len :: "usize \<Rightarrow> u32 list \<Rightarrow> nat" where
  "tramp_len entry ws = sum_list (tramp_sizes entry ws)"

definition tramp_bytes :: "usize \<Rightarrow> u32 list \<Rightarrow> u32 list \<Rightarrow> u8 list" where
  "tramp_bytes entry ws buf = concat (map u32_to_le (buf @ [LDR_X16_LITERAL_8, BR_X16]))
     @ u64_to_le (entry + of_nat (length ws) * 4)"

lemma emit_loop_total:
  assumes "plan_ops entry ws = Inr plans" "win = mk_window entry (length ws)"
  shows "\<exists>buf. emit_loop plans 0 (tramp_pos entry ws) win base [] = Inr buf
    \<and> length buf = tramp_len entry ws"
proof -
  have p: "tramp_plans entry ws = plans" using assms(1) by (simp add: tramp_plans_def)
  have pos: "tramp_pos entry ws = op_positions (map (\<lambda>p. plan_size p win) plans) 0"
    by (simp add: tramp_pos_def tramp_sizes_def p assms(2))
  let ?xss = "map (\<lambda>i. emit_words (plans ! i) i (tramp_pos entry ws ! i) (tramp_pos entry ws) win base)
      [0..<length plans]"
  have "emit_loop plans 0 (tramp_pos entry ws) win base [] = Inr (concat ?xss)"
    using emit_loop_words [OF refl pos, of 0 plans "[]" base] by simp
  moreover have "map length ?xss = map (\<lambda>p. plan_size p win) plans"
    by (rule nth_equalityI) (simp_all add: emit_words_length)
  then have "length (concat ?xss) = tramp_len entry ws"
    by (simp add: length_concat tramp_len_def tramp_sizes_def p assms(2))
  ultimately show ?thesis by blast
qed

lemma tramp_len_bound: "length ws \<le> 64 \<Longrightarrow> tramp_len entry ws \<le> 448"
proof -
  assume l: "length ws \<le> 64"
  have "length (tramp_plans entry ws) \<le> length ws"
    using plan_ops_nth(1) by (auto simp: tramp_plans_def split: sum.splits)
  with sum_sizes_bound [of "mk_window entry (length ws)" "tramp_plans entry ws"] l show ?thesis
    by (simp add: tramp_len_def tramp_sizes_def)
qed

lemma build_trampoline_spec:
  assumes os: "os_laws k os" and bt: "build_trampoline os entry ws p = (Inr base, p')"
    and ws: "length ws \<le> 64"
  obtains plans buf m where
    "plan_ops entry ws = Inr plans"
    "emit_loop plans 0 (tramp_pos entry ws) (mk_window entry (length ws)) base [] = Inr buf"
    "length buf = tramp_len entry ws"
    "pr_mem p' = write_bytes base (tramp_bytes entry ws buf) m"
    "\<And>a. page_of k a \<noteq> base \<Longrightarrow> pr_mem p' a = pr_mem p a"
    "base \<noteq> 0" "page_of k base = base" "base \<notin> set (pr_pages p)"
    "pr_pages p' = base # pr_pages p" "pr_stage p' = pr_stage p"
proof -
  note ps = os_page_size [OF os]
  from bt obtain plans where pl: "plan_ops entry ws = Inr plans"
    by (auto simp: build_trampoline_def Let_def split: sum.splits)
  obtain v p1 where mm: "os_mmap os (2 ^ k) False p = (v, p1)" by fastforce
  let ?win = "mk_window entry (length ws)"
  obtain buf where eb: "emit_loop plans 0 (tramp_pos entry ws) ?win base [] = Inr buf"
    and lb: "length buf = tramp_len entry ws"
    using emit_loop_total [OF pl refl] by blast
  have pos: "op_positions (map (\<lambda>pl. plan_size pl ?win) plans) 0 = tramp_pos entry ws"
    by (simp add: tramp_pos_def tramp_sizes_def tramp_plans_def pl)
  have bt': "(case v of None \<Rightarrow> (Inl (EntryPatchUnsupported ''trampoline mmap failed''), p1)
      | Some base \<Rightarrow>
          (case emit_loop plans 0 (tramp_pos entry ws) ?win base [] of
             Inl e \<Rightarrow> (Inl e, p1)
           | Inr buf \<Rightarrow>
               (let m1 = write_words base buf (pr_mem p1);
                    m2 = write_bytes (base + of_nat (length buf) * 4) (u32_to_le LDR_X16_LITERAL_8) m1;
                    m3 = write_bytes (base + of_nat (length buf) * 4 + 4) (u32_to_le BR_X16) m2;
                    m4 = write_bytes (base + of_nat (length buf) * 4 + 8)
                      (u64_to_le (entry + of_nat (length ws) * 4)) m3;
                    p2 = p1\<lparr> pr_mem := m4 \<rparr> in
                if \<not> os_mprotect os base (2 ^ k) PROT_RX p2
                then (Inl (EntryPatchUnsupported ''trampoline mprotect failed''), p2)
                else (Inr base, p2)))) = (Inr base, p')"
    using bt unfolding build_trampoline_def Let_def mk_window_def [symmetric] pl ps(1) sum.case mm
      prod.case pos .
  then have v: "v = Some base"
    by (auto simp: Let_def split: option.splits sum.splits if_splits)
  note mp = os_mmap_Some [OF os mm [unfolded v]]
  let ?pre = "concat (map u32_to_le buf)"
  have lp: "length ?pre = 4 * length buf" by (induction buf) simp_all
  have b448: "length buf \<le> 448" using lb tramp_len_bound [OF ws] by simp
  have "pr_mem p' = write_bytes (base + of_nat (length buf) * 4 + 8)
      (u64_to_le (entry + of_nat (length ws) * 4))
      (write_bytes (base + of_nat (length buf) * 4 + 4) (u32_to_le BR_X16)
        (write_bytes (base + of_nat (length buf) * 4) (u32_to_le LDR_X16_LITERAL_8)
          (write_words base buf (pr_mem p1))))"
    and p': "pr_pages p' = pr_pages p1" "pr_stage p' = pr_stage p1"
    using bt' unfolding v by (auto simp: eb Let_def split: if_splits)
  note mem = this(1)
  have a1: "base + of_nat (length buf) * 4 = base + of_nat (length ?pre)"
    unfolding lp by (simp add: mult.commute)
  have a2: "base + of_nat (length buf) * 4 + 4 = base + of_nat (length (?pre @ u32_to_le LDR_X16_LITERAL_8))"
    unfolding length_append lp by (simp add: mult.commute add.assoc)
  have a3: "base + of_nat (length buf) * 4 + 8
      = base + of_nat (length ((?pre @ u32_to_le LDR_X16_LITERAL_8) @ u32_to_le BR_X16))"
    unfolding length_append lp by (simp add: mult.commute add.assoc)
  have ww: "write_words base buf (pr_mem p1) = write_bytes base ?pre (pr_mem p1)"
    by (rule write_words_bytes) (use b448 in simp)
  have mem': "pr_mem p' = write_bytes base (tramp_bytes entry ws buf) (pr_mem p1)"
    unfolding mem a3 unfolding a2 unfolding a1 ww
    by (subst write_bytes_append, use lp b448 in simp, subst write_bytes_append, use lp b448 in simp,
        subst write_bytes_append, use lp b448 in simp, simp add: tramp_bytes_def)
  have k: "(2 :: nat) ^ 12 \<le> 2 ^ k"
    using os by (intro power_increasing) (simp_all add: os_laws_def)
  have tb: "length (tramp_bytes entry ws buf) \<le> 2 ^ k"
    using k lp b448 by (simp add: tramp_bytes_def)
  have out: "pr_mem p' a = pr_mem p a" if "page_of k a \<noteq> base" for a
  proof -
    have "\<not> unat (a - base) < length (tramp_bytes entry ws buf)"
      using in_page_iff [OF mp(2) ps(4), of a] that tb by simp
    with mp(6) [OF that] show ?thesis by (simp add: mem' write_bytes_def)
  qed
  show thesis
    by (rule that [OF pl eb lb mem' out mp(1,2,3)]) (use p' mp(4,5) in simp_all)
qed

lemma build_trampoline_frame:
  assumes "os_laws k os" "build_trampoline os entry ws p = (Inr base, p')" "length ws \<le> 64"
  shows "base \<noteq> 0 \<and> page_of k base = base \<and> base \<notin> set (pr_pages p) \<and>
    pr_pages p' = base # pr_pages p \<and> pr_stage p' = pr_stage p \<and> same_on k (set (pr_pages p)) p p'"
proof (rule build_trampoline_spec [OF assms])
  assume m: "\<And>a. page_of k a \<noteq> base \<Longrightarrow> pr_mem p' a = pr_mem p a" "base \<notin> set (pr_pages p)"
    and r: "base \<noteq> 0" "page_of k base = base" "pr_pages p' = base # pr_pages p"
      "pr_stage p' = pr_stage p"
  have "same_on k (set (pr_pages p)) p p'"
    unfolding same_on_def
  proof (intro allI impI)
    fix a assume "page_of k a \<in> set (pr_pages p)"
    with m(2) have "page_of k a \<noteq> base" by auto
    then show "pr_mem p' a = pr_mem p a" by (rule m(1))
  qed
  with m(2) r show ?thesis by simp
qed

lemma trampoline_in_memory:
  assumes "os_laws k os" "build_trampoline os entry ws p = (Inr base, p')" "length ws \<le> 64"
  obtains plans buf where
    "plan_ops entry ws = Inr plans"
    "emit_loop plans 0 (tramp_pos entry ws) (mk_window entry (length ws)) base [] = Inr buf"
    "length buf = tramp_len entry ws"
    "placed (mem_fetch (pr_mem p')) base (buf @ [LDR_X16_LITERAL_8, BR_X16])"
    "mem_ld64 (pr_mem p') (base + of_nat (tramp_len entry ws) * 4 + 8) = entry + of_nat (length ws) * 4"
proof (rule build_trampoline_spec [OF assms])
  fix plans buf m
  assume s: "plan_ops entry ws = Inr plans"
    "emit_loop plans 0 (tramp_pos entry ws) (mk_window entry (length ws)) base [] = Inr buf"
    "length buf = tramp_len entry ws"
    "pr_mem p' = write_bytes base (tramp_bytes entry ws buf) m"
  let ?ws = "buf @ [LDR_X16_LITERAL_8, BR_X16]" and ?q = "u64_to_le (entry + of_nat (length ws) * 4)"
  have lp: "length (concat (map u32_to_le bs)) = 4 * length bs" for bs by (induction bs) simp_all
  have b: "length (tramp_bytes entry ws buf) = 4 * length buf + 16"
    unfolding tramp_bytes_def length_append lp by simp
  have l: "length buf \<le> 448" using s(3) tramp_len_bound [OF assms(3)] by simp
  have pl: "placed (mem_fetch (pr_mem p')) base ?ws"
    unfolding s(4) tramp_bytes_def
    by (rule placed_written) (use b l in \<open>simp add: tramp_bytes_def\<close>)
  have "drop (4 * length buf + 8) (tramp_bytes entry ws buf) = ?q"
    unfolding tramp_bytes_def by (simp add: lp)
  with read_within [of "4 * length buf + 8" 8 "tramp_bytes entry ws buf" base m] b l
  have "read_bytes (pr_mem p') (base + of_nat (4 * length buf + 8)) 8 = ?q"
    unfolding s(4) by simp
  then have "mem_ld64 (pr_mem p') (base + of_nat (tramp_len entry ws) * 4 + 8) = entry + of_nat (length ws) * 4"
    by (simp add: mem_ld64_def s(3) u64_le_round_trip add.assoc mult.commute)
  with that s(1-3) pl show thesis by blast
qed

lemma run_ldr_br:
  assumes "fetch a = Some LDR_X16_LITERAL_8" "fetch (a + 4) = Some BR_X16" "ld (a + 8) = t" "pc c = a"
  shows "a64_run fetch ld 2 c = Some (c\<lparr> pc := t, regs := (regs c)(16 := t) \<rparr>)"
proof -
  have two: "(2 :: nat) = Suc (Suc 0)" by simp
  show ?thesis
    unfolding two using assms by (simp add: decode_fixed set_reg_def get_reg_def)
qed


text \<open>
  Behind the relocated instructions the trampoline jumps back to the first instruction after the
  displaced ones, changing no register but \<open>x16\<close>; and building it leaves every byte of every page
  that was mapped before untouched.
\<close>

theorem trampoline_jumps_back:
  assumes "os_laws k os" and "build_trampoline os entry ws p = (Inr base, p')"
    and "length ws \<le> 64"
  shows "a64_run (mem_fetch (pr_mem p')) (mem_ld64 (pr_mem p')) 2
      (c\<lparr> pc := base + of_nat (tramp_len entry ws) * 4 \<rparr>)
    = Some (c\<lparr> pc := entry + of_nat (length ws) * 4,
         regs := (regs c)(16 := entry + of_nat (length ws) * 4) \<rparr>) \<and>
    same_on k (set (pr_pages p)) p p'"
proof
  show "same_on k (set (pr_pages p)) p p'"
    using build_trampoline_frame [OF assms] by simp
  show "a64_run (mem_fetch (pr_mem p')) (mem_ld64 (pr_mem p')) 2
      (c\<lparr> pc := base + of_nat (tramp_len entry ws) * 4 \<rparr>)
    = Some (c\<lparr> pc := entry + of_nat (length ws) * 4,
         regs := (regs c)(16 := entry + of_nat (length ws) * 4) \<rparr>)"
  proof (rule trampoline_in_memory [OF assms])
    fix plans buf
    assume t: "length buf = tramp_len entry ws"
      "placed (mem_fetch (pr_mem p')) base (buf @ [LDR_X16_LITERAL_8, BR_X16])"
      "mem_ld64 (pr_mem p') (base + of_nat (tramp_len entry ws) * 4 + 8) = entry + of_nat (length ws) * 4"
    let ?a = "base + of_nat (tramp_len entry ws) * 4"
    from t(2) have f: "mem_fetch (pr_mem p') ?a = Some LDR_X16_LITERAL_8"
      "mem_fetch (pr_mem p') (?a + 4) = Some BR_X16"
      unfolding t(1) [symmetric] by (simp_all add: mult.commute)
    with t(3) run_ldr_br [of "mem_fetch (pr_mem p')" ?a "mem_ld64 (pr_mem p')" _ "c\<lparr> pc := ?a \<rparr>"]
    show ?thesis by simp
  qed
qed

section \<open>A process with one-page mappings, for the witnesses\<close>

definition demo_os :: os where
  "demo_os = \<lparr> os_sysconf_pagesize = 4096,
     os_mmap = (\<lambda>sz jit p.
       if 0x200000 \<notin> set (pr_pages p) then (Some 0x200000, p\<lparr> pr_pages := 0x200000 # pr_pages p \<rparr>)
       else if 0x300000 \<notin> set (pr_pages p) then (Some 0x300000, p\<lparr> pr_pages := 0x300000 # pr_pages p \<rparr>)
       else (None, p)),
     os_mprotect = (\<lambda>a sz pr p. True),
     os_remap = (\<lambda>page sz src p. (True, p\<lparr> pr_mem := (\<lambda>a.
       if page_of 12 a = page then pr_mem p (src + (a - page)) else pr_mem p a) \<rparr>)) \<rparr>"

lemma page_of_12: "page_of 12 a = a AND NOT 0xFFF"
  by (simp add: page_of_def mask_eq_exp_minus_1)

lemma demo_os_laws: "os_laws 12 demo_os"
  by (auto simp: os_laws_def demo_os_def mmap_law_def remap_law_def fail_law_def page_of_12
      split: if_splits)

definition demo_process :: process where
  "demo_process = \<lparr> pr_mem = write_bytes 0x1000 [0x61, 0, 0, 0xB4] (write_bytes 0x2000 [0, 0x10] (\<lambda>_. 0)),
     pr_pages = [0x1000, 0x2000, 0x5000], pr_stage = None \<rparr>"

text \<open>The displaced \<open>cbz x1, #12\<close> at \<open>0x1000\<close>, alone in its window.\<close>

lemma demo_build:
  "\<exists>p'. build_trampoline demo_os 0x1000 [0xB4000061] demo_process = (Inr 0x200000, p')"
proof -
  let ?win = "mk_window 0x1000 (length [0xB4000061 :: u32])"
  have m: "os_mmap demo_os 4096 False demo_process
    = (Some 0x200000, demo_process\<lparr> pr_pages := [0x200000, 0x1000, 0x2000, 0x5000] \<rparr>)"
    by (simp add: demo_os_def demo_process_def)
  have ps: "page_size demo_os = Inr 4096"
    by (simp add: page_size_def demo_os_def Let_def)
  have t: "os_mprotect demo_os a sz pr p = True" for a sz pr p by (simp add: demo_os_def)
  show ?thesis
    unfolding build_trampoline_def Let_def mk_window_def [symmetric] cbz_example(1) sum.case ps m
      prod.case option.case t
    using cbz_example(3) by (simp add: emit_op_def)
qed


theorem trampoline_jumps_back_witness:
  "\<exists>p'. build_trampoline demo_os 0x1000 [0xB4000061] demo_process = (Inr 0x200000, p') \<and>
    same_on 12 {0x1000, 0x2000, 0x5000} demo_process p'"
proof -
  obtain p' where b: "build_trampoline demo_os 0x1000 [0xB4000061] demo_process = (Inr 0x200000, p')"
    using demo_build by blast
  have len: "length [0xB4000061 :: u32] \<le> 64" by simp
  from trampoline_jumps_back [OF demo_os_laws b len] b show ?thesis
    by (auto simp: demo_process_def)
qed

section \<open>The patched entry\<close>

lemma read_sub:
  assumes "read_bytes m a l = xs" "i + n \<le> l"
  shows "read_bytes m (a + of_nat i) n = take n (drop i xs)"
  using assms by (intro nth_equalityI) (auto simp: read_bytes_def add.assoc)

lemma patched_entry_runs:
  assumes "read_bytes m entry (length (entry_patch_bytes entry repl)) = entry_patch_bytes entry repl"
  shows "\<exists>n \<le> 2. \<exists>c'. a64_run (mem_fetch m) (mem_ld64 m) n (c\<lparr> pc := entry \<rparr>) = Some c' \<and>
    pc c' = repl \<and> flags c' = flags c \<and> (\<forall>r. r \<noteq> 16 \<longrightarrow> regs c' r = regs c r)"
proof -
  let ?off = "uint repl - uint entry"
  let ?imm = "drop_bit 2 ?off"
  show ?thesis
  proof (cases "?off AND 3 = 0 \<and> - BRANCH_IMM26_WORDS \<le> ?imm \<and> ?imm < BRANCH_IMM26_WORDS")
    case True
    let ?w = "0x14000000 OR (word_of_int ?imm AND 0x03FFFFFF) :: u32"
    have bytes: "entry_patch_bytes entry repl = u32_to_le ?w"
      using True by (simp add: entry_patch_bytes_def Let_def)
    have w: "?w = b_enc 5 (word_of_int ?imm)"
      by (simp add: b_enc_def ucast_int_64_32)
    have off: "4 * ?imm = ?off"
    proof -
      have "?off AND 3 = take_bit 2 ?off" by (simp add: take_bit_eq_mask mask_eq_exp_minus_1)
      then have "?off mod 4 = 0" using True by (simp add: take_bit_eq_mod)
      then have "4 * (?off div 4) = ?off" by presburger
      then show ?thesis by (simp add: drop_bit_eq_div)
    qed
    have m: "(0x3FFFFFF :: u32) = mask 26" by (simp add: mask_eq_exp_minus_1)
    have "simm 26 (take_bit 26 (word_of_int ?imm)) = word_of_int ?imm"
      by (rule simm_small) (use True in \<open>simp_all add: BRANCH_IMM26_WORDS_def\<close>)
    moreover have "(4 :: u64) * word_of_int ?imm = word_of_int ?off"
      using arg_cong [OF off, of "word_of_int :: int \<Rightarrow> u64"] by (simp only: of_int_mult of_int_numeral)
    ultimately have "4 * simm 26 (ucast (word_of_int ?imm :: u64) AND 0x3FFFFFF) = word_of_int ?off"
      unfolding ucast_int_64_32 m take_bit_eq_mask [symmetric] by (simp only:)
    moreover have "entry + word_of_int ?off = repl" by simp
    moreover have "mem_fetch m entry = Some ?w"
      using assms unfolding bytes by (simp add: mem_fetch_def u32_le_round_trip)
    ultimately show ?thesis
      by (intro exI [of _ 1]) (simp add: w decode_b)
  next
    case False
    have bytes: "entry_patch_bytes entry repl
      = u32_to_le LDR_X16_LITERAL_8 @ u32_to_le BR_X16 @ u64_to_le repl"
      using False by (auto simp: entry_patch_bytes_def Let_def)
    note rd = read_sub [OF assms [unfolded bytes]]
    have "mem_fetch m entry = Some LDR_X16_LITERAL_8"
      using rd [of 0 4] by (simp add: mem_fetch_def u32_le_round_trip)
    moreover have "mem_fetch m (entry + 4) = Some BR_X16"
      using rd [of 4 4] by (simp add: mem_fetch_def u32_le_round_trip)
    moreover have "mem_ld64 m (entry + 8) = repl"
      using rd [of 8 8] by (simp add: mem_ld64_def u64_le_round_trip)
    ultimately have "a64_run (mem_fetch m) (mem_ld64 m) 2 (c\<lparr> pc := entry \<rparr>)
      = Some (c\<lparr> pc := repl, regs := (regs c)(16 := repl) \<rparr>)"
      using run_ldr_br [of "mem_fetch m" entry "mem_ld64 m" repl "c\<lparr> pc := entry \<rparr>"] by simp
    then show ?thesis by (intro exI [of _ 2]) simp
  qed
qed

lemma entry_patch_bytes_length: "length (entry_patch_bytes entry repl) \<le> 16"
  by (simp add: entry_patch_bytes_def Let_def)

lemma chunks4_length: "length (chunks4 bs) = length bs div 4"
  by (induction bs rule: chunks4.induct) simp_all

text \<open>The displaced code and the replacement are mapped, and the staging page is another one.\<close>

definition hookable :: "nat \<Rightarrow> process \<Rightarrow> usize \<Rightarrow> usize \<Rightarrow> bool" where
  "hookable k p entry repl \<longleftrightarrow>
     (\<forall>i < 16. page_of k (entry + of_nat i) \<in> set (pr_pages p)) \<and>
     page_of k repl \<in> set (pr_pages p) \<and>
     (\<forall>st. pr_stage p = Some st \<longrightarrow> page_of k st = st \<and> st \<in> set (pr_pages p) \<and> st \<noteq> page_of k entry)"

lemma entry_patch_new_wf:
  assumes os: "os_laws k os" and new: "entry_patch_new os method repl p = (Inr e, p')"
    and hk: "hookable k p (ep_entry e) repl"
  shows "ep_wf k os (e, p') \<and> \<not> ep_installed e \<and> ep_replacement e = repl \<and>
    ep_patch e = entry_patch_bytes (ep_entry e) repl \<and>
    ep_original e = read_bytes (pr_mem p) (ep_entry e) (length (ep_patch e))"
proof -
  let ?en = "ep_entry e" and ?pt = "entry_patch_bytes (ep_entry e) repl"
  let ?ops = "map u32_from_le (chunks4 (read_bytes (pr_mem p) ?en (length ?pt)))"
  from new have bt: "build_trampoline os ?en ?ops p = (Inr (ep_trampoline e), p')"
    and e: "\<not> ep_installed e" "ep_replacement e = repl" "ep_patch e = ?pt"
      "ep_original e = read_bytes (pr_mem p) ?en (length ?pt)"
    by (auto simp: entry_patch_new_def Let_def split: if_splits prod.splits sum.splits)
  have l16: "length ?pt \<le> 16" by (rule entry_patch_bytes_length)
  then have "length ?ops \<le> 64" by (simp add: chunks4_length read_bytes_def)
  note fr = build_trampoline_frame [OF os bt this]
  have in_p: "page_of k (?en + of_nat i) \<in> set (pr_pages p)" if "i < 16" for i
    using hk that by (simp add: hookable_def)
  from in_p [of 0] have en: "page_of k ?en \<in> set (pr_pages p)" by simp
  have rd: "read_bytes (pr_mem p') ?en (length ?pt) = read_bytes (pr_mem p) ?en (length ?pt)"
    by (rule read_bytes_eqI) (use fr l16 in_p in \<open>simp add: same_on_def\<close>)
  have nr: "ep_trampoline e \<noteq> repl"
    using fr hk by (auto simp: hookable_def)
  have ap: "apart k {page_of k ?en, page_of k (ep_trampoline e)} p'"
    using fr hk en by (auto simp: apart_def hookable_def)
  have ne: "page_of k ?en \<noteq> page_of k (ep_trampoline e)" using fr en by auto
  show ?thesis
    using os e nr ap ne rd l16 by (simp add: ep_wf_def read_bytes_def)
qed

definition ep_static :: "entry_patch_memory \<Rightarrow> usize \<times> usize \<times> usize \<times> u8 list \<times> u8 list" where
  "ep_static e = (ep_entry e, ep_replacement e, ep_trampoline e, ep_patch e, ep_original e)"

lemma cas_static:
  "ep_compare_exchange os a b m = (r, m') \<Longrightarrow> ep_static (fst m') = ep_static (fst m)"
  by (auto simp: ep_compare_exchange_def Let_def ep_patch_entry_def ep_unpatch_entry_def ep_static_def
      split: if_splits prod.splits sum.splits)

lemma install_static:
  "slot_install (entry_patch_slot os) id repl s = (r, s') \<Longrightarrow>
     ep_static (fst (mps_memory s')) = ep_static (fst (mps_memory s))"
  by (auto simp: slot_install_def entry_patch_slot_def Let_def split: prod.splits sum.splits
      dest!: cas_static)

lemma restore_static:
  "slot_restore (entry_patch_slot os) id repl s = (r, s') \<Longrightarrow>
     ep_static (fst (mps_memory s')) = ep_static (fst (mps_memory s))"
  by (auto simp: slot_restore_def entry_patch_slot_def Let_def split: prod.splits sum.splits
      dest!: cas_static)

text \<open>
  C2: hooking a function by its entry works end to end.  When \<open>EntryPatchMemory::new\<close> has bound a
  mapped function and the slot install over it reports success, executing the function's entry
  reaches the replacement in at most two instructions with every register but \<open>x16\<close> as it was; the
  slot's original is the trampoline; and after a successful restore the entry holds its original
  bytes again, while an install or restore that reports an error has left the entry's bytes as they
  were.
\<close>

theorem entry_patch_hook:
  assumes "os_laws k os" and "entry_patch_new os method repl p = (Inr e, p0)"
    and "hookable k p (ep_entry e) repl"
    and "slot_bind (entry_patch_slot os) (e, p0) = Inr s"
    and "slot_install (entry_patch_slot os) id repl s = (r1, s1)"
    and "slot_restore (entry_patch_slot os) id repl s1 = (r2, s2)"
  shows "mps_original s = ep_trampoline e \<and>
    (case snd (mps_memory s1) of p1 \<Rightarrow>
      (if r1 = Inr ()
       then (\<exists>n \<le> 2. \<exists>c'. a64_run (mem_fetch (pr_mem p1)) (mem_ld64 (pr_mem p1)) n
              (c\<lparr> pc := ep_entry e \<rparr>) = Some c' \<and> pc c' = repl \<and> flags c' = flags c \<and>
              (\<forall>r. r \<noteq> 16 \<longrightarrow> regs c' r = regs c r))
       else read_bytes (pr_mem p1) (ep_entry e) (length (ep_original e)) = ep_original e)) \<and>
    (r2 = Inr () \<or> r1 \<noteq> Inr () \<longrightarrow>
      read_bytes (pr_mem (snd (mps_memory s2))) (ep_entry e) (length (ep_original e)) = ep_original e)"
proof -
  note nw = entry_patch_new_wf [OF assms(1-3)]
  from entry_patch.bind_reads [OF assms(4)] have m: "mps_memory s = (e, p0)"
    and o: "ep_state_word e = mps_original s"
    by (simp_all add: entry_patch_slot_def ep_read_def)
  have wf: "ep_wf k os (mps_memory s)" using nw m by simp
  obtain e1 p1 e2 p2 where m1: "mps_memory s1 = (e1, p1)" and m2: "mps_memory s2 = (e2, p2)"
    by fastforce
  note iw = entry_patch.install_word [OF wf assms(5)]
  then have wf1: "ep_wf k os (mps_memory s1)" by simp
  note rw = entry_patch.restore_word [OF wf1 assms(6)]
  have st1: "ep_static e1 = ep_static e"
    using install_static [OF assms(5)] m m1 by simp
  have st2: "ep_static e2 = ep_static e"
    using restore_static [OF assms(6)] m1 m2 st1 by simp
  have tr: "mps_original s = ep_trampoline e" using o nw by (simp add: ep_state_word_def)
  have nt: "ep_trampoline e \<noteq> repl" using nw by (auto simp: ep_wf_def)
  have c: "slot_current (entry_patch_slot os) t = Some (ep_state_word (fst (mps_memory t)))"
    for t :: "(entry_patch_memory \<times> process) method_pointer_slot"
    by (simp add: slot_current_def entry_patch_slot_def ep_read_def)
  have b1: "read_bytes (pr_mem p1) (ep_entry e) (length (ep_original e))
      = (if ep_installed e1 then ep_patch e else ep_original e)"
    using wf1 st1 by (simp add: m1 ep_wf_def ep_static_def)
  have b2: "read_bytes (pr_mem p2) (ep_entry e) (length (ep_original e))
      = (if ep_installed e2 then ep_patch e else ep_original e)"
    using rw st2 by (simp add: m2 ep_wf_def ep_static_def)
  have i1: "ep_installed e1 \<longleftrightarrow> r1 = Inr ()"
    using iw c [of s] c [of s1] st1 nw tr nt
    by (auto simp: m m1 ep_state_word_def ep_static_def split: if_splits)
  have i2: "r2 = Inr () \<or> r1 \<noteq> Inr () \<Longrightarrow> \<not> ep_installed e2"
    using rw iw c [of s] c [of s1] c [of s2] st1 st2 nw tr nt i1
    by (auto simp: m m1 m2 ep_state_word_def ep_static_def split: if_splits)
  have run: "r1 = Inr () \<Longrightarrow> \<exists>n \<le> 2. \<exists>c'. a64_run (mem_fetch (pr_mem p1)) (mem_ld64 (pr_mem p1)) n
      (c\<lparr> pc := ep_entry e \<rparr>) = Some c' \<and> pc c' = repl \<and> flags c' = flags c \<and>
      (\<forall>r. r \<noteq> 16 \<longrightarrow> regs c' r = regs c r)"
    using b1 i1 nw by (intro patched_entry_runs) (simp add: read_bytes_def)
  show ?thesis using run b1 b2 i1 i2 tr m1 m2 by auto
qed

definition demo_method :: method_ref where
  "demo_method = \<lparr> m_assembly = ''Game.dll'', m_namespace = [], m_class = ''C'', m_method = ''M'',
     m_param_count = 0, m_is_static = True, m_return_type = ''void'', m_parameter_types = [],
     m_is_generic = False, m_is_inflated = False, m_method_info = 0x2000,
     m_method_pointer_slot = 0x2000 \<rparr>"

lemma demo_bytes:
  "read_bytes (pr_mem demo_process) 0x2000 8 = [0, 0x10, 0, 0, 0, 0, 0, 0]"
  "read_bytes (pr_mem demo_process) 0x1000 4 = [0x61, 0, 0, 0xB4]"
  by (simp_all add: read_bytes_def demo_process_def write_bytes_def upt_rec)

lemma demo_new:
  "\<exists>e p0. entry_patch_new demo_os demo_method 0x5000 demo_process = (Inr e, p0) \<and>
     ep_entry e = 0x1000 \<and> ep_trampoline e = 0x200000 \<and> \<not> ep_installed e"
proof -
  obtain p' where b: "build_trampoline demo_os 0x1000 [0xB4000061] demo_process = (Inr 0x200000, p')"
    using demo_build by blast
  have en: "u64_from_le (read_bytes (pr_mem demo_process) 0x2000 8) = 0x1000"
    unfolding demo_bytes by (simp add: u64_from_le_def)
  have pt: "length (entry_patch_bytes 0x1000 0x5000) = 4"
    by (simp add: entry_patch_bytes_def Let_def BRANCH_IMM26_WORDS_def)
  have wd: "map u32_from_le (chunks4 (read_bytes (pr_mem demo_process) 0x1000 4)) = [0xB4000061]"
    unfolding demo_bytes by simp
  show ?thesis
    unfolding entry_patch_new_def Let_def demo_method_def method_ref.simps en pt wd b prod.case sum.case
    by simp
qed

theorem entry_patch_hook_witness:
  "\<exists>e p0 s r1 s1 r2 s2. entry_patch_new demo_os demo_method 0x5000 demo_process = (Inr e, p0) \<and>
     slot_bind (entry_patch_slot demo_os) (e, p0) = Inr s \<and>
     slot_install (entry_patch_slot demo_os) id 0x5000 s = (r1, s1) \<and>
     slot_restore (entry_patch_slot demo_os) id 0x5000 s1 = (r2, s2) \<and> mps_original s = 0x200000"
proof -
  obtain e p0 where n: "entry_patch_new demo_os demo_method 0x5000 demo_process = (Inr e, p0)"
    and e: "ep_entry e = 0x1000" "ep_trampoline e = 0x200000" "\<not> ep_installed e"
    using demo_new by blast
  have hk: "hookable 12 demo_process (ep_entry e) 0x5000"
  proof -
    have "page_of 12 (0x1000 :: usize) = 0x1000" "page_of 12 (0x5000 :: usize) = 0x5000"
      by (simp_all add: page_of_12)
    moreover have "page_of 12 (0x1000 + of_nat i) = 0x1000" if "i < 16" for i
    proof (rule page_of_add)
      show "unat (of_nat i :: usize) < 2 ^ 12" using that by (simp add: unat_of_nat)
    qed (simp_all add: page_of_12)
    ultimately show ?thesis by (simp add: hookable_def e demo_process_def)
  qed
  obtain s where b: "slot_bind (entry_patch_slot demo_os) (e, p0) = Inr s"
    using e by (auto simp: slot_bind_def entry_patch_slot_def ep_read_def ep_state_word_def)
  obtain r1 s1 where i: "slot_install (entry_patch_slot demo_os) id 0x5000 s = (r1, s1)" by fastforce
  obtain r2 s2 where r: "slot_restore (entry_patch_slot demo_os) id 0x5000 s1 = (r2, s2)" by fastforce
  from entry_patch_hook [OF demo_os_laws n hk b i r] n b i r e show ?thesis by auto
qed

end
