(* ===== verification/Hook.thy ===== *)
theory Hook
  imports Gate Method_Slot Original_Guard Mailbox
begin

text \<open>
  The hook layer of \<open>crates/core/src/plugin_api/hook.rs\<close>: a static hook site, its publication, the
  installation over a slot memory, the dispatch of a game call and the ownership-aware restore.

  A handler is author code: it is a tree of the actions it takes (\<open>handler\<close>), and the functions it
  calls may return or panic (\<open>flow\<close>).  The world \<open>'w\<close> is whatever the original and the handler act
  on.  \<open>'o\<close> is the typed original, \<open>'c\<close> the plugin's container, \<open>'m\<close> the slot memory.
\<close>

section \<open>Targets and sites\<close>

record 'o hook_target =
  ht_target :: target_id
  ht_mechanism :: hook_mechanism
  ht_replacement_addr :: "'o \<Rightarrow> usize"
  ht_original_from_raw :: "usize \<Rightarrow> 'o"

definition ht_validate :: "'o hook_target \<Rightarrow> method_ref \<Rightarrow> (hook_error, unit) result" where
  [hook_simps]: "ht_validate T method =
     (if method_ref_matches_target method (ht_target T) then Inr () else Inl SignatureMismatch)"

text \<open>A gate reader shares the flag of the runtime gate or of one owner's gate.\<close>

datatype gate_reader = Runtime_Reader | Owner_Reader owner_id

record gate_env =
  ge_runtime :: runtime_gate
  ge_owner :: "owner_id \<Rightarrow> plugin_gate"

fun reader_is_open :: "gate_env \<Rightarrow> gate_reader \<Rightarrow> bool" where
  "reader_is_open G Runtime_Reader = gate_is_open (ge_runtime G)"
| "reader_is_open G (Owner_Reader w) = plugin_gate_is_open (ge_owner G w)"

record site_gates =
  sg_runtime :: gate_reader
  sg_plugin :: gate_reader

record 'm active_hook =
  ah_slot :: "'m method_pointer_slot"
  ah_replacement_addr :: usize

record ('o, 'c, 'm) site_inner =
  si_container :: 'c
  si_gates :: site_gates
  si_replacement :: 'o
  si_original_addr :: usize
  si_method_info_addr :: usize
  si_installed :: bool
  si_active :: "'m active_hook option"

text \<open>The site is the \<open>OnceLock\<close> over its inner part.\<close>

type_synonym ('o, 'c, 'm) hook_site = "('o, 'c, 'm) site_inner option"

definition site_new :: "('o, 'c, 'm) hook_site" where
  [hook_simps]: "site_new = None"

definition is_published :: "('o, 'c, 'm) hook_site \<Rightarrow> bool" where
  [hook_simps]: "is_published s \<longleftrightarrow> s \<noteq> None"

definition is_dispatchable :: "'m slot_ops \<Rightarrow> gate_env \<Rightarrow> ('o, 'c, 'm) hook_site \<Rightarrow> bool" where
  [hook_simps]: "is_dispatchable M G s =
     (case s of
        Some i \<Rightarrow>
          (case si_active i of
             Some a \<Rightarrow> slot_current M (ah_slot a) = Some (ah_replacement_addr a)
           | None \<Rightarrow> False)
          \<and> reader_is_open G (sg_runtime (si_gates i))
          \<and> reader_is_open G (sg_plugin (si_gates i))
      | None \<Rightarrow> False)"

section \<open>Dispatch\<close>

datatype 'r flow = Returns 'r | Panics

datatype ('o, 'w, 'x, 'r) handler =
    H_Return 'r
  | H_Panic
  | H_Do "'w \<Rightarrow> 'w" "('o, 'w, 'x, 'r) handler"
  | H_Get "'w \<Rightarrow> ('o, 'w, 'x, 'r) handler"
  | H_Call "'o \<Rightarrow> 'w \<Rightarrow> 'x flow \<times> 'w" "'x option \<Rightarrow> ('o, 'w, 'x, 'r) handler"

text \<open>\<open>Callback::call_original\<close>: an unwind out of the call leaves the guard in \<open>CallingOriginal\<close>.\<close>

definition call_original ::
  "'o hook_target \<Rightarrow> ('o, 'c, 'm) site_inner \<Rightarrow> ('o \<Rightarrow> 'w \<Rightarrow> 'x flow \<times> 'w)
     \<Rightarrow> original_guard \<Rightarrow> 'w \<Rightarrow> 'x option flow \<times> original_guard \<times> 'w" where
  [hook_simps]: "call_original T i call g w =
     (case guard_begin_call g of
        (False, g') \<Rightarrow> (Returns None, g', w)
      | (True, g') \<Rightarrow>
          (let original = ht_original_from_raw T (si_original_addr i) in
           case call original w of
             (Returns x, w') \<Rightarrow> (Returns (Some x), guard_end_call g', w')
           | (Panics, w') \<Rightarrow> (Panics, g', w')))"

primrec run_handler ::
  "'o hook_target \<Rightarrow> ('o, 'c, 'm) site_inner \<Rightarrow> ('o, 'w, 'x, 'r) handler \<Rightarrow> original_guard \<Rightarrow> 'w
     \<Rightarrow> 'r flow \<times> original_guard \<times> 'w" where
  "run_handler T i (H_Return r) g w = (Returns r, g, w)"
| "run_handler T i H_Panic g w = (Panics, g, w)"
| "run_handler T i (H_Do f h) g w = run_handler T i h g (f w)"
| "run_handler T i (H_Get k) g w = (\<lambda>h. h g w) (run_handler T i (k w))"
| "run_handler T i (H_Call call k) g w =
     (case call_original T i call g w of
        (Panics, g', w') \<Rightarrow> (Panics, g', w')
      | (Returns x, g', w') \<Rightarrow> (\<lambda>h. h g' w') (run_handler T i (k x)))"

definition dispatch ::
  "'o hook_target \<Rightarrow> 'm slot_ops \<Rightarrow> gate_env \<Rightarrow> ('o \<Rightarrow> 'w \<Rightarrow> 'r flow \<times> 'w) \<Rightarrow> ('w \<Rightarrow> 'r flow \<times> 'w)
     \<Rightarrow> ('o, 'w, 'x, 'r) handler \<Rightarrow> ('o, 'c, 'm) hook_site \<Rightarrow> 'w \<Rightarrow> 'r flow \<times> 'w" where
  "dispatch T M G passthrough fallback handler site w =
     (case site of
        None \<Rightarrow> fallback w
      | Some i \<Rightarrow>
          (case si_active i of
             None \<Rightarrow> fallback w
           | Some active \<Rightarrow>
               if slot_current M (ah_slot active) \<noteq> Some (ah_replacement_addr active) then fallback w
               else
                 (let addr = si_original_addr i in
                  if addr = 0 then fallback w
                  else
                    (let original = ht_original_from_raw T addr in
                     if \<not> reader_is_open G (sg_runtime (si_gates i))
                        \<or> \<not> reader_is_open G (sg_plugin (si_gates i))
                     then passthrough original w
                     else
                       (case run_handler T i handler guard_new w of
                          (Returns result, g, w') \<Rightarrow>
                            if guard_needs_original g then passthrough original w'
                            else (Returns result, w')
                        | (Panics, g, w') \<Rightarrow>
                            (case guard_phase g of
                               BeforeOriginal \<Rightarrow> passthrough original w'
                             | CallingOriginal \<Rightarrow> fallback w'
                             | AfterOriginal \<Rightarrow> fallback w'))))))"

section \<open>Publication and installation\<close>

text \<open>\<open>HookBuilder::handler\<close>\<close>

definition hook_handler ::
  "'c \<Rightarrow> owner_id \<Rightarrow> 'o \<Rightarrow> ('o, 'c, 'm) hook_site
     \<Rightarrow> (hook_error, unit) result \<times> ('o, 'c, 'm) hook_site" where
  [hook_simps]: "hook_handler container w replacement site =
     (let inner = \<lparr> si_container = container,
            si_gates = \<lparr> sg_runtime = Runtime_Reader, sg_plugin = Owner_Reader w \<rparr>,
            si_replacement = replacement, si_original_addr = 0, si_method_info_addr = 0,
            si_installed = False, si_active = None \<rparr> in
      case site of
        Some _ \<Rightarrow> (Inl SiteAlreadyRegistered, site)
      | None \<Rightarrow> (Inr (), Some inner))"

text \<open>The method resolver of the runtime's backend, as the hook layer sees it.\<close>

record 'm method_resolver =
  mr_resolve :: "target_id \<Rightarrow> (hook_error, method_ref) result"
  mr_slot_memory :: "method_ref \<Rightarrow> 'm"
  mr_entry_patch_memory :: "method_ref \<Rightarrow> usize \<Rightarrow> (hook_error, 'm) result"

text \<open>\<open>HookState\<close>: its slot and its flag are the site's own.\<close>

record hook_state =
  hs_replacement :: usize
  hs_method_info :: usize

definition hook_memory ::
  "'o hook_target \<Rightarrow> 'm method_resolver \<Rightarrow> method_ref \<Rightarrow> usize \<Rightarrow> (hook_error, 'm) result" where
  [hook_simps]: "hook_memory T resolver method replacement_addr =
     (case ht_mechanism T of
        MethodPointerSlotMech \<Rightarrow> Inr (mr_slot_memory resolver method)
      | EntryPatchMech \<Rightarrow> mr_entry_patch_memory resolver method replacement_addr)"

text \<open>Everything before the slot is touched: resolution, validation and the bind.\<close>

definition hook_bind ::
  "'o hook_target \<Rightarrow> 'm slot_ops \<Rightarrow> 'm method_resolver \<Rightarrow> ('o, 'c, 'm) site_inner
     \<Rightarrow> (hook_error, method_ref \<times> 'm method_pointer_slot) result" where
  [hook_simps]: "hook_bind T M resolver i =
     bind_result (mr_resolve resolver (ht_target T)) (\<lambda>method.
     bind_result (ht_validate T method) (\<lambda>_.
     bind_result (hook_memory T resolver method (ht_replacement_addr T (si_replacement i))) (\<lambda>memory.
     bind_result (slot_bind M memory) (\<lambda>slot. Inr (method, slot)))))"

text \<open>\<open>install\<close> returns its result, the site, and whether the restore action was registered.  The
  game may write the slot between the bind and the exchange, and again before the readback.\<close>

definition hook_install ::
  "'o hook_target \<Rightarrow> 'm slot_ops \<Rightarrow> ('m \<Rightarrow> 'm) \<Rightarrow> 'm method_resolver option \<Rightarrow> ('o, 'c, 'm) hook_site
     \<Rightarrow> (plugin_error, hook_state) result \<times> ('o, 'c, 'm) hook_site \<times> bool" where
  "hook_install T M env resolver_opt site =
     (case site of
        None \<Rightarrow> (Inl (Hook SiteAlreadyRegistered), site, False)
      | Some i \<Rightarrow>
          (case resolver_opt of
             None \<Rightarrow> (Inl (Message ''method resolver unavailable''), site, False)
           | Some resolver \<Rightarrow>
               (case hook_bind T M resolver i of
                  Inl e \<Rightarrow> (Inl (Hook e), site, False)
                | Inr (method, slot) \<Rightarrow>
                    (let replacement_addr = ht_replacement_addr T (si_replacement i);
                         i1 = i\<lparr> si_original_addr := slot_original slot,
                              si_method_info_addr := m_method_info method \<rparr> in
                     if si_active i1 \<noteq> None then (Inl (Hook SiteAlreadyRegistered), Some i1, False)
                     else
                       (case slot_install M env replacement_addr
                               (slot\<lparr> mps_memory := env (mps_memory slot) \<rparr>) of
                          (Inl InstallationFailed, slot1) \<Rightarrow>
                            (case slot_restore M env replacement_addr slot1 of
                               (_, slot2) \<Rightarrow>
                                 (Inl (Hook InstallationFailed),
                                  Some (i1\<lparr> si_active := Some \<lparr> ah_slot = slot2,
                                    ah_replacement_addr = replacement_addr \<rparr> \<rparr>), False))
                        | (Inl e, slot1) \<Rightarrow>
                            (Inl (Hook e),
                             Some (i1\<lparr> si_active := Some \<lparr> ah_slot = slot1,
                               ah_replacement_addr = replacement_addr \<rparr> \<rparr>), False)
                        | (Inr _, slot1) \<Rightarrow>
                            (Inr \<lparr> hs_replacement = replacement_addr,
                               hs_method_info = m_method_info method \<rparr>,
                             Some (i1\<lparr> si_active := Some \<lparr> ah_slot = slot1,
                               ah_replacement_addr = replacement_addr \<rparr>, si_installed := True \<rparr>),
                             True))))))"

section \<open>Restore\<close>

definition with_slot ::
  "('m method_pointer_slot \<Rightarrow> 'a \<times> 'm method_pointer_slot) \<Rightarrow> ('o, 'c, 'm) site_inner
     \<Rightarrow> 'a option \<times> ('o, 'c, 'm) site_inner" where
  [hook_simps]: "with_slot f i =
     (case si_active i of
        None \<Rightarrow> (None, i)
      | Some a \<Rightarrow> (case f (ah_slot a) of (r, s) \<Rightarrow> (Some r, i\<lparr> si_active := Some (a\<lparr> ah_slot := s \<rparr>) \<rparr>)))"

text \<open>The restore action of the owner ledger.\<close>

definition hook_restore_action ::
  "'m slot_ops \<Rightarrow> ('m \<Rightarrow> 'm) \<Rightarrow> hook_state \<Rightarrow> ('o, 'c, 'm) site_inner
     \<Rightarrow> (restore_error, unit) result \<times> ('o, 'c, 'm) site_inner" where
  "hook_restore_action M env st i =
     (if \<not> si_installed i then (Inr (), i)
      else
        (case with_slot (slot_restore M env (hs_replacement st)) (i\<lparr> si_installed := False \<rparr>) of
           (Some (Inr _), i') \<Rightarrow> (Inr (), i')
         | (Some (Inl OwnershipDrift), i') \<Rightarrow> (Inl OwnershipLost, i')
         | (_, i') \<Rightarrow> (Inl RestoreFailed, i'\<lparr> si_installed := True \<rparr>)))"

text \<open>\<open>HookState::restore\<close>, behind \<open>InstalledHook::restore\<close>.\<close>

definition hook_state_restore ::
  "'m slot_ops \<Rightarrow> ('m \<Rightarrow> 'm) \<Rightarrow> hook_state \<Rightarrow> ('o, 'c, 'm) site_inner
     \<Rightarrow> (hook_error, unit) result \<times> ('o, 'c, 'm) site_inner" where
  "hook_state_restore M env st i =
     (if \<not> si_installed i then (Inl OwnershipDrift, i)
      else
        (case with_slot (slot_restore M env (hs_replacement st)) (i\<lparr> si_installed := False \<rparr>) of
           (Some (Inr _), i') \<Rightarrow> (Inr (), i')
         | (Some (Inl InstallationFailed), i') \<Rightarrow>
             (Inl InstallationFailed, i'\<lparr> si_installed := True \<rparr>)
         | (Some (Inl e), i') \<Rightarrow> (Inl e, i')
         | (None, i') \<Rightarrow> (Inl OwnershipDrift, i')))"

text \<open>\<open>InstalledHook::call_original_on_main\<close>\<close>

definition call_original_on_main ::
  "'o hook_target \<Rightarrow> 'm slot_ops \<Rightarrow> hook_state \<Rightarrow> ('o, 'c, 'm) site_inner
     \<Rightarrow> ('o \<Rightarrow> usize \<Rightarrow> 'w \<Rightarrow> 'r flow \<times> 'w) \<Rightarrow> 'w \<Rightarrow> (hook_error, 'r flow) result \<times> 'w" where
  "call_original_on_main T M st i call w =
     (case si_active i of
        None \<Rightarrow> (Inl OwnershipDrift, w)
      | Some a \<Rightarrow>
          if \<not> si_installed i \<or> slot_current M (ah_slot a) \<noteq> Some (hs_replacement st)
          then (Inl OwnershipDrift, w)
          else
            (case call (ht_original_from_raw T (slot_original (ah_slot a))) (hs_method_info st) w of
               (r, w') \<Rightarrow> (Inr r, w')))"

section \<open>Properties\<close>

subsection \<open>The original is called exactly once\<close>

text \<open>\<open>counted cnt h\<close>: whatever the handler does on its own leaves the counter, and each call of the
  original it makes advances it by one, whether the original returns or panics.\<close>

primrec counted :: "('w \<Rightarrow> nat) \<Rightarrow> ('o, 'w, 'x, 'r) handler \<Rightarrow> bool" where
  "counted cnt (H_Return r) = True"
| "counted cnt H_Panic = True"
| "counted cnt (H_Do f h) = ((\<forall>w. cnt (f w) = cnt w) \<and> counted cnt h)"
| "counted cnt (H_Get k) = (\<forall>w. counted cnt (k w))"
| "counted cnt (H_Call call k) =
     ((\<forall>x w. cnt (snd (call x w)) = Suc (cnt w)) \<and> (\<forall>x. counted cnt (k x)))"

definition owns_slot :: "'m slot_ops \<Rightarrow> ('o, 'c, 'm) hook_site \<Rightarrow> bool" where
  "owns_slot M site \<longleftrightarrow> (\<exists>i a. site = Some i \<and> si_active i = Some a \<and>
     slot_current M (ah_slot a) = Some (ah_replacement_addr a) \<and> si_original_addr i \<noteq> 0)"

definition gates_open :: "gate_env \<Rightarrow> ('o, 'c, 'm) hook_site \<Rightarrow> bool" where
  "gates_open G site \<longleftrightarrow> (\<exists>i. site = Some i \<and> reader_is_open G (sg_runtime (si_gates i)) \<and>
     reader_is_open G (sg_plugin (si_gates i)))"

lemma run_handler_denied:
  assumes "og_phase g \<noteq> BeforeOriginal"
  shows "run_handler T i (H_Call call k) g w = run_handler T i (k None) g w"
proof -
  from assms have "guard_begin_call g = (False, g)"
    by (cases "og_phase g") (simp_all add: guard_begin_call_def)
  then have "call_original T i call g w = (Returns None, g, w)" by (simp add: call_original_def)
  then show ?thesis by simp
qed

lemma run_handler_granted:
  assumes "og_phase g = BeforeOriginal"
    and "call (ht_original_from_raw T (si_original_addr i)) w = (fx, w1)"
  shows "run_handler T i (H_Call call k) g w =
    (case fx of
       Panics \<Rightarrow> (Panics, g\<lparr> og_phase := CallingOriginal \<rparr>, w1)
     | Returns x \<Rightarrow> run_handler T i (k (Some x)) (g\<lparr> og_phase := AfterOriginal \<rparr>) w1)"
proof -
  from assms(1) have "guard_begin_call g = (True, g\<lparr> og_phase := CallingOriginal \<rparr>)"
    by (simp add: guard_begin_call_def)
  with assms(2) have "call_original T i call g w =
    (case fx of
       Panics \<Rightarrow> (Panics, g\<lparr> og_phase := CallingOriginal \<rparr>, w1)
     | Returns x \<Rightarrow> (Returns (Some x), g\<lparr> og_phase := AfterOriginal \<rparr>, w1))"
    by (simp add: call_original_def guard_end_call_def Let_def split: flow.split)
  then show ?thesis by (simp split: flow.split)
qed

lemma run_handler_counts:
  "counted cnt h \<Longrightarrow> run_handler T i h g w = (r, g', w') \<Longrightarrow>
     (og_phase g = BeforeOriginal \<longrightarrow> cnt w' = cnt w + (if og_phase g' = BeforeOriginal then 0 else 1)) \<and>
     (og_phase g \<noteq> BeforeOriginal \<longrightarrow> cnt w' = cnt w \<and> og_phase g' \<noteq> BeforeOriginal)"
proof (induction h arbitrary: g w r g' w')
  case (H_Do f h)
  from H_Do.prems(2) have run: "run_handler T i h g (f w) = (r, g', w')" by simp
  from H_Do.prems(1) have f: "cnt (f w) = cnt w" and h: "counted cnt h" by simp_all
  from H_Do.IH [OF h run] show ?case unfolding f .
next
  case (H_Get k)
  have k: "counted cnt (k w)" and run: "run_handler T i (k w) g w = (r, g', w')" using H_Get.prems by simp_all
  show ?case using H_Get.IH [OF rangeI k run] .
next
  case (H_Call call k)
  have k: "counted cnt (k x)" for x using H_Call.prems(1) by simp
  show ?case
  proof (cases "og_phase g = BeforeOriginal")
    case False
    then have run: "run_handler T i (k None) g w = (r, g', w')"
      using H_Call.prems(2) unfolding run_handler_denied [OF False] by blast
    show ?thesis using H_Call.IH [OF rangeI k run] .
  next
    case True
    obtain fx w1 where c: "call (ht_original_from_raw T (si_original_addr i)) w = (fx, w1)" by fastforce
    have "cnt (snd (call (ht_original_from_raw T (si_original_addr i)) w)) = Suc (cnt w)"
      using H_Call.prems(1) by simp
    with c have n: "cnt w1 = Suc (cnt w)" by simp
    note run = H_Call.prems(2) [unfolded run_handler_granted [where call = call, OF True c]]
    show ?thesis
    proof (cases fx)
      case Panics
      with run n True show ?thesis by auto
    next
      case (Returns x)
      with run have r: "run_handler T i (k (Some x)) (g\<lparr> og_phase := AfterOriginal \<rparr>) w1 = (r, g', w')"
        by simp
      from H_Call.IH [OF rangeI k r] n True show ?thesis by simp
    qed
  qed
qed (simp_all del: split_paired_All)

lemma dispatch_unowned:
  "\<not> owns_slot M site \<Longrightarrow> dispatch T M G pt fb h site w = fb w"
  by (auto simp: owns_slot_def dispatch_def Let_def split: option.splits)

lemma dispatch_owned:
  assumes "owns_slot M site" and "site = Some i"
  shows "dispatch T M G pt fb h site w =
    (let original = ht_original_from_raw T (si_original_addr i) in
     if \<not> gates_open G site then pt original w
     else
       (case run_handler T i h guard_new w of
          (Returns result, g, w') \<Rightarrow>
            if guard_needs_original g then pt original w' else (Returns result, w')
        | (Panics, g, w') \<Rightarrow>
            if guard_needs_original g then pt original w' else fb w'))"
proof -
  from assms obtain a where "si_active i = Some a"
    "slot_current M (ah_slot a) = Some (ah_replacement_addr a)" "si_original_addr i \<noteq> 0"
    by (auto simp: owns_slot_def)
  with assms(2) show ?thesis
    by (auto simp: dispatch_def gates_open_def Let_def guard_needs_original_def
        split: flow.splits original_phase.splits prod.splits)
qed

text \<open>
  C3: when the slot holds the site's replacement, one dispatch of a game call runs the original
  exactly once, whatever the handler does: whether the gates are open or closed, whether the handler
  calls the original never, once or many times, and whether it or the original panics.  When the slot
  does not hold the replacement the original is not run at all.
\<close>

theorem dispatch_runs_original_once:
  assumes "counted cnt h" and "\<forall>x w. cnt (snd (pt x w)) = Suc (cnt w)"
    and "\<forall>w. cnt (snd (fb w)) = cnt w"
  shows "cnt (snd (dispatch T M G pt fb h site w)) = cnt w + (if owns_slot M site then 1 else 0)"
proof (cases "owns_slot M site")
  case False
  with assms(3) show ?thesis by (simp add: dispatch_unowned)
next
  case True
  then obtain i where i: "site = Some i" by (auto simp: owns_slot_def)
  obtain r g w' where rh: "run_handler T i h guard_new w = (r, g, w')" by (metis prod_cases3)
  note c = run_handler_counts [OF assms(1) rh]
  have "og_phase guard_new = BeforeOriginal" by (simp add: guard_new_def)
  with c have "cnt w' = cnt w + (if og_phase g = BeforeOriginal then 0 else 1)" by simp
  with True assms(2,3) rh show ?thesis
    by (cases r) (auto simp: dispatch_owned [OF True i] Let_def guard_needs_original_def guard_phase_def)
qed

definition demo_target :: "usize hook_target" where
  "demo_target = \<lparr> ht_target = \<lparr> t_assembly = ''Game.dll'', t_namespace = [], t_class = ''C'',
       t_method = ''M'', t_param_count = 0, t_is_static = True, t_return_type = ''void'',
       t_parameter_types = [] \<rparr>,
     ht_mechanism = MethodPointerSlotMech, ht_replacement_addr = (\<lambda>x. x),
     ht_original_from_raw = (\<lambda>x. x) \<rparr>"

definition demo_site :: "(usize, unit, usize) hook_site" where
  "demo_site = Some \<lparr> si_container = (),
     si_gates = \<lparr> sg_runtime = Runtime_Reader, sg_plugin = Owner_Reader (OwnerId 1) \<rparr>,
     si_replacement = 16, si_original_addr = 8, si_method_info_addr = 4, si_installed = True,
     si_active = Some \<lparr> ah_slot = \<lparr> mps_memory = 16, mps_original = 8 \<rparr>, ah_replacement_addr = 16 \<rparr> \<rparr>"

definition open_env :: gate_env where
  "open_env = \<lparr> ge_runtime = snd (gate_open gate_new),
     ge_owner = (\<lambda>_. plugin_gate_open plugin_gate_new) \<rparr>"

theorem dispatch_runs_original_once_witness:
  "snd (dispatch demo_target raw_slot_memory open_env (\<lambda>x w. (Returns x, Suc w)) (\<lambda>w. (Returns 0, w))
     (H_Call (\<lambda>x w. (Returns x, Suc w)) (\<lambda>_. H_Call (\<lambda>x w. (Returns x, Suc w)) (\<lambda>_. H_Panic)))
     demo_site 5) = 6"
proof -
  have c: "counted (\<lambda>n. n)
      (H_Call (\<lambda>x w. (Returns x, Suc w)) (\<lambda>_. H_Call (\<lambda>x w. (Returns x, Suc w)) (\<lambda>_. H_Panic)))"
    by simp
  have "owns_slot raw_slot_memory demo_site"
    by (simp add: owns_slot_def demo_site_def slot_simps)
  with dispatch_runs_original_once [OF c, of "\<lambda>x w. (Returns x, Suc w)" "\<lambda>w. (Returns 0, w)" demo_target
      raw_slot_memory open_env demo_site 5]
  show ?thesis by simp
qed

subsection \<open>Closed gates\<close>

text \<open>
  While either gate is closed, dispatch does not depend on the handler: an owned slot passes
  straight through to the typed original, any other site takes the fallback.  Nor does it ever
  depend on the \<open>installed\<close> flag: only the slot decides whether the site is live.
\<close>

theorem dispatch_closed_gate:
  assumes "\<not> gates_open G (Some i)"
  shows "dispatch T M G pt fb h (Some (i\<lparr> si_installed := b \<rparr>)) w =
    (if owns_slot M (Some i) then pt (ht_original_from_raw T (si_original_addr i)) w else fb w)"
proof -
  have g: "\<not> gates_open G (Some (i\<lparr> si_installed := b \<rparr>))" using assms by (simp add: gates_open_def)
  have o: "owns_slot M (Some (i\<lparr> si_installed := b \<rparr>)) = owns_slot M (Some i)"
    by (simp add: owns_slot_def)
  show ?thesis
  proof (cases "owns_slot M (Some i)")
    case True
    with o have "owns_slot M (Some (i\<lparr> si_installed := b \<rparr>))" by simp
    from dispatch_owned [OF this refl, of T G pt fb h w] g True show ?thesis by (simp add: Let_def)
  next
    case False
    with o show ?thesis by (simp add: dispatch_unowned)
  qed
qed

theorem dispatch_closed_gate_witness:
  "dispatch demo_target raw_slot_memory (open_env\<lparr> ge_owner := \<lambda>_. plugin_gate_new \<rparr>)
     (\<lambda>x w. (Returns x, Suc w)) (\<lambda>w. (Returns 0, w)) H_Panic
     (Some ((the demo_site)\<lparr> si_installed := False \<rparr>)) 5 = (Returns 8, 6)"
proof -
  have "\<not> gates_open (open_env\<lparr> ge_owner := \<lambda>_. plugin_gate_new \<rparr>) (Some (the demo_site))"
    by (simp add: gates_open_def demo_site_def gate_simps)
  from dispatch_closed_gate [OF this, of demo_target raw_slot_memory "\<lambda>x w. (Returns x, Suc w)"
      "\<lambda>w. (Returns 0, w)" H_Panic False 5]
  show ?thesis by (simp add: owns_slot_def demo_site_def demo_target_def slot_simps)
qed

subsection \<open>Installation under interference\<close>

lemma raw_install:
  "slot_install raw_slot_memory env repl \<lparr> mps_memory = m, mps_original = x \<rparr> =
     (if m = x
      then (if env repl = repl then Inr () else Inl InstallationFailed,
            \<lparr> mps_memory = env repl, mps_original = x \<rparr>)
      else (Inl SlotConflict, \<lparr> mps_memory = m, mps_original = x \<rparr>))"
  by (simp add: slot_simps Let_def)

lemma raw_restore:
  "slot_restore raw_slot_memory env repl \<lparr> mps_memory = m, mps_original = x \<rparr> =
     (if m = repl
      then (if env x = x then Inr () else Inl InstallationFailed,
            \<lparr> mps_memory = env x, mps_original = x \<rparr>)
      else (Inl OwnershipDrift, \<lparr> mps_memory = m, mps_original = x \<rparr>))"
  by (simp add: slot_simps Let_def)


definition demo_method :: method_ref where
  "demo_method = \<lparr> m_assembly = ''Game.dll'', m_namespace = [], m_class = ''C'', m_method = ''M'',
     m_param_count = 0, m_is_static = True, m_return_type = ''void'', m_parameter_types = [],
     m_is_generic = False, m_is_inflated = False, m_method_info = 4, m_method_pointer_slot = 32 \<rparr>"

definition demo_resolver :: "usize method_resolver" where
  "demo_resolver = \<lparr> mr_resolve = (\<lambda>_. Inr demo_method), mr_slot_memory = (\<lambda>_. 8),
     mr_entry_patch_memory = (\<lambda>_ _. Inl SlotMalformed) \<rparr>"

definition demo_published :: "(usize, unit, usize) site_inner" where
  "demo_published = \<lparr> si_container = (),
     si_gates = \<lparr> sg_runtime = Runtime_Reader, sg_plugin = Owner_Reader (OwnerId 1) \<rparr>,
     si_replacement = 16, si_original_addr = 0, si_method_info_addr = 0, si_installed = False,
     si_active = None \<rparr>"

lemma demo_bind:
  "hook_bind demo_target raw_slot_memory demo_resolver demo_published =
     Inr (demo_method, \<lparr> mps_memory = 8, mps_original = 8 \<rparr>)"
  by (simp add: hook_bind_def demo_target_def demo_resolver_def demo_method_def demo_published_def
      hook_simps slot_simps)


subsection \<open>Restore\<close>

text \<open>
  What a restore of an installed hook does, through the owner ledger and through the handle.  If
  the game has taken the slot, its word stays and the drift is reported, but the \<open>installed\<close> flag
  is cleared all the same, so that the ledger's next run reports success.  If the slot holds the
  replacement, the original is written back and the flag stays cleared when the readback confirms it;
  it is set again when the readback does not.
\<close>

theorem hook_restore_outcomes:
  assumes inst: "si_installed i"
    and act: "si_active i = Some \<lparr> ah_slot = \<lparr> mps_memory = word, mps_original = orig \<rparr>,
      ah_replacement_addr = addr \<rparr>"
    and i': "i' = i\<lparr> si_active := Some \<lparr>
      ah_slot = \<lparr> mps_memory = (if word = hs_replacement st then env orig else word), mps_original = orig \<rparr>,
      ah_replacement_addr = addr \<rparr>, si_installed := word = hs_replacement st \<and> env orig \<noteq> orig \<rparr>"
  shows "hook_restore_action raw_slot_memory env st i =
      (if word \<noteq> hs_replacement st then Inl OwnershipLost
       else if env orig \<noteq> orig then Inl RestoreFailed else Inr (), i') \<and>
    hook_state_restore raw_slot_memory env st i =
      (if word \<noteq> hs_replacement st then Inl OwnershipDrift
       else if env orig \<noteq> orig then Inl InstallationFailed else Inr (), i') \<and>
    (word \<noteq> hs_replacement st \<longrightarrow>
      hook_restore_action raw_slot_memory env' st i' = (Inr (), i') \<and>
      hook_state_restore raw_slot_memory env' st i' = (Inl OwnershipDrift, i'))"
proof -
  obtain c g r oa mi where i: "i = \<lparr> si_container = c, si_gates = g, si_replacement = r,
      si_original_addr = oa, si_method_info_addr = mi, si_installed = True,
      si_active = Some \<lparr> ah_slot = \<lparr> mps_memory = word, mps_original = orig \<rparr>,
        ah_replacement_addr = addr \<rparr> \<rparr>"
    using inst act by (cases i) simp
  note run = hook_restore_action_def hook_state_restore_def with_slot_def raw_restore i' i
  show ?thesis
    by (cases "word = hs_replacement st"; cases "env orig = orig") (simp_all add: run)
qed

theorem hook_restore_outcomes_witness:
  "fst (hook_restore_action raw_slot_memory id \<lparr> hs_replacement = 16, hs_method_info = 4 \<rparr>
     (the demo_site)) = Inr ()"
proof -
  have "si_installed (the demo_site)"
    and "si_active (the demo_site) = Some \<lparr> ah_slot = \<lparr> mps_memory = 16, mps_original = 8 \<rparr>,
      ah_replacement_addr = 16 \<rparr>" by (simp_all add: demo_site_def)
  from hook_restore_outcomes [where st = "\<lparr> hs_replacement = 16, hs_method_info = 4 \<rparr>"
      and env = id and env' = id, OF this refl]
  show ?thesis by simp
qed

end
