(* ===== verification/Debug_Topics.thy ===== *)
theory Debug_Topics
  imports Hook
begin

text \<open>
  The typed debug topics of \<open>crates/core/src/plugin_api/debug.rs\<close>: the channel between the wire
  side and an owner, the owner's handler system (main domain), and the relay with its callback
  endpoint (callback domain).

  \<open>'j\<close> is a JSON value, \<open>'p\<close> a type-erased payload, \<open>'w\<close> the world.  Decoding, encoding, parameter
  fetching and the author's handler are the fields of \<open>debug_handler\<close>.  An \<open>Arc\<close> is its value and
  whether another strong reference to it exists.
\<close>

section \<open>The channel\<close>

datatype debug_server_error =
    RuntimeUnavailable
  | QueueFull
  | PayloadTooLarge
  | PluginUnavailable
  | HandlerError
  | InternalError

fun code_name :: "debug_server_error \<Rightarrow> string" where
  "code_name RuntimeUnavailable = ''runtime_unavailable''"
| "code_name QueueFull = ''queue_full''"
| "code_name PayloadTooLarge = ''payload_too_large''"
| "code_name PluginUnavailable = ''plugin_unavailable''"
| "code_name HandlerError = ''handler_error''"
| "code_name InternalError = ''internal_error''"

datatype debug_wire_error_code =
    MethodNotFound
  | InvalidParams
  | ServerError debug_server_error

record debug_wire_error =
  we_code :: debug_wire_error_code
  we_message :: string

record 'p arc =
  arc_value :: 'p
  arc_shared :: bool

record ('j, 'p) debug_queued_request =
  dq_id :: 'j
  dq_payload :: "'p arc"
  dq_generation :: u64

record 'j debug_response =
  dr_id :: 'j
  dr_result :: "(debug_wire_error, 'j) result"
  dr_generation :: u64

record ('j, 'p) debug_topic_channel =
  ch_inbox :: "('j, 'p) debug_queued_request list"
  ch_outbox :: "'j debug_response list"
  ch_pending :: usize
  ch_owner_gate :: gate_reader
  ch_runtime_gate :: gate_reader

definition channel_new :: "owner_id \<Rightarrow> ('j, 'p) debug_topic_channel" where
  "channel_new w = \<lparr> ch_inbox = [], ch_outbox = [], ch_pending = 0,
     ch_owner_gate = Owner_Reader w, ch_runtime_gate = Runtime_Reader \<rparr>"

definition DEBUG_MAX_PENDING :: usize where
  "DEBUG_MAX_PENDING = 16"

definition enqueue ::
  "'j \<Rightarrow> 'p arc \<Rightarrow> u64 \<Rightarrow> ('j, 'p) debug_topic_channel
     \<Rightarrow> (debug_wire_error, unit) result \<times> ('j, 'p) debug_topic_channel" where
  "enqueue rid payload generation ch =
     (if ch_pending ch \<ge> DEBUG_MAX_PENDING
      then (Inl \<lparr> we_code = ServerError QueueFull,
              we_message = ''topic pending capacity reached'' \<rparr>, ch)
      else (Inr (), ch\<lparr> ch_inbox := ch_inbox ch @ [\<lparr> dq_id = rid, dq_payload = payload,
              dq_generation = generation \<rparr>], ch_pending := ch_pending ch + 1 \<rparr>))"

definition dispatchable :: "gate_env \<Rightarrow> ('j, 'p) debug_topic_channel \<Rightarrow> bool" where
  "dispatchable G ch \<longleftrightarrow> reader_is_open G (ch_runtime_gate ch) \<and> reader_is_open G (ch_owner_gate ch)"

definition leave_pending :: "('j, 'p) debug_topic_channel \<Rightarrow> ('j, 'p) debug_topic_channel" where
  "leave_pending ch = ch\<lparr> ch_pending := ch_pending ch - 1 \<rparr>"

text \<open>Pushing an answer releases one pending slot; the two always go together.\<close>

definition respond ::
  "'j \<Rightarrow> u64 \<Rightarrow> (debug_wire_error, 'j) result \<Rightarrow> ('j, 'p) debug_topic_channel
     \<Rightarrow> ('j, 'p) debug_topic_channel" where
  "respond rid generation r ch =
     leave_pending (ch\<lparr> ch_outbox := ch_outbox ch @ [\<lparr> dr_id = rid, dr_result = r,
       dr_generation = generation \<rparr>] \<rparr>)"

text \<open>Retirement of one topic, from \<open>TopicRegistry::fail_pending_requests\<close>.\<close>

definition unavailable_error :: "string \<Rightarrow> debug_wire_error" where
  "unavailable_error m = \<lparr> we_code = ServerError PluginUnavailable, we_message = m \<rparr>"

definition internal_error :: "string \<Rightarrow> debug_wire_error" where
  "internal_error m = \<lparr> we_code = ServerError InternalError, we_message = m \<rparr>"

definition fail_pending_channel ::
  "('j, 'p) debug_topic_channel \<Rightarrow> ('j, 'p) debug_topic_channel" where
  "fail_pending_channel ch =
     fold (\<lambda>q. respond (dq_id q) (dq_generation q)
         (Inl (unavailable_error ''plugin retired; request not delivered'')))
       (ch_inbox ch) (ch\<lparr> ch_inbox := [] \<rparr>)"

section \<open>The handler system of a main-domain topic\<close>

record ('j, 'p, 'req, 'res, 'w) debug_handler =
  dh_downcast :: "'p \<Rightarrow> 'req option"
  dh_params :: "'w \<Rightarrow> bool"
  dh_handle :: "'req \<Rightarrow> 'w \<Rightarrow> (string, 'res) result flow \<times> 'w"
  dh_apply :: "'w \<Rightarrow> 'w"
  dh_to_value :: "'res \<Rightarrow> (string, 'j) result"

definition encode_outcome ::
  "('res \<Rightarrow> (string, 'j) result) \<Rightarrow> (string, 'res) result \<Rightarrow> (debug_wire_error, 'j) result" where
  "encode_outcome to_value outcome =
     (case outcome of
        Inr v \<Rightarrow> map_err internal_error (to_value v)
      | Inl m \<Rightarrow> Inl \<lparr> we_code = ServerError HandlerError, we_message = m \<rparr>)"

text \<open>The body of the per-request panic boundary.\<close>

definition serve_one ::
  "('j, 'p, 'req, 'res, 'w) debug_handler \<Rightarrow> ('j, 'p) debug_queued_request \<Rightarrow> 'w
     \<Rightarrow> (debug_wire_error, 'j) result flow \<times> 'w" where
  "serve_one H queued w =
     (case dh_downcast H (arc_value (dq_payload queued)) of
        None \<Rightarrow> (Returns (Inl (internal_error ''queued request type mismatch'')), w)
      | Some typed \<Rightarrow>
          if arc_shared (dq_payload queued)
          then (Returns (Inl (internal_error ''queued request has extra references'')), w)
          else if \<not> dh_params H w
          then (Returns (Inl (unavailable_error ''handler params no longer valid'')), w)
          else
            (case dh_handle H typed w of
               (Panics, w') \<Rightarrow> (Panics, w')
             | (Returns response, w') \<Rightarrow>
                 (Returns (encode_outcome (dh_to_value H) response), dh_apply H w')))"

fun serve_requests ::
  "('j, 'p, 'req, 'res, 'w) debug_handler \<Rightarrow> ('j, 'p) debug_queued_request list
     \<Rightarrow> ('j, 'p) debug_topic_channel \<Rightarrow> 'w
     \<Rightarrow> (plugin_error, unit) result \<times> ('j, 'p) debug_topic_channel \<times> 'w" where
  "serve_requests H [] ch w = (Inr (), ch, w)"
| "serve_requests H (queued # rest) ch w =
     (case serve_one H queued w of
        (Panics, w') \<Rightarrow>
          (Inl (Message ''debug handler panicked; retiring owner debug routes''),
           respond (dq_id queued) (dq_generation queued)
             (Inl (unavailable_error ''debug handler panicked''))
             (ch\<lparr> ch_inbox := rest @ ch_inbox ch \<rparr>), w')
      | (Returns r, w') \<Rightarrow>
          serve_requests H rest (respond (dq_id queued) (dq_generation queued) r ch) w')"

definition debug_handler_system_run ::
  "('j, 'p, 'req, 'res, 'w) debug_handler \<Rightarrow> ('j, 'p) debug_topic_channel \<Rightarrow> 'w
     \<Rightarrow> (plugin_error, unit) result \<times> ('j, 'p) debug_topic_channel \<times> 'w" where
  "debug_handler_system_run H ch w =
     (let requests = ch_inbox ch; ch0 = ch\<lparr> ch_inbox := [] \<rparr> in
      if requests = [] then (Inr (), ch0, w) else serve_requests H requests ch0 w)"

section \<open>The relay of a callback-domain topic\<close>

type_synonym ('req, 'res) endpoints =
  "'req arc shared_slot \<times> (string, 'res) result arc shared_slot"

record ('j, 'p, 'req, 'res) callback_relay =
  rl_channel :: "('j, 'p) debug_topic_channel"
  rl_request :: "'req arc shared_slot"
  rl_response :: "(string, 'res) result arc shared_slot"
  rl_in_flight :: "('j \<times> u64) list"

definition relay_new :: "('j, 'p) debug_topic_channel \<Rightarrow> ('j, 'p, 'req, 'res) callback_relay" where
  "relay_new ch = \<lparr> rl_channel = ch, rl_request = shared_new, rl_response = shared_new,
     rl_in_flight = [] \<rparr>"

text \<open>\<open>CallbackDebugEndpoints::handle_pending\<close>, on the hook's thread: \<open>before\<close> and \<open>later\<close> are what
  the relay's thread does to the two slots before each send.  A panic of the handler unwinds out of
  it with the request consumed.\<close>

definition handle_pending ::
  "('req arc shared_slot \<Rightarrow> 'req arc shared_slot)
     \<Rightarrow> ((string, 'res) result arc shared_slot \<Rightarrow> (string, 'res) result arc shared_slot)
     \<Rightarrow> ('req \<Rightarrow> 'w \<Rightarrow> (string, 'res) result flow \<times> 'w)
     \<Rightarrow> ('req, 'res) endpoints \<Rightarrow> 'w \<Rightarrow> bool flow \<times> ('req, 'res) endpoints \<times> 'w" where
  "handle_pending before later handler ep w =
     (case ep of (rq, rs) \<Rightarrow>
        (case shared_take rq of
           (None, rq') \<Rightarrow> (Returns False, (rq', rs), w)
         | (Some a, rq') \<Rightarrow>
             if arc_shared a
             then (Returns False, (snd (shared_try_send a (before rq')), rs), w)
             else
               (case handler (arc_value a) w of
                  (Panics, w') \<Rightarrow> (Panics, (rq', rs), w')
                | (Returns outcome, w') \<Rightarrow>
                    (Returns True,
                     (rq', snd (shared_try_send \<lparr> arc_value = outcome, arc_shared = False \<rparr> (later rs))),
                     w'))))"

text \<open>Step 1 of the relay: deliver the front request when the slot is free.\<close>

definition relay_deliver ::
  "('p \<Rightarrow> 'req option) \<Rightarrow> ('j, 'p, 'req, 'res) callback_relay
     \<Rightarrow> ('j, 'p, 'req, 'res) callback_relay" where
  "relay_deliver downcast rl =
     (if shared_is_set (rl_request rl) then rl
      else
        (case ch_inbox (rl_channel rl) of
           [] \<Rightarrow> rl
         | queued # rest \<Rightarrow>
             (let popped = (rl_channel rl)\<lparr> ch_inbox := rest \<rparr> in
              case downcast (arc_value (dq_payload queued)) of
                Some typed \<Rightarrow>
                  (case shared_try_send \<lparr> arc_value = typed,
                          arc_shared = arc_shared (dq_payload queued) \<rparr> (rl_request rl) of
                     (Inr _, rq) \<Rightarrow>
                       rl\<lparr> rl_channel := popped, rl_request := rq,
                         rl_in_flight := rl_in_flight rl @ [(dq_id queued, dq_generation queued)] \<rparr>
                   | (Inl _, rq) \<Rightarrow> rl\<lparr> rl_request := rq \<rparr>)
              | None \<Rightarrow>
                  rl\<lparr> rl_channel := respond (dq_id queued) (dq_generation queued)
                    (Inl (internal_error ''queued request type mismatch'')) popped \<rparr>)))"

text \<open>Step 2: collect answers.  \<open>arrivals\<close> is what the hook's thread does to the response slot
  between two rounds of the loop; a round without a new answer ends it.\<close>

fun relay_collect ::
  "((string, 'res) result arc shared_slot \<Rightarrow> (string, 'res) result arc shared_slot) list
     \<Rightarrow> ('res \<Rightarrow> (string, 'j) result) \<Rightarrow> ('j, 'p, 'req, 'res) callback_relay
     \<Rightarrow> ('j, 'p, 'req, 'res) callback_relay" where
  "relay_collect arrivals to_value rl =
     (case shared_take (rl_response rl) of
        (None, rs) \<Rightarrow> rl\<lparr> rl_response := rs \<rparr>
      | (Some a, rs) \<Rightarrow>
          (case rl_in_flight rl of
             [] \<Rightarrow> rl\<lparr> rl_response := rs \<rparr>
           | (rid, generation) # rest \<Rightarrow>
               if arc_shared a
               then rl\<lparr> rl_response := snd (shared_try_send a rs), rl_in_flight := rest \<rparr>
               else
                 (let rl' = rl\<lparr> rl_response := rs, rl_in_flight := rest,
                        rl_channel := respond rid generation
                          (encode_outcome to_value (arc_value a)) (rl_channel rl) \<rparr> in
                  case arrivals of
                    [] \<Rightarrow> rl'
                  | e # es \<Rightarrow> relay_collect es to_value (rl'\<lparr> rl_response := e rs \<rparr>))))"

declare relay_collect.simps [simp del]

definition callback_relay_system_run ::
  "((string, 'res) result arc shared_slot \<Rightarrow> (string, 'res) result arc shared_slot) list
     \<Rightarrow> ('p \<Rightarrow> 'req option) \<Rightarrow> ('res \<Rightarrow> (string, 'j) result) \<Rightarrow> ('j, 'p, 'req, 'res) callback_relay
     \<Rightarrow> (plugin_error, unit) result \<times> ('j, 'p, 'req, 'res) callback_relay" where
  "callback_relay_system_run arrivals downcast to_value rl =
     (Inr (), relay_collect arrivals to_value (relay_deliver downcast rl))"

section \<open>Accounting of a main-domain topic\<close>

definition dq_key :: "('j, 'p) debug_queued_request \<Rightarrow> 'j \<times> u64" where
  "dq_key q = (dq_id q, dq_generation q)"

definition dr_key :: "'j debug_response \<Rightarrow> 'j \<times> u64" where
  "dr_key r = (dr_id r, dr_generation r)"

lemma key_simps [simp]:
  "dq_key \<lparr> dq_id = i, dq_payload = p, dq_generation = g \<rparr> = (i, g)"
  "dr_key \<lparr> dr_id = i, dr_result = r, dr_generation = g \<rparr> = (i, g)"
  by (simp_all add: dq_key_def dr_key_def)

lemma respond_simps [simp]:
  "ch_inbox (respond i g r ch) = ch_inbox ch"
  "ch_outbox (respond i g r ch) = ch_outbox ch @ [\<lparr> dr_id = i, dr_result = r, dr_generation = g \<rparr>]"
  "ch_pending (respond i g r ch) = ch_pending ch - 1"
  by (simp_all add: respond_def leave_pending_def)

text \<open>\<open>pending_ok ch n\<close>: the counter is the number of queued requests plus \<open>n\<close> others, within the
  ceiling.\<close>

definition pending_ok :: "('j, 'p) debug_topic_channel \<Rightarrow> nat \<Rightarrow> bool" where
  "pending_ok ch n \<longleftrightarrow> ch_pending ch = of_nat (length (ch_inbox ch) + n) \<and>
     length (ch_inbox ch) + n \<le> 16"

lemma enqueue_cases:
  assumes "pending_ok ch n"
  shows "enqueue i p g ch =
    (if length (ch_inbox ch) + n < 16
     then (Inr (), ch\<lparr> ch_inbox := ch_inbox ch @ [\<lparr> dq_id = i, dq_payload = p, dq_generation = g \<rparr>],
             ch_pending := of_nat (Suc (length (ch_inbox ch) + n)) \<rparr>)
     else (Inl \<lparr> we_code = ServerError QueueFull,
             we_message = ''topic pending capacity reached'' \<rparr>, ch))"
proof -
  define k where "k = length (ch_inbox ch) + n"
  have k: "ch_pending ch = of_nat k" "k \<le> 16" using assms by (simp_all add: pending_ok_def k_def)
  have "(of_nat k :: usize) \<ge> 16 \<longleftrightarrow> k \<ge> 16"
    using k(2) by (simp add: word_le_nat_alt unat_of_nat)
  with k show ?thesis
    unfolding k_def [symmetric] by (simp add: enqueue_def DEBUG_MAX_PENDING_def not_le add.commute)
qed

lemma enqueue_pending_ok:
  "pending_ok ch n \<Longrightarrow> pending_ok (snd (enqueue i p g ch)) n"
  by (simp add: enqueue_cases) (simp add: pending_ok_def)

lemma fold_respond:
  "length qs \<le> n \<Longrightarrow> ch_pending ch = of_nat n \<Longrightarrow>
   (let ch' = fold (\<lambda>q. respond (dq_id q) (dq_generation q) (r q)) qs ch in
    ch_inbox ch' = ch_inbox ch \<and> map dr_key (ch_outbox ch') = map dr_key (ch_outbox ch) @ map dq_key qs \<and>
    ch_pending ch' = of_nat (n - length qs))"
proof (induction qs arbitrary: ch n)
  case (Cons q qs)
  then obtain m where n: "n = Suc m" by (cases n) auto
  show ?case
    using Cons.prems Cons.IH [of m "respond (dq_id q) (dq_generation q) (r q) ch"]
    by (simp add: n Let_def dq_key_def)
qed (simp add: Let_def)

lemma serve_requests_accounting:
  "ch_pending ch = of_nat (length (qs @ ch_inbox ch)) \<Longrightarrow> serve_requests H qs ch w = (r, ch', w') \<Longrightarrow>
   map dr_key (ch_outbox ch') @ map dq_key (ch_inbox ch')
     = map dr_key (ch_outbox ch) @ map dq_key (qs @ ch_inbox ch) \<and>
   ch_pending ch' = of_nat (length (ch_inbox ch')) \<and>
   length (ch_inbox ch') \<le> length (qs @ ch_inbox ch)"
proof (induction qs arbitrary: ch w)
  case (Cons q qs)
  obtain s w1 where s: "serve_one H q w = (s, w1)" by fastforce
  show ?case
  proof (cases s)
    case Panics
    with s Cons.prems show ?thesis by (auto simp: dq_key_def)
  next
    case (Returns x)
    let ?ch = "respond (dq_id q) (dq_generation q) x ch"
    have p: "ch_pending ?ch = of_nat (length (qs @ ch_inbox ?ch))" using Cons.prems(1) by simp
    from s Returns Cons.prems(2) have "serve_requests H qs ?ch w1 = (r, ch', w')" by simp
    from Cons.IH [OF p this] show ?thesis by (auto simp: dq_key_def)
  qed
qed auto

text \<open>What happens to a topic: the dispatch enqueues, the owner's system runs, the dispatch collects
  the outbox, the owner is retired.  The last two components record the accepted and the delivered
  requests.\<close>

datatype ('j, 'p) topic_op =
    T_Enqueue 'j "'p arc" u64
  | T_Serve
  | T_Collect
  | T_Retire

fun topic_step ::
  "('j, 'p, 'req, 'res, 'w) debug_handler \<Rightarrow> ('j, 'p) topic_op
     \<Rightarrow> ('j, 'p) debug_topic_channel \<times> 'w \<times> ('j \<times> u64) list \<times> ('j \<times> u64) list
     \<Rightarrow> ('j, 'p) debug_topic_channel \<times> 'w \<times> ('j \<times> u64) list \<times> ('j \<times> u64) list" where
  "topic_step H (T_Enqueue i p g) (ch, w, acc, del) =
     (case enqueue i p g ch of
        (Inr _, ch') \<Rightarrow> (ch', w, acc @ [(i, g)], del) | (Inl _, ch') \<Rightarrow> (ch', w, acc, del))"
| "topic_step H T_Serve (ch, w, acc, del) =
     (case debug_handler_system_run H ch w of (_, ch', w') \<Rightarrow> (ch', w', acc, del))"
| "topic_step H T_Collect (ch, w, acc, del) =
     (ch\<lparr> ch_outbox := [] \<rparr>, w, acc, del @ map dr_key (ch_outbox ch))"
| "topic_step H T_Retire (ch, w, acc, del) = (fail_pending_channel ch, w, acc, del)"

definition topic_inv ::
  "('j, 'p) debug_topic_channel \<times> 'w \<times> ('j \<times> u64) list \<times> ('j \<times> u64) list \<Rightarrow> bool" where
  "topic_inv s = (case s of (ch, w, acc, del) \<Rightarrow>
     del @ map dr_key (ch_outbox ch) @ map dq_key (ch_inbox ch) = acc \<and> pending_ok ch 0)"

lemma topic_step_inv: "topic_inv s \<Longrightarrow> topic_inv (topic_step H a s)"
proof -
  assume inv: "topic_inv s"
  obtain ch w acc del where s: "s = (ch, w, acc, del)" by (cases s) auto
  from inv s have eq: "del @ map dr_key (ch_outbox ch) @ map dq_key (ch_inbox ch) = acc"
    and p: "pending_ok ch 0" by (simp_all add: topic_inv_def)
  show ?thesis
  proof (cases a)
    case (T_Enqueue i pl g)
    with eq p show ?thesis
      by (simp add: s topic_inv_def enqueue_cases [OF p] dq_key_def split: if_splits)
        (auto simp: pending_ok_def)
  next
    case T_Serve
    obtain r ch' w' where run: "debug_handler_system_run H ch w = (r, ch', w')" by (metis prod_cases3)
    show ?thesis
    proof (cases "ch_inbox ch = []")
      case True
      with run T_Serve eq p show ?thesis
        by (auto simp: s topic_inv_def debug_handler_system_run_def pending_ok_def)
    next
      case False
      with run have "serve_requests H (ch_inbox ch) (ch\<lparr> ch_inbox := [] \<rparr>) w = (r, ch', w')"
        by (simp add: debug_handler_system_run_def Let_def)
      from serve_requests_accounting [OF _ this] p have
        "map dr_key (ch_outbox ch') @ map dq_key (ch_inbox ch')
          = map dr_key (ch_outbox ch) @ map dq_key (ch_inbox ch)"
        "ch_pending ch' = of_nat (length (ch_inbox ch'))"
        "length (ch_inbox ch') \<le> length (ch_inbox ch)" by (simp_all add: pending_ok_def)
      with run T_Serve eq p show ?thesis by (simp add: s topic_inv_def pending_ok_def)
    qed
  next
    case T_Collect
    with eq p show ?thesis by (simp add: s topic_inv_def pending_ok_def)
  next
    case T_Retire
    from fold_respond [of "ch_inbox ch" "length (ch_inbox ch)" "ch\<lparr> ch_inbox := [] \<rparr>"
        "\<lambda>_. Inl (unavailable_error ''plugin retired; request not delivered'')"] p
    show ?thesis
      using eq T_Retire by (simp add: s topic_inv_def fail_pending_channel_def pending_ok_def Let_def)
  qed
qed

lemma topic_history_inv: "topic_inv s \<Longrightarrow> topic_inv (fold (topic_step H) ops s)"
  by (rule fold_invariant) (auto intro: topic_step_inv)

text \<open>
  C15: over any history of a main-domain topic (enqueues, runs of the owner's handler system with a
  handler that may fail or panic, collections by the wire side, retirement), every accepted request
  is answered exactly once and in order, or is still queued; the pending counter is the number of
  queued requests, never exceeds sixteen, and an enqueue is refused exactly at sixteen.
\<close>

theorem debug_topic_history:
  "(case fold (topic_step H) ops (channel_new v, w, [], []) of (ch, _, accepted, delivered) \<Rightarrow>
     accepted = delivered @ map dr_key (ch_outbox ch) @ map dq_key (ch_inbox ch) \<and>
     ch_pending ch = of_nat (length (ch_inbox ch)) \<and> length (ch_inbox ch) \<le> 16 \<and>
     (is_ok (fst (enqueue i p g ch)) \<longleftrightarrow> length (ch_inbox ch) < 16))"
proof -
  have "topic_inv (channel_new v, w, [], [])"
    by (simp add: topic_inv_def channel_new_def pending_ok_def)
  from topic_history_inv [OF this, of H ops] have inv:
    "topic_inv (fold (topic_step H) ops (channel_new v, w, [], []))" .
  obtain ch w' acc del where f: "fold (topic_step H) ops (channel_new v, w, [], []) = (ch, w', acc, del)"
    by (metis prod_cases4)
  from inv f have p: "pending_ok ch 0"
    and "del @ map dr_key (ch_outbox ch) @ map dq_key (ch_inbox ch) = acc"
    by (simp_all add: topic_inv_def)
  with f show ?thesis by (simp add: enqueue_cases [OF p]) (simp add: pending_ok_def)
qed

section \<open>Pairing of a callback-domain topic\<close>

text \<open>A history of the relay and the hook: each enqueue carries an unshared payload, the relay's
  steps and the hook's entries do not interleave, and the handler returns \<open>f\<close> of the request.  The
  third component records the accepted requests, the last one the collected answers.\<close>

datatype ('j, 'p) relay_op =
    R_Enqueue 'j 'p u64
  | R_Relay
  | R_Hook
  | R_Collect

fun relay_step ::
  "('p \<Rightarrow> 'req option) \<Rightarrow> ('res \<Rightarrow> (string, 'j) result) \<Rightarrow> ('req \<Rightarrow> (string, 'res) result)
     \<Rightarrow> ('j, 'p) relay_op
     \<Rightarrow> ('j, 'p, 'req, 'res) callback_relay \<times> ('j \<times> 'p \<times> u64) list \<times> 'j debug_response list
     \<Rightarrow> ('j, 'p, 'req, 'res) callback_relay \<times> ('j \<times> 'p \<times> u64) list \<times> 'j debug_response list" where
  "relay_step dc tv f (R_Enqueue i p g) (rl, acc, del) =
     (case enqueue i \<lparr> arc_value = p, arc_shared = False \<rparr> g (rl_channel rl) of
        (Inr _, ch) \<Rightarrow> (rl\<lparr> rl_channel := ch \<rparr>, acc @ [(i, p, g)], del)
      | (Inl _, ch) \<Rightarrow> (rl\<lparr> rl_channel := ch \<rparr>, acc, del))"
| "relay_step dc tv f R_Relay (rl, acc, del) =
     (snd (callback_relay_system_run [] dc tv rl), acc, del)"
| "relay_step dc tv f R_Hook (rl, acc, del) =
     (case handle_pending id id (\<lambda>r u. (Returns (f r), u)) (rl_request rl, rl_response rl) () of
        (_, (rq, rs), _) \<Rightarrow> (rl\<lparr> rl_request := rq, rl_response := rs \<rparr>, acc, del))"
| "relay_step dc tv f R_Collect (rl, acc, del) =
     (rl\<lparr> rl_channel := (rl_channel rl)\<lparr> ch_outbox := [] \<rparr> \<rparr>, acc, del @ ch_outbox (rl_channel rl))"

definition relay_answer ::
  "('p \<Rightarrow> 'req option) \<Rightarrow> ('res \<Rightarrow> (string, 'j) result) \<Rightarrow> ('req \<Rightarrow> (string, 'res) result)
     \<Rightarrow> 'j \<times> 'p \<times> u64 \<Rightarrow> 'j debug_response" where
  "relay_answer dc tv f a = (case a of (i, p, g) \<Rightarrow>
     \<lparr> dr_id = i, dr_result = encode_outcome tv (f (the (dc p))), dr_generation = g \<rparr>)"

definition relay_request :: "'j \<times> 'p \<times> u64 \<Rightarrow> ('j, 'p) debug_queued_request" where
  "relay_request a = (case a of (i, p, g) \<Rightarrow>
     \<lparr> dq_id = i, dq_payload = \<lparr> arc_value = p, arc_shared = False \<rparr>, dq_generation = g \<rparr>)"

definition full_slot :: "'a \<Rightarrow> 'a arc shared_slot" where
  "full_slot v = mutex_new (Some \<lparr> arc_value = v, arc_shared = False \<rparr>)"

lemma slot_of_new [simp]:
  "shared_is_set shared_new = False" "shared_take shared_new = (None, shared_new)"
  "shared_try_send a shared_new = (Inr Accepted, mutex_new (Some a))"
  "shared_is_set (full_slot v) = True"
  "shared_take (full_slot v) = (Some \<lparr> arc_value = v, arc_shared = False \<rparr>, shared_new)"
  "mutex_new (Some \<lparr> arc_value = v, arc_shared = False \<rparr>) = full_slot v"
  by (simp_all add: box_simps full_slot_def)

text \<open>Nothing in flight and both slots empty, or one request in flight that sits in exactly one of
  the two slots, in the second as its own answer.\<close>

definition flight_ok ::
  "('p \<Rightarrow> 'req option) \<Rightarrow> ('req \<Rightarrow> (string, 'res) result) \<Rightarrow> ('j \<times> 'p \<times> u64) list
     \<Rightarrow> ('j, 'p, 'req, 'res) callback_relay \<Rightarrow> bool" where
  "flight_ok dc f ys rl =
     (case ys of
        [] \<Rightarrow> rl_request rl = shared_new \<and> rl_response rl = shared_new
      | [(i, p, g)] \<Rightarrow>
          (rl_request rl = full_slot (the (dc p)) \<and> rl_response rl = shared_new) \<or>
          (rl_request rl = shared_new \<and> rl_response rl = full_slot (f (the (dc p))))
      | _ \<Rightarrow> False)"

definition relay_inv ::
  "('p \<Rightarrow> 'req option) \<Rightarrow> ('res \<Rightarrow> (string, 'j) result) \<Rightarrow> ('req \<Rightarrow> (string, 'res) result)
     \<Rightarrow> ('j, 'p, 'req, 'res) callback_relay \<times> ('j \<times> 'p \<times> u64) list \<times> 'j debug_response list
     \<Rightarrow> bool" where
  "relay_inv dc tv f s = (case s of (rl, acc, del) \<Rightarrow>
     \<exists>xs ys zs. acc = xs @ ys @ zs \<and> del @ ch_outbox (rl_channel rl) = map (relay_answer dc tv f) xs \<and>
       rl_in_flight rl = map (\<lambda>(i, p, g). (i, g)) ys \<and>
       ch_inbox (rl_channel rl) = map relay_request zs \<and>
       pending_ok (rl_channel rl) (length ys) \<and> flight_ok dc f ys rl)"

lemma relay_deliver_busy:
  "rl_request rl = full_slot v \<Longrightarrow> relay_deliver dc rl = rl"
  by (simp add: relay_deliver_def)

lemma relay_deliver_free:
  assumes "rl_request rl = shared_new" and "ch_inbox (rl_channel rl) = map relay_request zs"
    and dc: "\<And>p. dc p \<noteq> None"
  shows "relay_deliver dc rl =
    (case zs of
       [] \<Rightarrow> rl
     | (i, p, g) # zs' \<Rightarrow>
         rl\<lparr> rl_channel := (rl_channel rl)\<lparr> ch_inbox := map relay_request zs' \<rparr>,
           rl_request := full_slot (the (dc p)), rl_in_flight := rl_in_flight rl @ [(i, g)] \<rparr>)"
proof (cases zs)
  case (Cons z zs')
  obtain i p g where z: "z = (i, p, g)" by (cases z) auto
  obtain v where "dc p = Some v" using dc [of p] by auto
  with assms(1,2) Cons z show ?thesis by (simp add: relay_deliver_def relay_request_def Let_def)
qed (use assms in \<open>simp add: relay_deliver_def\<close>)

lemma relay_collect_empty:
  assumes "rl_response rl = shared_new"
  shows "relay_collect es tv rl = rl"
proof -
  have "relay_collect es tv rl = rl\<lparr> rl_response := rl_response rl \<rparr>"
    by (subst relay_collect.simps) (simp add: assms)
  then show ?thesis by simp
qed

lemma relay_collect_full:
  assumes "rl_response rl = full_slot v" and "rl_in_flight rl = (i, g) # rest"
  shows "relay_collect [] tv rl = rl\<lparr> rl_response := shared_new, rl_in_flight := rest,
    rl_channel := respond i g (encode_outcome tv v) (rl_channel rl) \<rparr>"
  by (subst relay_collect.simps) (simp add: assms Let_def)

lemma flight_cases [consumes 1, case_names idle sent returned]:
  assumes "flight_ok dc f ys rl"
  obtains "ys = []" "rl_request rl = shared_new" "rl_response rl = shared_new"
  | i p g where "ys = [(i, p, g)]" "rl_request rl = full_slot (the (dc p))" "rl_response rl = shared_new"
  | i p g where "ys = [(i, p, g)]" "rl_request rl = shared_new"
      "rl_response rl = full_slot (f (the (dc p)))"
proof (cases ys)
  case (Cons y ys')
  obtain i p g where "y = (i, p, g)" by (cases y) auto
  with Cons assms that(2,3) show ?thesis by (auto simp: flight_ok_def split: list.splits)
qed (use assms that(1) in \<open>simp add: flight_ok_def\<close>)

lemma relay_run_inv:
  assumes inv: "relay_inv dc tv f (rl, acc, del)" and dc: "\<And>p. dc p \<noteq> None"
  shows "relay_inv dc tv f (relay_collect [] tv (relay_deliver dc rl), acc, del)"
proof -
  from inv obtain xs ys zs where acc: "acc = xs @ ys @ zs"
    and xs: "del @ ch_outbox (rl_channel rl) = map (relay_answer dc tv f) xs"
    and fl: "rl_in_flight rl = map (\<lambda>(i, p, g). (i, g)) ys"
    and zs: "ch_inbox (rl_channel rl) = map relay_request zs"
    and pk: "pending_ok (rl_channel rl) (length ys)" and ok: "flight_ok dc f ys rl"
    by (auto simp: relay_inv_def)
  note free = relay_deliver_free [where dc = dc, OF _ zs dc]
  from ok show ?thesis
  proof (cases rule: flight_cases)
    case idle
    show ?thesis
    proof (cases zs)
      case Nil
      with idle free inv show ?thesis by (simp add: relay_collect_empty)
    next
      case (Cons z zs')
      obtain i p g where z: "z = (i, p, g)" by (cases z) auto
      have "relay_inv dc tv f (rl\<lparr> rl_channel := (rl_channel rl)\<lparr> ch_inbox := map relay_request zs' \<rparr>,
          rl_request := full_slot (the (dc p)), rl_in_flight := [(i, g)] \<rparr>, acc, del)"
        unfolding relay_inv_def prod.case
        by (rule exI [of _ xs], rule exI [of _ "[z]"], rule exI [of _ zs'])
          (use acc xs pk zs Cons z idle in \<open>simp add: flight_ok_def pending_ok_def\<close>)
      with idle fl free Cons z show ?thesis by (simp add: relay_collect_empty)
    qed
  next
    case sent
    with inv show ?thesis by (simp add: relay_deliver_busy relay_collect_empty)
  next
    case (returned i p g)
    let ?ans = "encode_outcome tv (f (the (dc p)))"
    show ?thesis
    proof (cases zs)
      case Nil
      have "relay_inv dc tv f (rl\<lparr> rl_response := shared_new, rl_in_flight := [],
          rl_channel := respond i g ?ans (rl_channel rl) \<rparr>, acc, del)"
        unfolding relay_inv_def prod.case
        by (rule exI [of _ "xs @ ys"], rule exI [of _ "[]"], rule exI [of _ "[]"])
          (use acc xs pk zs Nil returned in \<open>simp add: flight_ok_def pending_ok_def relay_answer_def\<close>)
      with returned fl free Nil show ?thesis by (simp add: relay_collect_full)
    next
      case (Cons z zs')
      obtain i2 p2 g2 where z: "z = (i2, p2, g2)" by (cases z) auto
      have "relay_inv dc tv f (rl\<lparr> rl_request := full_slot (the (dc p2)), rl_response := shared_new,
          rl_in_flight := [(i2, g2)],
          rl_channel := respond i g ?ans ((rl_channel rl)\<lparr> ch_inbox := map relay_request zs' \<rparr>) \<rparr>,
          acc, del)"
        unfolding relay_inv_def prod.case
        by (rule exI [of _ "xs @ ys"], rule exI [of _ "[z]"], rule exI [of _ zs'])
          (use acc xs pk zs Cons z returned in \<open>simp add: flight_ok_def pending_ok_def relay_answer_def\<close>)
      with returned fl free Cons z show ?thesis by (simp add: relay_collect_full)
    qed
  qed
qed

lemma relay_hook_inv:
  assumes inv: "relay_inv dc tv f (rl, acc, del)"
  shows "relay_inv dc tv f (relay_step dc tv f R_Hook (rl, acc, del))"
proof -
  from inv obtain xs ys zs where I: "acc = xs @ ys @ zs"
      "del @ ch_outbox (rl_channel rl) = map (relay_answer dc tv f) xs"
      "rl_in_flight rl = map (\<lambda>(i, p, g). (i, g)) ys"
      "ch_inbox (rl_channel rl) = map relay_request zs"
      "pending_ok (rl_channel rl) (length ys)" and ok: "flight_ok dc f ys rl"
    by (auto simp: relay_inv_def)
  have "\<exists>b rq rs. handle_pending id id (\<lambda>r u. (Returns (f r), u))
      (rl_request rl, rl_response rl) () = (b, (rq, rs), ()) \<and>
      flight_ok dc f ys (rl\<lparr> rl_request := rq, rl_response := rs \<rparr>)"
    using ok by (cases rule: flight_cases) (simp_all add: flight_ok_def handle_pending_def)
  then obtain b rq rs where s: "handle_pending id id (\<lambda>r u. (Returns (f r), u))
      (rl_request rl, rl_response rl) () = (b, (rq, rs), ())"
    and ok': "flight_ok dc f ys (rl\<lparr> rl_request := rq, rl_response := rs \<rparr>)" by blast
  show ?thesis
    unfolding relay_inv_def relay_step.simps s prod.case
    by (rule exI [of _ xs], rule exI [of _ ys], rule exI [of _ zs]) (use I ok' in simp)
qed

lemma relay_step_inv:
  assumes inv: "relay_inv dc tv f s" and dc: "\<And>p. dc p \<noteq> None"
  shows "relay_inv dc tv f (relay_step dc tv f a s)"
proof -
  obtain rl acc del where s: "s = (rl, acc, del)" by (cases s) auto
  from inv s obtain xs ys zs where acc: "acc = xs @ ys @ zs"
    and xs: "del @ ch_outbox (rl_channel rl) = map (relay_answer dc tv f) xs"
    and fl: "rl_in_flight rl = map (\<lambda>(i, p, g). (i, g)) ys"
    and zs: "ch_inbox (rl_channel rl) = map relay_request zs"
    and pk: "pending_ok (rl_channel rl) (length ys)" and ok: "flight_ok dc f ys rl"
    by (auto simp: relay_inv_def)
  show ?thesis
  proof (cases a)
    case (R_Enqueue i p g)
    show ?thesis
    proof (cases "length (ch_inbox (rl_channel rl)) + length ys < 16")
      case True
      show ?thesis
        unfolding R_Enqueue s relay_step.simps enqueue_cases [OF pk] relay_inv_def
        by (simp add: True, rule exI [of _ xs], rule exI [of _ ys], rule exI [of _ "zs @ [(i, p, g)]"])
          (use acc xs fl zs pk ok True in
            \<open>simp add: relay_request_def pending_ok_def flight_ok_def cong: list.case_cong\<close>)
    next
      case False
      with inv show ?thesis by (simp add: R_Enqueue s enqueue_cases [OF pk])
    qed
  next
    case R_Relay
    with relay_run_inv [where dc = dc, OF inv [unfolded s] dc] show ?thesis
      by (simp add: s callback_relay_system_run_def)
  next
    case R_Hook
    with relay_hook_inv [OF inv [unfolded s]] show ?thesis by (simp add: s)
  next
    case R_Collect
    show ?thesis
      unfolding R_Collect s relay_step.simps relay_inv_def prod.case
      by (rule exI [of _ xs], rule exI [of _ ys], rule exI [of _ zs])
        (use acc xs fl zs pk ok in \<open>simp add: pending_ok_def flight_ok_def cong: list.case_cong\<close>)
  qed
qed

text \<open>
  C16: when no answer of the callback side is lost and the two threads do not interleave inside a
  step, the relay of a callback-domain topic pairs every answer with its own request: the answers
  are those of a prefix of the accepted requests, in order; at most one request is in flight, and
  the rest is still queued, within the ceiling of sixteen.
\<close>

theorem relay_pairs_answers:
  assumes dc: "\<forall>p. dc p \<noteq> None"
  shows "(case fold (relay_step dc tv f) ops (relay_new (channel_new v), [], []) of
      (rl, accepted, answers) \<Rightarrow>
        (\<exists>n. answers @ ch_outbox (rl_channel rl) = map (relay_answer dc tv f) (take n accepted) \<and>
           n + length (rl_in_flight rl) + length (ch_inbox (rl_channel rl)) = length accepted) \<and>
        length (rl_in_flight rl) \<le> 1 \<and>
        pending_ok (rl_channel rl) (length (rl_in_flight rl)))"
proof -
  have i: "relay_inv dc tv f (relay_new (channel_new v), [], [])"
    by (simp add: relay_inv_def relay_new_def channel_new_def pending_ok_def flight_ok_def)
  from dc have "dc p \<noteq> None" for p by simp
  from relay_step_inv [where dc = dc, OF _ this]
  have inv: "relay_inv dc tv f (fold (relay_step dc tv f) ops (relay_new (channel_new v), [], []))"
    by (intro fold_invariant [where P = "relay_inv dc tv f"] i)
  obtain rl acc del where f: "fold (relay_step dc tv f) ops (relay_new (channel_new v), [], [])
      = (rl, acc, del)" by (metis prod_cases3)
  from inv f obtain xs ys zs where acc: "acc = xs @ ys @ zs"
    and xs: "del @ ch_outbox (rl_channel rl) = map (relay_answer dc tv f) xs"
    and fl: "rl_in_flight rl = map (\<lambda>(i, p, g). (i, g)) ys"
    and zs: "ch_inbox (rl_channel rl) = map relay_request zs"
    and pk: "pending_ok (rl_channel rl) (length ys)" and ok: "flight_ok dc f ys rl"
    by (auto simp: relay_inv_def)
  from ok have "length ys \<le> 1" by (auto simp: flight_ok_def split: list.splits)
  moreover have "take (length xs) acc = xs" by (simp add: acc)
  ultimately show ?thesis
    using xs fl zs pk by (simp add: f) (rule exI [of _ "length xs"], simp add: acc)
qed

theorem relay_pairs_answers_witness:
  "(case fold (relay_step Some (Inr :: nat \<Rightarrow> (string, nat) result) (\<lambda>r. Inr (r + 1)))
       [R_Enqueue 7 20 0, R_Relay, R_Hook, R_Relay] (relay_new (channel_new (OwnerId 1)), [], []) of
      (rl, accepted, answers) \<Rightarrow> length (rl_in_flight rl) \<le> 1)"
proof -
  have "\<forall>p :: nat. Some p \<noteq> None" by simp
  from relay_pairs_answers [OF this, of "Inr :: nat \<Rightarrow> (string, nat) result" "\<lambda>r. Inr (r + 1)"
      "[R_Enqueue 7 20 0, R_Relay, R_Hook, R_Relay]" "OwnerId 1"]
  show ?thesis by (auto split: prod.splits)
qed

definition lost_answer_run ::
  "('p \<Rightarrow> 'req option) \<Rightarrow> ('res \<Rightarrow> (string, 'j) result) \<Rightarrow> ('req \<Rightarrow> (string, 'res) result)
     \<Rightarrow> 'j \<times> 'p \<times> u64 \<Rightarrow> 'j \<times> 'p \<times> u64 \<Rightarrow> ('j, 'p, 'req, 'res) callback_relay" where
  "lost_answer_run dc tv f a b =
     (case (a, b) of ((i1, p1, g1), (i2, p2, g2)) \<Rightarrow>
       (case fold (relay_step dc tv f) [R_Enqueue i1 p1 g1, R_Enqueue i2 p2 g2, R_Relay]
            (relay_new (channel_new (OwnerId 0)), [], []) of
          (rl, acc, del) \<Rightarrow>
            (case handle_pending id id (\<lambda>_ u. (Panics, u)) (rl_request rl, rl_response rl) () of
               (_, (rq, rs), _) \<Rightarrow>
                 fst (fold (relay_step dc tv f) [R_Relay, R_Hook, R_Relay]
                   (rl\<lparr> rl_request := rq, rl_response := rs \<rparr>, acc, del)))))"

text \<open>
  When an answer is lost (here the callback handler panics on the first of two requests), the
  relay never notices: it pairs the answer of the second request with the id and the connection
  generation of the first, and the second request stays in flight without an answer.
\<close>

theorem relay_lost_answer_mispairs:
  assumes "dc (p1 :: 'p) = Some r1" and "dc p2 = Some r2"
  shows "ch_outbox (rl_channel (lost_answer_run dc tv f (i1, p1, g1) (i2, p2, g2))) =
      [\<lparr> dr_id = i1, dr_result = encode_outcome tv (f r2), dr_generation = g1 \<rparr>] \<and>
    rl_in_flight (lost_answer_run dc tv f (i1, p1, g1) (i2, p2, g2)) = [(i2, g2)] \<and>
    ch_pending (rl_channel (lost_answer_run dc tv f (i1, p1, g1) (i2, p2, g2))) = 1"
proof -
  let ?ch = "\<lambda>inbox out n. \<lparr> ch_inbox = inbox, ch_outbox = out, ch_pending = n,
    ch_owner_gate = Owner_Reader (OwnerId 0), ch_runtime_gate = Runtime_Reader \<rparr>"
  let ?rl = "\<lambda>ch rq rs fl. \<lparr> rl_channel = ch, rl_request = rq, rl_response = rs, rl_in_flight = fl \<rparr>"
  note step = relay_deliver_def relay_collect.simps relay_request_def callback_relay_system_run_def
    handle_pending_def Let_def assms
  have "fold (relay_step dc tv f) [R_Enqueue i1 p1 g1, R_Enqueue i2 p2 g2, R_Relay]
      (relay_new (channel_new (OwnerId 0)), [], []) =
    (?rl (?ch [relay_request (i2, p2, g2)] [] 2) (full_slot r1) shared_new [(i1, g1)],
     [(i1, p1, g1), (i2, p2, g2)], [])"
    by (simp add: step relay_new_def channel_new_def enqueue_def DEBUG_MAX_PENDING_def word_le_nat_alt)
  moreover have "handle_pending id id (\<lambda>_ u. (Panics :: (string, 'c) result flow, u))
      (full_slot r1, shared_new) () = (Panics, (shared_new, shared_new), ())"
    by (simp add: handle_pending_def)
  moreover have "fold (relay_step dc tv f) [R_Relay, R_Hook, R_Relay]
      (?rl (?ch [relay_request (i2, p2, g2)] [] 2) shared_new shared_new [(i1, g1)], acc, del) =
    (?rl (?ch [] [\<lparr> dr_id = i1, dr_result = encode_outcome tv (f r2), dr_generation = g1 \<rparr>] 1)
       shared_new shared_new [(i2, g2)], acc, del)" for acc del
    by (simp add: step respond_def leave_pending_def)
  ultimately show ?thesis by (simp add: lost_answer_run_def)
qed

theorem relay_lost_answer_mispairs_witness:
  "ch_outbox (rl_channel (lost_answer_run Some (Inr :: nat \<Rightarrow> (string, nat) result) (\<lambda>r. Inr (r + 1))
     (1, 10, 5) (2, 20, 6))) = [\<lparr> dr_id = 1, dr_result = Inr 21, dr_generation = 5 \<rparr>]"
proof -
  have s: "Some n = Some n" for n :: nat by simp
  show ?thesis
    using relay_lost_answer_mispairs [where dc = "Some :: nat \<Rightarrow> nat option", OF s s,
      of "Inr :: nat \<Rightarrow> (string, nat) result" "\<lambda>r. Inr (r + 1)" 1 10 5 2 20 6]
    by (simp add: encode_outcome_def)
qed

end
