(* ===== verification/Plugin_App.thy ===== *)
theory Plugin_App
  imports Debug_Topics
begin

text \<open>
  The composition root of \<open>crates/runtime\<close>: the owner ledger (\<open>manager.rs\<close>), the host behind the
  plugin facade (\<open>host.rs\<close> and \<open>plugin_api/context.rs\<close>), the route table (\<open>routes.rs\<close>), the topic
  registry (\<open>core_state.rs\<close>), the snapshots (\<open>inventory.rs\<close>, \<open>introspection.rs\<close>) and the drivers and
  rollbacks of \<open>app.rs\<close>.

  \<open>'w\<close> is the ECS world together with everything else author code and shared \<open>Arc\<close>s reach
  (mailboxes, slots, system states); a shared object is a pair of accessors into it.  Author code is
  a function on \<open>'w\<close>: it returns or panics.  A plugin's \<open>build\<close> sees the application only through the
  calls of its facade, so it is a tree of those calls.  The operations of the ECS are the parameter
  \<open>world_ops\<close>, with the laws \<open>world_laws\<close>.
\<close>

section \<open>What author code hands over\<close>

type_synonym type_id = nat

record 'w resource_insert =
  ri_type_id :: type_id
  ri_type_name :: string
  ri_insert :: "'w \<Rightarrow> (plugin_error, unit) result \<times> 'w"
  ri_remove :: "'w \<Rightarrow> 'w"

datatype 'w restore_action =
    AnyThread "'w \<Rightarrow> (restore_error, unit) result flow \<times> 'w"
  | MainThread "'w \<Rightarrow> (restore_error, unit) result flow \<times> 'w"

text \<open>A startup system appends to the pending inserts and to the restore sink, also when it fails.\<close>

type_synonym 'w startup_system =
  "'w \<Rightarrow> (plugin_error, unit) result flow \<times> 'w resource_insert list \<times> 'w restore_action list \<times> 'w"

type_synonym 'w update_system = "'w \<Rightarrow> (plugin_error, unit) result flow \<times> 'w"

text \<open>The ECS operations a resource insertion uses, and what they do to the map of resources.\<close>

record ('w, 'v) world_ops =
  wo_contains :: "type_id \<Rightarrow> 'w \<Rightarrow> bool"
  wo_insert :: "type_id \<Rightarrow> 'v \<Rightarrow> 'w \<Rightarrow> 'w"
  wo_remove :: "type_id \<Rightarrow> 'w \<Rightarrow> 'w"

definition world_laws :: "('w, 'v) world_ops \<Rightarrow> ('w \<Rightarrow> type_id \<Rightarrow> 'v option) \<Rightarrow> bool" where
  "world_laws W res \<longleftrightarrow>
     (\<forall>t w. wo_contains W t w \<longleftrightarrow> res w t \<noteq> None) \<and>
     (\<forall>t v w. res (wo_insert W t v w) = (res w)(t \<mapsto> v)) \<and>
     (\<forall>t w. res (wo_remove W t w) = (res w)(t := None))"

text \<open>\<open>AppCtx::insert_resource\<close> hands this request to the host at once.\<close>

definition resource_insert_of ::
  "('w, 'v) world_ops \<Rightarrow> type_id \<Rightarrow> string \<Rightarrow> 'v \<Rightarrow> 'w resource_insert" where
  "resource_insert_of W t type_name v =
     \<lparr> ri_type_id = t, ri_type_name = type_name,
       ri_insert = (\<lambda>w. if wo_contains W t w then (Inl (ResourceConflict type_name), w)
                        else (Inr (), wo_insert W t v w)),
       ri_remove = wo_remove W t \<rparr>"

text \<open>\<open>StartupCtx::insert_resource\<close> queues the same request until the system has returned, and the
  registrar of a startup system appends to the restore sink.\<close>

definition startup_insert_resource ::
  "('w, 'v) world_ops \<Rightarrow> type_id \<Rightarrow> string \<Rightarrow> 'v \<Rightarrow> 'w resource_insert list
     \<Rightarrow> (plugin_error, unit) result \<times> 'w resource_insert list" where
  "startup_insert_resource W t type_name v pending =
     (Inr (), pending @ [resource_insert_of W t type_name v])"

definition startup_restore_any_thread ::
  "('w \<Rightarrow> (restore_error, unit) result flow \<times> 'w) \<Rightarrow> 'w restore_action list \<Rightarrow> 'w restore_action list" where
  "startup_restore_any_thread f sink = sink @ [AnyThread f]"

definition startup_restore_main_thread ::
  "('w \<Rightarrow> (restore_error, unit) result flow \<times> 'w) \<Rightarrow> 'w restore_action list \<Rightarrow> 'w restore_action list" where
  "startup_restore_main_thread f sink = sink @ [MainThread f]"

text \<open>The lazy systems of \<open>phase.rs\<close>: the system state is made on the first run and kept.\<close>

record ('w, 's, 'q) system_state_ops =
  ss_load :: "'w \<Rightarrow> 's option"
  ss_store :: "'s \<Rightarrow> 'w \<Rightarrow> 'w"
  ss_new :: "'w \<Rightarrow> 's \<times> 'w"
  ss_get_mut :: "'s \<Rightarrow> 'w \<Rightarrow> 'q option"
  ss_apply :: "'s \<Rightarrow> 'w \<Rightarrow> 'w"

definition lazy_state :: "('w, 's, 'q) system_state_ops \<Rightarrow> 'w \<Rightarrow> 's \<times> 'w" where
  "lazy_state S w =
     (case ss_load S w of
        Some st \<Rightarrow> (st, w)
      | None \<Rightarrow> (case ss_new S w of (st, w') \<Rightarrow> (st, ss_store S st w')))"

definition lazy_startup_run ::
  "('w, 's, 'q) system_state_ops \<Rightarrow> ('q \<Rightarrow> 'w startup_system) \<Rightarrow> 'w startup_system" where
  "lazy_startup_run S f w =
     (case lazy_state S w of (st, w1) \<Rightarrow>
        (case ss_get_mut S st w1 of
           None \<Rightarrow> (Returns (Inl (MissingDependency ''param_validation'')), [], [], w1)
         | Some param \<Rightarrow>
             (case f param w1 of
                (Panics, pending, sink, w2) \<Rightarrow> (Panics, pending, sink, w2)
              | (Returns r, pending, sink, w2) \<Rightarrow> (Returns r, pending, sink, ss_apply S st w2))))"

definition lazy_update_run ::
  "('w, 's, 'q) system_state_ops \<Rightarrow> ('q \<Rightarrow> 'w update_system) \<Rightarrow> 'w update_system" where
  "lazy_update_run S f w =
     (case lazy_state S w of (st, w1) \<Rightarrow>
        (case ss_get_mut S st w1 of
           None \<Rightarrow> (Returns (Inl (MissingDependency ''param_validation'')), w1)
         | Some param \<Rightarrow>
             (case f param w1 of
                (Panics, w2) \<Rightarrow> (Panics, w2)
              | (Returns r, w2) \<Rightarrow> (Returns r, ss_apply S st w2))))"

section \<open>The owner ledger\<close>

datatype plugin_state = Active | Retired

record 'w resource_ledger_entry =
  le_type_id :: type_id
  le_type_name :: string
  le_order :: u64
  le_remove :: "'w \<Rightarrow> 'w"

record 'w plugin_record =
  pr_id :: owner_id
  pr_name :: string
  pr_state :: plugin_state
  pr_startup :: "'w startup_system list"
  pr_update :: "'w update_system list"
  pr_effects :: "'w restore_action list"
  pr_inserted :: "'w resource_ledger_entry list"
  pr_container :: "usize option"
  pr_route_ids :: "route_id list"
  pr_topic_ids :: "topic_id list"
  pr_gate :: plugin_gate

definition plugin_record_new :: "owner_id \<Rightarrow> string \<Rightarrow> 'w plugin_record" where
  "plugin_record_new w name = \<lparr> pr_id = w, pr_name = name, pr_state = Active, pr_startup = [],
     pr_update = [], pr_effects = [], pr_inserted = [], pr_container = None, pr_route_ids = [],
     pr_topic_ids = [], pr_gate = plugin_gate_new \<rparr>"

record 'w plugin_manager =
  pm_records :: "'w plugin_record list"
  pm_next_owner :: u64

definition begin_owner :: "string \<Rightarrow> 'w plugin_manager \<Rightarrow> owner_id \<times> 'w plugin_manager" where
  "begin_owner name m =
     (let i = OwnerId (pm_next_owner m) in
      (i, m\<lparr> pm_next_owner := pm_next_owner m + 1,
             pm_records := pm_records m @ [plugin_record_new i name] \<rparr>))"

text \<open>\<open>record\<close> and \<open>record_mut\<close>: \<open>None\<close> is the panic of \<open>expect\<close>.\<close>

definition pm_record :: "owner_id \<Rightarrow> 'w plugin_manager \<Rightarrow> 'w plugin_record option" where
  "pm_record i m = find_first (\<lambda>r. pr_id r = i) (pm_records m)"

fun update_first :: "('a \<Rightarrow> bool) \<Rightarrow> ('a \<Rightarrow> 'a) \<Rightarrow> 'a list \<Rightarrow> 'a list" where
  "update_first p f [] = []"
| "update_first p f (x # xs) = (if p x then f x # xs else x # update_first p f xs)"

definition pm_update ::
  "owner_id \<Rightarrow> ('w plugin_record \<Rightarrow> 'w plugin_record) \<Rightarrow> 'w plugin_manager \<Rightarrow> 'w plugin_manager" where
  "pm_update i f m = m\<lparr> pm_records := update_first (\<lambda>r. pr_id r = i) f (pm_records m) \<rparr>"

definition active_owner_ids :: "'w plugin_manager \<Rightarrow> owner_id list" where
  "active_owner_ids m = map pr_id (filter (\<lambda>r. pr_state r = Active) (pm_records m))"

definition is_active :: "owner_id \<Rightarrow> 'w plugin_manager \<Rightarrow> bool" where
  "is_active i m = (case pm_record i m of Some r \<Rightarrow> pr_state r = Active | None \<Rightarrow> False)"

section \<open>Routes\<close>

datatype route_direction = MainToCallback | CallbackToMain

record 'w main_route_drain =
  rd_depth :: "'w \<Rightarrow> nat"
  rd_drain :: "nat \<Rightarrow> 'w \<Rightarrow> nat \<times> 'w"

record 'w route_entry =
  re_id :: route_id
  re_owner :: owner_id
  re_direction :: route_direction
  re_payload :: string
  re_mailbox :: string
  re_drain :: "'w main_route_drain option"

definition route_depth :: "'w \<Rightarrow> 'w route_entry \<Rightarrow> nat" where
  "route_depth w e = (case re_drain e of None \<Rightarrow> 0 | Some d \<Rightarrow> rd_depth d w)"

record 'w route_table =
  rt_entries :: "'w route_entry list"
  rt_next_id :: u64

definition route_table_new :: "'w route_table" where
  "route_table_new = \<lparr> rt_entries = [], rt_next_id = 0 \<rparr>"

definition route_push :: "'w route_entry \<Rightarrow> 'w route_table \<Rightarrow> route_id \<times> 'w route_table" where
  "route_push e t =
     (let i = RouteId (rt_next_id t) in
      (i, t\<lparr> rt_next_id := rt_next_id t + 1, rt_entries := rt_entries t @ [e\<lparr> re_id := i \<rparr>] \<rparr>))"

definition active_drains :: "(owner_id \<Rightarrow> bool) \<Rightarrow> 'w route_table \<Rightarrow> 'w main_route_drain list" where
  "active_drains act t = List.map_filter re_drain
     (filter (\<lambda>e. re_direction e = CallbackToMain \<and> act (re_owner e) \<and> re_drain e \<noteq> None)
       (rt_entries t))"

definition route_snapshot :: "'w \<Rightarrow> 'w route_table \<Rightarrow> (string \<times> string \<times> nat) list" where
  "route_snapshot w t = map (\<lambda>e. (re_payload e, re_mailbox e, route_depth w e)) (rt_entries t)"

section \<open>Debug topics of the application\<close>

datatype topic_domain = Main_Domain | Callback_Domain

text \<open>The channel of a topic is shared with the owner's systems: a pair of accessors.\<close>

record ('w, 'j, 'p) channel_ref =
  cr_get :: "'w \<Rightarrow> ('j, 'p) debug_topic_channel"
  cr_put :: "('j, 'p) debug_topic_channel \<Rightarrow> 'w \<Rightarrow> 'w"

record ('w, 'j, 'p) topic_entry =
  te_id :: topic_id
  te_owner :: owner_id
  te_name :: string
  te_domain :: topic_domain
  te_channel :: "('w, 'j, 'p) channel_ref"
  te_decode :: "'j \<Rightarrow> (string, 'p arc) result"

record ('w, 'j, 'p) topic_registry =
  tr_entries :: "('w, 'j, 'p) topic_entry list"
  tr_next_id :: u64

definition topic_registry_new :: "('w, 'j, 'p) topic_registry" where
  "topic_registry_new = \<lparr> tr_entries = [], tr_next_id = 0 \<rparr>"

definition topic_register ::
  "owner_id \<Rightarrow> string \<Rightarrow> topic_domain \<Rightarrow> ('w, 'j, 'p) channel_ref \<Rightarrow> ('j \<Rightarrow> (string, 'p arc) result)
     \<Rightarrow> ('w, 'j, 'p) topic_registry
     \<Rightarrow> (plugin_error, topic_id) result \<times> ('w, 'j, 'p) topic_registry" where
  "topic_register i name domain channel decode t =
     (if \<exists>e \<in> set (tr_entries t). te_name e = name
      then (Inl (Message ''debug topic already registered''), t)
      else
        (let k = TopicId (tr_next_id t) in
         (Inr k, t\<lparr> tr_next_id := tr_next_id t + 1,
            tr_entries := tr_entries t @ [\<lparr> te_id = k, te_owner = i, te_name = name,
              te_domain = domain, te_channel = channel, te_decode = decode \<rparr>] \<rparr>)))"

definition fail_pending_requests ::
  "owner_id \<Rightarrow> ('w, 'j, 'p) topic_registry \<Rightarrow> 'w \<Rightarrow> 'w" where
  "fail_pending_requests i t w =
     fold (\<lambda>e w. let ch = cr_get (te_channel e) w in
         if ch_inbox ch = [] then w else cr_put (te_channel e) (fail_pending_channel ch) w)
       (filter (\<lambda>e. te_owner e = i) (tr_entries t)) w"

section \<open>Snapshots\<close>

record plugin_summary =
  sm_id :: owner_id
  sm_name :: string
  sm_state :: plugin_state
  sm_gate_open :: bool
  sm_startup_count :: nat
  sm_update_count :: nat
  sm_restore_count :: nat
  sm_inserted_count :: nat
  sm_has_container :: bool
  sm_route_count :: nat
  sm_topic_count :: nat

definition inventory_sync :: "'w plugin_manager \<Rightarrow> plugin_summary list" where
  "inventory_sync m = map (\<lambda>r. \<lparr> sm_id = pr_id r, sm_name = pr_name r, sm_state = pr_state r,
       sm_gate_open = plugin_gate_is_open (pr_gate r), sm_startup_count = length (pr_startup r),
       sm_update_count = length (pr_update r), sm_restore_count = length (pr_effects r),
       sm_inserted_count = length (pr_inserted r), sm_has_container = (pr_container r \<noteq> None),
       sm_route_count = length (pr_route_ids r), sm_topic_count = length (pr_topic_ids r) \<rparr>)
     (pm_records m)"

record introspection_plugin =
  ip_id :: u64
  ip_name :: string
  ip_state :: string
  ip_gate_open :: bool
  ip_startup_count :: nat
  ip_update_count :: nat
  ip_restore_count :: nat
  ip_has_container :: bool
  ip_topic_names :: "string list"

record introspection =
  is_plugins :: "introspection_plugin list"
  is_routes :: "(string \<times> string \<times> nat) list"
  is_runtime_gate_open :: bool
  is_frames :: u64
  is_debug_enabled :: bool

definition introspection_new :: "bool \<Rightarrow> introspection" where
  "introspection_new debug_on = \<lparr> is_plugins = [], is_routes = [], is_runtime_gate_open = False,
     is_frames = 0, is_debug_enabled = debug_on \<rparr>"

definition bump_frames :: "introspection \<Rightarrow> introspection" where
  "bump_frames d = d\<lparr> is_frames := is_frames d + 1 \<rparr>"

fun state_name :: "plugin_state \<Rightarrow> string" where
  "state_name Active = ''active''"
| "state_name Retired = ''retired''"

definition introspection_update ::
  "'w plugin_manager \<Rightarrow> 'w route_table \<Rightarrow> bool \<Rightarrow> (owner_id \<Rightarrow> string list) \<Rightarrow> 'w
     \<Rightarrow> introspection \<Rightarrow> introspection" where
  "introspection_update m routes runtime_gate_open topic_names w d =
     d\<lparr> is_runtime_gate_open := runtime_gate_open,
       is_plugins := map (\<lambda>r. \<lparr> ip_id = owner_num (pr_id r), ip_name = pr_name r,
           ip_state = state_name (pr_state r), ip_gate_open = plugin_gate_is_open (pr_gate r),
           ip_startup_count = length (pr_startup r), ip_update_count = length (pr_update r),
           ip_restore_count = length (pr_effects r), ip_has_container = (pr_container r \<noteq> None),
           ip_topic_names = topic_names (pr_id r) \<rparr>) (pm_records m),
       is_routes := route_snapshot w routes \<rparr>"

text \<open>\<open>introspect\<close> builds a JSON value; its constructors, the package version, the uptime and the
  event queue's drop counter are parameters.\<close>

record 'j json_ops =
  js_str :: "string \<Rightarrow> 'j"
  js_num :: "nat \<Rightarrow> 'j"
  js_bool :: "bool \<Rightarrow> 'j"
  js_arr :: "'j list \<Rightarrow> 'j"
  js_obj :: "(string \<times> 'j) list \<Rightarrow> 'j"

definition introspect ::
  "'j json_ops \<Rightarrow> string \<Rightarrow> nat \<Rightarrow> u64 \<Rightarrow> introspection \<Rightarrow> string \<Rightarrow> 'j option" where
  "introspect J version uptime dropped d meth =
     (if meth = ''runtime.plugins'' then
        Some (js_obj J [(''plugins'', js_arr J (map (\<lambda>p. js_obj J [
          (''id'', js_num J (unat (ip_id p))), (''name'', js_str J (ip_name p)),
          (''state'', js_str J (ip_state p)), (''gate_open'', js_bool J (ip_gate_open p)),
          (''startup_systems'', js_num J (ip_startup_count p)),
          (''update_systems'', js_num J (ip_update_count p)),
          (''restore_actions'', js_num J (ip_restore_count p)),
          (''container'', js_bool J (ip_has_container p)),
          (''topics'', js_arr J (map (js_str J) (ip_topic_names p)))]) (is_plugins d)))])
      else if meth = ''runtime.gates'' then
        Some (js_obj J [
          (''runtime_gate_open'', js_bool J (is_runtime_gate_open d)),
          (''plugins'', js_arr J (map (\<lambda>p. js_obj J [
            (''id'', js_num J (unat (ip_id p))), (''name'', js_str J (ip_name p)),
            (''gate_open'', js_bool J (ip_gate_open p))]) (is_plugins d)))])
      else if meth = ''runtime.info'' then
        Some (js_obj J [
          (''version'', js_str J version), (''frames'', js_num J (unat (is_frames d))),
          (''uptime_seconds'', js_num J uptime), (''debug_enabled'', js_bool J (is_debug_enabled d)),
          (''observability_dropped'', js_num J (unat dropped)),
          (''routes'', js_arr J (map (\<lambda>(payload, mailbox, depth). js_obj J [
            (''payload'', js_str J payload), (''mailbox'', js_str J mailbox),
            (''depth'', js_num J depth)]) (is_routes d)))])
      else None)"

section \<open>The application\<close>

record ('w, 'j, 'p) app_core =
  ac_config :: runtime_config
  ac_data_root :: data_root
  ac_routes :: "'w route_table"
  ac_topics :: "('w, 'j, 'p) topic_registry"
  ac_inventory :: "plugin_summary list"
  ac_has_resolver :: bool

definition app_core_new :: "runtime_config \<Rightarrow> data_root \<Rightarrow> ('w, 'j, 'p) app_core" where
  "app_core_new config root = \<lparr> ac_config = config, ac_data_root = root, ac_routes = route_table_new,
     ac_topics = topic_registry_new, ac_inventory = [], ac_has_resolver = False \<rparr>"

record ('w, 'j, 'p) app =
  app_world :: 'w
  app_core :: "('w, 'j, 'p) app_core"
  app_plugins :: "'w plugin_manager"
  app_startup_completed :: bool
  app_introspection :: introspection

definition app_new :: "'w \<Rightarrow> runtime_config \<Rightarrow> data_root \<Rightarrow> ('w, 'j, 'p) app" where
  "app_new w config root = \<lparr> app_world = w, app_core = app_core_new config root,
     app_plugins = \<lparr> pm_records = [], pm_next_owner = 0 \<rparr>, app_startup_completed = False,
     app_introspection = introspection_new (debug_enabled config) \<rparr>"

definition set_method_resolver :: "('w, 'j, 'p) app \<Rightarrow> ('w, 'j, 'p) app" where
  "set_method_resolver app = app\<lparr> app_core := (app_core app)\<lparr> ac_has_resolver := True \<rparr> \<rparr>"

abbreviation map_owner ::
  "owner_id \<Rightarrow> ('w plugin_record \<Rightarrow> 'w plugin_record) \<Rightarrow> ('w, 'j, 'p) app \<Rightarrow> ('w, 'j, 'p) app" where
  "map_owner i f app \<equiv> app\<lparr> app_plugins := pm_update i f (app_plugins app) \<rparr>"

section \<open>The host behind the facade\<close>

datatype ('w, 'j, 'p) host_call =
    C_Insert "'w resource_insert"
  | C_Message "'w \<Rightarrow> 'w"
  | C_Startup "'w startup_system"
  | C_Update "'w update_system"
  | C_Container usize
  | C_Route route_direction string string "'w main_route_drain option" "('w \<Rightarrow> 'w) option"
  | C_Restore "'w restore_action"
  | C_Topic string bool "('w, 'j, 'p) channel_ref" "'j \<Rightarrow> (string, 'p arc) result"

definition insert_resource_dyn ::
  "owner_id \<Rightarrow> 'w resource_insert \<Rightarrow> ('w, 'j, 'p) app
     \<Rightarrow> (plugin_error, unit) result \<times> ('w, 'j, 'p) app" where
  "insert_resource_dyn i ins app =
     (let order = (case pm_record i (app_plugins app) of
            Some r \<Rightarrow> (if pr_inserted r = [] then 0 else le_order (last (pr_inserted r)) + 1)
          | None \<Rightarrow> 0) in
      case ri_insert ins (app_world app) of
        (Inl e, w) \<Rightarrow> (Inl e, app\<lparr> app_world := w \<rparr>)
      | (Inr _, w) \<Rightarrow>
          (Inr (), map_owner i (\<lambda>r. r\<lparr> pr_inserted := pr_inserted r @
             [\<lparr> le_type_id = ri_type_id ins, le_type_name = ri_type_name ins, le_order = order,
                le_remove = ri_remove ins \<rparr>] \<rparr>) (app\<lparr> app_world := w \<rparr>)))"

definition register_container_dyn ::
  "owner_id \<Rightarrow> usize \<Rightarrow> ('w, 'j, 'p) app \<Rightarrow> (plugin_error, unit) result \<times> ('w, 'j, 'p) app" where
  "register_container_dyn i c app =
     (case pm_record i (app_plugins app) of
        Some r \<Rightarrow>
          if pr_container r \<noteq> None then (Inl (Message ''a container is already registered''), app)
          else (Inr (), map_owner i (\<lambda>r. r\<lparr> pr_container := Some c \<rparr>) app)
      | None \<Rightarrow> (Inr (), app))"

definition register_route_dyn ::
  "owner_id \<Rightarrow> route_direction \<Rightarrow> string \<Rightarrow> string \<Rightarrow> 'w main_route_drain option \<Rightarrow> ('w \<Rightarrow> 'w) option
     \<Rightarrow> ('w, 'j, 'p) app \<Rightarrow> (plugin_error, unit) result \<times> ('w, 'j, 'p) app" where
  "register_route_dyn i dir payload mailbox drain ensure app =
     (let w = (case ensure of None \<Rightarrow> app_world app | Some reg \<Rightarrow> reg (app_world app));
          entry = \<lparr> re_id = RouteId (- 1), re_owner = i, re_direction = dir, re_payload = payload,
            re_mailbox = mailbox, re_drain = drain \<rparr> in
      case route_push entry (ac_routes (app_core app)) of
        (k, routes) \<Rightarrow>
          (Inr (), map_owner i (\<lambda>r. r\<lparr> pr_route_ids := pr_route_ids r @ [k] \<rparr>)
             (app\<lparr> app_world := w, app_core := (app_core app)\<lparr> ac_routes := routes \<rparr> \<rparr>)))"

definition register_debug_topic_dyn ::
  "owner_id \<Rightarrow> string \<Rightarrow> bool \<Rightarrow> ('w, 'j, 'p) channel_ref \<Rightarrow> ('j \<Rightarrow> (string, 'p arc) result)
     \<Rightarrow> ('w, 'j, 'p) app \<Rightarrow> (plugin_error, unit) result \<times> ('w, 'j, 'p) app" where
  "register_debug_topic_dyn i name callback_domain channel decode app =
     (let domain = (if callback_domain then Callback_Domain else Main_Domain) in
      case topic_register i name domain channel decode (ac_topics (app_core app)) of
        (Inl e, _) \<Rightarrow> (Inl e, app)
      | (Inr k, topics) \<Rightarrow>
          (Inr (), map_owner i (\<lambda>r. r\<lparr> pr_topic_ids := pr_topic_ids r @ [k] \<rparr>)
             (app\<lparr> app_core := (app_core app)\<lparr> ac_topics := topics \<rparr> \<rparr>)))"

fun run_host_call ::
  "owner_id \<Rightarrow> ('w, 'j, 'p) host_call \<Rightarrow> ('w, 'j, 'p) app
     \<Rightarrow> (plugin_error, unit) result \<times> ('w, 'j, 'p) app" where
  "run_host_call i (C_Insert ins) app = insert_resource_dyn i ins app"
| "run_host_call i (C_Message reg) app = (Inr (), app\<lparr> app_world := reg (app_world app) \<rparr>)"
| "run_host_call i (C_Startup s) app =
     (Inr (), map_owner i (\<lambda>r. r\<lparr> pr_startup := pr_startup r @ [s] \<rparr>) app)"
| "run_host_call i (C_Update s) app =
     (Inr (), map_owner i (\<lambda>r. r\<lparr> pr_update := pr_update r @ [s] \<rparr>) app)"
| "run_host_call i (C_Container c) app = register_container_dyn i c app"
| "run_host_call i (C_Route dir payload mailbox drain ensure) app =
     register_route_dyn i dir payload mailbox drain ensure app"
| "run_host_call i (C_Restore act) app =
     (Inr (), map_owner i (\<lambda>r. r\<lparr> pr_effects := pr_effects r @ [act] \<rparr>) app)"
| "run_host_call i (C_Topic name callback_domain channel decode) app =
     register_debug_topic_dyn i name callback_domain channel decode app"

text \<open>A plugin's \<open>build\<close>: facade calls whose results decide how it goes on, and effects and reads of its own.\<close>

datatype ('w, 'j, 'p) build =
    B_Return "(plugin_error, unit) result"
  | B_Panic
  | B_Do "'w \<Rightarrow> 'w" "('w, 'j, 'p) build"
  | B_Get "'w \<Rightarrow> ('w, 'j, 'p) build"
  | B_Call "('w, 'j, 'p) host_call" "(plugin_error, unit) result \<Rightarrow> ('w, 'j, 'p) build"

primrec run_build ::
  "owner_id \<Rightarrow> ('w, 'j, 'p) build \<Rightarrow> ('w, 'j, 'p) app
     \<Rightarrow> (plugin_error, unit) result flow \<times> ('w, 'j, 'p) app" where
  "run_build i (B_Return r) app = (Returns r, app)"
| "run_build i B_Panic app = (Panics, app)"
| "run_build i (B_Do f b) app = run_build i b (app\<lparr> app_world := f (app_world app) \<rparr>)"
| "run_build i (B_Get k) app = (\<lambda>h. h app) (run_build i (k (app_world app)))"
| "run_build i (B_Call c k) app =
     (case run_host_call i c app of (r, app') \<Rightarrow> (\<lambda>h. h app') (run_build i (k r)))"

record ('w, 'j, 'p) plugin =
  pl_name :: string
  pl_build :: "owner_id \<Rightarrow> runtime_config \<Rightarrow> ('w, 'j, 'p) build"

section \<open>Facade calls that materialise a shared object\<close>

text \<open>A mailbox and a receiver, as accessors into the world.\<close>

record ('w, 'a) shared_ref =
  sr_get :: "'w \<Rightarrow> 'a"
  sr_put :: "'a \<Rightarrow> 'w \<Rightarrow> 'w"

definition route_drain_of ::
  "('w, 's) shared_ref \<Rightarrow> ('w, 'r option) shared_ref \<Rightarrow> ('s \<Rightarrow> nat)
     \<Rightarrow> ('r option \<Rightarrow> nat \<Rightarrow> 's \<Rightarrow> nat \<times> 'r option \<times> 's) \<Rightarrow> 'w main_route_drain" where
  "route_drain_of box recv depth drain =
     \<lparr> rd_depth = (\<lambda>w. depth (sr_get box w)),
       rd_drain = (\<lambda>n w. case drain (sr_get recv w) n (sr_get box w) of
          (k, r, s) \<Rightarrow> (k, sr_put recv r (sr_put box s w))) \<rparr>"

definition main_to_callback_latest :: "string \<Rightarrow> ('w, 'j, 'p) host_call" where
  "main_to_callback_latest payload = C_Route MainToCallback payload ''latest'' None None"

definition main_to_callback_bounded :: "string \<Rightarrow> ('w, 'j, 'p) host_call" where
  "main_to_callback_bounded payload = C_Route MainToCallback payload ''bounded'' None None"

definition main_to_callback_shared :: "string \<Rightarrow> ('w, 'j, 'p) host_call" where
  "main_to_callback_shared payload = C_Route MainToCallback payload ''shared_latest'' None None"

definition callback_to_main_latest ::
  "('a option, 'c) atomic_cell \<Rightarrow> ('a \<Rightarrow> 'r \<Rightarrow> 'r) \<Rightarrow> ('w, 'c) shared_ref \<Rightarrow> ('w, 'r option) shared_ref
     \<Rightarrow> ('w \<Rightarrow> 'w) \<Rightarrow> string \<Rightarrow> ('w, 'j, 'p) host_call" where
  "callback_to_main_latest C wr box recv register_message payload =
     C_Route CallbackToMain payload ''latest''
       (Some (route_drain_of box recv (main_latest_depth C) (main_latest_drain C wr)))
       (Some register_message)"

definition callback_to_main_bounded ::
  "('a, 'q) array_queue \<Rightarrow> ('a \<Rightarrow> 'r \<Rightarrow> 'r) \<Rightarrow> ('w, 'q) shared_ref \<Rightarrow> ('w, 'r option) shared_ref
     \<Rightarrow> ('w \<Rightarrow> 'w) \<Rightarrow> string \<Rightarrow> ('w, 'j, 'p) host_call" where
  "callback_to_main_bounded A wr box recv register_message payload =
     C_Route CallbackToMain payload ''bounded''
       (Some (route_drain_of box recv (main_bounded_depth A) (main_bounded_drain A wr)))
       (Some register_message)"

definition callback_to_main_shared ::
  "('a \<Rightarrow> 'r \<Rightarrow> 'r) \<Rightarrow> ('w, 'a shared_slot) shared_ref \<Rightarrow> ('w, 'r option) shared_ref
     \<Rightarrow> ('w \<Rightarrow> 'w) \<Rightarrow> string \<Rightarrow> ('w, 'j, 'p) host_call" where
  "callback_to_main_shared wr box recv register_message payload =
     C_Route CallbackToMain payload ''shared_latest''
       (Some (route_drain_of box recv main_shared_depth (main_shared_drain wr)))
       (Some register_message)"

text \<open>\<open>register_main_debug\<close> and \<open>register_callback_debug\<close>: a fresh channel, the registry entry, and
  only then the owner's system; \<open>k\<close> continues the build.\<close>

definition main_debug_system ::
  "('w, 'j, 'p) channel_ref \<Rightarrow> ('j, 'p, 'req, 'res, 'w) debug_handler \<Rightarrow> 'w update_system" where
  "main_debug_system chan H w =
     (case debug_handler_system_run H (cr_get chan w) w of
        (r, ch, w') \<Rightarrow> (Returns r, cr_put chan ch w'))"

definition register_main_debug ::
  "owner_id \<Rightarrow> string \<Rightarrow> ('w, 'j, 'p) channel_ref \<Rightarrow> ('j \<Rightarrow> (string, 'p arc) result)
     \<Rightarrow> ('j, 'p, 'req, 'res, 'w) debug_handler
     \<Rightarrow> ((plugin_error, unit) result \<Rightarrow> ('w, 'j, 'p) build) \<Rightarrow> ('w, 'j, 'p) build" where
  "register_main_debug i name chan decode H k =
     B_Do (cr_put chan (channel_new i))
       (B_Call (C_Topic name False chan decode) (\<lambda>r. case r of
          Inl e \<Rightarrow> k (Inl e)
        | Inr _ \<Rightarrow> B_Call (C_Update (main_debug_system chan H)) (\<lambda>_. k (Inr ()))))"

definition callback_debug_system ::
  "('w, ('j, 'p, 'req, 'res) callback_relay) shared_ref \<Rightarrow> ('p \<Rightarrow> 'req option)
     \<Rightarrow> ('res \<Rightarrow> (string, 'j) result) \<Rightarrow> 'w update_system" where
  "callback_debug_system relay downcast to_value w =
     (case callback_relay_system_run [] downcast to_value (sr_get relay w) of
        (r, rl) \<Rightarrow> (Returns r, sr_put relay rl w))"

definition register_callback_debug ::
  "owner_id \<Rightarrow> string \<Rightarrow> ('w, ('j, 'p, 'req, 'res) callback_relay) shared_ref
     \<Rightarrow> ('j \<Rightarrow> (string, 'p arc) result) \<Rightarrow> ('p \<Rightarrow> 'req option) \<Rightarrow> ('res \<Rightarrow> (string, 'j) result)
     \<Rightarrow> ((plugin_error, unit) result \<Rightarrow> ('w, 'j, 'p) build) \<Rightarrow> ('w, 'j, 'p) build" where
  "register_callback_debug i name relay decode downcast to_value k =
     (let chan = \<lparr> cr_get = (\<lambda>w. rl_channel (sr_get relay w)),
            cr_put = (\<lambda>ch w. sr_put relay ((sr_get relay w)\<lparr> rl_channel := ch \<rparr>) w) \<rparr> in
      B_Do (sr_put relay (relay_new (channel_new i)))
        (B_Call (C_Topic name True chan decode) (\<lambda>r. case r of
           Inl e \<Rightarrow> k (Inl e)
         | Inr _ \<Rightarrow> B_Call (C_Update (callback_debug_system relay downcast to_value)) (\<lambda>_. k (Inr ())))))"

section \<open>Rollback\<close>

text \<open>One restore action inside its own panic boundary; \<open>main\<close> says whether the main-thread token is
  at hand.  The result is only logged.\<close>

definition execute_restore ::
  "bool \<Rightarrow> 'w restore_action \<Rightarrow> 'w \<Rightarrow> (restore_error, unit) result \<times> 'w" where
  "execute_restore main a w =
     (let run = (\<lambda>f. case f w of (Returns r, w') \<Rightarrow> (r, w') | (Panics, w') \<Rightarrow> (Inl RestoreFailed, w')) in
      case a of
        AnyThread f \<Rightarrow> run f
      | MainThread f \<Rightarrow> if main then run f else (Inl RestoreFailed, w))"

text \<open>The two \<open>pop\<close> loops, on the reversed ledgers.\<close>

primrec pop_inserted :: "'w resource_ledger_entry list \<Rightarrow> 'w \<Rightarrow> 'w" where
  "pop_inserted [] w = w"
| "pop_inserted (e # es) w = pop_inserted es (le_remove e w)"

primrec pop_effects :: "bool \<Rightarrow> 'w restore_action list \<Rightarrow> 'w \<Rightarrow> 'w" where
  "pop_effects main [] w = w"
| "pop_effects main (a # as) w = pop_effects main as (snd (execute_restore main a w))"

definition owner_remove_resources :: "owner_id \<Rightarrow> ('w, 'j, 'p) app \<Rightarrow> ('w, 'j, 'p) app" where
  "owner_remove_resources i app =
     (case pm_record i (app_plugins app) of
        None \<Rightarrow> app
      | Some r \<Rightarrow>
          map_owner i (\<lambda>r. r\<lparr> pr_inserted := [] \<rparr>)
            (app\<lparr> app_world := pop_inserted (rev (pr_inserted r)) (app_world app) \<rparr>))"

definition owner_run_restores :: "bool \<Rightarrow> owner_id \<Rightarrow> ('w, 'j, 'p) app \<Rightarrow> ('w, 'j, 'p) app" where
  "owner_run_restores main i app =
     (case pm_record i (app_plugins app) of
        None \<Rightarrow> app
      | Some r \<Rightarrow>
          map_owner i (\<lambda>r. r\<lparr> pr_effects := [] \<rparr>)
            (app\<lparr> app_world := pop_effects main (rev (pr_effects r)) (app_world app) \<rparr>))"

definition owner_close_gate :: "owner_id \<Rightarrow> ('w, 'j, 'p) app \<Rightarrow> ('w, 'j, 'p) app" where
  "owner_close_gate i app = map_owner i (\<lambda>r. r\<lparr> pr_gate := plugin_gate_close (pr_gate r) \<rparr>) app"

definition owner_retire :: "owner_id \<Rightarrow> ('w, 'j, 'p) app \<Rightarrow> ('w, 'j, 'p) app" where
  "owner_retire i app = map_owner i (\<lambda>r. r\<lparr> pr_state := Retired \<rparr>) app"

definition owner_fail_pending :: "owner_id \<Rightarrow> ('w, 'j, 'p) app \<Rightarrow> ('w, 'j, 'p) app" where
  "owner_fail_pending i app =
     app\<lparr> app_world := fail_pending_requests i (ac_topics (app_core app)) (app_world app) \<rparr>"

definition sync_inventory :: "runtime_gate \<Rightarrow> ('w, 'j, 'p) app \<Rightarrow> ('w, 'j, 'p) app" where
  "sync_inventory rg app =
     app\<lparr> app_core := (app_core app)\<lparr> ac_inventory := inventory_sync (app_plugins app) \<rparr>,
       app_introspection := introspection_update (app_plugins app) (ac_routes (app_core app))
         (gate_is_open rg)
         (\<lambda>i. map te_name (filter (\<lambda>e. te_owner e = i) (tr_entries (ac_topics (app_core app)))))
         (app_world app) (app_introspection app) \<rparr>"

text \<open>The common body of the build rollback, the startup rollback and one round of \<open>teardown_all\<close>.\<close>

definition owner_rollback :: "bool \<Rightarrow> owner_id \<Rightarrow> ('w, 'j, 'p) app \<Rightarrow> ('w, 'j, 'p) app" where
  "owner_rollback main i app =
     owner_retire i (owner_run_restores main i (owner_remove_resources i (owner_fail_pending i
       (owner_close_gate i app))))"

definition build_rollback ::
  "runtime_gate \<Rightarrow> owner_id \<Rightarrow> ('w, 'j, 'p) app \<Rightarrow> ('w, 'j, 'p) app" where
  "build_rollback rg i app = sync_inventory rg (owner_rollback False i app)"

definition startup_rollback :: "owner_id \<Rightarrow> bool \<Rightarrow> ('w, 'j, 'p) app \<Rightarrow> ('w, 'j, 'p) app" where
  "startup_rollback i main app = owner_rollback main i app"

definition update_retire :: "owner_id \<Rightarrow> bool \<Rightarrow> ('w, 'j, 'p) app \<Rightarrow> ('w, 'j, 'p) app" where
  "update_retire i main app =
     owner_run_restores main i (owner_fail_pending i (owner_retire i (owner_close_gate i app)))"

primrec teardown_owners :: "owner_id list \<Rightarrow> ('w, 'j, 'p) app \<Rightarrow> ('w, 'j, 'p) app" where
  "teardown_owners [] app = app"
| "teardown_owners (i # is) app =
     teardown_owners is (if is_active i (app_plugins app) then owner_rollback False i app else app)"

definition teardown_all :: "runtime_gate \<Rightarrow> ('w, 'j, 'p) app \<Rightarrow> ('w, 'j, 'p) app" where
  "teardown_all rg app =
     sync_inventory rg (teardown_owners (rev (map pr_id (pm_records (app_plugins app)))) app)"

section \<open>Build\<close>

definition add_plugin ::
  "runtime_gate \<Rightarrow> ('w, 'j, 'p) plugin \<Rightarrow> ('w, 'j, 'p) app \<Rightarrow> unit flow \<times> ('w, 'j, 'p) app" where
  "add_plugin rg plugin app =
     (case begin_owner (pl_name plugin) (app_plugins app) of
        (i, m) \<Rightarrow>
          (case run_build i (pl_build plugin i (ac_config (app_core app)))
                  (app\<lparr> app_plugins := m \<rparr>) of
             (Panics, app') \<Rightarrow> (Panics, app')
           | (Returns (Inr _), app') \<Rightarrow> (Returns (), sync_inventory rg app')
           | (Returns (Inl e), app') \<Rightarrow> (Returns (), build_rollback rg i app')))"

section \<open>The startup driver\<close>

record startup_report =
  su_started :: "owner_id list"
  su_retired :: "owner_id list"

datatype failure = Failed_Error plugin_error | Failed_Panic

record 'w startup_ledgers =
  sl_world :: 'w
  sl_effects :: "'w restore_action list"
  sl_inserted :: "'w resource_ledger_entry list"

text \<open>Applying the queued inserts at a system boundary.\<close>

fun apply_pending ::
  "'w resource_insert list \<Rightarrow> u64 \<Rightarrow> 'w startup_ledgers \<Rightarrow> failure option \<times> u64 \<times> 'w startup_ledgers"
where
  "apply_pending [] order s = (None, order, s)"
| "apply_pending (ins # rest) order s =
     (case ri_insert ins (sl_world s) of
        (Inr _, w) \<Rightarrow>
          apply_pending rest (order + 1)
            (s\<lparr> sl_world := w, sl_inserted := sl_inserted s @
               [\<lparr> le_type_id = ri_type_id ins, le_type_name = ri_type_name ins, le_order = order,
                  le_remove = ri_remove ins \<rparr>] \<rparr>)
      | (Inl e, w) \<Rightarrow> (Some (Failed_Error e), order, s\<lparr> sl_world := w \<rparr>))"

fun run_startup_systems ::
  "'w startup_system list \<Rightarrow> u64 \<Rightarrow> 'w startup_ledgers \<Rightarrow> failure option \<times> 'w startup_ledgers" where
  "run_startup_systems [] order s = (None, s)"
| "run_startup_systems (system # rest) order s =
     (case system (sl_world s) of
        (result, pending, sink, w) \<Rightarrow>
          (let s1 = s\<lparr> sl_world := w, sl_effects := sl_effects s @ sink \<rparr> in
           case result of
             Panics \<Rightarrow> (Some Failed_Panic, s1)
           | Returns (Inl e) \<Rightarrow> (Some (Failed_Error e), s1)
           | Returns (Inr _) \<Rightarrow>
               (case apply_pending pending order s1 of
                  (Some e, _, s2) \<Rightarrow> (Some e, s2)
                | (None, order2, s2) \<Rightarrow> run_startup_systems rest order2 s2)))"

definition startup_owner ::
  "owner_id \<Rightarrow> ('w, 'j, 'p) app \<times> startup_report \<Rightarrow> ('w, 'j, 'p) app \<times> startup_report" where
  "startup_owner i s =
     (case s of (app, rep) \<Rightarrow>
        (case pm_record i (app_plugins app) of
           None \<Rightarrow> (app, rep)
         | Some r \<Rightarrow>
             (let order = (if pr_inserted r = [] then 0 else le_order (last (pr_inserted r)) + 1) in
              case run_startup_systems (pr_startup r) order
                     \<lparr> sl_world = app_world app, sl_effects = pr_effects r,
                        sl_inserted = pr_inserted r \<rparr> of
                (failed, s') \<Rightarrow>
                  (let app1 = map_owner i (\<lambda>r. r\<lparr> pr_effects := sl_effects s',
                                pr_inserted := sl_inserted s' \<rparr>) (app\<lparr> app_world := sl_world s' \<rparr>) in
                   case failed of
                     None \<Rightarrow>
                       (map_owner i (\<lambda>r. r\<lparr> pr_gate := plugin_gate_open (pr_gate r) \<rparr>) app1,
                        rep\<lparr> su_started := su_started rep @ [i] \<rparr>)
                   | Some _ \<Rightarrow>
                       (startup_rollback i True app1, rep\<lparr> su_retired := su_retired rep @ [i] \<rparr>)))))"

definition run_startup ::
  "runtime_gate \<Rightarrow> ('w, 'j, 'p) app \<Rightarrow> startup_report \<times> ('w, 'j, 'p) app" where
  "run_startup rg app =
     (case fold startup_owner (active_owner_ids (app_plugins app))
             (app, \<lparr> su_started = [], su_retired = [] \<rparr>) of
        (app', rep) \<Rightarrow> (rep, sync_inventory rg (app'\<lparr> app_startup_completed := True \<rparr>)))"

section \<open>The update driver\<close>

record update_report =
  ur_updated :: "owner_id list"
  ur_retired :: "owner_id list"

fun run_update_systems :: "'w update_system list \<Rightarrow> 'w \<Rightarrow> failure option \<times> 'w" where
  "run_update_systems [] w = (None, w)"
| "run_update_systems (system # rest) w =
     (case system w of
        (Returns (Inr _), w') \<Rightarrow> run_update_systems rest w'
      | (Returns (Inl e), w') \<Rightarrow> (Some (Failed_Error e), w')
      | (Panics, w') \<Rightarrow> (Some Failed_Panic, w'))"

definition command_drain :: "'w main_route_drain list \<Rightarrow> 'w \<Rightarrow> 'w" where
  "command_drain drains w =
     fold (\<lambda>d w. let watermark = rd_depth d w in
        if watermark > 0 then snd (rd_drain d watermark w) else w) drains w"

definition update_owner ::
  "owner_id \<Rightarrow> ('w, 'j, 'p) app \<times> update_report \<Rightarrow> ('w, 'j, 'p) app \<times> update_report" where
  "update_owner i s =
     (case s of (app, rep) \<Rightarrow>
        (case pm_record i (app_plugins app) of
           None \<Rightarrow> (app, rep)
         | Some r \<Rightarrow>
             (case run_update_systems (pr_update r) (app_world app) of
                (None, w) \<Rightarrow>
                  (app\<lparr> app_world := w \<rparr>, rep\<lparr> ur_updated := ur_updated rep @ [i] \<rparr>)
              | (Some _, w) \<Rightarrow>
                  (update_retire i True (app\<lparr> app_world := w \<rparr>),
                   rep\<lparr> ur_retired := ur_retired rep @ [i] \<rparr>))))"

text \<open>\<open>maintenance\<close> is the message registry's update pass.\<close>

definition run_update ::
  "('w \<Rightarrow> 'w) \<Rightarrow> runtime_gate \<Rightarrow> ('w, 'j, 'p) app \<Rightarrow> update_report \<times> ('w, 'j, 'p) app" where
  "run_update maintenance rg app =
     (let owners = active_owner_ids (app_plugins app);
          app1 = app\<lparr> app_world := maintenance (app_world app) \<rparr>;
          drains = active_drains (\<lambda>i. is_active i (app_plugins app1)) (ac_routes (app_core app1));
          app2 = app1\<lparr> app_world := command_drain drains (app_world app1) \<rparr>;
          app3 = app2\<lparr> app_introspection := bump_frames (app_introspection app2) \<rparr> in
      case fold update_owner owners (app3, \<lparr> ur_updated = [], ur_retired = [] \<rparr>) of
        (app', rep) \<Rightarrow> (rep, sync_inventory rg app'))"

end
