(* ===== verification/Plugin_App_Correct.thy ===== *)
theory Plugin_App_Correct
  imports Plugin_App
begin

text \<open>
  The lifecycle of owners in \<open>app.rs\<close>: the invariant of the ledger and its preservation by every
  driver, what a failed build leaves behind, what the startup driver reports, and what teardown runs.
\<close>

section \<open>Updating one record\<close>

lemma update_first_map:
  "(\<And>x. p x \<Longrightarrow> g (f x) = g x) \<Longrightarrow> map g (update_first p f xs) = map g xs"
  by (induction xs) auto

lemma update_first_id: "(\<And>x. x \<in> set xs \<Longrightarrow> p x \<Longrightarrow> f x = x) \<Longrightarrow> update_first p f xs = xs"
  by (induction xs) auto

lemma update_first_fuse:
  "(\<And>x. p x \<Longrightarrow> p (g x)) \<Longrightarrow> update_first p f (update_first p g xs) = update_first p (f \<circ> g) xs"
  by (induction xs) auto

lemma update_first_cong:
  "(\<And>x. x \<in> set xs \<Longrightarrow> p x \<Longrightarrow> f x = g x) \<Longrightarrow> update_first p f xs = update_first p g xs"
  by (induction xs) auto

lemma update_first_ball:
  "\<forall>x \<in> set xs. P x \<Longrightarrow> (\<And>x. x \<in> set xs \<Longrightarrow> p x \<Longrightarrow> P (f x)) \<Longrightarrow> \<forall>x \<in> set (update_first p f xs). P x"
  by (induction xs) auto

lemma update_first_append:
  "update_first p f (xs @ ys) =
     (if \<exists>x \<in> set xs. p x then update_first p f xs @ ys else xs @ update_first p f ys)"
  by (induction xs) auto

lemma find_first_update:
  "(\<And>x. p x \<Longrightarrow> p (f x)) \<Longrightarrow> find_first p (update_first p f xs) = map_option f (find_first p xs)"
  by (induction xs) auto

lemma find_first_update_other:
  "(\<And>x. p x \<Longrightarrow> q x = False \<and> q (f x) = False) \<Longrightarrow>
    find_first q (update_first p f xs) = find_first q xs"
  by (induction xs) auto

lemma pm_record_update:
  assumes "\<And>r. pr_id (f r) = pr_id r"
  shows "pm_record j (pm_update i f m) =
    (if i = j then map_option f (pm_record i m) else pm_record j m)"
  using assms
  by (auto simp: pm_record_def pm_update_def intro: find_first_update find_first_update_other)

lemma pm_update_fuse:
  assumes "\<And>r. pr_id (g r) = pr_id r"
  shows "pm_update i f (pm_update i g m) = pm_update i (f \<circ> g) m"
  using assms by (simp add: pm_update_def update_first_fuse)

lemma pm_update_ids:
  assumes "\<And>r. pr_id (f r) = pr_id r"
  shows "map pr_id (pm_records (pm_update i f m)) = map pr_id (pm_records m)"
  using assms by (simp add: pm_update_def update_first_map)

lemma pm_update_next [simp]: "pm_next_owner (pm_update i f m) = pm_next_owner m"
  by (simp add: pm_update_def)

lemma pm_record_Some:
  "pm_record i m = Some r \<Longrightarrow> r \<in> set (pm_records m) \<and> pr_id r = i"
  unfolding pm_record_def by (drule find_first_Some) simp

lemma find_first_append_none:
  "find_first p xs = None \<Longrightarrow> find_first p (xs @ ys) = find_first p ys"
  by (induction xs) (auto split: if_splits)

lemma pm_record_distinct:
  "distinct (map pr_id (pm_records m)) \<Longrightarrow> r \<in> set (pm_records m) \<Longrightarrow> pm_record (pr_id r) m = Some r"
proof -
  have "distinct (map pr_id rs) \<Longrightarrow> r \<in> set rs \<Longrightarrow> find_first (\<lambda>x. pr_id x = pr_id r) rs = Some r" for rs
    by (induction rs) (auto simp: image_iff)
  then show "distinct (map pr_id (pm_records m)) \<Longrightarrow> r \<in> set (pm_records m) \<Longrightarrow> ?thesis"
    by (simp add: pm_record_def)
qed

section \<open>The operations as single updates of the ledger\<close>

abbreviation retired_record :: "'w plugin_record \<Rightarrow> 'w plugin_record" where
  "retired_record r \<equiv> r\<lparr> pr_gate := plugin_gate_close (pr_gate r), pr_effects := [], pr_state := Retired \<rparr>"

lemma pm_update_none: "pm_record i m = None \<Longrightarrow> pm_update i f m = m"
  by (cases m) (auto simp: pm_record_def pm_update_def find_first_None intro!: update_first_id)

lemma remove_resources_plugins:
  "app_plugins (owner_remove_resources i a) = pm_update i (\<lambda>r. r\<lparr> pr_inserted := [] \<rparr>) (app_plugins a)"
  by (simp add: owner_remove_resources_def pm_update_none split: option.split)

lemma run_restores_plugins:
  "app_plugins (owner_run_restores main i a) = pm_update i (\<lambda>r. r\<lparr> pr_effects := [] \<rparr>) (app_plugins a)"
  by (simp add: owner_run_restores_def pm_update_none split: option.split)

lemma record_fields_commute:
  "r\<lparr> pr_gate := g, pr_inserted := [], pr_effects := [], pr_state := Retired \<rparr> =
     r\<lparr> pr_gate := g, pr_effects := [], pr_state := Retired, pr_inserted := [] \<rparr>"
  "r\<lparr> pr_gate := g, pr_state := Retired, pr_effects := [] \<rparr> =
     r\<lparr> pr_gate := g, pr_effects := [], pr_state := Retired \<rparr>"
  by (rule plugin_record.equality; simp)+

lemma owner_rollback_plugins:
  "app_plugins (owner_rollback main i app) =
     pm_update i (\<lambda>r. (retired_record r)\<lparr> pr_inserted := [] \<rparr>) (app_plugins app)"
  by (simp add: owner_rollback_def owner_retire_def remove_resources_plugins run_restores_plugins
      owner_fail_pending_def owner_close_gate_def pm_update_fuse comp_def record_fields_commute)

lemma update_retire_plugins:
  "app_plugins (update_retire i main app) = pm_update i retired_record (app_plugins app)"
  by (simp add: update_retire_def owner_retire_def run_restores_plugins
      owner_fail_pending_def owner_close_gate_def pm_update_fuse comp_def record_fields_commute)

lemma app_core_rollback [simp]:
  "app_core (owner_rollback main i app) = app_core app"
  "app_core (update_retire i main app) = app_core app"
  by (simp_all add: owner_rollback_def update_retire_def owner_retire_def owner_run_restores_def
      owner_remove_resources_def owner_fail_pending_def owner_close_gate_def split: option.split)

lemma sync_inventory_simps [simp]:
  "app_plugins (sync_inventory rg app) = app_plugins app"
  "app_world (sync_inventory rg app) = app_world app"
  "ac_topics (app_core (sync_inventory rg app)) = ac_topics (app_core app)"
  "ac_routes (app_core (sync_inventory rg app)) = ac_routes (app_core app)"
  "app_startup_completed (sync_inventory rg app) = app_startup_completed app"
  by (simp_all add: sync_inventory_def)

section \<open>The lifecycle invariant\<close>

definition record_ok :: "'w plugin_record \<Rightarrow> bool" where
  "record_ok r \<longleftrightarrow> gate_ok (gate_inner (pr_gate r)) \<and>
     (gate_is_closed (gate_inner (pr_gate r)) \<longleftrightarrow> pr_state r = Retired) \<and>
     (pr_state r = Retired \<longrightarrow> pr_effects r = [])"

definition manager_ok :: "'w plugin_manager \<Rightarrow> bool" where
  "manager_ok m \<longleftrightarrow>
     map pr_id (pm_records m) = map (\<lambda>k. OwnerId (of_nat k)) [0..<length (pm_records m)] \<and>
     pm_next_owner m = of_nat (length (pm_records m)) \<and> length (pm_records m) < 2 ^ 64 \<and>
     (\<forall>r \<in> set (pm_records m). record_ok r)"

lemma record_ok_new [simp]: "record_ok (plugin_record_new i name)"
  by (simp add: record_ok_def plugin_record_new_def gate_simps)

lemma record_ok_retired [simp]:
  "record_ok r \<Longrightarrow> record_ok (retired_record r)"
  "record_ok r \<Longrightarrow> record_ok ((retired_record r)\<lparr> pr_inserted := [] \<rparr>)"
  using pg.cls_ok [of "pr_gate r"] pg.cls_dead [of "pr_gate r"] by (simp_all add: record_ok_def)

lemma record_ok_opened:
  "record_ok r \<Longrightarrow> record_ok (r\<lparr> pr_gate := plugin_gate_open (pr_gate r) \<rparr>)"
  using pg.opn_ok [of "pr_gate r"] pg.opn_dead [of "pr_gate r"] by (simp add: record_ok_def)

lemma of_nat_u64_inj:
  "a < 2 ^ 64 \<Longrightarrow> b < 2 ^ 64 \<Longrightarrow> (of_nat a :: u64) = of_nat b \<longleftrightarrow> a = b"
  by (simp add: word_unat_eq_iff unat_of_nat)

lemma manager_ok_distinct: "manager_ok m \<Longrightarrow> distinct (map pr_id (pm_records m))"
proof -
  assume m: "manager_ok m"
  then have "length (pm_records m) < 2 ^ 64" by (simp add: manager_ok_def)
  then have "inj_on (\<lambda>k. OwnerId (of_nat k)) {0..<length (pm_records m)}"
    by (auto intro!: inj_onI simp: of_nat_u64_inj)
  with m show ?thesis by (simp add: manager_ok_def distinct_map)
qed

text \<open>Ids ascend in the derived order, which is the order of registration.\<close>

lemma manager_ok_ascending:
  assumes "manager_ok m"
  shows "sorted_wrt (<) (map pr_id (pm_records m))"
proof -
  from assms have n: "length (pm_records m) < 2 ^ 64"
    and ids: "map pr_id (pm_records m) = map (\<lambda>k. OwnerId (of_nat k)) [0..<length (pm_records m)]"
    unfolding manager_ok_def by blast+
  have "OwnerId (of_nat j) < OwnerId (of_nat k)" if "j < k" "k < length (pm_records m)" for j k
    using that n by (simp add: less_owner_id_def word_less_nat_alt unat_of_nat)
  then show ?thesis unfolding ids by (simp add: sorted_wrt_iff_nth_less)
qed

lemma manager_ok_update:
  assumes m: "manager_ok m" and f: "\<And>r. pr_id (f r) = pr_id r"
    and ok: "\<And>r. pm_record i m = Some r \<Longrightarrow> record_ok r \<Longrightarrow> record_ok (f r)"
  shows "manager_ok (pm_update i f m)"
proof -
  from m have all: "\<forall>r \<in> set (pm_records m). record_ok r" by (simp add: manager_ok_def)
  have "\<forall>r \<in> set (pm_records (pm_update i f m)). record_ok r"
    unfolding pm_update_def plugin_manager.select_convs plugin_manager.simps
  proof (simp, rule update_first_ball [OF all])
    fix r assume "r \<in> set (pm_records m)" and "pr_id r = i"
    then show "record_ok (f r)"
      using ok pm_record_distinct [OF manager_ok_distinct [OF m]] all by blast
  qed
  moreover from pm_update_ids [where f = f, OF f] have
    "map pr_id (pm_records (pm_update i f m)) = map pr_id (pm_records m)" .
  moreover from this have "length (pm_records (pm_update i f m)) = length (pm_records m)"
    by (metis length_map)
  ultimately show ?thesis using m by (simp add: manager_ok_def)
qed

lemma is_active_update:
  assumes "\<And>r. pr_id (f r) = pr_id r" and "\<And>r. pr_state (f r) = pr_state r"
  shows "is_active j (pm_update i f m) = is_active j m"
  using assms by (simp add: is_active_def pm_record_update split: option.split)

lemma begin_owner_ok:
  assumes "manager_ok m" and "length (pm_records m) + 1 < 2 ^ 64" and "begin_owner name m = (i, m')"
  shows "manager_ok m' \<and> is_active i m' \<and> pm_record i m = None \<and>
    pm_records m' = pm_records m @ [plugin_record_new i name] \<and> i = OwnerId (of_nat (length (pm_records m)))"
proof -
  from assms(1,3) have i: "i = OwnerId (of_nat (length (pm_records m)))"
    and m': "m' = m\<lparr> pm_next_owner := of_nat (length (pm_records m)) + 1,
       pm_records := pm_records m @ [plugin_record_new i name] \<rparr>"
    by (auto simp: begin_owner_def manager_ok_def Let_def)
  have id: "pr_id (plugin_record_new j name) = j" for j by (simp add: plugin_record_new_def)
  have ok: "manager_ok m'"
    using assms(1,2) by (auto simp: m' manager_ok_def id i add.commute)
  from manager_ok_distinct [OF this] have "i \<notin> set (map pr_id (pm_records m))"
    by (simp add: m' id)
  then have "pm_record i m = None" by (auto simp: pm_record_def find_first_None)
  moreover from pm_record_distinct [OF manager_ok_distinct [OF ok], of "plugin_record_new i name"]
  have "pm_record i m' = Some (plugin_record_new i name)" by (simp add: m' id)
  ultimately show ?thesis
    using ok i by (simp add: m' is_active_def plugin_record_new_def)
qed

section \<open>Every driver keeps the invariant\<close>

text \<open>A quiet change of a record leaves its identity, its state and its gate.\<close>

definition quiet :: "('w plugin_record \<Rightarrow> 'w plugin_record) \<Rightarrow> bool" where
  "quiet f \<longleftrightarrow> (\<forall>r. pr_id (f r) = pr_id r \<and> pr_state (f r) = pr_state r \<and> pr_gate (f r) = pr_gate r)"

definition topics_ok :: "('w, 'j, 'p) app \<Rightarrow> bool" where
  "topics_ok app \<longleftrightarrow> distinct (map te_name (tr_entries (ac_topics (app_core app))))"

lemma pm_update_id [simp]: "pm_update i id m = m" "pm_update i (\<lambda>r. r) m = m"
  by (simp_all add: pm_update_def update_first_id)

lemma quiet_id: "quiet id"
  by (simp add: quiet_def)

lemma quiet_compose: "quiet f \<Longrightarrow> quiet g \<Longrightarrow> quiet (f \<circ> g)"
  by (simp add: quiet_def)

lemma host_call_quiet:
  "\<exists>f. quiet f \<and> app_plugins (snd (run_host_call i c app)) = pm_update i f (app_plugins app)"
proof -
  have keep: ?thesis if "app_plugins (snd (run_host_call i c app)) = app_plugins app"
    using that quiet_id by (intro exI [of _ id]) simp
  have upd: ?thesis if "quiet f" "app_plugins (snd (run_host_call i c app)) = pm_update i f (app_plugins app)"
    for f using that by blast
  show ?thesis
  proof (cases c)
    case (C_Insert ins)
    show ?thesis
    proof (cases "ri_insert ins (app_world app)")
      case (Pair r w)
      show ?thesis
      proof (cases r)
        case (Inl e)
        with C_Insert Pair show ?thesis by (intro keep) (simp add: insert_resource_dyn_def Let_def)
      next
        case (Inr u)
        with C_Insert Pair show ?thesis
          by (intro upd) (auto simp: insert_resource_dyn_def Let_def quiet_def)
      qed
    qed
  next
    case (C_Container c)
    show ?thesis
    proof (cases "pm_record i (app_plugins app)")
      case None
      with C_Container show ?thesis by (intro keep) (simp add: register_container_dyn_def)
    next
      case (Some r)
      with C_Container show ?thesis
        by (cases "pr_container r")
          (intro upd, auto simp: register_container_dyn_def quiet_def intro: keep)
    qed
  next
    case (C_Route dir payload mailbox drain ensure)
    then show ?thesis
      by (intro upd) (auto simp: register_route_dyn_def route_push_def Let_def quiet_def)
  next
    case (C_Topic name cd ch dc)
    show ?thesis
    proof (cases "\<exists>e \<in> set (tr_entries (ac_topics (app_core app))). te_name e = name")
      case True
      with C_Topic show ?thesis
        by (intro keep) (simp add: register_debug_topic_dyn_def topic_register_def Let_def)
    next
      case False
      with C_Topic show ?thesis
        by (intro upd) (auto simp: register_debug_topic_dyn_def topic_register_def Let_def quiet_def)
    qed
  next
    case (C_Message reg)
    then show ?thesis by (intro keep) simp
  next
    case (C_Startup s)
    then show ?thesis
      by (intro upd [of "\<lambda>r. r\<lparr> pr_startup := pr_startup r @ [s] \<rparr>"]) (simp_all add: quiet_def)
  next
    case (C_Update s)
    then show ?thesis
      by (intro upd [of "\<lambda>r. r\<lparr> pr_update := pr_update r @ [s] \<rparr>"]) (simp_all add: quiet_def)
  next
    case (C_Restore act)
    then show ?thesis
      by (intro upd [of "\<lambda>r. r\<lparr> pr_effects := pr_effects r @ [act] \<rparr>"]) (simp_all add: quiet_def)
  qed
qed

lemma host_call_topics:
  "topics_ok app \<Longrightarrow> topics_ok (snd (run_host_call i c app))"
  by (cases c) (auto simp: topics_ok_def insert_resource_dyn_def register_container_dyn_def
      register_route_dyn_def register_debug_topic_dyn_def topic_register_def route_push_def Let_def
      split: sum.splits prod.splits option.splits if_splits)

lemma run_build_quiet:
  "\<exists>f. quiet f \<and> app_plugins (snd (run_build i b app)) = pm_update i f (app_plugins app)"
proof (induction b arbitrary: app)
  case (B_Call c k)
  obtain r app1 where c: "run_host_call i c app = (r, app1)" by fastforce
  with host_call_quiet [of i c app] obtain f where
    f: "quiet f" "app_plugins app1 = pm_update i f (app_plugins app)" by auto
  from B_Call.IH [OF rangeI, of r app1] obtain g where
    g: "quiet g" "app_plugins (snd (run_build i (k r) app1)) = pm_update i g (app_plugins app1)" by auto
  from f g have "app_plugins (snd (run_build i (k r) app1)) = pm_update i (g \<circ> f) (app_plugins app)"
    by (simp add: pm_update_fuse quiet_def)
  with c quiet_compose [OF g(1) f(1)] show ?case by auto
next
  case (B_Do f b)
  from B_Do.IH [of "app\<lparr> app_world := f (app_world app) \<rparr>"] show ?case by simp
next
  case (B_Get k)
  from B_Get.IH [OF rangeI, of "app_world app" app] show ?case by simp
qed (use quiet_id in \<open>force+\<close>)

lemma run_build_topics: "topics_ok app \<Longrightarrow> topics_ok (snd (run_build i b app))"
proof (induction b arbitrary: app)
  case (B_Call c k)
  obtain r app1 where c: "run_host_call i c app = (r, app1)" by fastforce
  with host_call_topics [OF B_Call.prems, of i c] have "topics_ok app1" by simp
  from B_Call.IH [OF rangeI this] c show ?case by simp
next
  case (B_Get k)
  from B_Get.IH [OF rangeI B_Get.prems] show ?case by simp
qed (simp_all add: topics_ok_def)

text \<open>A settled change of a record: its identity stays and \<open>record_ok\<close> survives.\<close>

definition settled :: "('w plugin_record \<Rightarrow> 'w plugin_record) \<Rightarrow> 'w plugin_record \<Rightarrow> bool" where
  "settled f r \<longleftrightarrow> (record_ok r \<longrightarrow> record_ok (f r))"

lemma quiet_record_ok:
  "quiet f \<Longrightarrow> pr_state r = Active \<Longrightarrow> record_ok r \<Longrightarrow> record_ok (f r)"
  by (simp add: quiet_def record_ok_def)

lemma is_activeD: "is_active i m \<Longrightarrow> pm_record i m = Some r \<Longrightarrow> pr_state r = Active"
  by (simp add: is_active_def)

lemma pm_update_length [simp]: "length (pm_records (pm_update i f m)) = length (pm_records m)"
proof -
  have "length (update_first p f xs) = length xs" for p f and xs :: "'a plugin_record list"
    by (induction xs) auto
  then show ?thesis by (simp add: pm_update_def)
qed

lemma add_plugin_ok:
  assumes m: "manager_ok (app_plugins app)" and t: "topics_ok app"
    and n: "length (pm_records (app_plugins app)) + 1 < 2 ^ 64"
    and run: "add_plugin rg plugin app = (r, app')"
  shows "manager_ok (app_plugins app') \<and> topics_ok app' \<and>
    length (pm_records (app_plugins app')) = length (pm_records (app_plugins app)) + 1"
proof -
  obtain i m' where b: "begin_owner (pl_name plugin) (app_plugins app) = (i, m')" by fastforce
  note bo = begin_owner_ok [OF m n b]
  let ?app = "app\<lparr> app_plugins := m' \<rparr>"
  obtain s app1 where rb: "run_build i (pl_build plugin i (ac_config (app_core app))) ?app = (s, app1)"
    by fastforce
  from run_build_quiet [of i "pl_build plugin i (ac_config (app_core app))" ?app] rb
  obtain f where f: "quiet f" "app_plugins app1 = pm_update i f m'" by auto
  from bo have ok: "manager_ok (app_plugins app1)"
    unfolding f(2) using f(1) by (intro manager_ok_update)
      (auto simp: quiet_def intro: quiet_record_ok [OF f(1)] dest: is_activeD)
  have len: "length (pm_records (app_plugins app1)) = length (pm_records (app_plugins app)) + 1"
    using bo by (simp add: f(2))
  have "topics_ok ?app" using t by (simp add: topics_ok_def)
  from run_build_topics [OF this, of i "pl_build plugin i (ac_config (app_core app))"] rb
  have tp: "topics_ok app1" by simp
  have rbk: "manager_ok (app_plugins (build_rollback rg i app1))"
    unfolding build_rollback_def sync_inventory_simps owner_rollback_plugins
    by (rule manager_ok_update [OF ok]) (auto intro: record_ok_retired)
  have "app' \<in> {app1, sync_inventory rg app1, build_rollback rg i app1}"
    using run b rb by (auto simp: add_plugin_def split: flow.splits sum.splits)
  then show ?thesis using ok len tp rbk
    by (auto simp: build_rollback_def owner_rollback_plugins topics_ok_def)
qed

lemma startup_owner_ok:
  assumes m: "manager_ok (app_plugins app)" and t: "topics_ok app" and a: "is_active i (app_plugins app)"
    and run: "startup_owner i (app, rep) = (app', rep')"
  shows "\<exists>f. app_plugins app' = pm_update i f (app_plugins app) \<and> app_core app' = app_core app \<and>
    (\<forall>r. pr_id (f r) = pr_id r) \<and> manager_ok (app_plugins app') \<and>
    (if rep' = rep\<lparr> su_started := su_started rep @ [i] \<rparr>
     then is_active i (app_plugins app') \<and>
       (\<forall>r. pm_record i (app_plugins app') = Some r \<longrightarrow> plugin_gate_is_open (pr_gate r))
     else rep' = rep\<lparr> su_retired := su_retired rep @ [i] \<rparr> \<and> \<not> is_active i (app_plugins app'))"
proof -
  from a obtain r where r: "pm_record i (app_plugins app) = Some r" and act: "pr_state r = Active"
    by (auto simp: is_active_def split: option.splits)
  let ?order = "if pr_inserted r = [] then 0 else le_order (last (pr_inserted r)) + 1"
  obtain failed s where sys: "run_startup_systems (pr_startup r) ?order
      \<lparr> sl_world = app_world app, sl_effects = pr_effects r, sl_inserted = pr_inserted r \<rparr> = (failed, s)"
    by fastforce
  let ?g = "\<lambda>r. r\<lparr> pr_effects := sl_effects s, pr_inserted := sl_inserted s \<rparr>"
  let ?f = "\<lambda>h :: 'a plugin_record \<Rightarrow> 'a plugin_record. \<lambda>r. h (?g r)"
  from m pm_record_Some [OF r] have rok: "record_ok r" by (simp add: manager_ok_def)
  have idf: "pr_id (?g r) = pr_id r" for r by simp
  show ?thesis
  proof (cases failed)
    case None
    let ?h = "\<lambda>r. r\<lparr> pr_gate := plugin_gate_open (pr_gate r) \<rparr>"
    have pl: "app_plugins app' = pm_update i (?f ?h) (app_plugins app)"
      and rep: "rep' = rep\<lparr> su_started := su_started rep @ [i] \<rparr>" and core: "app_core app' = app_core app"
      using run r sys None by (auto simp: startup_owner_def Let_def pm_update_fuse comp_def)
    have ok: "manager_ok (app_plugins app')"
      unfolding pl
    proof (rule manager_ok_update [OF m])
      fix r assume "pm_record i (app_plugins app) = Some r" and rr: "record_ok r"
      with r act have "pr_state r = Active" by simp
      with rr have "record_ok (?g r)" by (simp add: record_ok_def)
      then show "record_ok (?f ?h r)" by (rule record_ok_opened)
    qed simp
    have rec: "pm_record i (app_plugins app') = Some (?f ?h r)"
      unfolding pl by (subst pm_record_update) (simp_all add: r)
    have "plugin_gate_is_open (plugin_gate_open (pr_gate r))"
      using rok act pg.opn_rd [of "pr_gate r"] by (simp add: record_ok_def)
    with rec act rep core ok pl show ?thesis
      by (intro exI [of _ "?f ?h"]) (simp add: is_active_def)
  next
    case (Some e)
    let ?h = "\<lambda>r. (retired_record r)\<lparr> pr_inserted := [] \<rparr>"
    have pl: "app_plugins app' = pm_update i (?f ?h) (app_plugins app)"
      and rep: "rep' = rep\<lparr> su_retired := su_retired rep @ [i] \<rparr>" and core: "app_core app' = app_core app"
      using run r sys Some by (auto simp: startup_owner_def Let_def startup_rollback_def
          owner_rollback_plugins pm_update_fuse comp_def)
    have ok: "manager_ok (app_plugins app')"
      unfolding pl
    proof (rule manager_ok_update [OF m])
      fix r assume "pm_record i (app_plugins app) = Some r" and rr: "record_ok r"
      with r act have "pr_state r = Active" by simp
      with rr have "record_ok (?g r)" by (simp add: record_ok_def)
      then show "record_ok (?f ?h r)" by (rule record_ok_retired)
    qed simp
    have rec: "pm_record i (app_plugins app') = Some (?f ?h r)"
      unfolding pl by (subst pm_record_update) (simp_all add: r)
    have "rep\<lparr> su_retired := su_retired rep @ [i] \<rparr> \<noteq> rep\<lparr> su_started := su_started rep @ [i] \<rparr>"
      by (cases rep) simp
    with rep core ok pl rec show ?thesis
      by (intro exI [of _ "?f ?h"]) (simp add: is_active_def)
  qed
qed

lemma startup_fold:
  "distinct is \<Longrightarrow> manager_ok (app_plugins app) \<Longrightarrow> topics_ok app \<Longrightarrow>
   \<forall>i \<in> set is. is_active i (app_plugins app) \<Longrightarrow> fold startup_owner is (app, rep) = (app', rep') \<Longrightarrow>
   manager_ok (app_plugins app') \<and> app_core app' = app_core app \<and>
   map pr_id (pm_records (app_plugins app')) = map pr_id (pm_records (app_plugins app)) \<and>
   (\<forall>j. j \<notin> set is \<longrightarrow> pm_record j (app_plugins app') = pm_record j (app_plugins app)) \<and>
   su_started rep' = su_started rep @ filter (\<lambda>i. is_active i (app_plugins app')) is \<and>
   su_retired rep' = su_retired rep @ filter (\<lambda>i. \<not> is_active i (app_plugins app')) is \<and>
   (\<forall>i \<in> set is. is_active i (app_plugins app') \<longrightarrow>
      (\<exists>r. pm_record i (app_plugins app') = Some r \<and> plugin_gate_is_open (pr_gate r)))"
proof (induction "is" arbitrary: app rep)
  case (Cons i js)
  obtain app1 rep1 where one: "startup_owner i (app, rep) = (app1, rep1)" by fastforce
  from Cons.prems(4) have ai: "is_active i (app_plugins app)" by simp
  from startup_owner_ok [OF Cons.prems(2,3) ai one] obtain f where
    pl: "app_plugins app1 = pm_update i f (app_plugins app)" and core: "app_core app1 = app_core app"
    and f: "\<And>r. pr_id (f r) = pr_id r" and ok: "manager_ok (app_plugins app1)"
    and st: "if rep1 = rep\<lparr> su_started := su_started rep @ [i] \<rparr>
       then is_active i (app_plugins app1) \<and>
         (\<forall>r. pm_record i (app_plugins app1) = Some r \<longrightarrow> plugin_gate_is_open (pr_gate r))
       else rep1 = rep\<lparr> su_retired := su_retired rep @ [i] \<rparr> \<and> \<not> is_active i (app_plugins app1)"
    by blast
  have other: "pm_record j (app_plugins app1) = pm_record j (app_plugins app)" if "j \<noteq> i" for j
    unfolding pl using that by (subst pm_record_update) (simp_all add: f)
  have "is_active j (app_plugins app1)" if "j \<in> set js" for j
  proof -
    from that Cons.prems(1) have "j \<noteq> i" by auto
    from other [OF this] that Cons.prems(4) show ?thesis by (simp add: is_active_def)
  qed
  moreover have "topics_ok app1" using Cons.prems(3) core by (simp add: topics_ok_def)
  ultimately have IH: "manager_ok (app_plugins app')" "app_core app' = app_core app1"
    "map pr_id (pm_records (app_plugins app')) = map pr_id (pm_records (app_plugins app1))"
    "\<forall>j. j \<notin> set js \<longrightarrow> pm_record j (app_plugins app') = pm_record j (app_plugins app1)"
    "su_started rep' = su_started rep1 @ filter (\<lambda>i. is_active i (app_plugins app')) js"
    "su_retired rep' = su_retired rep1 @ filter (\<lambda>i. \<not> is_active i (app_plugins app')) js"
    "\<forall>i \<in> set js. is_active i (app_plugins app') \<longrightarrow>
      (\<exists>r. pm_record i (app_plugins app') = Some r \<and> plugin_gate_is_open (pr_gate r))"
    using Cons.IH [of app1 rep1] Cons.prems(1,5) ok one by simp_all
  from IH(4) Cons.prems(1) have ri: "pm_record i (app_plugins app') = pm_record i (app_plugins app1)" by simp
  then have act: "is_active i (app_plugins app') = is_active i (app_plugins app1)" by (simp add: is_active_def)
  have ids: "map pr_id (pm_records (app_plugins app1)) = map pr_id (pm_records (app_plugins app))"
    unfolding pl by (rule pm_update_ids) (rule f)
  have rest: "\<forall>j. j \<notin> set (i # js) \<longrightarrow> pm_record j (app_plugins app') = pm_record j (app_plugins app)"
    using IH(4) other by simp
  show ?case
  proof (cases "is_active i (app_plugins app1)")
    case True
    with st have r1: "rep1 = rep\<lparr> su_started := su_started rep @ [i] \<rparr>"
      and g: "\<forall>r. pm_record i (app_plugins app1) = Some r \<longrightarrow> plugin_gate_is_open (pr_gate r)"
      by (simp_all split: if_splits)
    from True obtain r where "pm_record i (app_plugins app1) = Some r"
      by (auto simp: is_active_def split: option.splits)
    with g ri have "\<exists>r. pm_record i (app_plugins app') = Some r \<and> plugin_gate_is_open (pr_gate r)" by simp
    with IH True act core ids rest r1 show ?thesis by simp
  next
    case False
    with st have "rep1 = rep\<lparr> su_retired := su_retired rep @ [i] \<rparr>" by (simp split: if_splits)
    with IH False act core ids rest show ?thesis by simp
  qed
qed auto

lemma active_owner_ids_alt:
  assumes "manager_ok m"
  shows "active_owner_ids m = filter (\<lambda>i. is_active i m) (map pr_id (pm_records m))"
proof -
  have "is_active (pr_id r) m \<longleftrightarrow> pr_state r = Active" if "r \<in> set (pm_records m)" for r
    using pm_record_distinct [OF manager_ok_distinct [OF assms] that] by (simp add: is_active_def)
  then show ?thesis
    by (simp add: active_owner_ids_def filter_map comp_def cong: filter_cong)
qed

lemma active_owner_ids_active:
  "manager_ok m \<Longrightarrow> i \<in> set (active_owner_ids m) \<longleftrightarrow> is_active i m"
  using pm_record_Some [of i m]
  by (auto simp: active_owner_ids_alt is_active_def split: option.splits)

lemma active_owner_ids_distinct: "manager_ok m \<Longrightarrow> distinct (active_owner_ids m)"
  using manager_ok_distinct [of m] by (simp add: active_owner_ids_alt)

lemma run_startup_ok:
  assumes m: "manager_ok (app_plugins app)" and t: "topics_ok app"
    and run: "run_startup rg app = (rep, app')"
  shows "manager_ok (app_plugins app') \<and> topics_ok app' \<and>
    length (pm_records (app_plugins app')) = length (pm_records (app_plugins app)) \<and>
    app_startup_completed app' \<and>
    su_started rep = active_owner_ids (app_plugins app') \<and>
    su_retired rep = filter (\<lambda>i. \<not> is_active i (app_plugins app')) (active_owner_ids (app_plugins app)) \<and>
    (\<forall>r \<in> set (pm_records (app_plugins app')). plugin_gate_is_open (pr_gate r) \<longleftrightarrow> pr_state r = Active)"
proof -
  let ?is = "active_owner_ids (app_plugins app)"
  obtain app1 rep1 where f: "fold startup_owner ?is (app, \<lparr> su_started = [], su_retired = [] \<rparr>) = (app1, rep1)"
    by fastforce
  have a: "\<forall>i \<in> set ?is. is_active i (app_plugins app)" using active_owner_ids_active [OF m] by blast
  note F = startup_fold [OF active_owner_ids_distinct [OF m] m t a f]
  from run f have rep: "rep = rep1" and pl: "app_plugins app' = app_plugins app1"
    and core: "ac_topics (app_core app') = ac_topics (app_core app1)" and sc: "app_startup_completed app'"
    by (auto simp: run_startup_def)
  have ok: "manager_ok (app_plugins app')" and ids:
    "map pr_id (pm_records (app_plugins app')) = map pr_id (pm_records (app_plugins app))"
    and started: "su_started rep = filter (\<lambda>i. is_active i (app_plugins app')) ?is"
    and retired: "su_retired rep = filter (\<lambda>i. \<not> is_active i (app_plugins app')) ?is"
    using F rep pl by simp_all
  have keep: "is_active i (app_plugins app')  \<Longrightarrow> is_active i (app_plugins app)" for i
    using F a pl by (cases "i \<in> set ?is") (auto simp: is_active_def)
  have "filter (\<lambda>i. is_active i (app_plugins app')) ?is = active_owner_ids (app_plugins app')"
    unfolding active_owner_ids_alt [OF m] active_owner_ids_alt [OF ok] ids filter_filter
    by (rule filter_cong) (auto dest: keep)
  moreover have "plugin_gate_is_open (pr_gate r) \<longleftrightarrow> pr_state r = Active"
    if r: "r \<in> set (pm_records (app_plugins app'))" for r
  proof
    from r ok have rok: "record_ok r" by (simp add: manager_ok_def)
    show "plugin_gate_is_open (pr_gate r) \<Longrightarrow> pr_state r = Active"
      using rok by (cases "pr_state r") (auto simp: record_ok_def gate_simps)
    assume "pr_state r = Active"
    moreover from pm_record_distinct [OF manager_ok_distinct [OF ok] r]
    have "pm_record (pr_id r) (app_plugins app') = Some r" .
    ultimately have "is_active (pr_id r) (app_plugins app')" by (simp add: is_active_def)
    with keep active_owner_ids_active [OF m] have "pr_id r \<in> set ?is" by blast
    with F pl \<open>is_active (pr_id r) (app_plugins app')\<close>
      \<open>pm_record (pr_id r) (app_plugins app') = Some r\<close> show "plugin_gate_is_open (pr_gate r)" by auto
  qed
  moreover have "length (pm_records (app_plugins app')) = length (pm_records (app_plugins app))"
    using ids by (metis length_map)
  moreover have "topics_ok app'" using F t core by (simp add: topics_ok_def)
  ultimately show ?thesis using ok started retired sc by simp
qed

lemma update_owner_plugins:
  "\<exists>f. (f = id \<or> f = retired_record) \<and>
     app_plugins (fst (update_owner i (app, rep))) = pm_update i f (app_plugins app) \<and>
     app_core (fst (update_owner i (app, rep))) = app_core app"
proof (cases "pm_record i (app_plugins app)")
  case None
  then show ?thesis by (intro exI [of _ id]) (simp add: update_owner_def)
next
  case (Some r)
  obtain failed w where "run_update_systems (pr_update r) (app_world app) = (failed, w)" by fastforce
  with Some show ?thesis
    by (cases failed) (auto simp: update_owner_def update_retire_plugins intro: exI [of _ id])
qed

lemma manager_ok_retire:
  "manager_ok m \<Longrightarrow> f = id \<or> f = retired_record \<Longrightarrow> manager_ok (pm_update i f m)"
  by (rule manager_ok_update) (auto intro: record_ok_retired)

lemma update_fold:
  "manager_ok (app_plugins app) \<Longrightarrow>
   manager_ok (app_plugins (fst (fold update_owner is (app, rep)))) \<and>
   app_core (fst (fold update_owner is (app, rep))) = app_core app \<and>
   length (pm_records (app_plugins (fst (fold update_owner is (app, rep))))) =
     length (pm_records (app_plugins app))"
proof (induction "is" arbitrary: app rep)
  case (Cons i js)
  obtain app1 rep1 where one: "update_owner i (app, rep) = (app1, rep1)" by fastforce
  from update_owner_plugins [of i app rep] one obtain f where
    f: "f = id \<or> f = retired_record" "app_plugins app1 = pm_update i f (app_plugins app)"
      "app_core app1 = app_core app" by auto
  from manager_ok_retire [OF Cons.prems f(1)] f(2) have "manager_ok (app_plugins app1)" by simp
  from Cons.IH [OF this, of rep1] one f show ?case by simp
qed simp

lemma run_update_ok:
  assumes "manager_ok (app_plugins app)" and "topics_ok app"
  shows "manager_ok (app_plugins (snd (run_update mt rg app))) \<and> topics_ok (snd (run_update mt rg app)) \<and>
    length (pm_records (app_plugins (snd (run_update mt rg app)))) = length (pm_records (app_plugins app))"
proof -
  define app3 where "app3 = app\<lparr> app_world := command_drain
      (active_drains (\<lambda>i. is_active i (app_plugins app)) (ac_routes (app_core app)))
      (mt (app_world app)), app_introspection := bump_frames (app_introspection app) \<rparr>"
  have "snd (run_update mt rg app) = sync_inventory rg (fst (fold update_owner
      (active_owner_ids (app_plugins app)) (app3, \<lparr> ur_updated = [], ur_retired = [] \<rparr>)))"
    by (simp add: run_update_def app3_def Let_def split: prod.split)
  with update_fold [of app3 "active_owner_ids (app_plugins app)" "\<lparr> ur_updated = [], ur_retired = [] \<rparr>"]
    assms show ?thesis by (simp add: app3_def topics_ok_def)
qed

lemma teardown_owners_ok:
  "manager_ok (app_plugins app) \<Longrightarrow>
   manager_ok (app_plugins (teardown_owners is app)) \<and>
   app_core (teardown_owners is app) = app_core app \<and>
   length (pm_records (app_plugins (teardown_owners is app))) = length (pm_records (app_plugins app))"
proof (induction "is" arbitrary: app)
  case (Cons i js)
  let ?app = "if is_active i (app_plugins app) then owner_rollback False i app else app"
  have "manager_ok (app_plugins (owner_rollback False i app))"
    unfolding owner_rollback_plugins by (rule manager_ok_update [OF Cons.prems]) (auto intro: record_ok_retired)
  with Cons.prems have "manager_ok (app_plugins ?app)" by simp
  from Cons.IH [OF this] show ?case by (simp add: owner_rollback_plugins)
qed simp

lemma teardown_all_ok:
  "manager_ok (app_plugins app) \<Longrightarrow> topics_ok app \<Longrightarrow>
   manager_ok (app_plugins (teardown_all rg app)) \<and> topics_ok (teardown_all rg app) \<and>
   length (pm_records (app_plugins (teardown_all rg app))) = length (pm_records (app_plugins app))"
  using teardown_owners_ok [of app "rev (map pr_id (pm_records (app_plugins app)))"]
  by (simp add: teardown_all_def topics_ok_def)

section \<open>Histories of an application\<close>

datatype ('w, 'j, 'p) app_op =
    A_Plugin "('w, 'j, 'p) plugin"
  | A_Startup
  | A_Update "'w \<Rightarrow> 'w"
  | A_Teardown

text \<open>Each step comes with the state of the runtime gate at that moment.\<close>

fun app_step :: "runtime_gate \<times> ('w, 'j, 'p) app_op \<Rightarrow> ('w, 'j, 'p) app \<Rightarrow> ('w, 'j, 'p) app" where
  "app_step (rg, A_Plugin p) app = snd (add_plugin rg p app)"
| "app_step (rg, A_Startup) app = snd (run_startup rg app)"
| "app_step (rg, A_Update maintenance) app = snd (run_update maintenance rg app)"
| "app_step (rg, A_Teardown) app = teardown_all rg app"

definition app_inv :: "nat \<Rightarrow> ('w, 'j, 'p) app \<Rightarrow> bool" where
  "app_inv n app \<longleftrightarrow> manager_ok (app_plugins app) \<and> topics_ok app \<and>
     length (pm_records (app_plugins app)) \<le> n"

lemma app_inv_new: "app_inv 0 (app_new w config root)"
  by (simp add: app_inv_def app_new_def manager_ok_def topics_ok_def app_core_new_def
      topic_registry_new_def)

lemma app_step_inv:
  assumes "app_inv n app" and "n + 1 < 2 ^ 64"
  shows "app_inv (n + 1) (app_step (rg, a) app)"
proof (cases a)
  case (A_Plugin p)
  obtain r app' where run: "add_plugin rg p app = (r, app')" by fastforce
  with add_plugin_ok [OF _ _ _ run] assms show ?thesis by (simp add: A_Plugin app_inv_def)
next
  case A_Startup
  obtain r app' where run: "run_startup rg app = (r, app')" by fastforce
  with run_startup_ok [OF _ _ run] assms show ?thesis by (simp add: A_Startup app_inv_def)
next
  case (A_Update mt)
  with run_update_ok [of app mt rg] assms show ?thesis by (simp add: app_inv_def)
next
  case A_Teardown
  with teardown_all_ok [of app rg] assms show ?thesis by (simp add: app_inv_def)
qed

lemma app_history_inv:
  "app_inv n app \<Longrightarrow> n + length ops < 2 ^ 64 \<Longrightarrow> app_inv (n + length ops) (fold app_step ops app)"
proof (induction ops arbitrary: n app)
  case (Cons a ops)
  obtain rg b where a: "a = (rg, b)" by (cases a)
  from app_step_inv [OF Cons.prems(1)] Cons.prems(2) have "app_inv (n + 1) (app_step a app)"
    by (simp add: a)
  from Cons.IH [OF this] Cons.prems(2) show ?case by simp
qed simp

text \<open>
  C6: over any history of an application (plugins added, with builds that succeed, fail or panic;
  startup, update frames and teardown in any order), the owner ids are the registration order, a
  plugin's gate reads open only while its owner is active, a retired owner's gate is closed for good
  and none of its restore actions is left to run, and no two debug topics share a name.
\<close>

theorem app_lifecycle:
  assumes "length ops < 2 ^ 64" and app: "app = fold app_step ops (app_new w config root)"
  shows "map pr_id (pm_records (app_plugins app)) =
      map (\<lambda>k. OwnerId (of_nat k)) [0..<length (pm_records (app_plugins app))] \<and>
    list_all (\<lambda>r. if pr_state r = Active then \<not> gate_is_closed (gate_inner (pr_gate r))
        else gate_is_closed (gate_inner (pr_gate r)) \<and> \<not> plugin_gate_is_open (pr_gate r) \<and>
          \<not> plugin_gate_is_open (plugin_gate_open (pr_gate r)) \<and> pr_effects r = [])
      (pm_records (app_plugins app)) \<and>
    distinct (map te_name (tr_entries (ac_topics (app_core app))))"
proof -
  from app_history_inv [OF app_inv_new, of ops w config root] assms
  have inv: "manager_ok (app_plugins app)" "topics_ok app" by (simp_all add: app_inv_def)
  have "if pr_state r = Active then \<not> gate_is_closed (gate_inner (pr_gate r))
        else gate_is_closed (gate_inner (pr_gate r)) \<and> \<not> plugin_gate_is_open (pr_gate r) \<and>
          \<not> plugin_gate_is_open (plugin_gate_open (pr_gate r)) \<and> pr_effects r = []"
    if "record_ok r" for r :: "'a plugin_record"
    using that pg.opn_rd [of "pr_gate r"]
    by (cases "pr_state r") (auto simp: record_ok_def gate_simps)
  with inv show ?thesis by (auto simp: manager_ok_def topics_ok_def list_all_iff)
qed

definition demo_plugin :: "('w, unit, unit) plugin" where
  "demo_plugin = \<lparr> pl_name = ''demo'', pl_build = (\<lambda>_ _. B_Return (Inr ())) \<rparr>"

definition demo_app :: "'w \<Rightarrow> ('w, unit, unit) app" where
  "demo_app w = fold app_step [(gate_new, A_Plugin demo_plugin)] (app_new w default_config (DataRoot []))"

theorem app_lifecycle_witness:
  "map pr_id (pm_records (app_plugins (demo_app ()))) =
    map (\<lambda>k. OwnerId (of_nat k)) [0..<length (pm_records (app_plugins (demo_app ())))]"
  using app_lifecycle [of "[(gate_new, A_Plugin demo_plugin)]" "demo_app ()" "()" default_config "DataRoot []"]
  by (simp add: demo_app_def)

text \<open>
  C30: the startup driver, run in any reachable application: the owners it reports as started are
  exactly the owners active afterwards, in registration order; the ones it reports as retired are
  exactly the others that were active before; and a plugin gate is open afterwards if and only if
  its owner is active.
\<close>

theorem startup_settles_owners:
  assumes "length ops < 2 ^ 64" and app: "app = fold app_step ops (app_new w config root)"
    and run: "run_startup rg app = (rep, app')"
  shows "su_started rep = active_owner_ids (app_plugins app') \<and>
    su_retired rep =
      filter (\<lambda>i. \<not> is_active i (app_plugins app')) (active_owner_ids (app_plugins app)) \<and>
    map (\<lambda>r. plugin_gate_is_open (pr_gate r)) (pm_records (app_plugins app')) =
      map (\<lambda>r. pr_state r = Active) (pm_records (app_plugins app')) \<and>
    app_startup_completed app'"
proof -
  from app_history_inv [OF app_inv_new, of ops w config root] assms
  have "manager_ok (app_plugins app)" "topics_ok app" by (simp_all add: app_inv_def)
  from run_startup_ok [OF this run] show ?thesis by simp
qed

theorem startup_settles_owners_witness:
  "su_started (fst (run_startup gate_new (demo_app ()))) =
     active_owner_ids (app_plugins (snd (run_startup gate_new (demo_app ()))))"
  using startup_settles_owners [of "[(gate_new, A_Plugin demo_plugin)]" "demo_app ()" "()" default_config
      "DataRoot []" gate_new "fst (run_startup gate_new (demo_app ()))"
      "snd (run_startup gate_new (demo_app ()))"]
  by (simp add: demo_app_def)

section \<open>A failed build leaves nothing behind\<close>

text \<open>\<open>tame\<close>: the build touches the resources \<open>res\<close> sees only through the facade's insertion, and so do
  the restore actions, the receivers and the channels it registers.\<close>

fun tame_restore :: "('w \<Rightarrow> 'm) \<Rightarrow> 'w restore_action \<Rightarrow> bool" where
  "tame_restore res (AnyThread f) = (\<forall>w. res (snd (f w)) = res w)"
| "tame_restore res (MainThread f) = (\<forall>w. res (snd (f w)) = res w)"

definition tame_channel :: "('w \<Rightarrow> 'm) \<Rightarrow> ('w, 'j, 'p) channel_ref \<Rightarrow> bool" where
  "tame_channel res c \<longleftrightarrow> (\<forall>ch w. res (cr_put c ch w) = res w)"

fun tame_call ::
  "('w, 'v) world_ops \<Rightarrow> ('w \<Rightarrow> type_id \<Rightarrow> 'v option) \<Rightarrow> ('w, 'j, 'p) host_call \<Rightarrow> bool" where
  "tame_call W res (C_Insert ins) = (\<exists>t n v. ins = resource_insert_of W t n v)"
| "tame_call W res (C_Message reg) = (\<forall>w. res (reg w) = res w)"
| "tame_call W res (C_Route dir p b d ensure) =
     (case ensure of None \<Rightarrow> True | Some reg \<Rightarrow> \<forall>w. res (reg w) = res w)"
| "tame_call W res (C_Restore a) = tame_restore res a"
| "tame_call W res (C_Topic n cd c dc) = tame_channel res c"
| "tame_call W res _ = True"

primrec tame ::
  "('w, 'v) world_ops \<Rightarrow> ('w \<Rightarrow> type_id \<Rightarrow> 'v option) \<Rightarrow> ('w, 'j, 'p) build \<Rightarrow> bool" where
  "tame W res (B_Return r) = True"
| "tame W res B_Panic = True"
| "tame W res (B_Do f b) = ((\<forall>w. res (f w) = res w) \<and> tame W res b)"
| "tame W res (B_Get k) = (\<forall>w. tame W res (k w))"
| "tame W res (B_Call c k) = (tame_call W res c \<and> (\<forall>r. tame W res (k r)))"

definition tame_topics :: "('w \<Rightarrow> 'm) \<Rightarrow> ('w, 'j, 'p) app \<Rightarrow> bool" where
  "tame_topics res app \<longleftrightarrow> (\<forall>e \<in> set (tr_entries (ac_topics (app_core app))). tame_channel res (te_channel e))"

text \<open>\<open>undoes res base es w\<close>: popping the ledger \<open>es\<close> from \<open>w\<close>, or from any world with the same
  resources, gives back \<open>base\<close>.\<close>

definition undoes ::
  "('w \<Rightarrow> 'm) \<Rightarrow> 'm \<Rightarrow> 'w resource_ledger_entry list \<Rightarrow> 'w \<Rightarrow> bool" where
  "undoes res base es w \<longleftrightarrow> (\<forall>v. res v = res w \<longrightarrow> res (pop_inserted (rev es) v) = base)"

lemma undoes_cong: "res w' = res w \<Longrightarrow> undoes res base es w \<Longrightarrow> undoes res base es w'"
  by (simp add: undoes_def)

lemma undoes_insert:
  assumes laws: "world_laws W res" and u: "undoes res base es w"
    and ins: "ri_insert (resource_insert_of W t n v) w = (Inr (), w')"
  shows "undoes res base (es @ [\<lparr> le_type_id = x, le_type_name = y, le_order = z,
    le_remove = ri_remove (resource_insert_of W t n v) \<rparr>]) w'"
proof -
  from ins laws have free: "res w t = None" and w': "w' = wo_insert W t v w"
    by (auto simp: resource_insert_of_def world_laws_def split: if_splits)
  have "res (wo_remove W t u') = res w" if "res u' = res w'" for u'
  proof -
    have "res (wo_remove W t u') = (res w')(t := None)" using laws that by (simp add: world_laws_def)
    also have "\<dots> = (res w)(t := None)" using laws by (simp add: w' world_laws_def)
    also have "\<dots> = res w" using free by (simp add: fun_upd_idem)
    finally show ?thesis .
  qed
  with u show ?thesis by (simp add: undoes_def resource_insert_of_def)
qed

definition build_undo ::
  "('w \<Rightarrow> 'm) \<Rightarrow> 'm \<Rightarrow> owner_id \<Rightarrow> ('w, 'j, 'p) app \<Rightarrow> bool" where
  "build_undo res base i app \<longleftrightarrow> tame_topics res app \<and>
     (\<exists>r. pm_record i (app_plugins app) = Some r \<and> list_all (tame_restore res) (pr_effects r) \<and>
        undoes res base (pr_inserted r) (app_world app))"

lemma build_undo_record:
  assumes "build_undo res base i app" and "\<And>r. pr_id (f r) = pr_id r"
    and "\<And>r. pr_inserted (f r) = pr_inserted r"
    and "\<And>r. list_all (tame_restore res) (pr_effects r) \<Longrightarrow> list_all (tame_restore res) (pr_effects (f r))"
  shows "build_undo res base i (map_owner i f app)"
proof -
  from assms(1) obtain r where "tame_topics res app" "pm_record i (app_plugins app) = Some r"
    "list_all (tame_restore res) (pr_effects r)" "undoes res base (pr_inserted r) (app_world app)"
    by (auto simp: build_undo_def)
  with assms(2-4) show ?thesis
    by (simp add: build_undo_def tame_topics_def pm_record_update)
qed

lemma build_undo_world:
  "build_undo res base i app \<Longrightarrow> res w = res (app_world app) \<Longrightarrow> build_undo res base i (app\<lparr> app_world := w \<rparr>)"
  by (auto simp: build_undo_def tame_topics_def intro: undoes_cong)

lemma build_undo_core:
  "build_undo res base i app \<Longrightarrow> tame_topics res (app\<lparr> app_core := c \<rparr>) \<Longrightarrow>
    build_undo res base i (app\<lparr> app_core := c \<rparr>)"
  by (simp add: build_undo_def)

lemma insert_undo:
  assumes laws: "world_laws W res" and u: "build_undo res base i app"
  shows "build_undo res base i (snd (insert_resource_dyn i (resource_insert_of W t n v) app))"
proof -
  let ?ins = "resource_insert_of W t n v"
  from u obtain r where T: "tame_topics res app" and r: "pm_record i (app_plugins app) = Some r"
    and e: "list_all (tame_restore res) (pr_effects r)"
    and ui: "undoes res base (pr_inserted r) (app_world app)" by (auto simp: build_undo_def)
  show ?thesis
  proof (cases "wo_contains W t (app_world app)")
    case True
    with u show ?thesis by (simp add: insert_resource_dyn_def resource_insert_of_def Let_def)
  next
    case False
    let ?w = "wo_insert W t v (app_world app)"
    from False have ins: "ri_insert ?ins (app_world app) = (Inr (), ?w)"
      by (simp add: resource_insert_of_def)
    from undoes_insert [OF laws ui ins] T r e ins show ?thesis
      by (simp add: insert_resource_dyn_def build_undo_def pm_record_update tame_topics_def Let_def)
  qed
qed

lemma host_call_undo:
  assumes laws: "world_laws W res" and tame: "tame_call W res c" and u: "build_undo res base i app"
  shows "build_undo res base i (snd (run_host_call i c app))"
proof (cases c)
  case (C_Insert ins)
  with tame insert_undo [OF laws u] show ?thesis by auto
next
  case (C_Message reg)
  with tame u show ?thesis by (simp add: build_undo_world)
next
  case (C_Startup s)
  show ?thesis unfolding C_Startup run_host_call.simps snd_conv by (rule build_undo_record [OF u]) simp_all
next
  case (C_Update s)
  show ?thesis unfolding C_Update run_host_call.simps snd_conv by (rule build_undo_record [OF u]) simp_all
next
  case (C_Container k)
  have "build_undo res base i (map_owner i (\<lambda>r. r\<lparr> pr_container := Some k \<rparr>) app)"
    by (rule build_undo_record [OF u]) simp_all
  with u C_Container show ?thesis by (simp add: register_container_dyn_def split: option.split)
next
  case (C_Route dir p b d ensure)
  let ?w = "case ensure of None \<Rightarrow> app_world app | Some reg \<Rightarrow> reg (app_world app)"
  from tame C_Route have "res ?w = res (app_world app)" by (auto split: option.splits)
  from build_undo_world [OF u this] have uw: "build_undo res base i (app\<lparr> app_world := ?w \<rparr>)" .
  from u have T: "tame_topics res app" by (simp add: build_undo_def)
  have "build_undo res base i (map_owner i (\<lambda>r. r\<lparr> pr_route_ids := pr_route_ids r @ [k] \<rparr>)
      (app\<lparr> app_world := ?w, app_core := (app_core app)\<lparr> ac_routes := rt \<rparr> \<rparr>))" for k rt
    by (rule build_undo_record, rule build_undo_core [OF uw]) (use T in \<open>simp_all add: tame_topics_def\<close>)
  then show ?thesis by (simp add: C_Route register_route_dyn_def route_push_def Let_def)
next
  case (C_Restore a)
  show ?thesis unfolding C_Restore run_host_call.simps snd_conv
    by (rule build_undo_record [OF u]) (use tame C_Restore in simp_all)
next
  case (C_Topic name cd ch dc)
  from u have T: "tame_topics res app" by (simp add: build_undo_def)
  have "build_undo res base i (map_owner i (\<lambda>r. r\<lparr> pr_topic_ids := pr_topic_ids r @ [k] \<rparr>)
      (app\<lparr> app_core := (app_core app)\<lparr> ac_topics := tr \<rparr> \<rparr>))"
    if "\<forall>e \<in> set (tr_entries tr). tame_channel res (te_channel e)" for k tr
    by (rule build_undo_record, rule build_undo_core [OF u]) (use that in \<open>simp_all add: tame_topics_def\<close>)
  then show ?thesis
    using u T tame
    by (simp add: C_Topic register_debug_topic_dyn_def topic_register_def Let_def tame_topics_def)
qed

lemma run_build_undo:
  assumes laws: "world_laws W res"
  shows "tame W res b \<Longrightarrow> build_undo res base i app \<Longrightarrow> build_undo res base i (snd (run_build i b app))"
proof (induction b arbitrary: app)
  case (B_Do f b)
  then show ?case by (simp add: build_undo_world)
next
  case (B_Call c k)
  obtain r app1 where c: "run_host_call i c app = (r, app1)" by fastforce
  with host_call_undo [OF laws _ B_Call.prems(2), of c] B_Call.prems(1)
  have "build_undo res base i app1" by simp
  from B_Call.IH [OF rangeI _ this, of r] B_Call.prems(1) c show ?case by simp
next
  case (B_Get k)
  from B_Get.IH [OF rangeI _ B_Get.prems(2), of "app_world app"] B_Get.prems(1) show ?case by simp
qed simp_all

lemma pop_effects_tame:
  "list_all (tame_restore res) as \<Longrightarrow> res (pop_effects main as w) = res w"
proof (induction as arbitrary: w)
  case (Cons a as)
  have "res (snd (execute_restore main a w)) = res w"
    using Cons.prems by (cases a) (auto simp: execute_restore_def Let_def split: prod.splits flow.splits
        dest: spec [of _ w] arg_cong [where f = "res \<circ> snd"])
  with Cons show ?case by simp
qed simp

lemma fail_pending_tame:
  assumes "\<forall>e \<in> set (tr_entries t). tame_channel res (te_channel e)"
  shows "res (fail_pending_requests i t w) = res w"
  unfolding fail_pending_requests_def
  by (rule fold_invariant [where P = "\<lambda>v. res v = res w"])
    (use assms in \<open>auto simp: tame_channel_def Let_def\<close>)

lemma rollback_undo:
  assumes "build_undo res base i app"
  shows "res (app_world (owner_rollback main i app)) = base"
proof -
  from assms obtain r where T: "tame_topics res app" and r: "pm_record i (app_plugins app) = Some r"
    and e: "list_all (tame_restore res) (pr_effects r)"
    and u: "undoes res base (pr_inserted r) (app_world app)" by (auto simp: build_undo_def)
  let ?w = "fail_pending_requests i (ac_topics (app_core app)) (app_world app)"
  let ?w2 = "pop_inserted (rev (pr_inserted r)) ?w"
  from fail_pending_tame T have "res ?w = res (app_world app)" by (auto simp: tame_topics_def)
  with u have w2: "res ?w2 = base" by (simp add: undoes_def)
  have "app_world (owner_rollback main i app) = pop_effects main (rev (pr_effects r)) ?w2"
    by (simp add: owner_rollback_def owner_close_gate_def owner_fail_pending_def
        owner_remove_resources_def owner_run_restores_def owner_retire_def pm_record_update r)
  with w2 e show ?thesis by (simp add: pop_effects_tame)
qed

text \<open>
  C7: a build that fails leaves nothing behind.  When the plugin's code changes resources only through
  the facade, then after a failed \<open>add_plugin\<close> the world's resources are exactly those before it, no
  other owner's record has changed, and the plugin itself is a retired record with a permanently
  closed gate, an empty resource ledger and no restore action left.
\<close>

theorem failed_build_isolated:
  assumes laws: "world_laws W res" and len: "length ops + 1 < 2 ^ 64"
    and app: "app = fold app_step ops (app_new w config root)" and topics: "tame_topics res app"
    and tame: "\<forall>i. tame W res (pl_build plugin i (ac_config (app_core app)))"
    and run: "add_plugin rg plugin app = (Returns (), app')"
    and failed: "\<not> is_active (OwnerId (of_nat (length (pm_records (app_plugins app))))) (app_plugins app')"
  shows "res (app_world app') = res (app_world app) \<and>
    (\<exists>r. pm_records (app_plugins app') = pm_records (app_plugins app) @ [r] \<and> pr_state r = Retired \<and>
       gate_is_closed (gate_inner (pr_gate r)) \<and> pr_inserted r = [] \<and> pr_effects r = [])"
proof -
  from app_history_inv [OF app_inv_new, of ops w config root] len
  have m: "manager_ok (app_plugins app)"
    and n: "length (pm_records (app_plugins app)) + 1 < 2 ^ 64" by (simp_all add: app_inv_def app)
  obtain i m' where b: "begin_owner (pl_name plugin) (app_plugins app) = (i, m')" by fastforce
  note bo = begin_owner_ok [OF m n b]
  let ?app = "app\<lparr> app_plugins := m' \<rparr>" and ?b = "pl_build plugin i (ac_config (app_core app))"
  obtain s app1 where rb: "run_build i ?b ?app = (s, app1)" by fastforce
  from run_build_quiet [of i ?b ?app] rb obtain f where f: "quiet f" "app_plugins app1 = pm_update i f m'"
    by auto
  have act: "is_active i (app_plugins app1)"
  proof -
    from f(1) have "is_active i (app_plugins app1) = is_active i m'"
      unfolding f(2) by (intro is_active_update) (simp_all add: quiet_def)
    with bo show ?thesis by blast
  qed
  have app': "app' = build_rollback rg i app1"
  proof (rule ccontr)
    assume "app' \<noteq> build_rollback rg i app1"
    with run b rb have "app' = sync_inventory rg app1"
      by (auto simp: add_plugin_def split: flow.splits sum.splits)
    with act failed bo show False by simp
  qed
  from bo have new: "pm_record i m' = Some (plugin_record_new i (pl_name plugin))"
    and other: "\<forall>r \<in> set (pm_records (app_plugins app)). pr_id r \<noteq> i"
    using find_first_None [of "\<lambda>r. pr_id r = i" "pm_records (app_plugins app)"]
    by (auto simp: pm_record_def plugin_record_new_def is_active_def find_first_append_none)
  have "build_undo res (res (app_world app)) i ?app"
    using new topics by (simp add: build_undo_def tame_topics_def plugin_record_new_def undoes_def)
  from run_build_undo [OF laws _ this, of ?b] tame rb
  have "build_undo res (res (app_world app)) i app1" by simp
  from rollback_undo [OF this] have "res (app_world app') = res (app_world app)"
    by (simp add: app' build_rollback_def)
  moreover have "pm_records (app_plugins app') = pm_records (app_plugins app) @
      [(retired_record (f (plugin_record_new i (pl_name plugin))))\<lparr> pr_inserted := [] \<rparr>]"
  proof -
    have "app_plugins app' = pm_update i ((\<lambda>r. (retired_record r)\<lparr> pr_inserted := [] \<rparr>) \<circ> f) m'"
      using f by (simp add: app' build_rollback_def owner_rollback_plugins pm_update_fuse quiet_def)
    moreover have "pm_records m' = pm_records (app_plugins app) @ [plugin_record_new i (pl_name plugin)]"
      using bo by simp
    ultimately show ?thesis
      using other by (simp add: pm_update_def update_first_append plugin_record_new_def)
  qed
  moreover have "gate_is_closed (gate_inner (plugin_gate_close g))" for g
    by (simp add: gate_simps)
  ultimately show ?thesis by simp
qed

definition map_world :: "(type_id \<Rightarrow> nat option, nat) world_ops" where
  "map_world = \<lparr> wo_contains = (\<lambda>t w. w t \<noteq> None), wo_insert = (\<lambda>t v w. w(t \<mapsto> v)),
     wo_remove = (\<lambda>t w. w(t := None)) \<rparr>"

lemma map_world_laws: "world_laws map_world (\<lambda>w. w)"
  by (simp add: world_laws_def map_world_def)

definition conflicting_plugin :: "(type_id \<Rightarrow> nat option, unit, unit) plugin" where
  "conflicting_plugin = \<lparr> pl_name = ''conflict'', pl_build = (\<lambda>_ _.
     B_Call (C_Insert (resource_insert_of map_world 3 ''A'' 7)) (\<lambda>_.
     B_Call (C_Restore (AnyThread (\<lambda>w. (Panics, w)))) (\<lambda>_.
     B_Call (C_Insert (resource_insert_of map_world 3 ''A'' 8)) B_Return))) \<rparr>"

theorem failed_build_isolated_witness:
  "app_world (snd (add_plugin gate_new conflicting_plugin (demo_app (\<lambda>_. None)))) 3 = None"
proof -
  let ?app = "demo_app (\<lambda>_. None) :: (type_id \<Rightarrow> nat option, unit, unit) app"
  have topics: "tame_topics (\<lambda>w. w) ?app"
    by (simp add: tame_topics_def demo_app_def demo_plugin_def app_new_def app_core_new_def add_plugin_def
        begin_owner_def topic_registry_new_def Let_def)
  have tame: "\<forall>i. tame map_world (\<lambda>w. w) (pl_build conflicting_plugin i (ac_config (app_core ?app)))"
    by (auto simp: conflicting_plugin_def)
  have app: "?app = \<lparr> app_world = (\<lambda>_. None), app_core = app_core ?app,
      app_plugins = \<lparr> pm_records = [plugin_record_new (OwnerId 0) ''demo''], pm_next_owner = 1 \<rparr>,
      app_startup_completed = False, app_introspection = app_introspection ?app \<rparr>"
    by (simp add: demo_app_def demo_plugin_def app_new_def add_plugin_def begin_owner_def Let_def
        sync_inventory_def)
  obtain app' where run: "add_plugin gate_new conflicting_plugin ?app = (Returns (), app')"
    and failed: "\<not> is_active (OwnerId 1) (app_plugins app')"
    by (subst (asm) app, simp add: add_plugin_def begin_owner_def conflicting_plugin_def Let_def
        insert_resource_dyn_def resource_insert_of_def map_world_def pm_record_def pm_update_def
        plugin_record_new_def build_rollback_def owner_rollback_plugins is_active_def)
  have eq: "?app = fold app_step [(gate_new, A_Plugin demo_plugin)]
      (app_new (\<lambda>_. None) default_config (DataRoot []))" by (simp only: demo_app_def)
  have len: "length [(gate_new, A_Plugin (demo_plugin :: (type_id \<Rightarrow> nat option, unit, unit) plugin))] + 1
      < 2 ^ 64" by simp
  have recs: "length (pm_records (app_plugins ?app)) = 1" and world: "app_world ?app = (\<lambda>_. None)"
    by (simp_all add: demo_app_def demo_plugin_def app_new_def add_plugin_def begin_owner_def Let_def)
  from failed have failed': "\<not> is_active (OwnerId (of_nat (length (pm_records (app_plugins ?app)))))
      (app_plugins app')" unfolding recs by simp
  from failed_build_isolated [OF map_world_laws len eq topics tame run failed'] world run
  show ?thesis by simp
qed

section \<open>What teardown runs\<close>

fun any_thread :: "'w restore_action \<Rightarrow> bool" where
  "any_thread (AnyThread f) = True"
| "any_thread (MainThread f) = False"

fun restore_fn :: "'w restore_action \<Rightarrow> 'w \<Rightarrow> (restore_error, unit) result flow \<times> 'w" where
  "restore_fn (AnyThread f) = f"
| "restore_fn (MainThread f) = f"

text \<open>\<open>logged lg key r\<close>: each restore action of the record leaves its key in the log when it runs,
  whatever it returns, and nothing else of the record does.\<close>

definition logged :: "('w \<Rightarrow> 'k list) \<Rightarrow> ('w restore_action \<Rightarrow> 'k) \<Rightarrow> 'w plugin_record \<Rightarrow> bool" where
  "logged lg key r \<longleftrightarrow>
     (\<forall>a \<in> set (pr_effects r). \<forall>w. lg (snd (restore_fn a w)) = lg w @ [key a]) \<and>
     (\<forall>e \<in> set (pr_inserted r). \<forall>w. lg (le_remove e w) = lg w)"

lemma pop_effects_log:
  "\<forall>a \<in> set as. \<forall>w. lg (snd (restore_fn a w)) = lg w @ [key a] \<Longrightarrow>
   lg (pop_effects main as w) = lg w @ map key (filter (\<lambda>a. main \<or> any_thread a) as)"
proof (induction as arbitrary: w)
  case (Cons a as)
  from Cons.prems have a: "lg (snd (restore_fn a w)) = lg w @ [key a]" for w by simp
  have "lg (snd (execute_restore main a w)) = lg w @ (if main \<or> any_thread a then [key a] else [])"
  proof (cases a)
    case (AnyThread f)
    with a [of w] show ?thesis
      by (simp add: execute_restore_def Let_def split: prod.split flow.split) auto
  next
    case (MainThread f)
    with a [of w] show ?thesis
      by (simp add: execute_restore_def Let_def split: prod.split flow.split) auto
  qed
  with Cons show ?case by simp
qed simp

lemma pop_inserted_log:
  "\<forall>e \<in> set es. \<forall>w. lg (le_remove e w) = lg w \<Longrightarrow> lg (pop_inserted es w) = lg w"
  by (induction es arbitrary: w) auto

definition pending_restores :: "'w plugin_manager \<Rightarrow> owner_id \<Rightarrow> 'w restore_action list" where
  "pending_restores m i = (case pm_record i m of
     Some r \<Rightarrow> (if pr_state r = Active then rev (pr_effects r) else []) | None \<Rightarrow> [])"

lemma rollback_log:
  assumes r: "pm_record i (app_plugins app) = Some r" and l: "logged lg key r" and t: "tame_topics lg app"
  shows "lg (app_world (owner_rollback main i app)) =
    lg (app_world app) @ map key (filter (\<lambda>a. main \<or> any_thread a) (rev (pr_effects r)))"
proof -
  let ?w = "fail_pending_requests i (ac_topics (app_core app)) (app_world app)"
  have "app_world (owner_rollback main i app) =
      pop_effects main (rev (pr_effects r)) (pop_inserted (rev (pr_inserted r)) ?w)"
    by (simp add: owner_rollback_def owner_close_gate_def owner_fail_pending_def
        owner_remove_resources_def owner_run_restores_def owner_retire_def pm_record_update r)
  moreover have "lg ?w = lg (app_world app)" using t by (intro fail_pending_tame) (simp add: tame_topics_def)
  moreover from l have "lg (pop_inserted (rev (pr_inserted r)) ?w) = lg ?w"
    by (intro pop_inserted_log) (simp add: logged_def)
  moreover from l have "lg (pop_effects main (rev (pr_effects r)) v) =
      lg v @ map key (filter (\<lambda>a. main \<or> any_thread a) (rev (pr_effects r)))" for v
    by (intro pop_effects_log) (simp add: logged_def)
  ultimately show ?thesis by simp
qed

lemma teardown_owners_log:
  "distinct is \<Longrightarrow> tame_topics lg app \<Longrightarrow>
   \<forall>i \<in> set is. \<forall>r. pm_record i (app_plugins app) = Some r \<longrightarrow> logged lg key r \<Longrightarrow>
   lg (app_world (teardown_owners is app)) = lg (app_world app) @
     map key (filter any_thread (concat (map (pending_restores (app_plugins app)) is)))"
proof (induction "is" arbitrary: app)
  case (Cons i js)
  let ?act = "is_active i (app_plugins app)"
  let ?app = "if ?act then owner_rollback False i app else app"
  have other: "pm_record j (app_plugins ?app) = pm_record j (app_plugins app)" if "j \<in> set js" for j
  proof -
    from that Cons.prems(1) have "i \<noteq> j" by auto
    then show ?thesis by (simp add: owner_rollback_plugins pm_record_update)
  qed
  have "tame_topics lg ?app" using Cons.prems(2) by (simp add: tame_topics_def)
  moreover have "\<forall>j \<in> set js. \<forall>r. pm_record j (app_plugins ?app) = Some r \<longrightarrow> logged lg key r"
    using Cons.prems(3) other by simp
  ultimately have IH: "lg (app_world (teardown_owners js ?app)) = lg (app_world ?app) @
      map key (filter any_thread (concat (map (pending_restores (app_plugins ?app)) js)))"
    using Cons.IH [of ?app] Cons.prems(1) by simp
  have "map (pending_restores (app_plugins ?app)) js = map (pending_restores (app_plugins app)) js"
    by (rule map_cong) (simp_all only: pending_restores_def other)
  moreover have "lg (app_world ?app) = lg (app_world app) @
      map key (filter any_thread (pending_restores (app_plugins app) i))"
  proof (cases ?act)
    case True
    then obtain r where r: "pm_record i (app_plugins app) = Some r" "pr_state r = Active"
      by (auto simp: is_active_def split: option.splits)
    with Cons.prems(3) have "logged lg key r" by simp
    from rollback_log [OF r(1) this Cons.prems(2), of False] True r show ?thesis
      by (simp add: pending_restores_def)
  next
    case False
    then show ?thesis by (auto simp: pending_restores_def is_active_def split: option.split)
  qed
  ultimately show ?case using IH by (simp only: teardown_owners.simps list.map concat.simps
        filter_append map_append append_assoc)
qed simp

text \<open>
  C8: tearing the application down runs the restore actions of all active owners in exactly the
  reverse of the order they were registered in, each of them once, even when some fail or panic; the
  actions that need the main thread are the only ones skipped.
\<close>

theorem teardown_reverse_order:
  assumes len: "length ops < 2 ^ 64" and app: "app = fold app_step ops (app_new w config root)"
    and topics: "tame_topics lg app" and logged: "list_all (logged lg key) (pm_records (app_plugins app))"
  shows "lg (app_world (teardown_all rg app)) = lg (app_world app) @
    map key (filter any_thread (rev (concat (map pr_effects
      (filter (\<lambda>r. pr_state r = Active) (pm_records (app_plugins app)))))))"
proof -
  from app_history_inv [OF app_inv_new, of ops w config root] len
  have m: "manager_ok (app_plugins app)" by (simp add: app_inv_def app)
  note d = manager_ok_distinct [OF m]
  let ?rs = "pm_records (app_plugins app)"
  have pend: "pending_restores (app_plugins app) (pr_id r) =
      (if pr_state r = Active then rev (pr_effects r) else [])" if "r \<in> set ?rs" for r
    using pm_record_distinct [OF d that] by (simp add: pending_restores_def)
  have "concat (map (pending_restores (app_plugins app)) (rev (map pr_id ?rs))) =
      concat (map (\<lambda>r. if pr_state r = Active then rev (pr_effects r) else []) (rev ?rs))"
    unfolding rev_map map_map comp_def
    by (rule arg_cong [where f = concat], rule map_cong) (simp_all add: pend)
  also have "concat (map (\<lambda>r. if pr_state r = Active then rev (pr_effects r) else []) (rev rs)) =
      rev (concat (map pr_effects (filter (\<lambda>r. pr_state r = Active) rs)))" for rs :: "'a plugin_record list"
    by (induction rs) simp_all
  finally have c: "concat (map (pending_restores (app_plugins app)) (rev (map pr_id ?rs))) =
      rev (concat (map pr_effects (filter (\<lambda>r. pr_state r = Active) ?rs)))" .
  have "\<forall>i \<in> set (rev (map pr_id ?rs)). \<forall>r. pm_record i (app_plugins app) = Some r \<longrightarrow> logged lg key r"
    using logged pm_record_Some by (fastforce simp: list_all_iff)
  from teardown_owners_log [OF _ topics this] d show ?thesis
    unfolding c by (simp add: teardown_all_def)
qed

definition logging_plugin :: "string \<Rightarrow> string list \<Rightarrow> (string list, unit, unit) plugin" where
  "logging_plugin n ks = \<lparr> pl_name = n, pl_build = (\<lambda>_ _.
     fold (\<lambda>k b. B_Call (C_Restore (AnyThread (\<lambda>w. (Panics, w @ [k])))) (\<lambda>_. b)) ks
       (B_Return (Inr ()))) \<rparr>"

theorem teardown_reverse_order_witness:
  "app_world (teardown_all gate_new
     (fold app_step [(gate_new, A_Plugin (logging_plugin ''p'' [''b'', ''a'']))]
       (app_new [] default_config (DataRoot [])))) = [''b'', ''a'']"
proof -
  let ?a = "\<lambda>k. AnyThread (\<lambda>w. (Panics, w @ [k])) :: string list restore_action"
  let ?ops = "[(gate_new, A_Plugin (logging_plugin ''p'' [''b'', ''a'']))]"
  define app where "app = fold app_step ?ops (app_new [] default_config (DataRoot []))"
  have recs: "pm_records (app_plugins app) =
      [(plugin_record_new (OwnerId 0) ''p'')\<lparr> pr_effects := [?a ''a'', ?a ''b''] \<rparr>]"
    and world: "app_world app = []"
    by (simp_all add: app_def logging_plugin_def app_new_def add_plugin_def begin_owner_def Let_def
        pm_update_def plugin_record_new_def)
  have topics: "tame_topics (\<lambda>w. w) app"
    by (simp add: tame_topics_def app_def logging_plugin_def app_new_def app_core_new_def add_plugin_def
        begin_owner_def topic_registry_new_def Let_def)
  let ?key = "\<lambda>a. last (snd (restore_fn a []))"
  have logged: "list_all (logged (\<lambda>w. w) ?key) (pm_records (app_plugins app))"
    by (simp add: recs logged_def plugin_record_new_def)
  have "length ?ops < 2 ^ 64" by simp
  from teardown_reverse_order [OF this app_def topics logged, of gate_new]
  show ?thesis unfolding app_def [symmetric] by (simp add: recs world plugin_record_new_def)
qed

section \<open>Retired owners never run again\<close>

lemma update_first_commute:
  assumes "\<And>x. p x \<Longrightarrow> \<not> q x" and "\<And>x. p (g x) = p x" and "\<And>x. q (f x) = q x"
  shows "update_first p f (update_first q g xs) = update_first q g (update_first p f xs)"
  using assms by (induction xs) auto

lemma pm_update_commute:
  assumes "i \<noteq> j" and "\<And>r. pr_id (f r) = pr_id r" and "\<And>r. pr_id (g r) = pr_id r"
  shows "pm_update i f (pm_update j g m) = pm_update j g (pm_update i f m)"
  using assms by (cases m) (auto simp: pm_update_def intro!: update_first_commute)

lemma update_retire_frame:
  "app_introspection (update_retire j main app) = app_introspection app"
  "app_startup_completed (update_retire j main app) = app_startup_completed app"
  by (simp_all add: update_retire_def owner_retire_def owner_close_gate_def owner_fail_pending_def
      owner_run_restores_def split: option.split)

lemma update_owner_commute:
  assumes "i \<noteq> j" and f: "\<And>r. pr_id (f r) = pr_id r"
  shows "update_owner j (map_owner i f app, rep) =
    (map_owner i f (fst (update_owner j (app, rep))), snd (update_owner j (app, rep)))"
proof -
  have rec: "pm_record j (pm_update i f m) = pm_record j m" for m
    using assms by (simp add: pm_record_update)
  have ret: "update_retire j True (map_owner i f a) = map_owner i f (update_retire j True a)" for a
  proof -
    have "app_plugins (update_retire j True (map_owner i f a)) = pm_update i f (app_plugins (update_retire j True a))"
      using assms by (simp add: update_retire_plugins pm_update_commute)
    moreover have "app_world (update_retire j True (map_owner i f a)) = app_world (update_retire j True a)"
      using assms by (simp add: update_retire_def owner_retire_def owner_close_gate_def owner_fail_pending_def
          owner_run_restores_def pm_record_update split: option.split)
    ultimately show ?thesis by (intro app.equality) (simp_all add: update_retire_frame)
  qed
  show ?thesis
  proof (cases "pm_record j (app_plugins app)")
    case None
    then show ?thesis by (simp add: update_owner_def rec)
  next
    case (Some r)
    note rj = this
    obtain failed w where sys: "run_update_systems (pr_update r) (app_world app) = (failed, w)" by fastforce
    have c: "(map_owner i f app)\<lparr> app_world := w \<rparr> = map_owner i f (app\<lparr> app_world := w \<rparr>)"
      by (rule app.equality) simp_all
    show ?thesis
    proof (cases failed)
      case None
      with Some sys show ?thesis by (simp add: update_owner_def rec c)
    next
      case (Some e)
      have "update_owner j (map_owner i f app, rep) =
          (update_retire j True ((map_owner i f app)\<lparr> app_world := w \<rparr>), rep\<lparr> ur_retired := ur_retired rep @ [j] \<rparr>)"
        using rj sys Some by (simp add: update_owner_def rec)
      moreover have "update_owner j (app, rep) =
          (update_retire j True (app\<lparr> app_world := w \<rparr>), rep\<lparr> ur_retired := ur_retired rep @ [j] \<rparr>)"
        using rj sys Some by (simp add: update_owner_def)
      ultimately show ?thesis unfolding c ret by simp
    qed
  qed
qed

lemma update_fold_commute:
  assumes f: "\<And>r. pr_id (f r) = pr_id r"
  shows "i \<notin> set is \<Longrightarrow> fold update_owner is (map_owner i f app, rep) =
    (map_owner i f (fst (fold update_owner is (app, rep))), snd (fold update_owner is (app, rep)))"
proof (induction "is" arbitrary: app rep)
  case (Cons j js)
  obtain app1 rep1 where one: "update_owner j (app, rep) = (app1, rep1)" by fastforce
  with update_owner_commute [of i j f app rep] Cons.prems f
  have "update_owner j (map_owner i f app, rep) = (map_owner i f app1, rep1)" by auto
  with Cons.IH [of app1 rep1] Cons.prems one show ?case by simp
qed simp

text \<open>
  A frame never runs a retired owner: whatever update systems a retired owner still holds, one
  update frame has the same report and leaves the same world, ledgers of the others included.
\<close>

theorem update_skips_retired:
  assumes "length ops < 2 ^ 64" and app: "app = fold app_step ops (app_new w config root)"
    and retired: "\<not> is_active i (app_plugins app)"
  shows "let swap = map_owner i (\<lambda>r. r\<lparr> pr_update := systems \<rparr>) in
    fst (run_update mt rg (swap app)) = fst (run_update mt rg app) \<and>
    app_world (snd (run_update mt rg (swap app))) = app_world (snd (run_update mt rg app)) \<and>
    app_plugins (snd (run_update mt rg (swap app))) = app_plugins (swap (snd (run_update mt rg app)))"
proof -
  from app_history_inv [OF app_inv_new, of ops w config root] assms(1,2)
  have m: "manager_ok (app_plugins app)" by (simp add: app_inv_def)
  let ?f = "\<lambda>r. r\<lparr> pr_update := systems \<rparr>"
  define app3 where "app3 = app\<lparr> app_world := command_drain
      (active_drains (\<lambda>i. is_active i (app_plugins app)) (ac_routes (app_core app)))
      (mt (app_world app)), app_introspection := bump_frames (app_introspection app) \<rparr>"
  let ?is = "active_owner_ids (app_plugins app)"
  have m': "manager_ok (pm_update i ?f (app_plugins app))"
    by (rule manager_ok_update [OF m]) (auto simp: record_ok_def)
  have act: "is_active j (pm_update i ?f (app_plugins app)) = is_active j (app_plugins app)" for j
    by (rule is_active_update) simp_all
  have ids: "active_owner_ids (pm_update i ?f (app_plugins app)) = ?is"
    unfolding active_owner_ids_alt [OF m] active_owner_ids_alt [OF m'] act
    by (subst pm_update_ids) simp_all
  have i: "i \<notin> set ?is" using retired active_owner_ids_active [OF m] by blast
  let ?r0 = "\<lparr> ur_updated = [], ur_retired = [] \<rparr>"
  have run: "run_update mt rg app = (case fold update_owner ?is (app3, ?r0) of (a, rep) \<Rightarrow> (rep, sync_inventory rg a))"
    by (simp add: run_update_def app3_def Let_def)
  have run': "run_update mt rg (map_owner i ?f app) =
      (case fold update_owner ?is (map_owner i ?f app3, ?r0) of (a, rep) \<Rightarrow> (rep, sync_inventory rg a))"
  proof -
    have c: "(map_owner i ?f app)\<lparr> app_world := v, app_introspection := d \<rparr> =
        map_owner i ?f (app\<lparr> app_world := v, app_introspection := d \<rparr>)" for v d
      by (rule app.equality) simp_all
    show ?thesis by (simp add: run_update_def app3_def Let_def ids act c)
  qed
  show ?thesis
    unfolding run run' update_fold_commute [where f = ?f, OF _ i, simplified] Let_def
    by (simp split: prod.split)
qed

theorem update_skips_retired_witness:
  "app_world (snd (run_update id gate_new (map_owner (OwnerId 0) (\<lambda>r. r\<lparr> pr_update := [\<lambda>w. (Panics, w + 1)] \<rparr>)
     (fold app_step [(gate_new, A_Plugin (\<lparr> pl_name = ''x'', pl_build = (\<lambda>_ _. B_Return (Inl Io)) \<rparr>
         :: (nat, unit, unit) plugin))] (app_new (0 :: nat) default_config (DataRoot [])))))) = 0"
proof -
  let ?ops = "[(gate_new, A_Plugin \<lparr> pl_name = ''x'', pl_build = (\<lambda>_ _. B_Return (Inl Io)) \<rparr>)]
    :: (runtime_gate \<times> (nat, unit, unit) app_op) list"
  define app where "app = fold app_step ?ops (app_new 0 default_config (DataRoot []))"
  have len: "length ?ops < 2 ^ 64" by simp
  have pl: "app_plugins app = \<lparr> pm_records = [(retired_record (plugin_record_new (OwnerId 0) ''x''))
      \<lparr> pr_inserted := [] \<rparr>], pm_next_owner = 1 \<rparr>"
    and w: "app_world app = 0" and rt: "rt_entries (ac_routes (app_core app)) = []"
    by (simp_all add: app_def app_new_def app_core_new_def add_plugin_def begin_owner_def Let_def
        build_rollback_def owner_rollback_plugins pm_update_def plugin_record_new_def route_table_new_def
        owner_rollback_def owner_retire_def owner_run_restores_def owner_remove_resources_def
        owner_fail_pending_def owner_close_gate_def fail_pending_requests_def topic_registry_new_def
        pm_record_def)
  have "\<not> is_active (OwnerId 0) (app_plugins app)"
    by (simp add: pl is_active_def pm_record_def plugin_record_new_def)
  note skip = update_skips_retired [OF len app_def this, of "[\<lambda>w. (Panics, w + 1)]" id gate_new,
      unfolded Let_def]
  have "app_world (snd (run_update id gate_new app)) = 0"
    by (simp add: run_update_def Let_def pl w rt active_owner_ids_def active_drains_def command_drain_def
        map_filter_def plugin_record_new_def)
  with skip show ?thesis unfolding app_def [symmetric] by (simp only:)
qed

end
