(* ===== verification/Observability.thy ===== *)
theory Observability
  imports Mailbox
begin

text \<open>
  The runtime's side of the compact events, from \<open>crates/runtime/src/observability.rs\<close>: the event
  codes, their domain and message, and the bounded drain of the queue.  The tracing backends are
  output only; an emitted record is the pair of an event and its classification.
\<close>

definition SCHED_FRAME_ENTERED :: u16 where "SCHED_FRAME_ENTERED = 1"
definition SCHED_ORIGINAL_CALLED :: u16 where "SCHED_ORIGINAL_CALLED = 2"
definition SCHED_ORIGINAL_RETURNED :: u16 where "SCHED_ORIGINAL_RETURNED = 3"
definition SCHED_NO_PUBLISHED_CONTEXT :: u16 where "SCHED_NO_PUBLISHED_CONTEXT = 4"
definition SCHED_GLOBAL_FAILURE :: u16 where "SCHED_GLOBAL_FAILURE = 5"
definition SCHED_THREAD_MISMATCH :: u16 where "SCHED_THREAD_MISMATCH = 6"
definition FFI_ENTRY_PANICKED :: u16 where "FFI_ENTRY_PANICKED = 7"
definition SCHED_FRAME_DONE :: u16 where "SCHED_FRAME_DONE = 8"

lemmas compact_codes = SCHED_FRAME_ENTERED_def SCHED_ORIGINAL_CALLED_def SCHED_ORIGINAL_RETURNED_def
  SCHED_NO_PUBLISHED_CONTEXT_def SCHED_GLOBAL_FAILURE_def SCHED_THREAD_MISMATCH_def
  FFI_ENTRY_PANICKED_def SCHED_FRAME_DONE_def

definition code_category :: "u16 \<Rightarrow> string \<times> string" where
  "code_category code =
     (if code = SCHED_FRAME_ENTERED then (''scheduler'', ''scheduler frame entered'')
      else if code = SCHED_ORIGINAL_CALLED then (''hook'', ''original LateUpdate entered'')
      else if code = SCHED_ORIGINAL_RETURNED then (''hook'', ''original LateUpdate returned'')
      else if code = SCHED_FRAME_DONE then (''scheduler'', ''scheduler frame done'')
      else if code = SCHED_NO_PUBLISHED_CONTEXT then
        (''scheduler'', ''callback reached without published context'')
      else if code = SCHED_GLOBAL_FAILURE then (''scheduler'', ''scheduler global failure published'')
      else if code = SCHED_THREAD_MISMATCH then (''scheduler'', ''scheduler thread identity mismatch'')
      else if code = FFI_ENTRY_PANICKED then (''runtime'', ''entry panicked; startup aborted'')
      else (''runtime'', ''unclassified compact event''))"

definition emit_compact_event :: "compact_event \<Rightarrow> compact_event \<times> string \<times> string" where
  "emit_compact_event event = (event, code_category (ce_code event))"

text \<open>\<open>drain_available\<close>: at most 256 events a call; the records it emits are returned with the count.\<close>

definition drain_available ::
  "(compact_event, 'q) array_queue \<Rightarrow> 'q callback_observability
     \<Rightarrow> nat \<times> (compact_event \<times> string \<times> string) list \<times> 'q callback_observability" where
  "drain_available A queue =
     (case obs_drain A 256 queue of
        (events, queue') \<Rightarrow> (length events, map emit_compact_event events, queue'))"

text \<open>One call emits the oldest 256 queued events, classified, and counts them.\<close>

lemma drain_available_view:
  assumes "array_queue_laws A view" and "view (co_queue queue) = (c, es)"
  shows "fst (drain_available A queue) = min 256 (length es)"
    and "fst (snd (drain_available A queue)) = map emit_compact_event (take 256 es)"
  using pop_while_view [OF assms, of 256]
  by (auto simp: drain_available_def obs_drain_def split: prod.splits)

end
