(* ===== verification/Scheduler.thy ===== *)
theory Scheduler
  imports Plugin_App_Correct Observability "HOL-Library.Multiset"
begin

text \<open>
  The Unity main-thread scheduler of \<open>crates/runtime/src/scheduler.rs\<close> and the hand-off slot of
  \<open>handoff.rs\<close>: one frame of the replacement, step by step, with its thread-local slot, its panic
  boundary and the drop of the frame.

  \<open>'a\<close> is the application the scheduler owns, \<open>'w\<close> the game's own state, \<open>'t\<close> the threads.  The
  game's original and the drivers are functions on the scheduler state, because either of them may
  enter the replacement again; \<open>frame_script\<close> ties that knot.  An application that is forgotten
  (\<open>mem::forget\<close>) goes to \<open>sd_leaked\<close>, the retention root.
\<close>

section \<open>The hand-off slot\<close>

type_synonym 'a handoff = "'a option mutex"

datatype 'a handoff_take = Ready 'a | Pending | Failed

definition handoff_empty :: "'a handoff" where
  [sched_simps]: "handoff_empty = mutex_new None"

text \<open>\<open>publish\<close> waits for the lock, so only poisoning and a full slot refuse.\<close>

definition handoff_publish :: "'a \<Rightarrow> 'a handoff \<Rightarrow> bool \<times> 'a handoff" where
  [sched_simps]: "handoff_publish a h =
     (if mx_poisoned h then (False, h)
      else if mx_val h \<noteq> None then (False, h)
      else (True, h\<lparr> mx_val := Some a \<rparr>))"

definition handoff_try_take :: "'a handoff \<Rightarrow> 'a handoff_take \<times> 'a handoff" where
  [sched_simps]: "handoff_try_take h =
     (if mx_held h then (Pending, h)
      else if mx_poisoned h then (Failed, h)
      else (case mx_val h of
              Some a \<Rightarrow> (Ready a, h\<lparr> mx_val := None \<rparr>)
            | None \<Rightarrow> (Pending, h)))"

section \<open>The scheduler state\<close>

datatype 'a app_slot = AwaitingHandoff | Running 'a | Busy | Exited 'a | Unavailable

record ('a, 't, 'w) sched =
  sd_handoff :: "'a handoff"
  sd_gate :: runtime_gate
  sd_failed :: bool
  sd_tls :: "'t \<Rightarrow> 'a app_slot"
  sd_seq :: u64
  sd_events :: "compact_event list"
  sd_leaked :: "'a list"
  sd_world :: 'w

definition emit_compact ::
  "u16 \<Rightarrow> compact_level \<Rightarrow> u64 \<Rightarrow> u64 \<Rightarrow> ('a, 't, 'w) sched \<Rightarrow> ('a, 't, 'w) sched" where
  "emit_compact code level arg0 arg1 s =
     s\<lparr> sd_events := sd_events s @ [event_args arg0 arg1 (event_new code level)] \<rparr>"

text \<open>The gate is closed before \<open>failed\<close> is set.\<close>

definition publish_global_failure :: "('a, 't, 'w) sched \<Rightarrow> ('a, 't, 'w) sched" where
  "publish_global_failure s =
     emit_compact SCHED_GLOBAL_FAILURE CL_Error 0 0
       (s\<lparr> sd_gate := gate_close (sd_gate s), sd_failed := True \<rparr>)"

text \<open>\<open>tls_snapshot\<close>, for the debug plane.\<close>

definition tls_snapshot :: "('a \<Rightarrow> bool) \<Rightarrow> 'a app_slot \<Rightarrow> string \<times> bool option" where
  "tls_snapshot startup_completed slot =
     (case slot of
        AwaitingHandoff \<Rightarrow> (''awaiting_handoff'', None)
      | Running a \<Rightarrow> (''running'', Some (startup_completed a))
      | Busy \<Rightarrow> (''busy'', None)
      | Exited a \<Rightarrow> (''exited'', Some (startup_completed a))
      | Unavailable \<Rightarrow> (''unavailable'', None))"

section \<open>One frame\<close>

record 'a scheduler_frame =
  fr_app :: "'a option"
  fr_phase :: original_phase
  fr_tls_committed :: bool
  fr_this :: usize
  fr_method :: usize

text \<open>The drivers of the application and the game's original; each may run further frames.\<close>

record ('a, 't, 'w) drivers =
  dr_startup_completed :: "'a \<Rightarrow> bool"
  dr_run_startup :: "'a \<Rightarrow> ('a, 't, 'w) sched \<Rightarrow> unit flow \<times> 'a \<times> ('a, 't, 'w) sched"
  dr_run_update :: "'a \<Rightarrow> ('a, 't, 'w) sched \<Rightarrow> unit flow \<times> 'a \<times> ('a, 't, 'w) sched"

type_synonym ('a, 't, 'w) late_update =
  "usize \<Rightarrow> usize \<Rightarrow> ('a, 't, 'w) sched \<Rightarrow> unit flow \<times> ('a, 't, 'w) sched"

definition set_tls :: "'t \<Rightarrow> 'a app_slot \<Rightarrow> ('a, 't, 'w) sched \<Rightarrow> ('a, 't, 'w) sched" where
  "set_tls t slot s = s\<lparr> sd_tls := (sd_tls s)(t := slot) \<rparr>"

definition claim_app ::
  "'t \<Rightarrow> 'a scheduler_frame \<Rightarrow> ('a, 't, 'w) sched \<Rightarrow> 'a scheduler_frame \<times> ('a, 't, 'w) sched" where
  "claim_app t fr s =
     (case sd_tls s t of
        AwaitingHandoff \<Rightarrow>
          (case handoff_try_take (sd_handoff s) of
             (Ready a, h) \<Rightarrow> (fr\<lparr> fr_app := Some a \<rparr>, set_tls t Busy (s\<lparr> sd_handoff := h \<rparr>))
           | (Pending, h) \<Rightarrow> (fr, s\<lparr> sd_handoff := h \<rparr>)
           | (Failed, h) \<Rightarrow>
               (fr, publish_global_failure (set_tls t Unavailable (s\<lparr> sd_handoff := h \<rparr>))))
      | Running a \<Rightarrow> (fr\<lparr> fr_app := Some a \<rparr>, set_tls t Busy s)
      | _ \<Rightarrow> (fr, s))"

definition commit_tls :: "'t \<Rightarrow> 'a \<Rightarrow> bool \<Rightarrow> ('a, 't, 'w) sched \<Rightarrow> ('a, 't, 'w) sched" where
  "commit_tls t a exit s =
     (case sd_tls s t of
        Busy \<Rightarrow> set_tls t (if exit then Exited a else Running a) s
      | _ \<Rightarrow> set_tls t Unavailable (s\<lparr> sd_leaked := sd_leaked s @ [a] \<rparr>))"

definition call_original_once ::
  "('a, 't, 'w) late_update \<Rightarrow> 'a scheduler_frame \<Rightarrow> ('a, 't, 'w) sched
     \<Rightarrow> unit flow \<times> 'a scheduler_frame \<times> ('a, 't, 'w) sched" where
  "call_original_once original fr s =
     (case guard_begin_call guard_new of
        (False, _) \<Rightarrow> (Returns (), fr, s)
      | (True, guard) \<Rightarrow>
          (let fr1 = fr\<lparr> fr_phase := CallingOriginal \<rparr>;
               s1 = emit_compact SCHED_ORIGINAL_CALLED CL_Info 0 0 s in
           case original (fr_this fr) (fr_method fr) s1 of
             (Panics, s2) \<Rightarrow> (Panics, fr1, s2)
           | (Returns _, s2) \<Rightarrow>
               (Returns (), fr1\<lparr> fr_phase := AfterOriginal \<rparr>,
                emit_compact SCHED_ORIGINAL_RETURNED CL_Info 0 0 s2)))"

definition commit_phase_after_failed_frame :: "'a scheduler_frame \<Rightarrow> 'a scheduler_frame" where
  "commit_phase_after_failed_frame fr = fr\<lparr> fr_phase := AfterOriginal \<rparr>"

text \<open>A frame that only passes through: the original, then the phase.\<close>

definition passthrough_frame ::
  "('a, 't, 'w) late_update \<Rightarrow> 'a scheduler_frame \<Rightarrow> ('a, 't, 'w) sched
     \<Rightarrow> unit flow \<times> 'a scheduler_frame \<times> ('a, 't, 'w) sched" where
  "passthrough_frame original fr s =
     (case call_original_once original fr s of
        (Panics, fr', s') \<Rightarrow> (Panics, fr', s')
      | (Returns _, fr', s') \<Rightarrow> (Returns (), commit_phase_after_failed_frame fr', s'))"

definition frame_execute ::
  "('a, 't, 'w) drivers \<Rightarrow> ('t \<Rightarrow> bool) \<Rightarrow> 't \<Rightarrow> ('a, 't, 'w) late_update \<Rightarrow> 'a scheduler_frame
     \<Rightarrow> ('a, 't, 'w) sched \<Rightarrow> unit flow \<times> 'a scheduler_frame \<times> ('a, 't, 'w) sched" where
  "frame_execute D main_thread_check t original fr s =
     (if sd_failed s then
        (case claim_app t fr s of (fr1, s1) \<Rightarrow>
           (case fr_app fr1 of
              Some a \<Rightarrow> passthrough_frame original (fr1\<lparr> fr_app := None \<rparr>) (commit_tls t a True s1)
            | None \<Rightarrow> passthrough_frame original fr1 s1))
      else if \<not> main_thread_check t then
        (let s1 = publish_global_failure (emit_compact SCHED_THREAD_MISMATCH CL_Error 0 0 s);
             s2 = (case sd_tls s1 t of AwaitingHandoff \<Rightarrow> set_tls t Unavailable s1 | _ \<Rightarrow> s1) in
         passthrough_frame original fr s2)
      else
        (case claim_app t fr s of (fr1, s1) \<Rightarrow>
           (case fr_app fr1 of
              None \<Rightarrow> passthrough_frame original fr1 s1
            | Some a \<Rightarrow>
                (let startup = \<not> dr_startup_completed D a in
                 case (if startup then dr_run_startup D a s1 else dr_run_update D a s1) of
                   (Panics, a', s2) \<Rightarrow> (Panics, fr1\<lparr> fr_app := Some a' \<rparr>, s2)
                 | (Returns _, a', s2) \<Rightarrow>
                     (let s3 = (if startup then s2\<lparr> sd_gate := snd (gate_open (sd_gate s2)) \<rparr> else s2) in
                      case call_original_once original (fr1\<lparr> fr_app := Some a' \<rparr>) s3 of
                        (Panics, fr4, s4) \<Rightarrow> (Panics, fr4, s4)
                      | (Returns _, fr4, s4) \<Rightarrow>
                          (let exit = sd_failed s4 in
                           (Returns (),
                            fr4\<lparr> fr_app := None, fr_tls_committed := True \<rparr>,
                            (case fr_app fr4 of Some a4 \<Rightarrow> commit_tls t a4 exit s4 | None \<Rightarrow> s4))))))))"

definition frame_drop :: "'a scheduler_frame \<Rightarrow> ('a, 't, 'w) sched \<Rightarrow> ('a, 't, 'w) sched" where
  "frame_drop fr s =
     (if fr_tls_committed fr then s
      else
        (case fr_app fr of
           None \<Rightarrow> s
         | Some a \<Rightarrow>
             (let s1 = publish_global_failure s in s1\<lparr> sd_leaked := sd_leaked s1 @ [a] \<rparr>)))"

fun phase_num :: "original_phase \<Rightarrow> u64" where
  "phase_num BeforeOriginal = 0"
| "phase_num CallingOriginal = 1"
| "phase_num AfterOriginal = 2"

definition frame_new :: "usize \<Rightarrow> usize \<Rightarrow> 'a scheduler_frame" where
  "frame_new this meth = \<lparr> fr_app = None, fr_phase = BeforeOriginal, fr_tls_committed = False,
     fr_this = this, fr_method = meth \<rparr>"

definition run_frame ::
  "('a, 't, 'w) drivers \<Rightarrow> ('t \<Rightarrow> bool) \<Rightarrow> 't \<Rightarrow> ('a, 't, 'w) late_update \<Rightarrow> usize \<Rightarrow> usize
     \<Rightarrow> ('a, 't, 'w) sched \<Rightarrow> ('a, 't, 'w) sched" where
  "run_frame D main_thread_check t original this meth s =
     (let seq = sd_seq s;
          s0 = emit_compact SCHED_FRAME_ENTERED CL_Info seq 0 (s\<lparr> sd_seq := sd_seq s + 1 \<rparr>) in
      case frame_execute D main_thread_check t original (frame_new this meth) s0 of
        (Returns _, fr, s1) \<Rightarrow>
          frame_drop fr (emit_compact SCHED_FRAME_DONE CL_Info seq (phase_num (fr_phase fr)) s1)
      | (Panics, fr, s1) \<Rightarrow>
          (let s2 = publish_global_failure s1;
               (fr3, s3) = (if fr_phase fr = BeforeOriginal
                 then snd (call_original_once original fr s2) else (fr, s2)) in
           emit_compact SCHED_FRAME_DONE CL_Error seq (phase_num (fr_phase fr)) (frame_drop fr3 s3)))"

text \<open>The replacement in the slot reads the published context.\<close>

definition publish_context :: "'c \<Rightarrow> 'c option \<Rightarrow> bool \<times> 'c option" where
  "publish_context context cell = (case cell of None \<Rightarrow> (True, Some context) | Some _ \<Rightarrow> (False, cell))"

definition scheduler_replacement ::
  "('a, 't, 'w) drivers \<Rightarrow> ('t \<Rightarrow> bool) \<Rightarrow> 't \<Rightarrow> ('a, 't, 'w) late_update \<Rightarrow> usize \<Rightarrow> usize
     \<Rightarrow> ('a, 't, 'w) sched option \<times> compact_event list
     \<Rightarrow> ('a, 't, 'w) sched option \<times> compact_event list" where
  "scheduler_replacement D main_thread_check t original this meth st =
     (case st of
        (Some s, evs) \<Rightarrow> (Some (run_frame D main_thread_check t original this meth s), evs)
      | (None, evs) \<Rightarrow>
          (None, evs @ [event_args 0 0 (event_new SCHED_NO_PUBLISHED_CONTEXT CL_Error)]))"

section \<open>The hook\<close>

record 'm scheduler_hook =
  sh_slot :: "'m method_pointer_slot"
  sh_original :: usize
  sh_replacement :: usize
  sh_installed :: bool

text \<open>\<open>None\<close> is the panic of a bind that fails.\<close>

definition scheduler_hook_new ::
  "'m slot_ops \<Rightarrow> 'm \<Rightarrow> usize \<Rightarrow> usize \<Rightarrow> 'm scheduler_hook option" where
  "scheduler_hook_new M memory original replacement =
     (case slot_bind M memory of
        Inl _ \<Rightarrow> None
      | Inr slot \<Rightarrow> Some \<lparr> sh_slot = slot, sh_original = original, sh_replacement = replacement,
          sh_installed = False \<rparr>)"

definition install_hook ::
  "'m slot_ops \<Rightarrow> ('m \<Rightarrow> 'm) \<Rightarrow> 'm scheduler_hook \<Rightarrow> (hook_error, unit) result \<times> 'm scheduler_hook" where
  "install_hook M env hook =
     (if sh_installed hook then (Inl SiteAlreadyRegistered, hook)
      else
        (case slot_install M env (sh_replacement hook) (sh_slot hook) of
           (r, slot) \<Rightarrow> (r, hook\<lparr> sh_installed := True, sh_slot := slot \<rparr>)))"

end
