(* ===== verification/Scheduler_Correct.thy ===== *)
theory Scheduler_Correct
  imports Scheduler
begin

text \<open>
  What one frame of the scheduler guarantees, and what any nest of frames keeps: the original runs
  once a frame, an application is never lost or duplicated, a global failure is final.
\<close>

section \<open>The original runs once a frame\<close>

lemma guard_first_call: "guard_begin_call guard_new = (True, guard_new\<lparr> og_phase := CallingOriginal \<rparr>)"
  by (simp add: guard_begin_call_def guard_new_def)

lemma sd_world_simps [simp]:
  "sd_world (emit_compact c l x y s) = sd_world s"
  "sd_world (publish_global_failure s) = sd_world s"
  "sd_world (set_tls t slot s) = sd_world s"
  "sd_world (commit_tls t a e s) = sd_world s"
  "sd_world (frame_drop fr s) = sd_world s"
  by (simp_all add: emit_compact_def publish_global_failure_def set_tls_def commit_tls_def frame_drop_def
      Let_def split: app_slot.split option.split)

lemma claim_app_world: "claim_app t fr s = (fr', s') \<Longrightarrow>
    sd_world s' = sd_world s \<and> fr_phase fr' = fr_phase fr \<and> fr_this fr' = fr_this fr \<and>
    fr_method fr' = fr_method fr"
  by (auto simp: claim_app_def split: app_slot.splits prod.splits handoff_take.splits)

text \<open>\<open>lg\<close> is what the game can tell of the calls of its original: it sees its own arguments.\<close>

lemma call_original_once_log:
  assumes orig: "\<And>x y s. lg (sd_world (snd (original x y s))) = lg (sd_world s) @ [(x, y)]"
  shows "lg (sd_world (snd (snd (call_original_once original fr s)))) =
      lg (sd_world s) @ [(fr_this fr, fr_method fr)] \<and>
    fr_phase (fst (snd (call_original_once original fr s))) \<noteq> BeforeOriginal"
  using orig [of "fr_this fr" "fr_method fr" "emit_compact SCHED_ORIGINAL_CALLED CL_Info 0 0 s"]
  by (simp add: call_original_once_def guard_first_call Let_def split: prod.split flow.split) auto

lemma passthrough_frame_log:
  assumes orig: "\<And>x y s. lg (sd_world (snd (original x y s))) = lg (sd_world s) @ [(x, y)]"
  shows "lg (sd_world (snd (snd (passthrough_frame original fr s)))) =
      lg (sd_world s) @ [(fr_this fr, fr_method fr)] \<and>
    fr_phase (fst (snd (passthrough_frame original fr s))) \<noteq> BeforeOriginal"
  using call_original_once_log [where lg = lg and original = original and fr = fr and s = s, OF orig]
  by (auto simp: passthrough_frame_def commit_phase_after_failed_frame_def split: prod.splits flow.splits)

text \<open>Outside the original and the drivers a frame leaves the game's state; \<open>frame_logged\<close> is what a
  part of a frame has added to the log.\<close>

definition frame_logged ::
  "('w \<Rightarrow> 'l list) \<Rightarrow> 'l \<Rightarrow> ('a, 't, 'w) sched
     \<Rightarrow> unit flow \<times> 'a scheduler_frame \<times> ('a, 't, 'w) sched \<Rightarrow> bool" where
  "frame_logged lg x s res = (case res of (r, fr, s') \<Rightarrow>
     lg (sd_world s') = lg (sd_world s) @ (if fr_phase fr = BeforeOriginal then [] else [x]) \<and>
     (r = Returns () \<longrightarrow> fr_phase fr \<noteq> BeforeOriginal))"

lemma call_original_once_frame:
  "fr_this (fst (snd (call_original_once original fr s))) = fr_this fr"
  "fr_method (fst (snd (call_original_once original fr s))) = fr_method fr"
  "fr_app (fst (snd (call_original_once original fr s))) = fr_app fr"
  "fr_tls_committed (fst (snd (call_original_once original fr s))) = fr_tls_committed fr"
  by (simp_all add: call_original_once_def guard_first_call Let_def split: prod.split flow.split)

lemma passthrough_frame_frame:
  "fr_this (fst (snd (passthrough_frame original fr s))) = fr_this fr"
  "fr_method (fst (snd (passthrough_frame original fr s))) = fr_method fr"
  "fr_app (fst (snd (passthrough_frame original fr s))) = fr_app fr"
  "fr_tls_committed (fst (snd (passthrough_frame original fr s))) = fr_tls_committed fr"
  using call_original_once_frame [of original fr s]
  by (auto simp: passthrough_frame_def commit_phase_after_failed_frame_def split: prod.splits flow.splits)

definition run_driver ::
  "('a, 't, 'w) drivers \<Rightarrow> 'a \<Rightarrow> ('a, 't, 'w) sched \<Rightarrow> unit flow \<times> 'a \<times> ('a, 't, 'w) sched" where
  "run_driver D a s = (if \<not> dr_startup_completed D a then dr_run_startup D a s else dr_run_update D a s)"

definition after_driver :: "('a, 't, 'w) drivers \<Rightarrow> 'a \<Rightarrow> ('a, 't, 'w) sched \<Rightarrow> ('a, 't, 'w) sched" where
  "after_driver D a s = (if \<not> dr_startup_completed D a
     then s\<lparr> sd_gate := snd (gate_open (sd_gate s)) \<rparr> else s)"

definition mismatch_state :: "'t \<Rightarrow> ('a, 't, 'w) sched \<Rightarrow> ('a, 't, 'w) sched" where
  "mismatch_state t s = (let s1 = publish_global_failure (emit_compact SCHED_THREAD_MISMATCH CL_Error 0 0 s) in
     case sd_tls s1 t of AwaitingHandoff \<Rightarrow> set_tls t Unavailable s1 | _ \<Rightarrow> s1)"

lemma frame_execute_cases [case_names failed thread unclaimed driver_panics original_panics completed]:
  obtains fr1 s1 fr2 s2 where "sd_failed s" "claim_app t fr s = (fr1, s1)"
      "(fr2, s2) = (case fr_app fr1 of
         Some a \<Rightarrow> (fr1\<lparr> fr_app := None \<rparr>, commit_tls t a True s1) | None \<Rightarrow> (fr1, s1))"
      "frame_execute D mc t original fr s = passthrough_frame original fr2 s2"
  | "\<not> sd_failed s" "\<not> mc t"
      "frame_execute D mc t original fr s = passthrough_frame original fr (mismatch_state t s)"
  | fr1 s1 where "\<not> sd_failed s" "mc t" "claim_app t fr s = (fr1, s1)" "fr_app fr1 = None"
      "frame_execute D mc t original fr s = passthrough_frame original fr1 s1"
  | fr1 s1 a a' s2 where "\<not> sd_failed s" "mc t" "claim_app t fr s = (fr1, s1)" "fr_app fr1 = Some a"
      "run_driver D a s1 = (Panics, a', s2)"
      "frame_execute D mc t original fr s = (Panics, fr1\<lparr> fr_app := Some a' \<rparr>, s2)"
  | fr1 s1 a a' s2 fr4 s4 where "\<not> sd_failed s" "mc t" "claim_app t fr s = (fr1, s1)" "fr_app fr1 = Some a"
      "run_driver D a s1 = (Returns (), a', s2)"
      "call_original_once original (fr1\<lparr> fr_app := Some a' \<rparr>) (after_driver D a s2) = (Panics, fr4, s4)"
      "frame_execute D mc t original fr s = (Panics, fr4, s4)"
  | fr1 s1 a a' s2 fr4 s4 where "\<not> sd_failed s" "mc t" "claim_app t fr s = (fr1, s1)" "fr_app fr1 = Some a"
      "run_driver D a s1 = (Returns (), a', s2)"
      "call_original_once original (fr1\<lparr> fr_app := Some a' \<rparr>) (after_driver D a s2) = (Returns (), fr4, s4)"
      "frame_execute D mc t original fr s =
        (Returns (), fr4\<lparr> fr_app := None, fr_tls_committed := True \<rparr>, commit_tls t a' (sd_failed s4) s4)"
proof -
  note that_failed = that(1) and that_thread = that(2) and that_unclaimed = that(3)
    and that_dpanic = that(4) and that_opanic = that(5) and that_done = that(6)
  obtain fr1 s1 where c: "claim_app t fr s = (fr1, s1)" by fastforce
  consider "sd_failed s" | "\<not> sd_failed s" "\<not> mc t" | "\<not> sd_failed s" "mc t" by blast
  then show thesis
  proof cases
    case 1
    with c show thesis
      by (cases "fr_app fr1") (auto intro!: that_failed simp: frame_execute_def)
  next
    case 2
    then show thesis
      by (intro that_thread) (simp_all add: frame_execute_def mismatch_state_def Let_def)
  next
    case 3
    show thesis
    proof (cases "fr_app fr1")
      case None
      with 3 c show thesis by (intro that_unclaimed) (simp_all add: frame_execute_def)
    next
      case (Some a)
      obtain r a' s2 where d: "run_driver D a s1 = (r, a', s2)" by (metis prod_cases3)
      show thesis
      proof (cases r)
        case Panics
        with 3 c Some d show thesis
          by (intro that_dpanic) (simp_all add: frame_execute_def run_driver_def Let_def)
      next
        case (Returns u)
        obtain r4 fr4 s4 where o4: "call_original_once original (fr1\<lparr> fr_app := Some a' \<rparr>) (after_driver D a s2)
            = (r4, fr4, s4)" by (metis prod_cases3)
        from call_original_once_frame(3) [of original "fr1\<lparr> fr_app := Some a' \<rparr>" "after_driver D a s2"] o4
        have "fr_app fr4 = Some a'" by simp
        have ex: "frame_execute D mc t original fr s =
            (case r4 of
               Panics \<Rightarrow> (Panics, fr4, s4)
             | Returns _ \<Rightarrow> (Returns (), fr4\<lparr> fr_app := None, fr_tls_committed := True \<rparr>,
                 commit_tls t a' (sd_failed s4) s4))"
          using 3 c Some d Returns o4 \<open>fr_app fr4 = Some a'\<close>
          unfolding frame_execute_def run_driver_def after_driver_def by (cases r4) (simp_all add: Let_def)
        from d Returns have d': "run_driver D a s1 = (Returns (), a', s2)" by simp
        show thesis
        proof (cases r4)
          case Panics
          with ex o4 show thesis by (intro that_opanic [OF 3 c Some d']) simp_all
        next
          case (Returns v)
          with ex o4 show thesis by (intro that_done [OF 3 c Some d']) simp_all
        qed
      qed
    qed
  qed
qed

lemma frame_execute_args:
  "fr_this (fst (snd (frame_execute D mc t original fr s))) = fr_this fr \<and>
   fr_method (fst (snd (frame_execute D mc t original fr s))) = fr_method fr"
proof (cases rule: frame_execute_cases [of s t fr D mc original])
  case (failed fr1 s1 fr2 s2)
  with claim_app_world [OF failed(2)] show ?thesis
    by (auto simp: passthrough_frame_frame split: option.splits)
next
  case thread
  then show ?thesis by (simp add: passthrough_frame_frame)
next
  case (unclaimed fr1 s1)
  with claim_app_world [OF unclaimed(3)] show ?thesis by (simp add: passthrough_frame_frame)
next
  case (driver_panics fr1 s1 a a' s2)
  with claim_app_world [OF driver_panics(3)] show ?thesis by simp
next
  case (original_panics fr1 s1 a a' s2 fr4 s4)
  with claim_app_world [OF original_panics(3)]
    call_original_once_frame(1,2) [of original "fr1\<lparr> fr_app := Some a' \<rparr>" "after_driver D a s2"]
  show ?thesis by simp
next
  case (completed fr1 s1 a a' s2 fr4 s4)
  with claim_app_world [OF completed(3)]
    call_original_once_frame(1,2) [of original "fr1\<lparr> fr_app := Some a' \<rparr>" "after_driver D a s2"]
  show ?thesis by simp
qed

lemma after_driver_world [simp]: "sd_world (after_driver D a s) = sd_world s"
  by (simp add: after_driver_def)

lemma mismatch_state_world [simp]: "sd_world (mismatch_state t s) = sd_world s"
  by (simp add: mismatch_state_def Let_def split: app_slot.split)

lemma frame_execute_logged:
  assumes orig: "\<And>x y s. lg (sd_world (snd (original x y s))) = lg (sd_world s) @ [(x, y)]"
    and start: "\<And>a s. lg (sd_world (snd (snd (dr_run_startup D a s)))) = lg (sd_world s)"
    and upd: "\<And>a s. lg (sd_world (snd (snd (dr_run_update D a s)))) = lg (sd_world s)"
    and fr: "fr_phase fr = BeforeOriginal"
  shows "frame_logged lg (fr_this fr, fr_method fr) s (frame_execute D mc t original fr s)"
proof -
  have pass: "frame_logged lg (fr_this fr, fr_method fr) s (passthrough_frame original fr1 s1)"
    if "sd_world s1 = sd_world s" "fr_this fr1 = fr_this fr" "fr_method fr1 = fr_method fr" for fr1 s1
    using passthrough_frame_log [where lg = lg and original = original and fr = fr1 and s = s1, OF orig] that
    by (auto simp: frame_logged_def split: prod.splits)
  have drv: "lg (sd_world s2) = lg (sd_world s1)" if "run_driver D a s1 = (r, a', s2)" for r a a' s1 s2
    using that start [of a s1] upd [of a s1] by (auto simp: run_driver_def split: if_splits)
  note co = call_original_once_log [where lg = lg and original = original, OF orig]
  show ?thesis
  proof (cases rule: frame_execute_cases [of s t fr D mc original])
    case (failed fr1 s1 fr2 s2)
    with claim_app_world [OF failed(2)] show ?thesis by (auto intro!: pass split: option.splits)
  next
    case thread
    then show ?thesis by (simp add: pass)
  next
    case (unclaimed fr1 s1)
    with claim_app_world [OF unclaimed(3)] show ?thesis by (simp add: pass)
  next
    case (driver_panics fr1 s1 a a' s2)
    with claim_app_world [OF driver_panics(3)] drv [OF driver_panics(5)] fr show ?thesis
      by (simp add: frame_logged_def)
  next
    case (original_panics fr1 s1 a a' s2 fr4 s4)
    with claim_app_world [OF original_panics(3)] drv [OF original_panics(5)]
      co [of "fr1\<lparr> fr_app := Some a' \<rparr>" "after_driver D a s2"]
    show ?thesis by (simp add: frame_logged_def)
  next
    case (completed fr1 s1 a a' s2 fr4 s4)
    with claim_app_world [OF completed(3)] drv [OF completed(5)]
      co [of "fr1\<lparr> fr_app := Some a' \<rparr>" "after_driver D a s2"]
    show ?thesis by (simp add: frame_logged_def)
  qed
qed

text \<open>
  C4: one frame of the replacement calls the game's original exactly once and with the very arguments
  the game passed, in every case: a global failure seen on entry, a wrong thread, a pending or broken
  hand-off, a nested frame, a driver that panics, and an original that panics.
\<close>

theorem frame_calls_original_once:
  assumes orig: "\<forall>x y s. lg (sd_world (snd (original x y s))) = lg (sd_world s) @ [(x, y)]"
    and start: "\<forall>a s. lg (sd_world (snd (snd (dr_run_startup D a s)))) = lg (sd_world s)"
    and upd: "\<forall>a s. lg (sd_world (snd (snd (dr_run_update D a s)))) = lg (sd_world s)"
  shows "lg (sd_world (run_frame D mc t original this meth s)) = lg (sd_world s) @ [(this, meth)]"
proof -
  let ?s0 = "emit_compact SCHED_FRAME_ENTERED CL_Info (sd_seq s) 0 (s\<lparr> sd_seq := sd_seq s + 1 \<rparr>)"
  obtain r fr s1 where e: "frame_execute D mc t original (frame_new this meth) ?s0 = (r, fr, s1)"
    by (metis prod_cases3)
  have "fr_phase (frame_new this meth) = BeforeOriginal" by (simp add: frame_new_def)
  from frame_execute_logged [where lg = lg and original = original and D = D and mc = mc and t = t
      and s = ?s0, OF orig [rule_format] start [rule_format] upd [rule_format] this] e
  have l: "lg (sd_world s1) = lg (sd_world s) @ (if fr_phase fr = BeforeOriginal then [] else [(this, meth)])"
    and ret: "r = Returns () \<longrightarrow> fr_phase fr \<noteq> BeforeOriginal"
    by (simp_all add: frame_logged_def frame_new_def)
  show ?thesis
  proof (cases r)
    case (Returns u)
    with e l ret show ?thesis by (simp add: run_frame_def Let_def)
  next
    case Panics
    have args: "fr_this fr = this \<and> fr_method fr = meth"
      using frame_execute_args [of D mc t original "frame_new this meth" ?s0] e by (simp add: frame_new_def)
    show ?thesis
    proof (cases "fr_phase fr = BeforeOriginal")
      case True
      obtain r3 fr3 s3 where o3: "call_original_once original fr (publish_global_failure s1) = (r3, fr3, s3)"
        by (metis prod_cases3)
      from call_original_once_log [where lg = lg and original = original and fr = fr
          and s = "publish_global_failure s1", OF orig [rule_format]] o3 l True args
      have "lg (sd_world s3) = lg (sd_world s) @ [(this, meth)]" by simp
      with e Panics True o3 show ?thesis by (simp add: run_frame_def Let_def)
    next
      case False
      with e Panics l show ?thesis by (simp add: run_frame_def Let_def)
    qed
  qed
qed

definition plain_drivers :: "('a \<Rightarrow> bool) \<Rightarrow> ('a, 't, 'w) drivers" where
  "plain_drivers P = \<lparr> dr_startup_completed = P, dr_run_startup = (\<lambda>a s. (Panics, a, s)),
     dr_run_update = (\<lambda>a s. (Returns (), a, s)) \<rparr>"

definition sched_new :: "'w \<Rightarrow> ('a, 't, 'w) sched" where
  "sched_new w = \<lparr> sd_handoff = handoff_empty, sd_gate = gate_new, sd_failed = False,
     sd_tls = (\<lambda>_. AwaitingHandoff), sd_seq = 0, sd_events = [], sd_leaked = [], sd_world = w \<rparr>"

definition logging_original :: "('a, 't, (usize \<times> usize) list) late_update" where
  "logging_original x y s = (Panics, s\<lparr> sd_world := sd_world s @ [(x, y)] \<rparr>)"

theorem frame_calls_original_once_witness:
  "sd_world (run_frame (plain_drivers (\<lambda>_. False)) (\<lambda>_. True) True logging_original 8 16
     ((sched_new [] :: (nat, bool, (usize \<times> usize) list) sched)
       \<lparr> sd_handoff := snd (handoff_publish 7 handoff_empty) \<rparr>)) = [(8, 16)]"
proof -
  have o: "\<forall>x y s. sd_world (snd (logging_original x y (s :: (nat, bool, (usize \<times> usize) list) sched)))
      = sd_world s @ [(x, y)]"
    and d: "\<forall>a s. sd_world (snd (snd (dr_run_startup (plain_drivers (\<lambda>_. False)) (a :: nat)
        (s :: (nat, bool, (usize \<times> usize) list) sched)))) = sd_world s"
    and u: "\<forall>a s. sd_world (snd (snd (dr_run_update (plain_drivers (\<lambda>_. False)) (a :: nat)
        (s :: (nat, bool, (usize \<times> usize) list) sched)))) = sd_world s"
    by (simp_all add: logging_original_def plain_drivers_def)
  from frame_calls_original_once [where lg = "\<lambda>x. x", OF o d u, of "\<lambda>_. True" True 8 16]
  show ?thesis by (simp add: sched_new_def)
qed

section \<open>Ownership of the application\<close>

definition slot_apps :: "'a app_slot \<Rightarrow> 'a multiset" where
  "slot_apps slot = (case slot of Running a \<Rightarrow> {#a#} | Exited a \<Rightarrow> {#a#} | _ \<Rightarrow> {#})"

definition opt_app :: "'a option \<Rightarrow> 'a multiset" where
  "opt_app v = (case v of None \<Rightarrow> {#} | Some a \<Rightarrow> {#a#})"

text \<open>Every place an application can be: the hand-off, the thread-local slots, the retention root.\<close>

definition held_apps :: "('a, 't :: finite, 'w) sched \<Rightarrow> 'a multiset" where
  "held_apps s = opt_app (mx_val (sd_handoff s)) + (\<Sum>u \<in> UNIV. slot_apps (sd_tls s u)) + mset (sd_leaked s)"

definition gate_inv :: "('a, 't, 'w) sched \<Rightarrow> bool" where
  "gate_inv s \<longleftrightarrow> gate_ok (sd_gate s) \<and> (sd_failed s \<longrightarrow> gate_is_closed (sd_gate s))"

text \<open>\<open>monotone s s'\<close>: a global failure stays, the gate invariant stays, a busy slot stays busy.\<close>

definition monotone_step :: "('a, 't, 'w) sched \<Rightarrow> ('a, 't, 'w) sched \<Rightarrow> bool" where
  "monotone_step s s' \<longleftrightarrow> (sd_failed s \<longrightarrow> sd_failed s') \<and> (gate_inv s \<longrightarrow> gate_inv s') \<and>
     (\<forall>u. sd_tls s u = Busy \<longrightarrow> sd_tls s' u = Busy)"

definition keeps ::
  "('a \<Rightarrow> 'k) \<Rightarrow> ('a, 't :: finite, 'w) sched \<Rightarrow> ('a, 't, 'w) sched \<Rightarrow> bool" where
  "keeps key s s' \<longleftrightarrow> image_mset key (held_apps s') = image_mset key (held_apps s) \<and> monotone_step s s'"

lemma monotone_refl: "monotone_step s s"
  by (simp add: monotone_step_def)

lemma monotone_trans: "monotone_step s s' \<Longrightarrow> monotone_step s' s'' \<Longrightarrow> monotone_step s s''"
  by (simp add: monotone_step_def)

lemma keeps_refl: "keeps key s s"
  by (simp add: keeps_def monotone_refl)

lemma keeps_trans: "keeps key s s' \<Longrightarrow> keeps key s' s'' \<Longrightarrow> keeps key s s''"
  by (auto simp: keeps_def intro: monotone_trans)

lemma tls_sum_upd:
  "(\<Sum>u \<in> UNIV. slot_apps ((f(t := x)) u)) + slot_apps (f t) =
     (\<Sum>u \<in> UNIV. slot_apps (f (u :: 't :: finite))) + slot_apps x"
proof -
  have "(\<Sum>u \<in> UNIV - {t}. slot_apps ((f(t := x)) u)) = (\<Sum>u \<in> UNIV - {t}. slot_apps (f u))"
    by (rule sum.cong) auto
  then show ?thesis by (simp add: sum.remove [of UNIV t] ac_simps)
qed

lemma held_apps_set_tls:
  "held_apps (set_tls t x s) + slot_apps (sd_tls s t) = held_apps s + slot_apps x"
  using tls_sum_upd [of "sd_tls s" t x] by (simp add: held_apps_def set_tls_def ac_simps)

lemma held_apps_simps [simp]:
  "held_apps (emit_compact c l x y s) = held_apps s"
  "held_apps (publish_global_failure s) = held_apps s"
  "held_apps (s\<lparr> sd_gate := g \<rparr>) = held_apps s"
  "held_apps (s\<lparr> sd_seq := n \<rparr>) = held_apps s"
  "held_apps (s\<lparr> sd_world := w \<rparr>) = held_apps s"
  "held_apps (s\<lparr> sd_leaked := sd_leaked s @ [a] \<rparr>) = held_apps s + {#a#}"
  by (simp_all add: held_apps_def emit_compact_def publish_global_failure_def ac_simps)

lemma tls_simps [simp]:
  "sd_tls (emit_compact c l x y s) = sd_tls s" "sd_tls (publish_global_failure s) = sd_tls s"
  "sd_failed (emit_compact c l x y s) = sd_failed s" "sd_failed (publish_global_failure s)"
  "sd_tls (set_tls t slot s) = (sd_tls s)(t := slot)" "sd_failed (set_tls t slot s) = sd_failed s"
  "gate_inv (set_tls t slot s) = gate_inv s" "gate_inv (emit_compact c l x y s) = gate_inv s"
  "gate_inv (s\<lparr> sd_handoff := h \<rparr>) = gate_inv s" "gate_inv (s\<lparr> sd_seq := n \<rparr>) = gate_inv s"
  "gate_inv (s\<lparr> sd_world := w \<rparr>) = gate_inv s" "gate_inv (s\<lparr> sd_leaked := l2 \<rparr>) = gate_inv s"
  by (simp_all add: emit_compact_def publish_global_failure_def set_tls_def gate_inv_def)

lemma gate_inv_failure: "gate_inv (publish_global_failure s)"
proof -
  have "sd_gate (publish_global_failure s) = gate_close (sd_gate s)"
    by (simp add: publish_global_failure_def emit_compact_def)
  then show ?thesis by (simp add: gate_inv_def gate_simps)
qed

lemma keeps_failure: "keeps key s (publish_global_failure s)"
  by (simp add: keeps_def monotone_step_def gate_inv_failure)

lemma keeps_emit: "keeps key s (emit_compact c l x y s)"
  by (simp add: keeps_def monotone_step_def)

lemma keeps_after_driver: "keeps key s (after_driver D a s)"
  by (auto simp: after_driver_def keeps_def monotone_step_def gate_inv_def rg.opn_ok rg.opn_dead)

lemma keeps_mismatch: "keeps key s (mismatch_state t s)"
proof -
  let ?s1 = "publish_global_failure (emit_compact SCHED_THREAD_MISMATCH CL_Error 0 0 s)"
  have "keeps key ?s1 (mismatch_state t s)"
    using held_apps_set_tls [of t Unavailable ?s1]
    by (auto simp: mismatch_state_def Let_def keeps_def monotone_step_def slot_apps_def split: app_slot.split)
  with keeps_trans [OF keeps_emit keeps_failure] show ?thesis by (blast intro: keeps_trans)
qed

lemma claim_app_owns:
  assumes "claim_app t fr s = (fr', s')" and "fr_app fr = None"
  shows "opt_app (fr_app fr') + held_apps s' = held_apps s \<and> monotone_step s s' \<and>
    fr_tls_committed fr' = fr_tls_committed fr \<and> (fr_app fr' \<noteq> None \<longrightarrow> sd_tls s' t = Busy \<and> sd_tls s t \<noteq> Busy)"
proof (cases "sd_tls s t")
  case AwaitingHandoff
  obtain r h where th: "handoff_try_take (sd_handoff s) = (r, h)" by fastforce
  have sl: "slot_apps AwaitingHandoff = {#}" "slot_apps Busy = {#}" "slot_apps Unavailable = {#}"
    by (simp_all add: slot_apps_def)
  show ?thesis
  proof (cases r)
    case (Ready a)
    with th have h: "mx_val (sd_handoff s) = Some a" "h = (sd_handoff s)\<lparr> mx_val := None \<rparr>"
      by (auto simp: handoff_try_take_def split: if_splits option.splits)
    with held_apps_set_tls [of t Busy "s\<lparr> sd_handoff := h \<rparr>"] AwaitingHandoff Ready th assms show ?thesis
      by (auto simp: claim_app_def monotone_step_def opt_app_def held_apps_def sl)
  next
    case Pending
    with th have "h = sd_handoff s" by (auto simp: handoff_try_take_def split: if_splits option.splits)
    with AwaitingHandoff Pending th assms show ?thesis
      by (auto simp: claim_app_def monotone_step_def opt_app_def)
  next
    case Failed
    with th have "h = sd_handoff s" by (auto simp: handoff_try_take_def split: if_splits option.splits)
    with held_apps_set_tls [of t Unavailable s] AwaitingHandoff Failed th assms gate_inv_failure show ?thesis
      by (auto simp: claim_app_def monotone_step_def opt_app_def sl)
  qed
next
  case (Running a)
  with held_apps_set_tls [of t Busy s] assms show ?thesis
    by (auto simp: claim_app_def monotone_step_def opt_app_def slot_apps_def ac_simps)
qed (use assms in \<open>auto simp: claim_app_def monotone_step_def opt_app_def\<close>)

lemma keepsI: "held_apps s' = held_apps s \<Longrightarrow> monotone_step s s' \<Longrightarrow> keeps key s s'"
  by (simp add: keeps_def)

lemma commit_tls_owns:
  assumes "sd_tls s t = Busy"
  shows "held_apps (commit_tls t a e s) = held_apps s + {#a#} \<and> gate_inv (commit_tls t a e s) = gate_inv s \<and>
    sd_failed (commit_tls t a e s) = sd_failed s \<and>
    sd_tls (commit_tls t a e s) = (sd_tls s)(t := if e then Exited a else Running a)"
  using assms held_apps_set_tls [of t "if e then Exited a else Running a" s]
  by (auto simp: commit_tls_def slot_apps_def)

lemma call_original_once_keeps:
  assumes "\<And>x y s. keeps key s (snd (original x y s))"
  shows "keeps key s (snd (snd (call_original_once original fr s)))"
proof -
  let ?s1 = "emit_compact SCHED_ORIGINAL_CALLED CL_Info 0 0 s"
  have "keeps key s (snd (original (fr_this fr) (fr_method fr) ?s1))"
    using keeps_trans [OF keeps_emit assms] .
  then show ?thesis
    by (auto simp: call_original_once_def guard_first_call Let_def split: prod.split flow.split
        intro: keeps_trans [OF _ keeps_emit])
qed

lemma passthrough_frame_keeps:
  assumes "\<And>x y s. keeps key s (snd (original x y s))"
  shows "keeps key s (snd (snd (passthrough_frame original fr s)))"
  using call_original_once_keeps [where key = key and original = original and fr = fr and s = s, OF assms]
  by (auto simp: passthrough_frame_def split: prod.splits flow.splits)

definition driver_keeps :: "('a \<Rightarrow> 'k) \<Rightarrow> ('a, 't :: finite, 'w) sched
    \<Rightarrow> 'a \<Rightarrow> unit flow \<times> 'a \<times> ('a, 't, 'w) sched \<Rightarrow> bool" where
  "driver_keeps key s a res = (case res of (_, a', s') \<Rightarrow> key a' = key a \<and> keeps key s s')"

text \<open>What a frame still holds, with what the scheduler holds, is what there was.\<close>

definition frame_owns ::
  "('a \<Rightarrow> 'k) \<Rightarrow> ('a, 't :: finite, 'w) sched \<Rightarrow> 'a scheduler_frame \<Rightarrow> ('a, 't, 'w) sched \<Rightarrow> bool" where
  "frame_owns key s fr s' \<longleftrightarrow>
     image_mset key (opt_app (fr_app fr) + held_apps s') = image_mset key (held_apps s) \<and>
     monotone_step s s' \<and> (fr_tls_committed fr \<longrightarrow> fr_app fr = None)"

lemma opt_app_simps [simp]: "opt_app None = {#}" "opt_app (Some a) = {#a#}"
  by (simp_all add: opt_app_def)

lemma frame_owns_step:
  "frame_owns key s fr s1 \<Longrightarrow> keeps key s1 s2 \<Longrightarrow> fr_app fr2 = fr_app fr \<Longrightarrow>
    fr_tls_committed fr2 = fr_tls_committed fr \<Longrightarrow> frame_owns key s fr2 s2"
  by (auto simp: frame_owns_def keeps_def intro: monotone_trans)

lemma frame_owns_commit:
  assumes "frame_owns key s fr s'" "fr_app fr = Some a" "sd_tls s' t = Busy" "sd_tls s t \<noteq> Busy"
  shows "frame_owns key s (fr\<lparr> fr_app := None, fr_tls_committed := c \<rparr>) (commit_tls t a e s')"
  using assms commit_tls_owns [of s' t a e] by (auto simp: frame_owns_def monotone_step_def ac_simps)

lemma claim_frame_owns:
  assumes "claim_app t fr s = (fr', s')" "fr_app fr = None" "\<not> fr_tls_committed fr"
  shows "frame_owns key s fr' s' \<and> \<not> fr_tls_committed fr' \<and>
    (fr_app fr' \<noteq> None \<longrightarrow> sd_tls s' t = Busy \<and> sd_tls s t \<noteq> Busy)"
  using claim_app_owns [OF assms(1,2)] assms(3) unfolding frame_owns_def by metis

lemma passthrough_owns:
  assumes orig: "\<And>x y s. keeps key s (snd (original x y s))"
    and own: "frame_owns key s fr s1"
    and res: "passthrough_frame original fr s1 = (r, fr', s')"
  shows "frame_owns key s fr' s'"
  using frame_owns_step [OF own, of s' fr'] passthrough_frame_frame [of original fr s1]
    passthrough_frame_keeps [where key = key and original = original and fr = fr and s = s1, OF orig] res
  by simp

lemma frame_execute_owns:
  assumes orig: "\<And>x y s. keeps key s (snd (original x y s))"
    and drv: "\<And>a s. driver_keeps key s a (run_driver D a s)"
    and fr: "fr_app fr = None" "\<not> fr_tls_committed fr"
    and ex: "frame_execute D mc t original fr s = (r, fr', s')"
  shows "frame_owns key s fr' s'"
proof -
  note pass = passthrough_owns [where key = key and original = original, OF orig]
  have co_keeps: "keeps key s2 s4"
    if "call_original_once original fr3 (after_driver D a s2) = (r4, fr4, s4)" for fr3 D a s2 r4 fr4 s4
    using keeps_trans [OF keeps_after_driver [of key s2 D a]]
      call_original_once_keeps [where key = key and original = original and fr = fr3
        and s = "after_driver D a s2", OF orig] that by simp
  show ?thesis
  proof (cases rule: frame_execute_cases [of s t fr D mc original])
    case (failed fr1 s1 fr2 s2)
    note cl = claim_frame_owns [where key = key, OF failed(2) fr]
    have "frame_owns key s fr2 s2"
    proof (cases "fr_app fr1")
      case None
      with cl failed(3) show ?thesis by simp
    next
      case (Some a)
      with cl have cs: "frame_owns key s fr1 s1" "sd_tls s1 t = Busy" "sd_tls s t \<noteq> Busy" "\<not> fr_tls_committed fr1"
        by simp_all
      from failed(3) Some have fs: "fr2 = fr1\<lparr> fr_app := None \<rparr>" "s2 = commit_tls t a True s1" by simp_all
      show ?thesis
        unfolding fs by (rule frame_owns_step [OF frame_owns_commit [OF cs(1) Some cs(2,3), of False] keeps_refl])
          (simp_all add: cs(4))
    qed
    from pass [OF this, of r fr' s'] failed(4) ex show ?thesis by metis
  next
    case thread
    have "frame_owns key s fr (mismatch_state t s)"
      using keeps_mismatch [of key s t] fr by (simp add: frame_owns_def keeps_def)
    from pass [OF this, of r fr' s'] thread(3) ex show ?thesis by metis
  next
    case (unclaimed fr1 s1)
    from claim_frame_owns [where key = key, OF unclaimed(3) fr] have "frame_owns key s fr1 s1" by simp
    from pass [OF this, of r fr' s'] unclaimed(5) ex show ?thesis by metis
  next
    case (driver_panics fr1 s1 a a' s2)
    from drv [of s1 a] driver_panics(5) have d: "key a' = key a" "keeps key s1 s2"
      by (simp_all add: driver_keeps_def)
    from claim_frame_owns [where key = key, OF driver_panics(3) fr] driver_panics(4,6) ex d
    show ?thesis by (auto simp: frame_owns_def keeps_def intro: monotone_trans)
  next
    case (original_panics fr1 s1 a a' s2 fr4 s4)
    from drv [of s1 a] original_panics(5) have d: "key a' = key a" "keeps key s1 s2"
      by (simp_all add: driver_keeps_def)
    have "frame_owns key s (fr1\<lparr> fr_app := Some a' \<rparr>) s2"
      using claim_frame_owns [where key = key, OF original_panics(3) fr] original_panics(4) d
      by (auto simp: frame_owns_def keeps_def intro: monotone_trans)
    moreover have "keeps key s2 s4" by (rule co_keeps [OF original_panics(6)])
    moreover have "fr_app fr4 = fr_app (fr1\<lparr> fr_app := Some a' \<rparr>)"
      "fr_tls_committed fr4 = fr_tls_committed (fr1\<lparr> fr_app := Some a' \<rparr>)"
      using call_original_once_frame [of original "fr1\<lparr> fr_app := Some a' \<rparr>" "after_driver D a s2"]
        original_panics(6) by simp_all
    ultimately have "frame_owns key s fr4 s4" by (rule frame_owns_step)
    with original_panics(7) ex show ?thesis by simp
  next
    case (completed fr1 s1 a a' s2 fr4 s4)
    from drv [of s1 a] completed(5) have d: "key a' = key a" "keeps key s1 s2"
      by (simp_all add: driver_keeps_def)
    note cl = claim_frame_owns [where key = key, OF completed(3) fr]
    have o2: "frame_owns key s (fr1\<lparr> fr_app := Some a' \<rparr>) s2"
      using cl completed(4) d by (auto simp: frame_owns_def keeps_def intro: monotone_trans)
    have k: "keeps key s2 s4" by (rule co_keeps [OF completed(6)])
    have fr4: "fr_app fr4 = Some a'" "fr_tls_committed fr4 = fr_tls_committed fr1"
      using call_original_once_frame [of original "fr1\<lparr> fr_app := Some a' \<rparr>" "after_driver D a s2"] completed(6)
      by simp_all
    have o4: "frame_owns key s fr4 s4" by (rule frame_owns_step [OF o2 k]) (simp_all add: fr4)
    have busy: "sd_tls s4 t = Busy" "sd_tls s t \<noteq> Busy"
      using cl completed(4) keeps_trans [OF d(2) k] by (simp_all add: keeps_def monotone_step_def)
    from frame_owns_commit [OF o4 fr4(1) busy, of True "sd_failed s4"] completed(7) ex show ?thesis by simp
  qed
qed

lemma frame_drop_owns: "frame_owns key s fr s1 \<Longrightarrow> keeps key s (frame_drop fr s1)"
  by (auto simp: frame_drop_def frame_owns_def keeps_def monotone_step_def Let_def gate_inv_failure
      split: option.split) 

lemma run_frame_keeps:
  assumes orig: "\<And>x y s. keeps key s (snd (original x y s))"
    and drv: "\<And>a s. driver_keeps key s a (run_driver D a s)"
  shows "keeps key s (run_frame D mc t original this meth s)"
proof -
  let ?s0 = "emit_compact SCHED_FRAME_ENTERED CL_Info (sd_seq s) 0 (s\<lparr> sd_seq := sd_seq s + 1 \<rparr>)"
  have s0: "keeps key s ?s0" by (simp add: keeps_def monotone_step_def)
  obtain r fr s1 where e: "frame_execute D mc t original (frame_new this meth) ?s0 = (r, fr, s1)"
    by (metis prod_cases3)
  have own: "frame_owns key ?s0 fr s1"
    by (rule frame_execute_owns [where key = key, OF orig drv _ _ e]) (simp_all add: frame_new_def)
  have "keeps key ?s0 (run_frame D mc t original this meth s)"
  proof (cases r)
    case (Returns u)
    have "frame_owns key ?s0 fr (emit_compact SCHED_FRAME_DONE CL_Info (sd_seq s) (phase_num (fr_phase fr)) s1)"
      by (rule frame_owns_step [OF own keeps_emit]) simp_all
    with e Returns show ?thesis by (simp add: run_frame_def Let_def frame_drop_owns)
  next
    case Panics
    have f: "frame_owns key ?s0 fr (publish_global_failure s1)"
      by (rule frame_owns_step [OF own keeps_failure]) simp_all
    obtain r3 fr3 s3 where o3: "call_original_once original fr (publish_global_failure s1) = (r3, fr3, s3)"
      by (metis prod_cases3)
    have "frame_owns key ?s0 fr3 s3"
      using frame_owns_step [OF f, of s3 fr3] o3 call_original_once_frame [of original fr "publish_global_failure s1"]
        call_original_once_keeps [where key = key and original = original and fr = fr
          and s = "publish_global_failure s1", OF orig] by simp
    with f e Panics o3 show ?thesis
      by (auto simp: run_frame_def Let_def intro!: keeps_trans [OF _ keeps_emit] frame_drop_owns)
  qed
  with s0 show ?thesis by (rule keeps_trans)
qed

section \<open>Nested frames\<close>

text \<open>
  A frame may be entered again while its driver or its original runs, on the same thread or on another.
  A script says which frames are entered where, and how the original ends.
\<close>

datatype 't frame_script =
  Frame_Script (fs_thread: 't) (fs_this: usize) (fs_method: usize) (fs_in_driver: "'t frame_script list")
    (fs_in_original: "'t frame_script list") (fs_original: "unit flow")

record 'a app_code =
  ac_completed :: "'a \<Rightarrow> bool"
  ac_startup :: "'a \<Rightarrow> unit flow \<times> 'a"
  ac_update :: "'a \<Rightarrow> unit flow \<times> 'a"

definition nested_drivers ::
  "'a app_code \<Rightarrow> (('a, 't, 'w) sched \<Rightarrow> ('a, 't, 'w) sched) \<Rightarrow> ('a, 't, 'w) drivers" where
  "nested_drivers c f = \<lparr> dr_startup_completed = ac_completed c,
     dr_run_startup = (\<lambda>a s. (fst (ac_startup c a), snd (ac_startup c a), f s)),
     dr_run_update = (\<lambda>a s. (fst (ac_update c a), snd (ac_update c a), f s)) \<rparr>"

primrec run_script ::
  "'a app_code \<Rightarrow> ('t \<Rightarrow> bool) \<Rightarrow> 't frame_script \<Rightarrow> ('a, 't, 'w) sched \<Rightarrow> ('a, 't, 'w) sched" where
  "run_script c mc (Frame_Script t this meth dn on_calls out) =
     run_frame (nested_drivers c (fold (\<lambda>f. f) (map (run_script c mc) dn))) mc t
       (\<lambda>x y s. (out, fold (\<lambda>f. f) (map (run_script c mc) on_calls) s)) this meth"

text \<open>What reaches the scheduler: the worker publishes, the game enters frames, a fault is published.\<close>

datatype ('a, 't) sched_event = SE_Publish 'a | SE_Frame "'t frame_script" | SE_Failure

fun run_sched_event ::
  "'a app_code \<Rightarrow> ('t \<Rightarrow> bool) \<Rightarrow> ('a, 't) sched_event \<Rightarrow> ('a, 't, 'w) sched
     \<Rightarrow> 'a list \<times> ('a, 't, 'w) sched" where
  "run_sched_event c mc (SE_Publish a) s =
     (case handoff_publish a (sd_handoff s) of
        (ok, h) \<Rightarrow> (if ok then [a] else [], s\<lparr> sd_handoff := h \<rparr>))"
| "run_sched_event c mc (SE_Frame f) s = ([], run_script c mc f s)"
| "run_sched_event c mc SE_Failure s = ([], publish_global_failure s)"

fun run_sched_events ::
  "'a app_code \<Rightarrow> ('t \<Rightarrow> bool) \<Rightarrow> ('a, 't) sched_event list \<Rightarrow> ('a, 't, 'w) sched
     \<Rightarrow> 'a list \<times> ('a, 't, 'w) sched" where
  "run_sched_events c mc [] s = ([], s)"
| "run_sched_events c mc (e # es) s =
     (case run_sched_event c mc e s of
        (taken, s1) \<Rightarrow> (case run_sched_events c mc es s1 of (rest, s2) \<Rightarrow> (taken @ rest, s2)))"

lemma keeps_fold:
  assumes "\<And>f s. f \<in> set fs \<Longrightarrow> keeps key s (run f s)"
  shows "keeps key s (fold (\<lambda>f. f) (map run fs) s)"
  using assms
proof (induction fs arbitrary: s)
  case Nil
  show ?case by (simp add: keeps_refl)
next
  case (Cons f fs)
  have "keeps key s (run f s)" by (rule Cons.prems) simp
  moreover have "keeps key (run f s) (fold (\<lambda>f. f) (map run fs) (run f s))"
    by (rule Cons.IH) (simp add: Cons.prems)
  ultimately show ?case by (auto intro: keeps_trans)
qed

lemma run_script_keeps:
  assumes key: "\<And>a. key (snd (ac_startup c a)) = key a" "\<And>a. key (snd (ac_update c a)) = key a"
  shows "keeps key (s :: ('a, 't :: finite, 'w) sched) (run_script c mc f s)"
proof (induction f arbitrary: s)
  case (Frame_Script t this meth dn on_calls out)
  have d: "keeps key s (fold (\<lambda>f. f) (map (run_script c mc) dn) s)" for s :: "('a, 't, 'w) sched"
    by (rule keeps_fold) (rule Frame_Script.IH(1))
  have o1: "keeps key s (fold (\<lambda>f. f) (map (run_script c mc) on_calls) s)" for s :: "('a, 't, 'w) sched"
    by (rule keeps_fold) (rule Frame_Script.IH(2))
  show ?case
    unfolding run_script.simps
    by (rule run_frame_keeps) (simp_all add: o1 d driver_keeps_def run_driver_def nested_drivers_def key)
qed

text \<open>
  C5: whatever the worker publishes, however the frames nest and whatever panics, every application
  that the hand-off took is afterwards in exactly one place: the hand-off, a thread's slot or the
  retention root. None is lost, none is owned twice.
\<close>

theorem app_ownership_conserved:
  assumes key: "\<forall>a. key (snd (ac_startup c a)) = key a \<and> key (snd (ac_update c a)) = key a"
  shows "image_mset key (held_apps (snd (run_sched_events c mc es (s :: ('a, 't :: finite, 'w) sched)))) =
    image_mset key (held_apps s) + mset (map key (fst (run_sched_events c mc es s)))"
proof (induction es arbitrary: s)
  case Nil
  show ?case by simp
next
  case (Cons e es)
  have "image_mset key (held_apps (snd (run_sched_event c mc e s))) =
      image_mset key (held_apps s) + mset (map key (fst (run_sched_event c mc e s)))"
  proof (cases e)
    case (SE_Publish a)
    then show ?thesis by (simp add: handoff_publish_def held_apps_def opt_app_def split: option.split)
  next
    case (SE_Frame f)
    with run_script_keeps [of key c s mc f] key show ?thesis by (simp add: keeps_def)
  next
    case SE_Failure
    then show ?thesis by simp
  qed
  with Cons.IH [of "snd (run_sched_event c mc e s)"] show ?case by (simp add: case_prod_beta ac_simps)
qed

definition counting_code :: "(nat \<times> bool) app_code" where
  "counting_code = \<lparr> ac_completed = snd, ac_startup = (\<lambda>a. (Returns (), (fst a, True))),
     ac_update = (\<lambda>a. (Panics, a)) \<rparr>"

theorem app_ownership_conserved_witness:
  "image_mset fst (held_apps (snd (run_sched_events counting_code (\<lambda>_. True)
     [SE_Publish (3, False), SE_Frame (Frame_Script False 1 2 [Frame_Script False 5 6 [] [] Panics] [] (Returns ())),
      SE_Frame (Frame_Script False 1 2 [] [] (Returns ()))]
     (sched_new () :: (nat \<times> bool, bool, unit) sched)))) = {#3#}"
proof -
  let ?es = "[SE_Publish (3, False),
      SE_Frame (Frame_Script False 1 2 [Frame_Script False 5 6 [] [] Panics] [] (Returns ())),
      SE_Frame (Frame_Script False 1 2 [] [] (Returns ()))] :: (nat \<times> bool, bool) sched_event list"
  have "\<forall>a. fst (snd (ac_startup counting_code a)) = fst a \<and> fst (snd (ac_update counting_code a)) = fst a"
    by (simp add: counting_code_def)
  from app_ownership_conserved [OF this, of "\<lambda>_. True" ?es "sched_new () :: (nat \<times> bool, bool, unit) sched"]
  have "image_mset fst (held_apps (snd (run_sched_events counting_code (\<lambda>_. True) ?es
        (sched_new () :: (nat \<times> bool, bool, unit) sched)))) =
      image_mset fst (held_apps (sched_new () :: (nat \<times> bool, bool, unit) sched)) +
      mset (map fst (fst (run_sched_events counting_code (\<lambda>_. True) ?es
        (sched_new () :: (nat \<times> bool, bool, unit) sched))))" .
  moreover have "fst (run_sched_events counting_code (\<lambda>_. True) ?es
      (sched_new () :: (nat \<times> bool, bool, unit) sched)) = [(3, False)]"
    by (simp add: sched_new_def handoff_publish_def handoff_empty_def mutex_new_def case_prod_beta)
  moreover have "held_apps (sched_new () :: (nat \<times> bool, bool, unit) sched) = {#}"
    by (simp add: held_apps_def sched_new_def handoff_empty_def mutex_new_def slot_apps_def)
  ultimately show ?thesis by simp
qed

section \<open>A global failure is final\<close>

text \<open>Once the failure is published, no driver runs, no thread is judged and the gate stays closed.\<close>

lemma commit_tls_failed [simp]: "sd_failed (commit_tls t a e s) = sd_failed s"
  by (simp add: commit_tls_def set_tls_def split: app_slot.split)

lemma claim_app_failed: "sd_failed s \<Longrightarrow> claim_app t fr s = (fr', s') \<Longrightarrow> sd_failed s'"
  by (auto simp: claim_app_def set_tls_def publish_global_failure_def emit_compact_def
      split: app_slot.splits prod.splits handoff_take.splits)

lemma call_original_once_cong:
  assumes "\<And>x y s. sd_failed s \<Longrightarrow> original x y s = original' x y s" and "sd_failed s"
  shows "call_original_once original fr s = call_original_once original' fr s"
  using assms(1) [of "emit_compact SCHED_ORIGINAL_CALLED CL_Info 0 0 s" "fr_this fr" "fr_method fr"] assms(2)
  by (simp add: call_original_once_def guard_first_call Let_def)

lemma failed_frame_blind:
  assumes orig: "\<And>x y s. sd_failed s \<Longrightarrow> original x y s = original' x y s" and "sd_failed s"
  shows "frame_execute D mc t original fr s = frame_execute D' mc' t original' fr s"
proof -
  obtain fr1 s1 where c: "claim_app t fr s = (fr1, s1)" by fastforce
  from claim_app_failed [OF assms(2) c] have f: "sd_failed s1" .
  have p: "passthrough_frame original fr s = passthrough_frame original' fr s" if "sd_failed s" for fr s
    using call_original_once_cong [where original = original and original' = original', OF orig that]
    by (simp add: passthrough_frame_def)
  show ?thesis using assms(2) c f by (simp add: frame_execute_def p split: option.split)
qed

lemma failed_run_frame_blind:
  assumes orig: "\<And>x y s. sd_failed s \<Longrightarrow> original x y s = original' x y s" and "sd_failed s"
  shows "run_frame D mc t original this meth s = run_frame D' mc' t original' this meth s"
proof -
  let ?s0 = "emit_compact SCHED_FRAME_ENTERED CL_Info (sd_seq s) 0 (s\<lparr> sd_seq := sd_seq s + 1 \<rparr>)"
  have "sd_failed ?s0" using assms(2) by simp
  from failed_frame_blind [where original = original and original' = original', OF orig this]
  have e: "frame_execute D mc t original (frame_new this meth) ?s0 =
      frame_execute D' mc' t original' (frame_new this meth) ?s0" by simp
  have c: "call_original_once original fr (publish_global_failure s1) =
      call_original_once original' fr (publish_global_failure s1)" for fr s1
    by (rule call_original_once_cong [where original = original and original' = original', OF orig]) simp_all
  show ?thesis by (simp add: run_frame_def Let_def e c split: prod.split flow.split)
qed

lemma run_script_failed:
  "sd_failed (s :: ('a, 't :: finite, 'w) sched) \<Longrightarrow> sd_failed (run_script c mc f s)"
  using run_script_keeps [where key = "\<lambda>_. ()" and c = c and s = s and mc = mc and f = f]
  by (simp add: keeps_def monotone_step_def)

lemma failed_fold:
  assumes "\<And>f s. f \<in> set fs \<Longrightarrow> sd_failed s \<Longrightarrow> run f s = run' f s \<and> sd_failed (run f s)" and "sd_failed s"
  shows "fold (\<lambda>f. f) (map run fs) s = fold (\<lambda>f. f) (map run' fs) s"
  using assms by (induction fs arbitrary: s) force+

lemma failed_script_blind:
  "sd_failed (s :: ('a, 't :: finite, 'w) sched) \<Longrightarrow> run_script c mc f s = run_script c' mc' f s"
proof (induction f arbitrary: s)
  case (Frame_Script t this meth dn on_calls out)
  have "fold (\<lambda>f. f) (map (run_script c mc) on_calls) s = fold (\<lambda>f. f) (map (run_script c' mc') on_calls) s"
    if "sd_failed s" for s :: "('a, 't, 'w) sched"
    by (rule failed_fold [OF _ that]) (simp add: Frame_Script.IH(2) run_script_failed)
  with Frame_Script.prems show ?case
    unfolding run_script.simps by (intro failed_run_frame_blind) simp_all
qed

text \<open>
  C12: a global failure is final. Whatever is published and whatever frames arrive afterwards, the
  failure stays, the runtime gate stays closed, and the outcome does not depend on the application's
  code or on the thread predicate: no driver of any application runs again.
\<close>

theorem global_failure_final:
  fixes s :: "('a, 't :: finite, 'w) sched"
  assumes "sd_failed s" and "gate_inv s"
  shows "run_sched_events c mc es s = run_sched_events c' mc' es s \<and>
    sd_failed (snd (run_sched_events c mc es s)) \<and>
    gate_is_closed (sd_gate (snd (run_sched_events c mc es s)))"
  using assms
proof (induction es arbitrary: s)
  case Nil
  then show ?case by (simp add: gate_inv_def)
next
  case (Cons e es)
  have "run_sched_event c mc e s = run_sched_event c' mc' e s"
    using failed_script_blind [OF Cons.prems(1)] by (cases e) auto
  moreover have "sd_failed (snd (run_sched_event c mc e s)) \<and> gate_inv (snd (run_sched_event c mc e s))"
  proof (cases e)
    case (SE_Publish a)
    with Cons.prems show ?thesis by (simp add: case_prod_beta)
  next
    case (SE_Frame f)
    with Cons.prems run_script_keeps [where key = "\<lambda>_. ()" and c = c and s = s and mc = mc and f = f]
    show ?thesis by (simp add: keeps_def monotone_step_def)
  next
    case SE_Failure
    then show ?thesis by (simp add: gate_inv_failure)
  qed
  ultimately show ?case using Cons.IH [of "snd (run_sched_event c mc e s)"] by (auto simp: case_prod_beta)
qed

theorem global_failure_final_witness:
  "run_sched_events counting_code (\<lambda>_. True) [SE_Publish (3, False), SE_Frame (Frame_Script False 1 2 [] [] Panics)]
     (publish_global_failure (sched_new () :: (nat \<times> bool, bool, unit) sched)) =
   run_sched_events (counting_code\<lparr> ac_startup := \<lambda>a. (Panics, a) \<rparr>) (\<lambda>_. False)
     [SE_Publish (3, False), SE_Frame (Frame_Script False 1 2 [] [] Panics)]
     (publish_global_failure (sched_new () :: (nat \<times> bool, bool, unit) sched))"
proof -
  have "sd_failed (publish_global_failure (sched_new () :: (nat \<times> bool, bool, unit) sched))" by simp
  from global_failure_final [OF this gate_inv_failure] show ?thesis by blast
qed

section \<open>The application under the scheduler\<close>

text \<open>The drivers of the plugin application, as \<open>execute\<close> calls them.\<close>

definition app_drivers :: "('g \<Rightarrow> 'g) \<Rightarrow> (('g, 'j, 'p) app, 't, 'w) drivers" where
  "app_drivers maintenance = \<lparr> dr_startup_completed = app_startup_completed,
     dr_run_startup = (\<lambda>a s. (Returns (), snd (run_startup (sd_gate s) a), s)),
     dr_run_update = (\<lambda>a s. (Returns (), snd (run_update maintenance (sd_gate s) a), s)) \<rparr>"

lemma startup_completed_update:
  fixes app :: "('w, 'j, 'p) app"
  shows "app_startup_completed (snd (run_update mt rg app)) = app_startup_completed app"
proof -
  have one: "app_startup_completed (fst (update_owner i (app, rep))) = app_startup_completed app"
    for i rep and app :: "('w, 'j, 'p) app"
    by (simp add: update_owner_def update_retire_frame split: option.split prod.split)
  have "app_startup_completed (fst (fold update_owner ids (app, rep))) = app_startup_completed app"
    for ids rep and app :: "('w, 'j, 'p) app"
  proof (induction ids arbitrary: app rep)
    case (Cons i ids)
    obtain app1 rep1 where "update_owner i (app, rep) = (app1, rep1)" by fastforce
    with one [of i app rep] Cons show ?case by simp
  qed simp
  then show ?thesis by (simp add: run_update_def Let_def case_prod_beta)
qed

lemma startup_completed_startup: "app_startup_completed (snd (run_startup rg app))"
  by (simp add: run_startup_def case_prod_beta)

text \<open>A frame in which the claimed application's driver and the original return.\<close>

lemma run_frame_done:
  assumes "\<not> sd_failed s" "mc t"
    and claim: "claim_app t (frame_new this meth) (emit_compact SCHED_FRAME_ENTERED CL_Info (sd_seq s) 0
      (s\<lparr> sd_seq := sd_seq s + 1 \<rparr>)) = (fr1, s1)" "fr_app fr1 = Some a" "sd_tls s1 t = Busy"
    and drv: "run_driver D a s1 = (Returns (), a', s1)"
    and orig: "\<And>x y s. original x y s = (Returns (), s\<lparr> sd_world := g x y (sd_world s) \<rparr>)"
    and ok: "\<not> sd_failed s1"
  shows "sd_tls (run_frame D mc t original this meth s) t = Running a' \<and>
    sd_gate (run_frame D mc t original this meth s) = sd_gate (after_driver D a s1) \<and>
    \<not> sd_failed (run_frame D mc t original this meth s)"
proof -
  have f: "sd_failed (after_driver D a s1) = sd_failed s1" "sd_tls (after_driver D a s1) = sd_tls s1"
    by (simp_all add: after_driver_def)
  have ex: "frame_execute D mc t original (frame_new this meth) (emit_compact SCHED_FRAME_ENTERED CL_Info
      (sd_seq s) 0 (s\<lparr> sd_seq := sd_seq s + 1 \<rparr>)) =
    (case call_original_once original (fr1\<lparr> fr_app := Some a' \<rparr>) (after_driver D a s1) of
       (Panics, fr4, s4) \<Rightarrow> (Panics, fr4, s4)
     | (Returns _, fr4, s4) \<Rightarrow> (Returns (), fr4\<lparr> fr_app := None, fr_tls_committed := True \<rparr>,
         (case fr_app fr4 of Some a4 \<Rightarrow> commit_tls t a4 (sd_failed s4) s4 | None \<Rightarrow> s4)))"
    using assms(1,2) claim drv unfolding frame_execute_def run_driver_def after_driver_def
    by (simp add: Let_def split: prod.split flow.split)
  show ?thesis
    unfolding run_frame_def Let_def ex
    by (simp add: call_original_once_def guard_first_call Let_def orig commit_tls_def f ok claim(3) set_tls_def
        frame_drop_def emit_compact_def)
qed

lemma run_frame_first:
  assumes "\<not> sd_failed s" "mc t" and tls: "sd_tls s t = AwaitingHandoff"
    and hand: "handoff_try_take (sd_handoff s) = (Ready app, h)" and "\<not> app_startup_completed app"
    and orig: "\<And>x y s. original x y s = (Returns (), s\<lparr> sd_world := g x y (sd_world s) \<rparr>)"
  shows "sd_tls (run_frame (app_drivers mt) mc t original this meth s) t =
      Running (snd (run_startup (sd_gate s) app)) \<and>
    sd_gate (run_frame (app_drivers mt) mc t original this meth s) = snd (gate_open (sd_gate s)) \<and>
    \<not> sd_failed (run_frame (app_drivers mt) mc t original this meth s)"
proof -
  let ?s0 = "emit_compact SCHED_FRAME_ENTERED CL_Info (sd_seq s) 0 (s\<lparr> sd_seq := sd_seq s + 1 \<rparr>)"
  let ?s1 = "set_tls t Busy (?s0\<lparr> sd_handoff := h \<rparr>)"
  have "claim_app t (frame_new this meth) ?s0 = ((frame_new this meth)\<lparr> fr_app := Some app \<rparr>, ?s1)"
    using tls hand by (simp add: claim_app_def emit_compact_def)
  moreover have "sd_gate ?s1 = sd_gate s" by (simp add: set_tls_def emit_compact_def)
  moreover have "run_driver (app_drivers mt) app ?s1 = (Returns (), snd (run_startup (sd_gate s) app), ?s1)"
    using assms(5) calculation(2) by (simp add: run_driver_def app_drivers_def)
  moreover have "sd_gate (after_driver (app_drivers mt) app ?s1) = snd (gate_open (sd_gate s))"
    using assms(5) calculation(2) by (simp add: after_driver_def app_drivers_def)
  ultimately show ?thesis
    using run_frame_done [where D = "app_drivers mt" and g = g and s = s and mc = mc and t = t and a = app
        and ?s1.0 = ?s1, OF assms(1,2) _ _ _ _ orig] assms(1) by simp
qed

lemma run_frame_next:
  assumes "\<not> sd_failed s" "mc t" and tls: "sd_tls s t = Running app" and "app_startup_completed app"
    and orig: "\<And>x y s. original x y s = (Returns (), s\<lparr> sd_world := g x y (sd_world s) \<rparr>)"
  shows "sd_tls (run_frame (app_drivers mt) mc t original this meth s) t =
      Running (snd (run_update mt (sd_gate s) app)) \<and>
    sd_gate (run_frame (app_drivers mt) mc t original this meth s) = sd_gate s \<and>
    \<not> sd_failed (run_frame (app_drivers mt) mc t original this meth s)"
proof -
  let ?s0 = "emit_compact SCHED_FRAME_ENTERED CL_Info (sd_seq s) 0 (s\<lparr> sd_seq := sd_seq s + 1 \<rparr>)"
  let ?s1 = "set_tls t Busy ?s0"
  have "claim_app t (frame_new this meth) ?s0 = ((frame_new this meth)\<lparr> fr_app := Some app \<rparr>, ?s1)"
    using tls by (simp add: claim_app_def emit_compact_def)
  moreover have "sd_gate ?s1 = sd_gate s" by (simp add: set_tls_def emit_compact_def)
  moreover have "run_driver (app_drivers mt) app ?s1 = (Returns (), snd (run_update mt (sd_gate s) app), ?s1)"
    using assms(4) calculation(2) by (simp add: run_driver_def app_drivers_def)
  moreover have "sd_gate (after_driver (app_drivers mt) app ?s1) = sd_gate s"
    using assms(4) calculation(2) by (simp add: after_driver_def app_drivers_def)
  ultimately show ?thesis
    using run_frame_done [where D = "app_drivers mt" and g = g and s = s and mc = mc and t = t and a = app
        and ?s1.0 = ?s1, OF assms(1,2) _ _ _ _ orig] assms(1) by simp
qed

definition frames ::
  "('g \<Rightarrow> 'g) \<Rightarrow> ('t \<Rightarrow> bool) \<Rightarrow> 't \<Rightarrow> (('g, 'j, 'p) app, 't, 'w) late_update \<Rightarrow> (usize \<times> usize) list
     \<Rightarrow> (('g, 'j, 'p) app, 't, 'w) sched \<Rightarrow> (('g, 'j, 'p) app, 't, 'w) sched" where
  "frames mt mc t original calls s =
     fold (\<lambda>(this, meth). run_frame (app_drivers mt) mc t original this meth) calls s"

lemma frames_later:
  assumes "\<not> sd_failed s" "mc t" "sd_tls s t = Running app" "app_startup_completed app"
    and orig: "\<And>x y s. original x y s = (Returns (), s\<lparr> sd_world := g x y (sd_world s) \<rparr>)"
  shows "sd_tls (frames mt mc t original calls s) t =
      Running (((\<lambda>a. snd (run_update mt (sd_gate s) a)) ^^ length calls) app) \<and>
    sd_gate (frames mt mc t original calls s) = sd_gate s"
  using assms(1,3,4)
proof (induction calls arbitrary: s app)
  case Nil
  then show ?case by (simp add: frames_def)
next
  case (Cons c calls)
  obtain this meth where c: "c = (this, meth)" by fastforce
  let ?s = "run_frame (app_drivers mt) mc t original this meth s"
  note n = run_frame_next [where g = g and mt = mt and s = s and mc = mc and t = t and app = app and original = original and this = this and meth = meth,
      OF Cons.prems(1) assms(2) Cons.prems(2,3) orig]
  have "\<not> sd_failed ?s" "sd_tls ?s t = Running (snd (run_update mt (sd_gate s) app))"
    "app_startup_completed (snd (run_update mt (sd_gate s) app))"
    using n Cons.prems(3) by (simp_all add: startup_completed_update)
  from Cons.IH [OF this] n show ?case
    by (simp add: frames_def c funpow_swap1 [of "\<lambda>a. snd (run_update mt (sd_gate s) a)"])
qed

text \<open>
  C11: the application the worker handed off is started by the first frame of the main thread, with the
  runtime gate still closed; that frame opens the gate afterwards; every later frame updates the
  application exactly once, and between frames it rests, running, in the thread's slot.
\<close>

theorem frames_drive_app:
  assumes "\<not> sd_failed s" "mc t" "sd_tls s t = AwaitingHandoff" "sd_gate s = gate_new"
    and "handoff_try_take (sd_handoff s) = (Ready app, h)" "\<not> app_startup_completed app"
    and orig: "\<forall>x y s. original x y s = (Returns (), s\<lparr> sd_world := g x y (sd_world s) \<rparr>)"
  shows "sd_tls (frames mt mc t original (call # calls) s) t =
      Running (((\<lambda>a. snd (run_update mt (snd (gate_open gate_new)) a)) ^^ length calls)
        (snd (run_startup gate_new app))) \<and>
    gate_is_open (sd_gate (frames mt mc t original (call # calls) s))"
proof -
  obtain this meth where c: "call = (this, meth)" by fastforce
  let ?s = "run_frame (app_drivers mt) mc t original this meth s"
  note f = run_frame_first [where g = g and mt = mt and s = s and mc = mc and t = t and app = app and h = h and original = original and this = this and meth = meth,
      OF assms(1-3) assms(5,6) orig [rule_format]]
  have "\<not> sd_failed ?s" "sd_tls ?s t = Running (snd (run_startup gate_new app))"
    "app_startup_completed (snd (run_startup gate_new app))"
    using f assms(4) by (simp_all add: startup_completed_startup)
  from frames_later [where g = g and mt = mt and calls = calls and s = ?s and mc = mc and t = t
      and original = original, OF this(1) assms(2) this(2,3) orig [rule_format]] f assms(4)
  show ?thesis by (simp add: frames_def c gate_simps)
qed

theorem frames_drive_app_witness:
  "\<exists>app'. sd_tls (frames id (\<lambda>_. True) () (\<lambda>x y s. (Returns (), s)) [(1, 2), (3, 4)]
     ((sched_new () :: ((nat, unit, unit) app, unit, unit) sched)
       \<lparr> sd_handoff := snd (handoff_publish (app_new 0 default_config (DataRoot [])) handoff_empty) \<rparr>)) ()
     = Running app'"
proof -
  let ?s = "(sched_new () :: ((nat, unit, unit) app, unit, unit) sched)
    \<lparr> sd_handoff := snd (handoff_publish (app_new 0 default_config (DataRoot [])) handoff_empty) \<rparr>"
  have "\<not> sd_failed ?s" "(\<lambda>_. True) ()" "sd_tls ?s () = AwaitingHandoff" "sd_gate ?s = gate_new"
    and t: "handoff_try_take (sd_handoff ?s) = (Ready (app_new 0 default_config (DataRoot [])), handoff_empty)"
    and "\<not> app_startup_completed (app_new (0 :: nat) default_config (DataRoot []) :: (nat, unit, unit) app)"
    and "\<forall>(x :: usize) (y :: usize) (s :: ((nat, unit, unit) app, unit, unit) sched).
      (Returns (), s) = (Returns (), s\<lparr> sd_world := sd_world s \<rparr>)"
    by (simp_all add: sched_new_def handoff_publish_def handoff_empty_def mutex_new_def
        handoff_try_take_def app_new_def)
  from frames_drive_app [where g = "\<lambda>_ _ w. w", OF this, of id "(1, 2)" "[(3, 4)]"] show ?thesis by blast
qed

section \<open>The hand-off slot\<close>

text \<open>
  The hand-off is a slot of one, not a one-shot: a publish is refused while an application waits
  in it, but once a frame has taken that application a further publish is accepted, although the
  slot is documented to allow one hand-off in a process.
\<close>

theorem handoff_accepts_again:
  assumes "\<not> mx_held h" "\<not> mx_poisoned h" "mx_val h = None"
  shows "fst (handoff_publish a h) \<and> \<not> fst (handoff_publish b (snd (handoff_publish a h))) \<and>
    fst (handoff_try_take (snd (handoff_publish a h))) = Ready a \<and>
    fst (handoff_publish b (snd (handoff_try_take (snd (handoff_publish a h)))))"
  using assms by (simp add: handoff_publish_def handoff_try_take_def)

theorem handoff_accepts_again_witness:
  "fst (handoff_publish (2 :: nat) (snd (handoff_try_take (snd (handoff_publish 1 handoff_empty)))))"
  using handoff_accepts_again [of "handoff_empty :: nat handoff" 1 2]
  by (simp add: handoff_empty_def mutex_new_def)

end
