(* ===== verification/Backend.thy ===== *)
theory Backend
  imports Entry_Patch
begin

text \<open>
  The production IL2CPP backend: the exact image handle and the bridge of
  \<open>crates/core/src/il2cpp_bridge.rs\<close>, the attach guard and the traits of \<open>backend.rs\<close>, the
  introspection reads of \<open>il2cpp_recon.rs\<close> and the callback string view of \<open>callback_il2cpp.rs\<close>.

  The dynamic loader and the bridge crate are the records \<open>dyn_loader\<close> and \<open>bridge\<close>; \<open>'w\<close> is the
  process they act on.  A path is a string; a null pointer is 0.
\<close>

section \<open>The dynamic loader\<close>

record 'w dyn_loader =
  dl_images :: "'w \<Rightarrow> string option list"
  dl_open :: "bool \<Rightarrow> string \<Rightarrow> 'w \<Rightarrow> usize \<times> 'w"
  dl_sym :: "usize \<Rightarrow> string \<Rightarrow> 'w \<Rightarrow> usize"
  dl_addr :: "usize \<Rightarrow> 'w \<Rightarrow> string option"

text \<open>\<open>std::path\<close>: the components of a path, and the equality of paths, which is by components.\<close>

fun split_on :: "char \<Rightarrow> string \<Rightarrow> string list" where
  "split_on c [] = [[]]"
| "split_on c (x # xs) =
     (if x = c then [] # split_on c xs
      else (case split_on c xs of [] \<Rightarrow> [[x]] | y # ys \<Rightarrow> (x # y) # ys))"

definition path_absolute :: "string \<Rightarrow> bool" where
  "path_absolute p = (case p of [] \<Rightarrow> False | c # _ \<Rightarrow> c = CHR ''/'')"

definition path_normals :: "string \<Rightarrow> string list" where
  "path_normals p = filter (\<lambda>s. s \<noteq> [] \<and> s \<noteq> ''.'') (split_on CHR ''/'' p)"

definition path_eq :: "string \<Rightarrow> string \<Rightarrow> bool" where
  "path_eq a b = (path_absolute a = path_absolute b \<and> path_normals a = path_normals b \<and>
     (hd (split_on CHR ''/'' a) = ''.'') = (hd (split_on CHR ''/'' b) = ''.''))"

definition path_file_name :: "string \<Rightarrow> string option" where
  "path_file_name p =
     (case rev (path_normals p) of [] \<Rightarrow> None | s # _ \<Rightarrow> if s = ''..'' then None else Some s)"

text \<open>\<open>CString::new\<close> refuses an interior NUL.\<close>

definition cstring_new :: "string \<Rightarrow> string option" where
  "cstring_new s = (if CHR 0x00 \<in> set s then None else Some s)"

fun enumerate_images :: "string option list \<Rightarrow> string option" where
  "enumerate_images [] = None"
| "enumerate_images (name # rest) =
     (case name of
        None \<Rightarrow> enumerate_images rest
      | Some path \<Rightarrow>
          if path_file_name path = Some ''UnityFramework'' then Some path else enumerate_images rest)"

definition enumerate_unity_framework :: "'w dyn_loader \<Rightarrow> 'w \<Rightarrow> string option" where
  "enumerate_unity_framework L w = enumerate_images (dl_images L w)"

section \<open>The exact handle\<close>

record exact_handle =
  eh_raw :: usize
  eh_path :: string

record image_identity =
  ii_name :: string
  ii_handle :: usize

text \<open>The already-loaded image is adopted, else it is loaded.\<close>

definition handle_open ::
  "'w dyn_loader \<Rightarrow> string \<Rightarrow> 'w \<Rightarrow> (il2cpp_error, exact_handle) result \<times> 'w" where
  "handle_open L path w =
     (case cstring_new path of
        None \<Rightarrow> (Inl ImageIdentityMismatch, w)
      | Some c_path \<Rightarrow>
          (case dl_open L True c_path w of
             (raw, w1) \<Rightarrow>
               (case (if raw = 0 then dl_open L False c_path w1 else (raw, w1)) of
                  (raw', w2) \<Rightarrow>
                    if raw' = 0 then (Inl ImageNotFound, w2)
                    else (Inr \<lparr> eh_raw = raw', eh_path = path \<rparr>, w2))))"

definition handle_identity :: "exact_handle \<Rightarrow> image_identity" where
  "handle_identity h = \<lparr> ii_name = (case path_file_name (eh_path h) of None \<Rightarrow> [] | Some n \<Rightarrow> n),
     ii_handle = eh_raw h \<rparr>"

definition image_owner :: "'w dyn_loader \<Rightarrow> usize \<Rightarrow> 'w \<Rightarrow> string option" where
  "image_owner L address w = dl_addr L address w"

definition handle_symbol :: "'w dyn_loader \<Rightarrow> exact_handle \<Rightarrow> string \<Rightarrow> 'w \<Rightarrow> usize option" where
  "handle_symbol L h name w =
     (case cstring_new name of
        None \<Rightarrow> None
      | Some c_name \<Rightarrow>
          (let address = dl_sym L (eh_raw h) c_name w in
           if address = 0 then None
           else
             (case image_owner L address w of
                None \<Rightarrow> None
              | Some owner \<Rightarrow> if path_eq owner (eh_path h) then Some address else None)))"

section \<open>The attach guard\<close>

text \<open>The detach action still to run; running it on drop is \<open>guard_drop\<close>.\<close>

type_synonym 'w attach_guard = "('w \<Rightarrow> 'w) option"

definition attach_guard_new :: "('w \<Rightarrow> 'w) \<Rightarrow> 'w attach_guard" where
  "attach_guard_new detach = Some detach"

definition attach_guard_leak :: "'w attach_guard \<Rightarrow> 'w attach_guard" where
  "attach_guard_leak g = None"

definition attach_guard_drop :: "'w attach_guard \<Rightarrow> 'w \<Rightarrow> 'w" where
  "attach_guard_drop g w = (case g of None \<Rightarrow> w | Some detach \<Rightarrow> detach w)"

section \<open>The bridge crate\<close>

record type_info =
  ti_name :: string
  ti_cpp_name :: string

record cached_method =
  cm_name :: string
  cm_args :: "type_info list"
  cm_return :: type_info
  cm_param_count :: u8
  cm_is_static :: bool
  cm_is_instance :: bool
  cm_is_generic :: bool
  cm_is_inflated :: bool
  cm_address :: usize
  cm_va :: u64

record cached_field =
  cf_name :: string
  cf_type :: type_info
  cf_is_static :: bool
  cf_offset :: i32

record cached_class =
  cc_name :: string
  cc_namespace :: string
  cc_assembly :: string
  cc_address :: usize
  cc_static_data :: usize
  cc_methods :: "cached_method list"
  cc_fields :: "cached_field list"

record cached_assembly =
  ca_name :: string
  ca_file :: string

text \<open>\<open>br_class\<close> takes the full name, \<open>br_method\<close> the name and the number of arguments.\<close>

record 'w bridge =
  br_load :: "(string \<Rightarrow> usize) \<Rightarrow> 'w \<Rightarrow> (string list, unit) result \<times> 'w"
  br_domain_get :: "'w \<Rightarrow> usize \<times> 'w"
  br_thread_current :: "'w \<Rightarrow> usize"
  br_thread_attach :: "usize \<Rightarrow> 'w \<Rightarrow> usize \<times> 'w"
  br_thread_detach :: "usize \<Rightarrow> 'w \<Rightarrow> 'w"
  br_cache_init :: "'w \<Rightarrow> bool \<times> 'w"
  br_assembly :: "string \<Rightarrow> 'w \<Rightarrow> cached_assembly option"
  br_class :: "cached_assembly \<Rightarrow> string \<Rightarrow> 'w \<Rightarrow> cached_class option"
  br_method :: "cached_class \<Rightarrow> string \<times> nat \<Rightarrow> cached_method option"
  br_image_base :: "string \<Rightarrow> 'w \<Rightarrow> usize option"
  br_string_length :: "usize \<Rightarrow> 'w \<Rightarrow> i32"
  br_string_chars :: "usize \<Rightarrow> 'w \<Rightarrow> usize"

text \<open>The lookup by name and number of arguments gives one of the class's methods that has them.\<close>

definition bridge_laws :: "'w bridge \<Rightarrow> bool" where
  "bridge_laws B \<longleftrightarrow>
     (\<forall>c n k. br_method B c (n, k) =
        find_first (\<lambda>m. cm_name m = n \<and> length (cm_args m) = k) (cc_methods c))"

section \<open>The backend\<close>

record runtime_identity =
  ri_unity_version :: string
  ri_il2cpp_variant :: string

record backend =
  be_handle :: exact_handle
  be_domain :: usize

definition backend_new :: "exact_handle \<Rightarrow> backend" where
  "backend_new h = \<lparr> be_handle = h, be_domain = 0 \<rparr>"

definition backend_domain :: "backend \<Rightarrow> usize option" where
  "backend_domain b = (if be_domain b \<noteq> 0 then Some (be_domain b) else None)"

text \<open>The trait \<open>Il2CppApi\<close>, over a state \<open>'s\<close>.\<close>

record 's il2cpp_api =
  api_image :: "'s \<Rightarrow> (il2cpp_error, image_identity) result \<times> 's"
  api_load_exports :: "'s \<Rightarrow> (il2cpp_error, unit) result \<times> 's"
  api_domain_get :: "'s \<Rightarrow> (il2cpp_error, usize) result \<times> 's"
  api_attach :: "'s \<Rightarrow> (il2cpp_error, 's attach_guard) result \<times> 's"
  api_hydrate :: "'s \<Rightarrow> (il2cpp_error, unit) result \<times> 's"
  api_identity :: "'s \<Rightarrow> (il2cpp_error, runtime_identity) result \<times> 's"

definition unity_framework_image ::
  "backend \<times> 'w \<Rightarrow> (il2cpp_error, image_identity) result \<times> backend \<times> 'w" where
  "unity_framework_image s = (Inr (handle_identity (be_handle (fst s))), s)"

definition load_exports ::
  "'w dyn_loader \<Rightarrow> 'w bridge \<Rightarrow> backend \<times> 'w \<Rightarrow> (il2cpp_error, unit) result \<times> backend \<times> 'w" where
  "load_exports L B s =
     (case s of (b, w) \<Rightarrow>
        (case br_load B (\<lambda>name. case handle_symbol L (be_handle b) name w of None \<Rightarrow> 0 | Some a \<Rightarrow> a) w of
           (Inr _, w') \<Rightarrow> (Inr (), b, w')
         | (Inl missing, w') \<Rightarrow>
             (Inl (case missing of [] \<Rightarrow> NotReady | name # _ \<Rightarrow> ExportMissing name), b, w')))"

definition domain_get ::
  "'w bridge \<Rightarrow> backend \<times> 'w \<Rightarrow> (il2cpp_error, usize) result \<times> backend \<times> 'w" where
  "domain_get B s =
     (case s of (b, w) \<Rightarrow>
        (case backend_domain b of
           Some d \<Rightarrow> (Inr d, b, w)
         | None \<Rightarrow>
             (case br_domain_get B w of
                (d, w') \<Rightarrow>
                  if d = 0 then (Inl DomainUnavailable, b, w')
                  else (Inr d, b\<lparr> be_domain := d \<rparr>, w'))))"

definition attach_current_thread ::
  "'w bridge \<Rightarrow> backend \<times> 'w \<Rightarrow> (il2cpp_error, (backend \<times> 'w) attach_guard) result \<times> backend \<times> 'w" where
  "attach_current_thread B s =
     (case s of (b, w) \<Rightarrow>
        (case backend_domain b of
           None \<Rightarrow> (Inl NotReady, b, w)
         | Some domain \<Rightarrow>
             if br_thread_current B w \<noteq> 0 then (Inr (attach_guard_new (\<lambda>s. s)), b, w)
             else
               (case br_thread_attach B domain w of
                  (thread, w') \<Rightarrow>
                    if thread = 0 then (Inl AttachFailed, b, w')
                    else (Inr (attach_guard_new (\<lambda>(b, w). (b, br_thread_detach B thread w))), b, w'))))"

definition hydrate_metadata ::
  "'w bridge \<Rightarrow> backend \<times> 'w \<Rightarrow> (il2cpp_error, unit) result \<times> backend \<times> 'w" where
  "hydrate_metadata B s =
     (case s of (b, w) \<Rightarrow>
        (case br_cache_init B w of (ok, w') \<Rightarrow> (if ok then Inr () else Inl NotReady, b, w')))"

definition runtime_identity_of ::
  "'w bridge \<Rightarrow> backend \<times> 'w \<Rightarrow> (il2cpp_error, runtime_identity) result \<times> backend \<times> 'w" where
  "runtime_identity_of B s =
     (case br_assembly B ''mscorlib'' (snd s) of
        None \<Rightarrow> (Inl IdentityMismatch, s)
      | Some corlib \<Rightarrow>
          (Inr \<lparr> ri_unity_version = ca_name corlib, ri_il2cpp_variant = ''il2cpp-bridge-rs/0.1.4'' \<rparr>, s))"

definition bridge_api :: "'w dyn_loader \<Rightarrow> 'w bridge \<Rightarrow> (backend \<times> 'w) il2cpp_api" where
  "bridge_api L B = \<lparr> api_image = unity_framework_image, api_load_exports = load_exports L B,
     api_domain_get = domain_get B, api_attach = attach_current_thread B,
     api_hydrate = hydrate_metadata B, api_identity = runtime_identity_of B \<rparr>"

section \<open>The method resolver\<close>

definition METHOD_POINTER_OFFSET :: usize where "METHOD_POINTER_OFFSET = 0"

definition resolve_target :: "'w bridge \<Rightarrow> target_id \<Rightarrow> 'w \<Rightarrow> (hook_error, method_ref) result" where
  "resolve_target B t w =
     bind_result (ok_or TargetUnavailable (br_assembly B (t_assembly t) w)) (\<lambda>assembly.
     bind_result (ok_or TargetUnavailable
       (br_class B assembly (t_namespace t @ ''.'' @ t_class t) w)) (\<lambda>class.
       if length (filter (\<lambda>m. cm_name m = t_method t \<and> length (cm_args m) = unat (t_param_count t))
           (cc_methods class)) \<noteq> 1 then Inl SignatureMismatch
       else bind_result (ok_or SignatureMismatch
         (br_method B class (t_method t, unat (t_param_count t)))) (\<lambda>m.
         if cm_address m = 0 then Inl TargetUnavailable
         else if cm_is_static m = cm_is_instance m then Inl SignatureMismatch
         else Inr \<lparr> m_assembly = ca_file assembly, m_namespace = cc_namespace class,
           m_class = cc_name class, m_method = cm_name m, m_param_count = ucast (cm_param_count m),
           m_is_static = cm_is_static m, m_return_type = ti_cpp_name (cm_return m),
           m_parameter_types = map ti_cpp_name (cm_args m), m_is_generic = cm_is_generic m,
           m_is_inflated = cm_is_inflated m, m_method_info = cm_address m,
           m_method_pointer_slot = cm_address m + METHOD_POINTER_OFFSET \<rparr>)))"

text \<open>\<open>None\<close> is the panic of \<open>RawSlotMemory::from_addr\<close>; the handle is the slot's address.\<close>

definition resolver_slot_memory :: "method_ref \<Rightarrow> usize option" where
  "resolver_slot_memory m = raw_from_addr (m_method_pointer_slot m)"

definition resolver_entry_patch_memory ::
  "os \<Rightarrow> bool \<Rightarrow> method_ref \<Rightarrow> usize \<Rightarrow> process \<Rightarrow> (hook_error, entry_patch_memory) result \<times> process" where
  "resolver_entry_patch_memory os aarch64 m replacement p =
     (if aarch64 then entry_patch_new os m replacement p
      else (Inl (EntryPatchUnsupported ''entry patches are only implemented for aarch64''), p))"

section \<open>Introspection\<close>

text \<open>Volatile loads of the process memory, little-endian.\<close>

definition load_u16 :: "(usize \<Rightarrow> u8) \<Rightarrow> usize \<Rightarrow> u16" where
  "load_u16 m a = ucast (u64_from_le (read_bytes m a 2))"

definition load_i32 :: "(usize \<Rightarrow> u8) \<Rightarrow> usize \<Rightarrow> i32" where
  "load_i32 m a = ucast (u64_from_le (read_bytes m a 4))"

definition load_u64 :: "(usize \<Rightarrow> u8) \<Rightarrow> usize \<Rightarrow> u64" where
  "load_u64 m a = u64_from_le (read_bytes m a 8)"

record method_surface =
  ms_name :: string
  ms_param_count :: u32
  ms_param_types :: "string list"
  ms_return_type :: string
  ms_is_static :: bool
  ms_va :: u64
  ms_rva :: u64

record field_surface =
  fs_name :: string
  fs_type_name :: string
  fs_is_static :: bool
  fs_offset :: i32

record static_value =
  sv_name :: string
  sv_raw :: u64

record class_surface =
  cs_assembly :: string
  cs_full_name :: string
  cs_class_address :: usize
  cs_static_field_data :: usize
  cs_image_base :: usize
  cs_methods :: "method_surface list"
  cs_fields :: "field_surface list"
  cs_statics :: "static_value list"

definition image_base :: "'w bridge \<Rightarrow> 'w \<Rightarrow> usize option" where
  "image_base B w = br_image_base B ''UnityFramework'' w"

definition saturating_sub :: "u64 \<Rightarrow> u64 \<Rightarrow> u64" where
  "saturating_sub a b = (if b \<le> a then a - b else 0)"

definition read_statics :: "(usize \<Rightarrow> u8) \<Rightarrow> usize \<Rightarrow> cached_field list \<Rightarrow> static_value list" where
  "read_statics m static_data members =
     (if static_data = 0 then []
      else map (\<lambda>f. \<lparr> sv_name = cf_name f, sv_raw = load_u64 m (static_data + scast (cf_offset f)) \<rparr>)
        (filter (\<lambda>f. cf_is_static f \<and> 0 \<le> sint (cf_offset f)) members))"

definition cached_class_of ::
  "'w bridge \<Rightarrow> string \<Rightarrow> string \<Rightarrow> 'w \<Rightarrow> (il2cpp_error, cached_class) result" where
  "cached_class_of B assembly class_full_name w =
     bind_result (ok_or (ClassNotFound assembly) (br_assembly B assembly w)) (\<lambda>a.
       ok_or (ClassNotFound (assembly @ ''::'' @ class_full_name)) (br_class B a class_full_name w))"

definition class_surface ::
  "'w bridge \<Rightarrow> (usize \<Rightarrow> u8) \<Rightarrow> string \<Rightarrow> string \<Rightarrow> 'w \<Rightarrow> (il2cpp_error, class_surface) result" where
  "class_surface B m assembly class_full_name w =
     bind_result (cached_class_of B assembly class_full_name w) (\<lambda>cached.
       let base = (case image_base B w of None \<Rightarrow> 0 | Some b \<Rightarrow> b) in
       Inr \<lparr> cs_assembly = cc_assembly cached,
         cs_full_name = cc_namespace cached @ ''.'' @ cc_name cached,
         cs_class_address = cc_address cached,
         cs_static_field_data = cc_static_data cached,
         cs_image_base = base,
         cs_methods = map (\<lambda>mt. \<lparr> ms_name = cm_name mt, ms_param_count = ucast (cm_param_count mt),
             ms_param_types = map ti_cpp_name (cm_args mt), ms_return_type = ti_cpp_name (cm_return mt),
             ms_is_static = cm_is_static mt, ms_va = cm_va mt, ms_rva = saturating_sub (cm_va mt) base \<rparr>)
           (cc_methods cached),
         cs_fields = map (\<lambda>f. \<lparr> fs_name = cf_name f, fs_type_name = ti_name (cf_type f),
             fs_is_static = cf_is_static f, fs_offset = cf_offset f \<rparr>) (cc_fields cached),
         cs_statics = read_statics m (cc_static_data cached) (cc_fields cached) \<rparr>)"

definition resolve_method_va ::
  "'w bridge \<Rightarrow> string \<Rightarrow> string \<Rightarrow> string \<Rightarrow> u32 \<Rightarrow> 'w \<Rightarrow> (il2cpp_error, u64 option) result" where
  "resolve_method_va B assembly class_full_name meth param_count w =
     bind_result (cached_class_of B assembly class_full_name w) (\<lambda>cached.
       case filter (\<lambda>m. cm_name m = meth \<and> ucast (cm_param_count m) = param_count) (cc_methods cached) of
         [m] \<Rightarrow> Inr (if cm_va m \<noteq> 0 then Some (cm_va m) else None)
       | _ \<Rightarrow> Inr None)"

section \<open>Managed strings\<close>

definition read_il2cpp_string_utf16 :: "(usize \<Rightarrow> u8) \<Rightarrow> usize \<Rightarrow> u16 list option" where
  "read_il2cpp_string_utf16 m p =
     (if p = 0 then None
      else
        (let len = sint (load_i32 m (p + 0x10)) in
         if len \<le> 0 then Some []
         else Some (map (\<lambda>i. load_u16 m (p + 0x14 + of_nat i * 2)) [0..<nat len])))"

definition string_utf16 :: "'w bridge \<Rightarrow> (usize \<Rightarrow> u8) \<Rightarrow> usize \<Rightarrow> 'w \<Rightarrow> u16 list option" where
  "string_utf16 B m p w =
     (if p = 0 then None
      else
        (let len = sint (br_string_length B p w) in
         if len < 0 then None
         else if len = 0 then Some []
         else
           (let chars = br_string_chars B p w in
            if chars = 0 then None
            else Some (map (\<lambda>i. load_u16 m (chars + of_nat i * 2)) [0..<nat len]))))"

end
