(* ===== verification/Backend_Correct.thy ===== *)
theory Backend_Correct
  imports Backend Entry_Patch_Correct
begin

text \<open>
  What the backend guarantees: the dangerous domain probe runs until it first succeeds and never
  again, a guard undoes exactly its own attachment, an unambiguous method is resolved and nothing
  else, and the two readers of managed strings agree.
\<close>

section \<open>The domain probe\<close>

datatype api_call = Call_Exports | Call_Domain | Call_Attach | Call_Hydrate | Call_Identity

text \<open>One call of the trait; the domain calls report their answer.\<close>

fun api_step ::
  "'w dyn_loader \<Rightarrow> 'w bridge \<Rightarrow> api_call \<Rightarrow> backend \<times> 'w
     \<Rightarrow> (il2cpp_error, usize) result list \<times> backend \<times> 'w" where
  "api_step L B Call_Exports s = ([], snd (load_exports L B s))"
| "api_step L B Call_Domain s = (case domain_get B s of (r, s') \<Rightarrow> ([r], s'))"
| "api_step L B Call_Attach s = ([], snd (attach_current_thread B s))"
| "api_step L B Call_Hydrate s = ([], snd (hydrate_metadata B s))"
| "api_step L B Call_Identity s = ([], snd (runtime_identity_of B s))"

fun api_run ::
  "'w dyn_loader \<Rightarrow> 'w bridge \<Rightarrow> api_call list \<Rightarrow> backend \<times> 'w
     \<Rightarrow> (il2cpp_error, usize) result list \<times> backend \<times> 'w" where
  "api_run L B [] s = ([], s)"
| "api_run L B (c # cs) s =
     (case api_step L B c s of
        (rs, s1) \<Rightarrow> (case api_run L B cs s1 of (rs', s2) \<Rightarrow> (rs @ rs', s2)))"

text \<open>\<open>probes\<close> counts the calls of the export in a world; no other export moves it.\<close>

definition counts_probes :: "'w bridge \<Rightarrow> ('w \<Rightarrow> nat) \<Rightarrow> bool" where
  "counts_probes B n \<longleftrightarrow> (\<forall>w. n (snd (br_domain_get B w)) = Suc (n w)) \<and>
     (\<forall>f w. n (snd (br_load B f w)) = n w) \<and> (\<forall>d w. n (snd (br_thread_attach B d w)) = n w) \<and>
     (\<forall>w. n (snd (br_cache_init B w)) = n w)"

lemma counts_probesD:
  assumes "counts_probes B n"
  shows "br_domain_get B w = (d, w') \<Longrightarrow> n w' = Suc (n w)" "br_load B f w = (r, w') \<Longrightarrow> n w' = n w"
    "br_thread_attach B e w = (t, w') \<Longrightarrow> n w' = n w" "br_cache_init B w = (k, w') \<Longrightarrow> n w' = n w"
  using assms unfolding counts_probes_def by (metis snd_conv)+

lemma api_step_captured:
  assumes "counts_probes B n" and "be_domain b = d" "d \<noteq> 0" and "api_step L B c (b, w) = (rs, b', w')"
  shows "be_domain b' = d \<and> n w' = n w \<and> set rs \<subseteq> {Inr d}"
  using assms(2-) counts_probesD [OF assms(1)]
  by (cases c) (auto simp: load_exports_def domain_get_def attach_current_thread_def hydrate_metadata_def
      runtime_identity_of_def backend_domain_def split: prod.splits if_splits sum.splits option.splits)

lemma api_run_captured:
  assumes "counts_probes B n" "be_domain b = d" "d \<noteq> 0" "api_run L B cs (b, w) = (rs, b', w')"
  shows "n w' = n w \<and> set rs \<subseteq> {Inr d}"
  using assms(2,4)
proof (induction cs arbitrary: b w rs)
  case Nil
  then show ?case by simp
next
  case (Cons c cs)
  obtain rs1 b1 w1 where s: "api_step L B c (b, w) = (rs1, b1, w1)" by (metis prod_cases3)
  obtain rs2 b2 w2 where r: "api_run L B cs (b1, w1) = (rs2, b2, w2)" by (metis prod_cases3)
  from api_step_captured [OF assms(1) Cons.prems(1) assms(3) s]
  have st: "be_domain b1 = d" "n w1 = n w" "set rs1 \<subseteq> {Inr d}" by simp_all
  from Cons.IH [OF st(1)] r Cons.prems(2) s have "n w2 = n w1 \<and> set rs2 \<subseteq> {Inr d}" "w2 = w'" "rs = rs1 @ rs2"
    by auto
  with st show ?case by auto
qed

lemma api_step_fresh:
  assumes n: "counts_probes B n" and b: "be_domain b = 0" and s: "api_step L B c (b, w) = (rs, b', w')"
  shows "(\<exists>d. d \<noteq> 0 \<and> rs = [Inr d] \<and> be_domain b' = d \<and> n w' = Suc (n w)) \<or>
    (be_domain b' = 0 \<and> n w' = n w + length rs \<and> (\<forall>r \<in> set rs. \<not> is_ok r))"
  using assms(2-) counts_probesD [OF assms(1)]
  by (cases c) (auto simp: load_exports_def domain_get_def attach_current_thread_def hydrate_metadata_def
      runtime_identity_of_def backend_domain_def split: prod.splits if_splits sum.splits option.splits)

text \<open>
  The dangerous domain probe is repeated only while it fails. Over any sequence of calls of a fresh
  backend, the export runs once for every failed answer and once for the first success; every later
  answer is the captured domain, without touching the runtime.
\<close>

theorem domain_probe_once:
  assumes n: "counts_probes B n" and run: "api_run L B cs (backend_new h, w) = (rs, b', w')"
  shows "n w' = n w + length (takeWhile (\<lambda>r. \<not> is_ok r) rs) + (if \<exists>r \<in> set rs. is_ok r then 1 else 0) \<and>
    (\<exists>d. set (dropWhile (\<lambda>r. \<not> is_ok r) rs) \<subseteq> {Inr d})"
proof -
  have "n w' = n w + length (takeWhile (\<lambda>r. \<not> is_ok r) rs) + (if \<exists>r \<in> set rs. is_ok r then 1 else 0) \<and>
      (\<exists>d. set (dropWhile (\<lambda>r. \<not> is_ok r) rs) \<subseteq> {Inr d})"
    if "be_domain b = 0" "api_run L B cs (b, w) = (rs, b', w')" for b
    using that
  proof (induction cs arbitrary: b w rs)
    case Nil
    then show ?case by simp
  next
    case (Cons c cs)
    obtain rs1 b1 w1 where s: "api_step L B c (b, w) = (rs1, b1, w1)" by (metis prod_cases3)
    obtain rs2 where r: "api_run L B cs (b1, w1) = (rs2, b', w')" and rs: "rs = rs1 @ rs2"
      using Cons.prems(2) s by (auto split: prod.splits)
    from api_step_fresh [OF n Cons.prems(1) s] show ?case
    proof (elim disjE exE conjE)
      fix d assume d: "d \<noteq> 0" "rs1 = [Inr d]" "be_domain b1 = d" "n w1 = Suc (n w)"
      from api_run_captured [OF n d(3,1) r] d rs show ?thesis by auto
    next
      assume f: "be_domain b1 = 0" "n w1 = n w + length rs1" "\<forall>r \<in> set rs1. \<not> is_ok r"
      from Cons.IH [OF f(1) r] f rs show ?thesis by (auto simp: takeWhile_append dropWhile_append)
    qed
  qed
  from this [OF _ run] show ?thesis by (simp add: backend_new_def)
qed

text \<open>A bridge whose world is the number of probes made, the first of which fails.\<close>

definition demo_bridge :: "nat bridge" where
  "demo_bridge = \<lparr> br_load = (\<lambda>f w. (Inr (), w)), br_domain_get = (\<lambda>w. (if w = 0 then 0 else 5, Suc w)),
     br_thread_current = (\<lambda>_. 0), br_thread_attach = (\<lambda>d w. (7, w)), br_thread_detach = (\<lambda>t w. w),
     br_cache_init = (\<lambda>w. (True, w)),
     br_assembly = (\<lambda>n w. if n = ''UniRx.dll'' then Some \<lparr> ca_name = ''UniRx'', ca_file = ''UniRx.dll'' \<rparr> else None),
     br_class = (\<lambda>a n w. if n = ''UniRx.MainThreadDispatcher'' then Some
       \<lparr> cc_name = ''MainThreadDispatcher'', cc_namespace = ''UniRx'', cc_assembly = ''UniRx.dll'',
         cc_address = 64, cc_static_data = 0, cc_methods =
           [\<lparr> cm_name = ''LateUpdate'', cm_args = [], cm_return = \<lparr> ti_name = ''Void'', ti_cpp_name = ''void'' \<rparr>,
              cm_param_count = 0, cm_is_static = False, cm_is_instance = True, cm_is_generic = False,
              cm_is_inflated = False, cm_address = 128, cm_va = 4096 \<rparr>],
         cc_fields = [] \<rparr> else None),
     br_method = (\<lambda>c (n, k). find_first (\<lambda>m. cm_name m = n \<and> length (cm_args m) = k) (cc_methods c)),
     br_image_base = (\<lambda>n w. Some 1024), br_string_length = (\<lambda>p w. 3), br_string_chars = (\<lambda>p w. p + 0x14) \<rparr>"

definition demo_loader :: "nat dyn_loader" where
  "demo_loader = \<lparr> dl_images = (\<lambda>_. [None, Some ''/usr/lib/x'', Some ''/App/UnityFramework'']),
     dl_open = (\<lambda>_ p w. (1, w)), dl_sym = (\<lambda>h n w. 0x2000), dl_addr = (\<lambda>a w. Some ''/App//UnityFramework'') \<rparr>"

theorem domain_probe_once_witness:
  "snd (snd (api_run demo_loader demo_bridge [Call_Domain, Call_Attach, Call_Domain, Call_Domain]
     (backend_new \<lparr> eh_raw = 1, eh_path = ''x'' \<rparr>, 0))) = 2"
proof -
  let ?cs = "[Call_Domain, Call_Attach, Call_Domain, Call_Domain]"
  let ?s = "(backend_new \<lparr> eh_raw = 1, eh_path = ''x'' \<rparr>, 0 :: nat)"
  have n: "counts_probes demo_bridge id" by (simp add: counts_probes_def demo_bridge_def)
  obtain rs b' w' where r: "api_run demo_loader demo_bridge ?cs ?s = (rs, b', w')" by (metis prod_cases3)
  have "rs = [Inl DomainUnavailable, Inr 5, Inr 5]"
    using r by (simp add: demo_bridge_def domain_get_def backend_new_def backend_domain_def
        attach_current_thread_def split: prod.splits)
  with domain_probe_once [OF n r] r show ?thesis by simp
qed

section \<open>Attachments\<close>

text \<open>\<open>owners\<close> is who attached the current thread; a fresh attachment is undone by its own detach.\<close>

definition attach_laws :: "'w bridge \<Rightarrow> ('w \<Rightarrow> usize option) \<Rightarrow> bool" where
  "attach_laws B cur \<longleftrightarrow>
     (\<forall>w. (br_thread_current B w \<noteq> 0) = (cur w \<noteq> None)) \<and>
     (\<forall>d w t w'. cur w = None \<longrightarrow> br_thread_attach B d w = (t, w') \<longrightarrow>
        cur w' = (if t = 0 then None else Some t)) \<and>
     (\<forall>t w. cur w = Some t \<longrightarrow> cur (br_thread_detach B t w) = None)"

text \<open>The guard undoes exactly its own attachment: dropping it leaves the thread as it was found.\<close>

lemma attach_balanced:
  assumes laws: "attach_laws B cur" and a: "attach_current_thread B (b, w) = (r, b', w')"
  shows "(case r of Inl _ \<Rightarrow> cur w' = cur w
     | Inr g \<Rightarrow> cur (snd (attach_guard_drop g (b', w'))) = cur w \<and> cur w' \<noteq> None)"
proof (cases "backend_domain b")
  case None
  with a show ?thesis by (auto simp: attach_current_thread_def)
next
  case (Some d)
  obtain t w1 where t: "br_thread_attach B d w = (t, w1)" by fastforce
  show ?thesis
  proof (cases "br_thread_current B w = 0")
    case False
    with a Some laws show ?thesis
      by (auto simp: attach_current_thread_def attach_laws_def attach_guard_new_def attach_guard_drop_def)
  next
    case True
    then have "cur w = None" using laws unfolding attach_laws_def by blast
    moreover from this t laws have "cur w1 = (if t = 0 then None else Some t)" unfolding attach_laws_def by blast
    moreover have "cur w1 = Some t \<Longrightarrow> cur (br_thread_detach B t w1) = None"
      using laws unfolding attach_laws_def by blast
    ultimately show ?thesis
      using a Some t True
      by (auto simp: attach_current_thread_def attach_guard_new_def attach_guard_drop_def split: if_splits)
  qed
qed

section \<open>Resolution\<close>

text \<open>What a resolved target says of the one method it stands for.\<close>

definition method_ref_of :: "cached_assembly \<Rightarrow> cached_class \<Rightarrow> cached_method \<Rightarrow> method_ref" where
  "method_ref_of a c m = \<lparr> m_assembly = ca_file a, m_namespace = cc_namespace c, m_class = cc_name c,
     m_method = cm_name m, m_param_count = ucast (cm_param_count m), m_is_static = cm_is_static m,
     m_return_type = ti_cpp_name (cm_return m), m_parameter_types = map ti_cpp_name (cm_args m),
     m_is_generic = cm_is_generic m, m_is_inflated = cm_is_inflated m, m_method_info = cm_address m,
     m_method_pointer_slot = cm_address m \<rparr>"

lemma find_first_unique: "filter p xs = [x] \<Longrightarrow> find_first p xs = Some x"
  by (induction xs) (auto split: if_splits)

lemma length_one: "length xs = Suc 0 \<longleftrightarrow> (\<exists>x. xs = [x])"
  by (cases xs) auto

text \<open>
  C34: a target is resolved exactly when its class is in the cache, exactly one of the class's methods
  has its name and number of arguments, that method has an address, and the two hydrated flags that
  tell static from instance methods do not contradict each other; the reference is of that method.
\<close>

theorem resolve_target_exact:
  assumes "bridge_laws B"
  shows "resolve_target B t w = Inr r \<longleftrightarrow>
    (\<exists>a c m. br_assembly B (t_assembly t) w = Some a \<and>
       br_class B a (t_namespace t @ ''.'' @ t_class t) w = Some c \<and>
       filter (\<lambda>m. cm_name m = t_method t \<and> length (cm_args m) = unat (t_param_count t)) (cc_methods c) = [m] \<and>
       cm_address m \<noteq> 0 \<and> cm_is_static m \<noteq> cm_is_instance m \<and> r = method_ref_of a c m)"
proof (cases "br_assembly B (t_assembly t) w")
  case None
  then show ?thesis by (simp add: resolve_target_def)
next
  case (Some a)
  note a = Some
  show ?thesis
  proof (cases "br_class B a (t_namespace t @ ''.'' @ t_class t) w")
    case None
    with a show ?thesis by (simp add: resolve_target_def)
  next
    case (Some c)
    let ?p = "\<lambda>m. cm_name m = t_method t \<and> length (cm_args m) = unat (t_param_count t)"
    have m: "br_method B c (t_method t, unat (t_param_count t)) = find_first ?p (cc_methods c)"
      using assms by (simp add: bridge_laws_def)
    show ?thesis
    proof (cases "\<exists>m. filter ?p (cc_methods c) = [m]")
      case True
      then obtain x where x: "filter ?p (cc_methods c) = [x]" by blast
      with a Some m find_first_unique [OF x] show ?thesis
        by (auto simp: resolve_target_def method_ref_of_def METHOD_POINTER_OFFSET_def)
    next
      case False
      then have "length (filter ?p (cc_methods c)) \<noteq> 1" by (simp add: length_one)
      with a Some False show ?thesis by (simp add: resolve_target_def)
    qed
  qed
qed

theorem resolve_target_exact_witness:
  "\<exists>r. resolve_target demo_bridge \<lparr> t_assembly = ''UniRx.dll'', t_namespace = ''UniRx'',
     t_class = ''MainThreadDispatcher'', t_method = ''LateUpdate'', t_param_count = 0, t_is_static = False,
     t_return_type = ''void'', t_parameter_types = [] \<rparr> 0 = Inr r"
proof -
  have l: "bridge_laws demo_bridge" by (simp add: bridge_laws_def demo_bridge_def)
  show ?thesis unfolding resolve_target_exact [OF l] by (simp add: demo_bridge_def)
qed

section \<open>Managed strings\<close>

definition u16_to_le :: "u16 \<Rightarrow> u8 list" where
  "u16_to_le u = [ucast u, ucast (drop_bit 8 u)]"

text \<open>A live string object at \<open>p\<close>: its length at offset 16 and its units from offset 20.\<close>

definition lay_string :: "usize \<Rightarrow> u16 list \<Rightarrow> (usize \<Rightarrow> u8) \<Rightarrow> usize \<Rightarrow> u8" where
  "lay_string p us m = write_bytes (p + 0x10)
     (u32_to_le (of_nat (length us)) @ concat (map u16_to_le us)) m"

definition string_laws :: "'w bridge \<Rightarrow> (usize \<Rightarrow> u8) \<Rightarrow> usize \<Rightarrow> 'w \<Rightarrow> bool" where
  "string_laws B m p w \<longleftrightarrow> br_string_length B p w = load_i32 m (p + 0x10) \<and> br_string_chars B p w = p + 0x14"

lemma le_two: "ucast (u64_from_le (u16_to_le u)) = u"
proof (rule bit_eqI)
  fix n assume "possible_bit TYPE(16 word) n"
  then have n: "n < 16" by simp
  then show "bit (ucast (u64_from_le (u16_to_le u)) :: u16) n = bit u n"
    by (cases "n < 8") (auto simp: u64_from_le_def u16_to_le_def bit_simps)
qed

lemma le_four: "ucast (u64_from_le (u32_to_le v)) = v"
proof (rule bit_eqI)
  fix n assume "possible_bit TYPE(32 word) n"
  then have n: "n < 32" by simp
  consider "n < 8" | "8 \<le> n" "n < 16" | "16 \<le> n" "n < 24" | "24 \<le> n" by linarith
  then show "bit (ucast (u64_from_le (u32_to_le v)) :: u32) n = bit v n"
    using n by cases (auto simp: u64_from_le_def u32_to_le_def bit_simps)
qed

lemma nth_u16_chunk:
  "i < length us \<Longrightarrow> take 2 (drop (2 * i) (concat (map u16_to_le us))) = u16_to_le (us ! i)"
proof (induction us arbitrary: i)
  case (Cons u us)
  then show ?case by (cases i) (simp_all add: u16_to_le_def)
qed simp

lemma concat_u16_length [simp]: "length (concat (map u16_to_le us)) = 2 * length us"
  by (induction us) (simp_all add: u16_to_le_def)

lemma laid_string:
  assumes "length us < 2 ^ 31"
  shows "sint (load_i32 (lay_string p us m) (p + 0x10)) = int (length us)"
    and "i < length us \<Longrightarrow> load_u16 (lay_string p us m) (p + 0x14 + of_nat i * 2) = us ! i"
proof -
  let ?bs = "u32_to_le (of_nat (length us)) @ concat (map u16_to_le us)"
  have l: "length ?bs < 2 ^ 64" using assms by simp
  have r0: "read_bytes (lay_string p us m) (p + 0x10) 4 = take 4 ?bs"
    using read_within [of 0 4 ?bs "p + 0x10" m] l by (simp add: lay_string_def)
  have "load_i32 (lay_string p us m) (p + 0x10) = of_nat (length us)"
    unfolding load_i32_def r0 by (simp add: le_four)
  then show "sint (load_i32 (lay_string p us m) (p + 0x10)) = int (length us)"
    using assms by (simp add: signed_of_nat signed_take_bit_int_eq_self)
  show "load_u16 (lay_string p us m) (p + 0x14 + of_nat i * 2) = us ! i" if i: "i < length us"
  proof -
    have a: "p + 0x14 + of_nat i * 2 = p + 0x10 + of_nat (4 + 2 * i)" by simp
    have "read_bytes (lay_string p us m) (p + 0x10 + of_nat (4 + 2 * i)) 2 = take 2 (drop (4 + 2 * i) ?bs)"
      unfolding lay_string_def by (rule read_within) (use l i in simp_all)
    also have "\<dots> = u16_to_le (us ! i)" using nth_u16_chunk [OF i] by simp
    finally show ?thesis unfolding a load_u16_def by (simp add: le_two)
  qed
qed

text \<open>
  The two readers of managed strings agree: of any live string of less than \<open>2 ^ 31\<close> units, the
  main-thread reader, which walks the object's layout, and the callback reader, which asks the bridge,
  both give exactly the units the string was laid out with, the empty string included.
\<close>

theorem string_readers_agree:
  assumes "p \<noteq> 0" "p + 0x14 \<noteq> 0" "length us < 2 ^ 31"
    and "string_laws B (lay_string p us m) p w"
  shows "read_il2cpp_string_utf16 (lay_string p us m) p = Some us \<and>
    string_utf16 B (lay_string p us m) p w = Some us"
proof -
  note l = laid_string(1) [OF assms(3), of p m] laid_string(2) [OF assms(3), of _ p m]
  have "map (\<lambda>i. load_u16 (lay_string p us m) (p + 0x14 + of_nat i * 2)) [0..<length us] = us"
    by (rule nth_equalityI) (simp_all add: l(2))
  with l(1) assms show ?thesis
    by (cases "us = []") (simp_all add: read_il2cpp_string_utf16_def string_utf16_def string_laws_def Let_def)
qed

theorem string_readers_agree_witness:
  "string_utf16 (demo_bridge\<lparr> br_string_length := \<lambda>p w. 2 \<rparr>) (lay_string 256 [0x41, 0x3042] (\<lambda>_. 0)) 256 0
     = Some [0x41, 0x3042]"
proof -
  have len: "length [0x41, 0x3042 :: u16] < 2 ^ 31" by simp
  have "sint (load_i32 (lay_string 256 [0x41, 0x3042] (\<lambda>_. 0)) (256 + 0x10)) = sint (2 :: i32)"
    using laid_string(1) [OF len, of 256 "\<lambda>_. 0"] by simp
  then have "load_i32 (lay_string 256 [0x41, 0x3042] (\<lambda>_. 0)) (256 + 0x10) = 2"
    by (rule signed_word_eqI)
  then have "string_laws (demo_bridge\<lparr> br_string_length := \<lambda>p w. 2 \<rparr>)
      (lay_string 256 [0x41, 0x3042] (\<lambda>_. 0)) 256 0"
    by (simp add: string_laws_def demo_bridge_def)
  from string_readers_agree [OF _ _ len this] show ?thesis by simp
qed

end
