(* ===== verification/Config_Entry.thy ===== *)
theory Config_Entry
  imports Base
begin

text \<open>
  The configuration file of \<open>crates/runtime/src/config.rs\<close> and the FFI entry point of \<open>ffi.rs\<close>.  The
  file system is the files, the directories and the paths the system refuses; the TOML parser is a
  parameter.  A path is the list of its components.
\<close>

section \<open>The file system\<close>

record fsys =
  vf_files :: "string list \<Rightarrow> string option"
  vf_dirs :: "string list set"
  vf_denied :: "string list \<Rightarrow> bool"

datatype io_error_kind = NotFound | OtherKind

definition read_to_string :: "string list \<Rightarrow> fsys \<Rightarrow> (io_error_kind, string) result" where
  "read_to_string p fs =
     (case vf_files fs p of
        None \<Rightarrow> Inl (if vf_denied fs p then OtherKind else NotFound)
      | Some text \<Rightarrow> if vf_denied fs p then Inl OtherKind else Inr text)"

definition path_prefixes :: "string list \<Rightarrow> string list list" where
  "path_prefixes p = map (\<lambda>n. take n p) [1..<Suc (length p)]"

definition create_dir_all :: "string list \<Rightarrow> fsys \<Rightarrow> bool \<times> fsys" where
  "create_dir_all p fs =
     (if \<exists>q \<in> set (path_prefixes p). vf_denied fs q \<or> vf_files fs q \<noteq> None then (False, fs)
      else (True, fs\<lparr> vf_dirs := vf_dirs fs \<union> set (path_prefixes p) \<rparr>))"

text \<open>\<open>OpenOptions::new().write(true).create_new(true)\<close>, then the content.\<close>

definition create_new_file :: "string list \<Rightarrow> string \<Rightarrow> fsys \<Rightarrow> bool \<times> fsys" where
  "create_new_file p content fs =
     (if vf_denied fs p \<or> vf_files fs p \<noteq> None \<or> p \<in> vf_dirs fs \<or> butlast p \<notin> vf_dirs fs then (False, fs)
      else (True, fs\<lparr> vf_files := (vf_files fs)(p \<mapsto> content) \<rparr>))"

section \<open>The configuration\<close>

text \<open>The \<open>toml\<close> crate: parsing, the table of a value, the member of a value and its boolean.\<close>

record 'v toml_ops =
  tm_from_str :: "string \<Rightarrow> 'v option"
  tm_as_table :: "'v \<Rightarrow> (string \<Rightarrow> 'v option) option"
  tm_get :: "'v \<Rightarrow> string \<Rightarrow> 'v option"
  tm_as_bool :: "'v \<Rightarrow> bool option"

definition EMPTY_CONFIG :: string where
  "EMPTY_CONFIG = ''# Shiny Song Tools runtime configuration.'' @ [CHR 0x0A] @
     ''# Empty by default: all optional plugins remain disabled.'' @ [CHR 0x0A]"

text \<open>One known field: absent is off, any other type than a boolean refuses the file.\<close>

definition config_flag :: "'v toml_ops \<Rightarrow> 'v \<Rightarrow> string \<Rightarrow> string \<Rightarrow> bool option" where
  "config_flag T value sec key =
     (case tm_get T value sec of
        None \<Rightarrow> Some False
      | Some s \<Rightarrow>
          (case tm_as_table T s of
             None \<Rightarrow> None
           | Some table \<Rightarrow>
               (case table key of None \<Rightarrow> Some False | Some v \<Rightarrow> tm_as_bool T v)))"

definition parse_config :: "'v toml_ops \<Rightarrow> string \<Rightarrow> runtime_config option" where
  "parse_config T text =
     Option.bind (tm_from_str T text) (\<lambda>value.
     Option.bind (tm_as_table T value) (\<lambda>_.
     Option.bind (config_flag T value ''debug'' ''enabled'') (\<lambda>debug.
     Option.bind (config_flag T value ''fps'' ''unlock_fps'') (\<lambda>fps.
     Option.bind (config_flag T value ''translation'' ''dump'') (\<lambda>dump.
     Option.bind (config_flag T value ''recon'' ''enabled'') (\<lambda>recon.
       Some \<lparr> debug_enabled = debug, fps_unlock = fps, translation_dump = dump,
         recon_enabled = recon \<rparr>))))))"

definition config_path :: "data_root \<Rightarrow> string list" where
  "config_path root = data_root_join root ''shiny-song-tools'' @ [''scsp.toml'']"

definition load_config :: "'v toml_ops \<Rightarrow> data_root \<Rightarrow> fsys \<Rightarrow> runtime_config \<times> fsys" where
  "load_config T root fs =
     (let path = config_path root in
      case read_to_string path fs of
        Inr text \<Rightarrow> (case parse_config T text of None \<Rightarrow> default_config | Some c \<Rightarrow> c, fs)
      | Inl NotFound \<Rightarrow>
          (let fs1 = snd (create_dir_all (butlast path) fs);
               fs2 = snd (create_new_file path EMPTY_CONFIG fs1) in
           (default_config, fs2))
      | Inl OtherKind \<Rightarrow> (default_config, fs))"

section \<open>The entry point\<close>

text \<open>\<open>core::str::from_utf8\<close>: the well-formed byte sequences.\<close>

definition cont_byte :: "u8 \<Rightarrow> bool" where
  "cont_byte b \<longleftrightarrow> b AND 0xC0 = 0x80"

fun utf8_valid :: "u8 list \<Rightarrow> bool" where
  "utf8_valid [] = True"
| "utf8_valid (a # rest) =
     (if a < 0x80 then utf8_valid rest
      else if 0xC2 \<le> a \<and> a \<le> 0xDF then
        (case rest of b # r \<Rightarrow> cont_byte b \<and> utf8_valid r | _ \<Rightarrow> False)
      else if 0xE0 \<le> a \<and> a \<le> 0xEF then
        (case rest of
           b # c # r \<Rightarrow> cont_byte b \<and> cont_byte c \<and> (a = 0xE0 \<longrightarrow> 0xA0 \<le> b) \<and> (a = 0xED \<longrightarrow> b \<le> 0x9F) \<and>
             utf8_valid r
         | _ \<Rightarrow> False)
      else if 0xF0 \<le> a \<and> a \<le> 0xF4 then
        (case rest of
           b # c # d # r \<Rightarrow> cont_byte b \<and> cont_byte c \<and> cont_byte d \<and> (a = 0xF0 \<longrightarrow> 0x90 \<le> b) \<and>
             (a = 0xF4 \<longrightarrow> b \<le> 0x8F) \<and> utf8_valid r
         | _ \<Rightarrow> False)
      else False)"

text \<open>The argument is null or the bytes behind the pointer; the string ends at the first NUL.\<close>

definition copy_documents_path :: "u8 list option \<Rightarrow> string option" where
  "copy_documents_path documents_path =
     (case documents_path of
        None \<Rightarrow> None
      | Some mem \<Rightarrow>
          (let bytes = takeWhile (\<lambda>b. b \<noteq> 0) mem in
           if \<not> utf8_valid bytes then None
           else if bytes = [] then None
           else Some (map (\<lambda>b. char_of (unat b)) bytes)))"

text \<open>\<open>en_workers\<close>: what the bootstrap workers were started with.\<close>

record entry_state =
  en_started :: bool
  en_fs :: fsys
  en_workers :: "(data_root \<times> runtime_config) list"

definition scsp_entry :: "'v toml_ops \<Rightarrow> bool \<Rightarrow> u8 list option \<Rightarrow> entry_state \<Rightarrow> entry_state" where
  "scsp_entry T spawn_ok documents_path s =
     (if en_started s then s
      else
        (let s1 = s\<lparr> en_started := True \<rparr> in
         case copy_documents_path documents_path of
           None \<Rightarrow> s1
         | Some owned \<Rightarrow>
             (let root = DataRoot [owned] in
              case load_config T root (en_fs s1) of
                (config, fs) \<Rightarrow>
                  (let s2 = s1\<lparr> en_fs := fs \<rparr> in
                   if spawn_ok then s2\<lparr> en_workers := en_workers s2 @ [(root, config)] \<rparr> else s2))))"

section \<open>Correctness\<close>

definition config_flags :: "((runtime_config \<Rightarrow> bool) \<times> string \<times> string) list" where
  "config_flags = [(debug_enabled, ''debug'', ''enabled''), (fps_unlock, ''fps'', ''unlock_fps''),
     (translation_dump, ''translation'', ''dump''), (recon_enabled, ''recon'', ''enabled'')]"

text \<open>The file says so itself: the section is a table whose field is the boolean true.\<close>

definition switched_on :: "'v toml_ops \<Rightarrow> string \<Rightarrow> string \<Rightarrow> string \<Rightarrow> bool" where
  "switched_on T text sec key \<longleftrightarrow>
     (\<exists>value s table v. tm_from_str T text = Some value \<and> tm_get T value sec = Some s \<and>
        tm_as_table T s = Some table \<and> table key = Some v \<and> tm_as_bool T v = Some True)"

lemma config_flag_on:
  "tm_from_str T text = Some value \<Longrightarrow> config_flag T value sec key = Some True \<Longrightarrow> switched_on T text sec key"
  by (auto simp: config_flag_def switched_on_def split: option.splits)

lemma parse_config_on:
  assumes "parse_config T text = Some c" and "(f, sec, key) \<in> set config_flags" and "f c"
  shows "switched_on T text sec key"
proof -
  obtain tv d p t r where v: "tm_from_str T text = Some tv"
    and fl: "config_flag T tv ''debug'' ''enabled'' = Some d" "config_flag T tv ''fps'' ''unlock_fps'' = Some p"
      "config_flag T tv ''translation'' ''dump'' = Some t" "config_flag T tv ''recon'' ''enabled'' = Some r"
    and c: "c = \<lparr> debug_enabled = d, fps_unlock = p, translation_dump = t, recon_enabled = r \<rparr>"
    using assms(1) by (auto simp: parse_config_def bind_eq_Some_conv)
  from assms(2,3) c fl have "config_flag T tv sec key = Some True" by (auto simp: config_flags_def)
  with v show ?thesis by (rule config_flag_on)
qed

lemma default_off: "(f, sec, key) \<in> set config_flags \<Longrightarrow> \<not> f default_config"
  by (auto simp: config_flags_def default_config_def)

lemma create_files:
  "vf_files (snd (create_dir_all p fs)) = vf_files fs"
  "vf_files fs q = Some t \<Longrightarrow> vf_files (snd (create_new_file p content fs)) q = Some t"
  by (auto simp: create_dir_all_def create_new_file_def)

text \<open>
  C33: the configuration fails closed. A plugin is enabled only if the user's own readable file parses
  and sets that plugin's switch to the boolean true; every deviation leaves everything off; and
  loading never overwrites a file that exists.
\<close>

theorem config_fails_closed:
  assumes "load_config T root fs = (c, fs')"
  shows "(\<forall>(f, sec, key) \<in> set config_flags. f c \<longrightarrow>
      (\<exists>text. vf_files fs (config_path root) = Some text \<and> \<not> vf_denied fs (config_path root) \<and>
        switched_on T text sec key)) \<and>
    (\<forall>q t. vf_files fs q = Some t \<longrightarrow> vf_files fs' q = Some t)"
proof (cases "read_to_string (config_path root) fs")
  case (Inl e)
  then have "c = default_config" using assms by (cases e) (auto simp: load_config_def Let_def)
  moreover have "vf_files fs' q = Some t" if "vf_files fs q = Some t" for q t
    using assms Inl that by (cases e) (auto simp: load_config_def Let_def create_files)
  ultimately show ?thesis using default_off by blast
next
  case (Inr str)
  then have f: "vf_files fs (config_path root) = Some str" "\<not> vf_denied fs (config_path root)"
    by (auto simp: read_to_string_def split: option.splits if_splits)
  from assms Inr have c: "c = (case parse_config T str of None \<Rightarrow> default_config | Some c \<Rightarrow> c)" "fs' = fs"
    by (simp_all add: load_config_def Let_def)
  have "switched_on T str sec key" if "(g, sec, key) \<in> set config_flags" "g c" for g sec key
    using that c default_off [OF that(1)] parse_config_on [of T str _ g sec key]
    by (cases "parse_config T str") auto
  with f c show ?thesis by blast
qed

text \<open>A parser for one-section files, written out as the value it gives.\<close>

definition demo_toml :: "(string \<times> string \<times> bool) list toml_ops" where
  "demo_toml = \<lparr> tm_from_str = (\<lambda>t. if t = ''fps'' then Some [(''fps'', ''unlock_fps'', True)] else None),
     tm_as_table = (\<lambda>v. Some (\<lambda>k. map_option (\<lambda>e. [e]) (find_first (\<lambda>e. fst (snd e) = k) v))),
     tm_get = (\<lambda>v sec. case filter (\<lambda>e. fst e = sec) v of [] \<Rightarrow> None | es \<Rightarrow> Some es),
     tm_as_bool = (\<lambda>v. case v of [e] \<Rightarrow> Some (snd (snd e)) | _ \<Rightarrow> None) \<rparr>"

definition demo_fs :: fsys where
  "demo_fs = \<lparr> vf_files = [config_path (DataRoot [''d'']) \<mapsto> ''fps''], vf_dirs = {}, vf_denied = (\<lambda>_. False) \<rparr>"

theorem config_fails_closed_witness:
  "fps_unlock (fst (load_config demo_toml (DataRoot [''d'']) demo_fs)) \<and>
   vf_files (snd (load_config demo_toml (DataRoot [''d'']) demo_fs)) (config_path (DataRoot [''d''])) = Some ''fps''"
proof -
  have r: "read_to_string (config_path (DataRoot [''d''])) demo_fs = Inr ''fps''"
    by (simp add: read_to_string_def demo_fs_def)
  have p: "parse_config demo_toml ''fps'' = Some (default_config\<lparr> fps_unlock := True \<rparr>)"
    by (simp add: parse_config_def config_flag_def demo_toml_def default_config_def)
  from config_fails_closed [of demo_toml "DataRoot [''d'']" demo_fs, OF prod.collapse [symmetric]]
  have "\<forall>q t. vf_files demo_fs q = Some t \<longrightarrow>
      vf_files (snd (load_config demo_toml (DataRoot [''d'']) demo_fs)) q = Some t" by blast
  then have "vf_files (snd (load_config demo_toml (DataRoot [''d'']) demo_fs)) (config_path (DataRoot [''d'']))
      = Some ''fps''" by (simp add: demo_fs_def)
  with r p show ?thesis by (simp add: load_config_def Let_def)
qed

section \<open>One start per process\<close>

fun scsp_starts :: "'v toml_ops \<Rightarrow> (bool \<times> u8 list option) list \<Rightarrow> entry_state \<Rightarrow> entry_state" where
  "scsp_starts T [] s = s"
| "scsp_starts T ((ok, arg) # rest) s = scsp_starts T rest (scsp_entry T ok arg s)"

lemma scsp_starts_started: "en_started s \<Longrightarrow> scsp_starts T calls s = s"
  by (induction calls arbitrary: s) (auto simp: scsp_entry_def)

text \<open>
  The first call consumes the process's single start, whatever its argument: over any sequence of
  calls, only the first can start a worker, and it starts one exactly if its path is non-empty
  well-formed UTF-8 and the thread can be created.
\<close>

theorem start_is_one_shot:
  assumes "\<not> en_started s"
  shows "en_workers (scsp_starts T ((ok, arg) # calls) s) = en_workers s @
    (case copy_documents_path arg of
       Some path \<Rightarrow> if ok then [(DataRoot [path], fst (load_config T (DataRoot [path]) (en_fs s)))] else []
     | None \<Rightarrow> [])"
proof -
  have "en_started (scsp_entry T ok arg s)"
    by (simp add: scsp_entry_def Let_def case_prod_beta split: option.split)
  then show ?thesis
    using assms by (simp add: scsp_starts_started) (simp add: scsp_entry_def Let_def case_prod_beta split: option.split)
qed

theorem start_is_one_shot_witness:
  "en_workers (scsp_starts demo_toml [(True, Some [0, 47]), (True, Some [47, 0])]
     \<lparr> en_started = False, en_fs = demo_fs, en_workers = [] \<rparr>) = []"
  using start_is_one_shot [of "\<lparr> en_started = False, en_fs = demo_fs, en_workers = [] \<rparr>" demo_toml True
      "Some [0, 47]" "[(True, Some [47, 0])]"]
  by (simp add: copy_documents_path_def)

end
