(* ===== verification/Bootstrap.thy ===== *)
theory Bootstrap
  imports Backend_Correct Scheduler_Correct Config_Entry
begin

text \<open>
  The one-shot bootstrap worker of \<open>crates/runtime/src/bootstrap.rs\<close>: the readiness ladder with its
  two polling loops, the production plugin list, the application's build and the publication of the
  scheduler.  \<open>'s\<close> is the process the IL2CPP calls act on; a loop that does not end is \<open>None\<close>.
\<close>

section \<open>Constants\<close>

definition SCHEDULER_TARGET :: target_id where
  "SCHEDULER_TARGET = \<lparr> t_assembly = ''UniRx.dll'', t_namespace = ''UniRx'',
     t_class = ''MainThreadDispatcher'', t_method = ''LateUpdate'', t_param_count = 0, t_is_static = False,
     t_return_type = ''void'', t_parameter_types = [] \<rparr>"

text \<open>Durations are in milliseconds.\<close>

definition IMAGE_POLL_DEADLINE :: nat where "IMAGE_POLL_DEADLINE = 120000"
definition IMAGE_POLL_BACKOFF :: nat where "IMAGE_POLL_BACKOFF = 250"
definition CRIWARE_UNITY_READY_SYMBOL :: string where "CRIWARE_UNITY_READY_SYMBOL = ''CRIWARE2813B966''"
definition CRIWARE_POLL_DEADLINE :: nat where "CRIWARE_POLL_DEADLINE = 120000"
definition CRIWARE_POLL_BACKOFF :: nat where "CRIWARE_POLL_BACKOFF = 50"

section \<open>Readiness\<close>

text \<open>The production predicate: the symbol is looked up once and remembered, found or not.\<close>

record criware =
  cr_handle :: exact_handle
  cr_status :: "usize option option"

definition criware_new :: "exact_handle \<Rightarrow> criware" where
  "criware_new h = \<lparr> cr_handle = h, cr_status = None \<rparr>"

definition criware_is_ready ::
  "'w dyn_loader \<Rightarrow> (usize \<Rightarrow> 'w \<Rightarrow> i32) \<Rightarrow> criware \<times> 'w \<Rightarrow> (il2cpp_error, bool) result \<times> criware \<times> 'w" where
  "criware_is_ready L call s =
     (case s of (cr, w) \<Rightarrow>
        (let status = (case cr_status cr of Some st \<Rightarrow> st
               | None \<Rightarrow> handle_symbol L (cr_handle cr) CRIWARE_UNITY_READY_SYMBOL w);
             cr' = cr\<lparr> cr_status := Some status \<rparr> in
         case status of
           None \<Rightarrow> (Inl (ReadinessSymbolMissing CRIWARE_UNITY_READY_SYMBOL), cr', w)
         | Some address \<Rightarrow> (Inr (call address w \<noteq> 0), cr', w)))"

record 's clock =
  ck_now :: "'s \<Rightarrow> nat"
  ck_sleep :: "nat \<Rightarrow> 's \<Rightarrow> 's"

partial_function (option) await_unity_framework_loop ::
  "'w dyn_loader \<Rightarrow> 'w clock \<Rightarrow> nat \<Rightarrow> nat \<Rightarrow> 'w \<Rightarrow> ((il2cpp_error, exact_handle) result \<times> 'w) option" where
  "await_unity_framework_loop L C deadline_at backoff w =
     (case enumerate_unity_framework L w of
        Some path \<Rightarrow> Some (handle_open L path w)
      | None \<Rightarrow>
          if deadline_at \<le> ck_now C w then Some (Inl ImageNotFound, w)
          else await_unity_framework_loop L C deadline_at backoff (ck_sleep C backoff w))"

definition await_unity_framework ::
  "'w dyn_loader \<Rightarrow> 'w clock \<Rightarrow> nat \<Rightarrow> nat \<Rightarrow> 'w \<Rightarrow> ((il2cpp_error, exact_handle) result \<times> 'w) option" where
  "await_unity_framework L C deadline backoff w =
     await_unity_framework_loop L C (ck_now C w + deadline) backoff w"

partial_function (option) await_readiness_loop ::
  "'s clock \<Rightarrow> ('s \<Rightarrow> (il2cpp_error, bool) result \<times> 's) \<Rightarrow> nat \<Rightarrow> nat \<Rightarrow> 's
     \<Rightarrow> ((il2cpp_error, unit) result \<times> 's) option" where
  "await_readiness_loop C is_ready deadline_at backoff s =
     (case is_ready s of
        (Inl e, s1) \<Rightarrow> Some (Inl e, s1)
      | (Inr ready, s1) \<Rightarrow>
          if ready then Some (Inr (), s1)
          else
            (let now = ck_now C s1 in
             if deadline_at \<le> now then Some (Inl ReadinessDeadlineExceeded, s1)
             else await_readiness_loop C is_ready deadline_at backoff
               (ck_sleep C (min backoff (deadline_at - now)) s1)))"

definition await_bootstrap_readiness ::
  "'s clock \<Rightarrow> ('s \<Rightarrow> (il2cpp_error, bool) result \<times> 's) \<Rightarrow> nat \<Rightarrow> nat \<Rightarrow> 's
     \<Rightarrow> ((il2cpp_error, unit) result \<times> 's) option" where
  "await_bootstrap_readiness C is_ready deadline backoff s =
     await_readiness_loop C is_ready (ck_now C s + deadline) backoff s"

section \<open>The ladder\<close>

record ('s, 'm) bootstrap_deps =
  bd_api :: "'s il2cpp_api"
  bd_readiness :: "'s \<Rightarrow> (il2cpp_error, bool) result \<times> 's"
  bd_clock :: "'s clock"
  bd_resolve :: "target_id \<Rightarrow> 's \<Rightarrow> (hook_error, method_ref) result"
  bd_slot_memory :: "method_ref \<Rightarrow> 'm"
  bd_data_root :: data_root
  bd_config :: runtime_config

text \<open>Rungs 1 to 6; an early return drops the guard it holds.  The guard of a climbed ladder is
  returned.\<close>

definition ladder ::
  "('s, 'm) bootstrap_deps \<Rightarrow> nat \<Rightarrow> nat \<Rightarrow> 's \<Rightarrow> ('s attach_guard option \<times> 's) option" where
  "ladder D readiness_deadline readiness_backoff s =
     (case api_image (bd_api D) s of
        (Inl _, s1) \<Rightarrow> Some (None, s1)
      | (Inr _, s1) \<Rightarrow>
     (case api_load_exports (bd_api D) s1 of
        (Inl _, s2) \<Rightarrow> Some (None, s2)
      | (Inr _, s2) \<Rightarrow>
     (case await_bootstrap_readiness (bd_clock D) (bd_readiness D) readiness_deadline readiness_backoff s2 of
        None \<Rightarrow> None
      | Some (Inl _, s3) \<Rightarrow> Some (None, s3)
      | Some (Inr _, s3) \<Rightarrow>
     (case api_domain_get (bd_api D) s3 of
        (Inl _, s4) \<Rightarrow> Some (None, s4)
      | (Inr _, s4) \<Rightarrow>
     (case api_attach (bd_api D) s4 of
        (Inl _, s5) \<Rightarrow> Some (None, s5)
      | (Inr attach, s5) \<Rightarrow>
     (case api_hydrate (bd_api D) s5 of
        (Inl _, s6) \<Rightarrow> Some (None, attach_guard_drop attach s6)
      | (Inr _, s6) \<Rightarrow>
     (case api_identity (bd_api D) s6 of
        (Inl _, s7) \<Rightarrow> Some (None, attach_guard_drop attach s7)
      | (Inr _, s7) \<Rightarrow> Some (Some attach, s7))))))))"

definition validate_scheduler_method :: "method_ref \<Rightarrow> bool" where
  "validate_scheduler_method m = method_ref_matches_target m SCHEDULER_TARGET"

section \<open>The application\<close>

record ('g, 'j, 'p) plugin_set =
  ps_debug :: "('g, 'j, 'p) plugin"
  ps_fps :: "('g, 'j, 'p) plugin"
  ps_translation :: "('g, 'j, 'p) plugin"
  ps_recon :: "('g, 'j, 'p) plugin"

definition production_plugins ::
  "('g, 'j, 'p) plugin_set \<Rightarrow> runtime_config \<Rightarrow> ('g, 'j, 'p) plugin list" where
  "production_plugins P config =
     (if debug_enabled config then [ps_debug P] else []) @
     (if fps_unlock config then [ps_fps P] else []) @
     (if translation_dump config then [ps_translation P] else []) @
     (if recon_enabled config then [ps_recon P] else [])"

fun add_plugins ::
  "runtime_gate \<Rightarrow> ('g, 'j, 'p) plugin list \<Rightarrow> ('g, 'j, 'p) app \<Rightarrow> unit flow \<times> ('g, 'j, 'p) app" where
  "add_plugins rg [] app = (Returns (), app)"
| "add_plugins rg (p # ps) app =
     (case add_plugin rg p app of
        (Panics, app') \<Rightarrow> (Panics, app')
      | (Returns _, app') \<Rightarrow> add_plugins rg ps app')"

section \<open>The worker\<close>

text \<open>What the worker leaves behind: the process, the gate of this attempt, the published context (with
  the hook) and the application, if it was not handed off.\<close>

record ('s, 'g, 'j, 'p, 't, 'w, 'm) boot =
  bt_process :: 's
  bt_gate :: runtime_gate
  bt_scheduler :: "((('g, 'j, 'p) app, 't, 'w) sched \<times> 'm scheduler_hook) option"
  bt_app :: "('g, 'j, 'p) app option"

definition bootstrap_failed ::
  "('s, 'g, 'j, 'p, 't, 'w, 'm) boot \<Rightarrow> bool flow \<times> ('s, 'g, 'j, 'p, 't, 'w, 'm) boot" where
  "bootstrap_failed b =
     (let rg = gate_close (bt_gate b) in
      (Returns False, b\<lparr> bt_gate := rg, bt_app := map_option (teardown_all rg) (bt_app b) \<rparr>))"

definition sched_context :: "runtime_gate \<Rightarrow> 'w \<Rightarrow> ('a, 't, 'w) sched" where
  "sched_context gate w = (sched_new w)\<lparr> sd_gate := gate \<rparr>"

text \<open>Publication, from the built application on.  After \<open>publish_context\<close> the gate of the attempt is
  the gate of the published context.\<close>

definition publish_app ::
  "'m slot_ops \<Rightarrow> ('m \<Rightarrow> 'm) \<Rightarrow> usize \<Rightarrow> 'w \<Rightarrow> 'm scheduler_hook \<Rightarrow> ('g, 'j, 'p) app
     \<Rightarrow> ('s, 'g, 'j, 'p, 't, 'w, 'm) boot \<Rightarrow> bool \<times> ('s, 'g, 'j, 'p, 't, 'w, 'm) boot" where
  "publish_app M env replacement w hook app b =
     (case publish_context (sched_context (bt_gate b) w, hook) (bt_scheduler b) of
        (False, cell) \<Rightarrow>
          (False, b\<lparr> bt_scheduler := cell, bt_app := Some (teardown_all (bt_gate b) app) \<rparr>)
      | (True, cell) \<Rightarrow>
          (case cell of
             None \<Rightarrow> (False, b)
           | Some (ctx, hook1) \<Rightarrow>
               (case install_hook M env hook1 of
                  (Inl _, hook2) \<Rightarrow>
                    (let app' = teardown_all (sd_gate ctx) app;
                         ctx' = ctx\<lparr> sd_gate := gate_close (sd_gate ctx) \<rparr> in
                     (False, b\<lparr> bt_scheduler := Some (ctx', hook2), bt_gate := sd_gate ctx', bt_app := Some app' \<rparr>))
                | (Inr _, hook2) \<Rightarrow>
                    (case handoff_publish app (sd_handoff ctx) of
                       (False, h) \<Rightarrow>
                         (let ctx' = ctx\<lparr> sd_handoff := h, sd_gate := gate_close (sd_gate ctx) \<rparr> in
                          (False, b\<lparr> bt_scheduler := Some (ctx', hook2), bt_gate := sd_gate ctx', bt_app := None \<rparr>))
                     | (True, h) \<Rightarrow>
                         (True, b\<lparr> bt_scheduler := Some (ctx\<lparr> sd_handoff := h \<rparr>, hook2), bt_app := None \<rparr>)))))"

text \<open>\<open>'g\<close> and \<open>'w\<close> start as the empty ECS world \<open>world0\<close> and the game state \<open>w\<close>; a panic unwinds the worker
  and drops the guard.\<close>

definition run_bootstrap_with_readiness_wait ::
  "('s, 'm) bootstrap_deps \<Rightarrow> 'm slot_ops \<Rightarrow> ('m \<Rightarrow> 'm) \<Rightarrow> usize \<Rightarrow> ('g, 'j, 'p) plugin_set \<Rightarrow> 'g \<Rightarrow> 'w
     \<Rightarrow> nat \<Rightarrow> nat \<Rightarrow> ('s, 'g, 'j, 'p, 't, 'w, 'm) boot
     \<Rightarrow> (bool flow \<times> ('s, 'g, 'j, 'p, 't, 'w, 'm) boot) option" where
  "run_bootstrap_with_readiness_wait D M env replacement P world0 w readiness_deadline readiness_backoff b =
     (let b0 = b\<lparr> bt_gate := gate_new, bt_app := None \<rparr> in
      case ladder D readiness_deadline readiness_backoff (bt_process b0) of
        None \<Rightarrow> None
      | Some (None, s1) \<Rightarrow> Some (bootstrap_failed (b0\<lparr> bt_process := s1 \<rparr>))
      | Some (Some attach, s1) \<Rightarrow>
          (let leave = (\<lambda>b. b\<lparr> bt_process := attach_guard_drop attach s1 \<rparr>) in
           case bd_resolve D SCHEDULER_TARGET s1 of
             Inl _ \<Rightarrow> Some (bootstrap_failed (leave b0))
           | Inr method \<Rightarrow>
               if \<not> validate_scheduler_method method then Some (bootstrap_failed (leave b0))
               else
                 (case slot_bind M (bd_slot_memory D method) of
                    Inl _ \<Rightarrow> Some (bootstrap_failed (leave b0))
                  | Inr slot \<Rightarrow>
                      (let original = slot_original slot;
                           app0 = set_method_resolver (app_new world0 (bd_config D) (bd_data_root D)) in
                       case add_plugins (bt_gate b0) (production_plugins P (bd_config D)) app0 of
                         (Panics, app) \<Rightarrow> Some (Panics, leave (b0\<lparr> bt_app := Some app \<rparr>))
                       | (Returns _, app) \<Rightarrow>
                           (case scheduler_hook_new M (bd_slot_memory D method) original replacement of
                              None \<Rightarrow> Some (Panics, leave (b0\<lparr> bt_app := Some app \<rparr>))
                            | Some hook \<Rightarrow>
                                (case publish_app M env replacement w hook app b0 of
                                   (ok, b1) \<Rightarrow> Some (Returns ok, leave b1)))))))"

definition run_bootstrap ::
  "('s, 'm) bootstrap_deps \<Rightarrow> 'm slot_ops \<Rightarrow> ('m \<Rightarrow> 'm) \<Rightarrow> usize \<Rightarrow> ('g, 'j, 'p) plugin_set \<Rightarrow> 'g \<Rightarrow> 'w
     \<Rightarrow> ('s, 'g, 'j, 'p, 't, 'w, 'm) boot
     \<Rightarrow> (bool flow \<times> ('s, 'g, 'j, 'p, 't, 'w, 'm) boot) option" where
  "run_bootstrap D M env replacement P world0 w b =
     run_bootstrap_with_readiness_wait D M env replacement P world0 w CRIWARE_POLL_DEADLINE CRIWARE_POLL_BACKOFF b"

text \<open>The diagnostic probe stops after the domain call.\<close>

definition run_bootstrap_timing_probe_with_delay ::
  "('s, 'm) bootstrap_deps \<Rightarrow> nat \<Rightarrow> 's \<Rightarrow> bool \<times> 's" where
  "run_bootstrap_timing_probe_with_delay D delay s =
     (case api_image (bd_api D) s of
        (Inl _, s1) \<Rightarrow> (False, s1)
      | (Inr _, s1) \<Rightarrow>
     (case api_load_exports (bd_api D) s1 of
        (Inl _, s2) \<Rightarrow> (False, s2)
      | (Inr _, s2) \<Rightarrow>
     (case api_domain_get (bd_api D) (ck_sleep (bd_clock D) delay s2) of
        (Inl _, s3) \<Rightarrow> (False, s3)
      | (Inr _, s3) \<Rightarrow> (True, s3))))"

end
