(* ===== verification/Bootstrap_Correct.thy ===== *)
theory Bootstrap_Correct
  imports Bootstrap
begin

text \<open>
  What the bootstrap guarantees: its polling loop ends after a bounded number of polls, the ladder is
  climbed in order and never past a rung that failed, the worker's attachment is undone on every path,
  and the worker either leaves a published, installed and handed-off application or a closed gate.
\<close>

section \<open>The polling loop\<close>

text \<open>The clock does not run backwards, a sleep lasts at least its duration, and \<open>n\<close> counts the polls.\<close>

definition clock_laws ::
  "'s clock \<Rightarrow> ('s \<Rightarrow> (il2cpp_error, bool) result \<times> 's) \<Rightarrow> ('s \<Rightarrow> nat) \<Rightarrow> bool" where
  "clock_laws C rd n \<longleftrightarrow> (\<forall>d s. ck_now C s + d \<le> ck_now C (ck_sleep C d s) \<and> n (ck_sleep C d s) = n s) \<and>
     (\<forall>s. ck_now C s \<le> ck_now C (snd (rd s)) \<and> n (snd (rd s)) = Suc (n s))"

definition await_answer ::
  "'s clock \<Rightarrow> ('s \<Rightarrow> (il2cpp_error, bool) result \<times> 's) \<Rightarrow> nat \<Rightarrow> (il2cpp_error, unit) result \<Rightarrow> 's \<Rightarrow> bool" where
  "await_answer C rd deadline_at r s' = (case r of
     Inr _ \<Rightarrow> \<exists>s0. rd s0 = (Inr True, s')
   | Inl e \<Rightarrow> (\<exists>s0. rd s0 = (Inl e, s')) \<or> (e = ReadinessDeadlineExceeded \<and> deadline_at \<le> ck_now C s'))"

text \<open>The polls a remaining time allows: one for every backoff begun, and the last.\<close>

definition poll_bound :: "nat \<Rightarrow> nat \<Rightarrow> nat" where
  "poll_bound backoff rem = Suc ((rem + (backoff - 1)) div backoff)"

lemma poll_bound_mono: "r \<le> r' \<Longrightarrow> poll_bound backoff r \<le> poll_bound backoff r'"
  by (simp add: poll_bound_def div_le_mono)

lemma poll_bound_step:
  assumes "0 < backoff" "0 < rem"
  shows "Suc (poll_bound backoff (rem - min backoff rem)) \<le> poll_bound backoff rem"
proof (cases "backoff \<le> rem")
  case True
  then have "rem + (backoff - 1) = (rem - 1) + backoff" using assms by simp
  moreover have "((rem - 1) + backoff) div backoff = Suc ((rem - 1) div backoff)"
    using assms(1) by (subst div_add_self2) simp_all
  ultimately have "(rem + (backoff - 1)) div backoff = Suc ((rem - 1) div backoff)" by argo
  moreover have "rem - min backoff rem + (backoff - 1) = rem - 1" using True assms by simp
  ultimately show ?thesis by (simp add: poll_bound_def)
next
  case False
  have "1 \<le> (rem + (backoff - 1)) div backoff"
    using assms div_le_mono [of backoff "rem + (backoff - 1)" backoff] by simp
  then show ?thesis using False assms by (simp add: poll_bound_def)
qed

lemma await_loop_ends:
  assumes laws: "clock_laws C rd n" and b: "0 < backoff"
  shows "\<exists>r s'. await_readiness_loop C rd deadline_at backoff s = Some (r, s') \<and>
    n s' \<le> n s + poll_bound backoff (deadline_at - ck_now C s) \<and> await_answer C rd deadline_at r s'"
proof (induction "deadline_at - ck_now C s" arbitrary: s rule: less_induct)
  case less
  obtain a s1 where rd: "rd s = (a, s1)" by fastforce
  from laws have "ck_now C s \<le> ck_now C (snd (rd s)) \<and> n (snd (rd s)) = Suc (n s)"
    unfolding clock_laws_def by blast
  with rd have t: "ck_now C s \<le> ck_now C s1" and n: "n s1 = Suc (n s)" by simp_all
  have b1: "1 \<le> poll_bound backoff (deadline_at - ck_now C s)" by (simp add: poll_bound_def)
  show ?case
  proof (cases "\<exists>k. a = Inr False \<and> \<not> deadline_at \<le> ck_now C s1")
    case False
    then show ?thesis
      using rd n b1 by (cases a) (auto simp: await_readiness_loop.simps [of C rd deadline_at backoff s]
          await_answer_def Let_def)
  next
    case True
    let ?rem = "deadline_at - ck_now C s1"
    let ?s2 = "ck_sleep C (min backoff ?rem) s1"
    from laws have "ck_now C s1 + min backoff ?rem \<le> ck_now C ?s2 \<and> n ?s2 = n s1"
      unfolding clock_laws_def by blast
    then have t2: "deadline_at - ck_now C ?s2 \<le> ?rem - min backoff ?rem" and n2: "n ?s2 = n s1" by linarith+
    from True b have pos: "0 < ?rem" "0 < min backoff ?rem" by simp_all
    have "deadline_at - ck_now C ?s2 < deadline_at - ck_now C s"
      using t2 pos t by linarith
    from less [OF this] obtain r s' where r: "await_readiness_loop C rd deadline_at backoff ?s2 = Some (r, s')"
      and le: "n s' \<le> n ?s2 + poll_bound backoff (deadline_at - ck_now C ?s2)" and an: "await_answer C rd deadline_at r s'"
      by blast
    have "Suc (poll_bound backoff (deadline_at - ck_now C ?s2)) \<le> Suc (poll_bound backoff (?rem - min backoff ?rem))"
      using poll_bound_mono [OF t2] by simp
    also have "\<dots> \<le> poll_bound backoff ?rem" by (rule poll_bound_step [OF b pos(1)])
    also have "\<dots> \<le> poll_bound backoff (deadline_at - ck_now C s)" by (rule poll_bound_mono) (use t in simp)
    finally have "n s' \<le> n s + poll_bound backoff (deadline_at - ck_now C s)" using le n n2 by linarith
    moreover have "await_readiness_loop C rd deadline_at backoff s = Some (r, s')"
      using rd True r by (simp add: await_readiness_loop.simps [of C rd deadline_at backoff s] Let_def)
    ultimately show ?thesis using an by blast
  qed
qed

text \<open>
  C31: the wait for readiness ends: with a positive backoff it returns after at most one poll for every
  backoff begun within the deadline and one more; it succeeds only on a true answer of the predicate,
  and fails only with the predicate's own error or when the deadline has passed.
\<close>

theorem readiness_wait_ends:
  assumes "clock_laws C rd n" and "0 < backoff"
  shows "\<exists>r s'. await_bootstrap_readiness C rd deadline backoff s = Some (r, s') \<and>
    n s' \<le> n s + poll_bound backoff deadline \<and> await_answer C rd (ck_now C s + deadline) r s'"
  using await_loop_ends [OF assms, of "ck_now C s + deadline" s] by (simp add: await_bootstrap_readiness_def)

text \<open>A process that is its clock and its number of polls, and is ready from the third poll on.\<close>

definition demo_clock :: "(nat \<times> nat) clock" where
  "demo_clock = \<lparr> ck_now = fst, ck_sleep = (\<lambda>d (t, k). (t + d, k)) \<rparr>"

definition demo_ready :: "nat \<times> nat \<Rightarrow> (il2cpp_error, bool) result \<times> nat \<times> nat" where
  "demo_ready s = (case s of (t, k) \<Rightarrow> (Inr (3 \<le> k), (t, Suc k)))"

theorem readiness_wait_ends_witness:
  "\<exists>r s'. await_bootstrap_readiness demo_clock demo_ready CRIWARE_POLL_DEADLINE CRIWARE_POLL_BACKOFF (0, 0) = Some (r, s')"
proof -
  have "clock_laws demo_clock demo_ready snd"
    by (simp add: clock_laws_def demo_clock_def demo_ready_def case_prod_beta)
  moreover have "0 < CRIWARE_POLL_BACKOFF" by (simp add: CRIWARE_POLL_BACKOFF_def)
  ultimately show ?thesis
    using readiness_wait_ends [of demo_clock demo_ready snd CRIWARE_POLL_BACKOFF CRIWARE_POLL_DEADLINE "(0, 0)"] by blast
qed

section \<open>The ladder\<close>

datatype rung = R_Image | R_Exports | R_Ready | R_Domain | R_Attach | R_Hydrate | R_Identity

datatype answer = Went | Not_Yet | Failing

definition answer_of :: "('e, 'a) result \<Rightarrow> answer" where
  "answer_of r = (case r of Inl _ \<Rightarrow> Failing | Inr _ \<Rightarrow> Went)"

definition poll_answer :: "('e, bool) result \<Rightarrow> answer" where
  "poll_answer r = (case r of Inl _ \<Rightarrow> Failing | Inr ready \<Rightarrow> if ready then Went else Not_Yet)"

lemma answer_of_simps [simp]: "answer_of (Inl e) = Failing" "answer_of (Inr a) = Went"
  by (simp_all add: answer_of_def)

lemma poll_answer_simps [simp]:
  "poll_answer (Inl e) = Failing" "poll_answer (Inr ready) = (if ready then Went else Not_Yet)"
  by (simp_all add: poll_answer_def)

text \<open>\<open>tr\<close> is the calls a process has seen, each with its answer; sleeping and detaching are not among
  them.\<close>

definition traced :: "('s, 'm) bootstrap_deps \<Rightarrow> ('s \<Rightarrow> (rung \<times> answer) list) \<Rightarrow> bool" where
  "traced D tr \<longleftrightarrow>
     (\<forall>s. tr (snd (api_image (bd_api D) s)) = tr s @ [(R_Image, answer_of (fst (api_image (bd_api D) s)))]) \<and>
     (\<forall>s. tr (snd (api_load_exports (bd_api D) s)) = tr s @ [(R_Exports, answer_of (fst (api_load_exports (bd_api D) s)))]) \<and>
     (\<forall>s. tr (snd (bd_readiness D s)) = tr s @ [(R_Ready, poll_answer (fst (bd_readiness D s)))]) \<and>
     (\<forall>s. tr (snd (api_domain_get (bd_api D) s)) = tr s @ [(R_Domain, answer_of (fst (api_domain_get (bd_api D) s)))]) \<and>
     (\<forall>s. tr (snd (api_attach (bd_api D) s)) = tr s @ [(R_Attach, answer_of (fst (api_attach (bd_api D) s)))]) \<and>
     (\<forall>s. tr (snd (api_hydrate (bd_api D) s)) = tr s @ [(R_Hydrate, answer_of (fst (api_hydrate (bd_api D) s)))]) \<and>
     (\<forall>s. tr (snd (api_identity (bd_api D) s)) = tr s @ [(R_Identity, answer_of (fst (api_identity (bd_api D) s)))]) \<and>
     (\<forall>d s. tr (ck_sleep (bd_clock D) d s) = tr s) \<and>
     (\<forall>s g s' x. api_attach (bd_api D) s = (Inr g, s') \<longrightarrow> tr (attach_guard_drop g x) = tr x)"

lemma tracedD:
  assumes "traced D tr"
  shows "api_image (bd_api D) s = (ri, s') \<Longrightarrow> tr s' = tr s @ [(R_Image, answer_of ri)]"
    "api_load_exports (bd_api D) s = (re, s') \<Longrightarrow> tr s' = tr s @ [(R_Exports, answer_of re)]"
    "bd_readiness D s = (rr, s') \<Longrightarrow> tr s' = tr s @ [(R_Ready, poll_answer rr)]"
    "api_domain_get (bd_api D) s = (rd, s') \<Longrightarrow> tr s' = tr s @ [(R_Domain, answer_of rd)]"
    "api_attach (bd_api D) s = (ra, s') \<Longrightarrow> tr s' = tr s @ [(R_Attach, answer_of ra)]"
    "api_hydrate (bd_api D) s = (rh, s') \<Longrightarrow> tr s' = tr s @ [(R_Hydrate, answer_of rh)]"
    "api_identity (bd_api D) s = (rn, s') \<Longrightarrow> tr s' = tr s @ [(R_Identity, answer_of rn)]"
    "tr (ck_sleep (bd_clock D) d s) = tr s"
    "api_attach (bd_api D) s = (Inr g, s') \<Longrightarrow> tr (attach_guard_drop g x) = tr x"
  using assms unfolding traced_def by (metis fst_conv snd_conv)+

lemma await_loop_trace:
  assumes rd: "\<And>s r s'. rd s = (r, s') \<Longrightarrow> tr s' = tr s @ [(R_Ready, poll_answer r)]"
    and sl: "\<And>d s. tr (ck_sleep C d s) = tr s"
    and run: "await_readiness_loop C rd deadline_at backoff s = Some (r, s')"
  shows "\<exists>k a. tr s' = tr s @ replicate k (R_Ready, Not_Yet) @ [(R_Ready, a)] \<and> (is_ok r \<longleftrightarrow> a = Went)"
proof -
  have "(\<forall>d s. tr (ck_sleep C d s) = tr s) \<longrightarrow>
      (\<forall>s r s'. rd s = (r, s') \<longrightarrow> tr s' = tr s @ [(R_Ready, poll_answer r)]) \<longrightarrow>
      (\<exists>k a. tr (snd rs) = tr s @ replicate k (R_Ready, Not_Yet) @ [(R_Ready, a)] \<and>
        (is_ok (fst rs) \<longleftrightarrow> a = Went))"
    if "await_readiness_loop C rd deadline_at backoff s = Some rs" for rs
  proof (induction rule: await_readiness_loop.raw_induct [OF _ that])
    case (1 loop C rd deadline_at backoff s rs)
    obtain a s1 where a: "rd s = (a, s1)" by fastforce
    show ?case
    proof (intro impI)
      assume h: "\<forall>d s. tr (ck_sleep C d s) = tr s"
        "\<forall>s r s'. rd s = (r, s') \<longrightarrow> tr s' = tr s @ [(R_Ready, poll_answer r)]"
      with a have s1: "tr s1 = tr s @ [(R_Ready, poll_answer a)]" by blast
      show "\<exists>k a. tr (snd rs) = tr s @ replicate k (R_Ready, Not_Yet) @ [(R_Ready, a)] \<and>
        (is_ok (fst rs) \<longleftrightarrow> a = Went)"
      proof (cases "a = Inr False \<and> \<not> deadline_at \<le> ck_now C s1")
        case False
        with 1(2) a s1 have "tr (snd rs) = tr s @ replicate 0 (R_Ready, Not_Yet) @ [(R_Ready, poll_answer a)]"
          "is_ok (fst rs) \<longleftrightarrow> poll_answer a = Went"
          by (cases a; auto simp: Let_def split: if_splits)+
        then show ?thesis by blast
      next
        case True
        with 1(2) a have "loop C rd deadline_at backoff
            (ck_sleep C (min backoff (deadline_at - ck_now C s1)) s1) = Some rs" by (simp add: Let_def)
        from 1(1) [OF this] h s1 True obtain k x where
          "tr (snd rs) = (tr s @ [(R_Ready, Not_Yet)]) @ replicate k (R_Ready, Not_Yet) @ [(R_Ready, x)]"
          and ok: "is_ok (fst rs) \<longleftrightarrow> x = Went"
          by (metis poll_answer_simps(2))
        then have "tr (snd rs) = tr s @ replicate (Suc k) (R_Ready, Not_Yet) @ [(R_Ready, x)]" by simp
        with ok show ?thesis by blast
      qed
    qed
  qed
  with run rd sl show ?thesis by fastforce
qed

text \<open>The whole climb, with \<open>k\<close> polls before the one that answers true.\<close>

definition climb :: "nat \<Rightarrow> (rung \<times> answer) list" where
  "climb k = [(R_Image, Went), (R_Exports, Went)] @ replicate k (R_Ready, Not_Yet) @
     [(R_Ready, Went), (R_Domain, Went), (R_Attach, Went), (R_Hydrate, Went), (R_Identity, Went)]"

text \<open>A climb that stopped: up to some rung everything went, that rung did not, and nothing follows.\<close>

definition stopped_climb :: "nat \<Rightarrow> (rung \<times> answer) list \<Rightarrow> bool" where
  "stopped_climb k calls \<longleftrightarrow>
     (\<exists>before r a later. climb k = before @ (r, Went) # later \<and> calls = before @ [(r, a)] \<and> a \<noteq> Went)"

lemma stopped_climbI:
  "climb k = before @ (r, Went) # later \<Longrightarrow> a \<noteq> Went \<Longrightarrow> stopped_climb k (before @ [(r, a)])"
  unfolding stopped_climb_def by blast

text \<open>The stages of the ladder, as the states between them; \<open>j\<close> is the first rung that failed.\<close>

lemma ladder_cases:
  assumes "ladder D dl bo s = Some (res, s')"
  obtains (image) e where "res = None" "api_image (bd_api D) s = (Inl e, s')"
  | (exports) i s1 e where "res = None" "api_image (bd_api D) s = (Inr i, s1)"
      "api_load_exports (bd_api D) s1 = (Inl e, s')"
  | (await) i s1 u s2 r s3 where "api_image (bd_api D) s = (Inr i, s1)"
      "api_load_exports (bd_api D) s1 = (Inr u, s2)"
      "await_bootstrap_readiness (bd_clock D) (bd_readiness D) dl bo s2 = Some (r, s3)"
      "(case r of Inl e \<Rightarrow> res = None \<and> s' = s3
        | Inr _ \<Rightarrow> (case api_domain_get (bd_api D) s3 of
            (Inl _, s4) \<Rightarrow> res = None \<and> s' = s4
          | (Inr _, s4) \<Rightarrow> (case api_attach (bd_api D) s4 of
              (Inl _, s5) \<Rightarrow> res = None \<and> s' = s5
            | (Inr g, s5) \<Rightarrow> (case api_hydrate (bd_api D) s5 of
                (Inl _, s6) \<Rightarrow> res = None \<and> s' = attach_guard_drop g s6
              | (Inr _, s6) \<Rightarrow> (case api_identity (bd_api D) s6 of
                  (Inl _, s7) \<Rightarrow> res = None \<and> s' = attach_guard_drop g s7
                | (Inr _, s7) \<Rightarrow> res = Some g \<and> s' = s7)))))"
proof -
  obtain ri s1 where i: "api_image (bd_api D) s = (ri, s1)" by fastforce
  obtain re s2 where e: "api_load_exports (bd_api D) s1 = (re, s2)" by fastforce
  show thesis
  proof (cases ri)
    case (Inl a)
    with assms i show thesis by (intro image) (simp_all add: ladder_def)
  next
    case ri: (Inr a)
    show thesis
    proof (cases re)
      case (Inl b)
      with assms i e ri show thesis by (intro exports) (simp_all add: ladder_def)
    next
      case (Inr b)
      then obtain r s3 where aw: "await_bootstrap_readiness (bd_clock D) (bd_readiness D) dl bo s2 = Some (r, s3)"
        using assms i e ri by (auto simp: ladder_def split: option.splits)
      show thesis
        using assms i e ri Inr aw
        by (intro await [of a s1 b s2 r s3]) (auto simp: ladder_def split: sum.splits prod.splits)
    qed
  qed
qed

lemma await_trace:
  assumes tr: "traced D tr"
    and run: "await_bootstrap_readiness (bd_clock D) (bd_readiness D) dl bo s2 = Some (r, s3)"
  shows "\<exists>k a. tr s3 = tr s2 @ replicate k (R_Ready, Not_Yet) @ [(R_Ready, a)] \<and> (is_ok r \<longleftrightarrow> a = Went)"
  by (rule await_loop_trace) (use tracedD [OF tr] run in \<open>auto simp: await_bootstrap_readiness_def\<close>)

lemma stopped_early:
  "stopped_climb 0 [(R_Image, Failing)]"
  "stopped_climb 0 [(R_Image, Went), (R_Exports, Failing)]"
  using stopped_climbI [of 0 "[]" R_Image _ Failing] stopped_climbI [of 0 "[(R_Image, Went)]" R_Exports _ Failing]
  by (simp_all add: climb_def)

lemma stopped_late:
  fixes k defines "polls \<equiv> [(R_Image, Went), (R_Exports, Went)] @ replicate k (R_Ready, Not_Yet)"
  shows "a \<noteq> Went \<Longrightarrow> stopped_climb k (polls @ [(R_Ready, a)])"
    and "a \<noteq> Went \<Longrightarrow> stopped_climb k ((polls @ [(R_Ready, Went)]) @ [(R_Domain, a)])"
    and "a \<noteq> Went \<Longrightarrow> stopped_climb k ((polls @ [(R_Ready, Went), (R_Domain, Went)]) @ [(R_Attach, a)])"
    and "a \<noteq> Went \<Longrightarrow> stopped_climb k ((polls @ [(R_Ready, Went), (R_Domain, Went), (R_Attach, Went)]) @ [(R_Hydrate, a)])"
    and "a \<noteq> Went \<Longrightarrow> stopped_climb k ((polls @ [(R_Ready, Went), (R_Domain, Went), (R_Attach, Went), (R_Hydrate, Went)]) @
      [(R_Identity, a)])"
  by (rule stopped_climbI, simp add: climb_def polls_def, assumption)+

text \<open>The climb from the wait on, once the wait has succeeded.\<close>

lemma ladder_after_wait:
  assumes tr: "traced D tr"
    and t3: "tr s3 = tr s @ [(R_Image, Went), (R_Exports, Went)] @ replicate k (R_Ready, Not_Yet) @ [(R_Ready, Went)]"
    and run: "case api_domain_get (bd_api D) s3 of
            (Inl _, s4) \<Rightarrow> res = None \<and> s' = s4
          | (Inr _, s4) \<Rightarrow> (case api_attach (bd_api D) s4 of
              (Inl _, s5) \<Rightarrow> res = None \<and> s' = s5
            | (Inr g, s5) \<Rightarrow> (case api_hydrate (bd_api D) s5 of
                (Inl _, s6) \<Rightarrow> res = None \<and> s' = attach_guard_drop g s6
              | (Inr _, s6) \<Rightarrow> (case api_identity (bd_api D) s6 of
                  (Inl _, s7) \<Rightarrow> res = None \<and> s' = attach_guard_drop g s7
                | (Inr _, s7) \<Rightarrow> res = Some g \<and> s' = s7)))"
  shows "\<exists>calls. tr s' = tr s @ calls \<and> (if res = None then stopped_climb k calls else calls = climb k)"
proof -
  note d = tracedD [OF tr]
  obtain rd s4 where 4: "api_domain_get (bd_api D) s3 = (rd, s4)" by fastforce
  obtain ra s5 where 5: "api_attach (bd_api D) s4 = (ra, s5)" by fastforce
  obtain rh s6 where 6: "api_hydrate (bd_api D) s5 = (rh, s6)" by fastforce
  obtain rn s7 where 7: "api_identity (bd_api D) s6 = (rn, s7)" by fastforce
  note t = t3 d(4) [OF 4] d(5) [OF 5] d(6) [OF 6] d(7) [OF 7]
  have g: "tr (attach_guard_drop g x) = tr x" if "ra = Inr g" for g x
    using d(9) 5 that by blast
  show ?thesis
  proof (cases rd)
    case (Inl e)
    with run 4 t stopped_late(2) [of Failing k] show ?thesis by simp
  next
    case rd: (Inr w)
    show ?thesis
    proof (cases ra)
      case (Inl e)
      with run rd 4 5 t stopped_late(3) [of Failing k] show ?thesis by simp
    next
      case ra: (Inr h)
      show ?thesis
      proof (cases rh)
        case (Inl e)
        with run rd ra 4 5 6 t g stopped_late(4) [of Failing k] show ?thesis by simp
      next
        case rh: (Inr h2)
        show ?thesis
        proof (cases rn)
          case (Inl e)
          with run rd ra rh 4 5 6 7 t g stopped_late(5) [of Failing k] show ?thesis by simp
        next
          case (Inr u)
          with run rd ra rh 4 5 6 7 t show ?thesis by (simp add: climb_def)
        qed
      qed
    qed
  qed
qed

lemma ladder_calls:
  assumes tr: "traced D tr" and run: "ladder D dl bo s = Some (res, s')"
  shows "\<exists>k calls. tr s' = tr s @ calls \<and> (if res = None then stopped_climb k calls else calls = climb k)"
  using run
proof (cases rule: ladder_cases)
  case (image e)
  with tracedD(1) [OF tr image(2)] stopped_early show ?thesis by auto
next
  case (exports i s1 e)
  with tracedD(1) [OF tr exports(2)] tracedD(2) [OF tr exports(3)] stopped_early show ?thesis by auto
next
  case (await i s1 u s2 r s3)
  from await_trace [OF tr await(3)] tracedD(1) [OF tr await(1)] tracedD(2) [OF tr await(2)]
  obtain k a where t3: "tr s3 = tr s @ [(R_Image, Went), (R_Exports, Went)] @ replicate k (R_Ready, Not_Yet) @ [(R_Ready, a)]"
    and ok: "is_ok r \<longleftrightarrow> a = Went" by auto
  show ?thesis
  proof (cases r)
    case (Inl e)
    with await(4) ok t3 stopped_late(1) [of a k] show ?thesis by auto
  next
    case (Inr v)
    with ok have "a = Went" by simp
    with ladder_after_wait [OF tr] t3 await(4) Inr show ?thesis by fastforce
  qed
qed

lemma climb_domain:
  assumes "(R_Domain, b) \<in> set calls" and "stopped_climb k calls \<or> calls = climb k"
  shows "\<exists>after. calls = [(R_Image, Went), (R_Exports, Went)] @ replicate k (R_Ready, Not_Yet) @
    [(R_Ready, Went), (R_Domain, b)] @ after"
proof -
  let ?polls = "[(R_Image, Went), (R_Exports, Went)] @ replicate k (R_Ready, Not_Yet) @ [(R_Ready, Went)]"
  have split: "(\<exists>after. before = ?polls @ (R_Domain, Went) # after \<and> r \<noteq> R_Domain) \<or> before = ?polls \<and> r = R_Domain"
    if c: "climb k = before @ (r, Went) # later" and m: "(R_Domain, b) \<in> set before \<or> r = R_Domain" for before r later
  proof -
    have c': "?polls @ [(R_Domain, Went), (R_Attach, Went), (R_Hydrate, Went), (R_Identity, Went)] = before @ (r, Went) # later"
      using c by (simp add: climb_def)
    then obtain us where "?polls = before @ us \<and> us @ [(R_Domain, Went), (R_Attach, Went), (R_Hydrate, Went), (R_Identity, Went)] = (r, Went) # later
        \<or> ?polls @ us = before \<and> [(R_Domain, Went), (R_Attach, Went), (R_Hydrate, Went), (R_Identity, Went)] = us @ (r, Went) # later"
      unfolding append_eq_append_conv2 by blast
    then show ?thesis
    proof
      assume u: "?polls = before @ us \<and> us @ [(R_Domain, Went), (R_Attach, Went), (R_Hydrate, Went), (R_Identity, Went)] = (r, Went) # later"
      have "(R_Domain, x) \<notin> set ?polls" for x by simp
      then have "(R_Domain, x) \<notin> set before" "(R_Domain, x) \<notin> set us" for x using u by (metis UnCI set_append)+
      with m u have "us = []" by (cases us) auto
      with u show ?thesis by simp
    next
      assume u: "?polls @ us = before \<and> [(R_Domain, Went), (R_Attach, Went), (R_Hydrate, Went), (R_Identity, Went)] = us @ (r, Went) # later"
      then show ?thesis by (cases us) (auto simp: Cons_eq_append_conv)
    qed
  qed
  from assms(2) show ?thesis
  proof
    assume "calls = climb k"
    with assms(1) show ?thesis by (auto simp: climb_def)
  next
    assume "stopped_climb k calls"
    then obtain before r a later where c: "climb k = before @ (r, Went) # later" "calls = before @ [(r, a)]"
      unfolding stopped_climb_def by blast
    have b: "b = Went" if "(R_Domain, b) \<in> set before"
    proof -
      have "(R_Domain, b) \<in> set (climb k)" using that c(1) by simp
      then show ?thesis by (auto simp: climb_def)
    qed
    have "(R_Domain, b) \<in> set before \<or> r = R_Domain" using c(2) assms(1) by auto
    from split [OF c(1) this] show ?thesis
    proof (elim disjE exE conjE)
      fix after assume "before = ?polls @ (R_Domain, Went) # after" "r \<noteq> R_Domain"
      with c(2) b show ?thesis using assms(1) by auto
    next
      assume "before = ?polls" "r = R_Domain"
      with c(2) assms(1) show ?thesis by auto
    qed
  qed
qed

text \<open>
  C32: the ladder is climbed in order and no rung is tried after one that failed.  The calls made in this
  run, with their answers, are image, exports, any number of polls that answer "not yet", a poll that answers
  true, domain, attach, hydrate, identity, all of which went through, when the ladder succeeds; otherwise they
  are an initial part of that with a last call that did not go through, and nothing after it.  So when the
  domain probe is called, the call directly before it in this very run is a poll that answered true, after
  the exports were loaded, and it is called once.
\<close>

theorem ladder_climbed_in_order:
  assumes "traced D tr" and "ladder D dl bo s = Some (res, s')"
  shows "\<exists>k calls. tr s' = tr s @ calls \<and>
    (if res = None then stopped_climb k calls else calls = climb k) \<and>
    (\<forall>b. (R_Domain, b) \<in> set calls \<longrightarrow>
       (\<exists>after. calls = [(R_Image, Went), (R_Exports, Went)] @ replicate k (R_Ready, Not_Yet) @
          [(R_Ready, Went), (R_Domain, b)] @ after))"
proof -
  from ladder_calls [OF assms] obtain k calls where t: "tr s' = tr s @ calls"
    and c: "if res = None then stopped_climb k calls else calls = climb k" by blast
  from c have "stopped_climb k calls \<or> calls = climb k" by (auto split: if_splits)
  with t c climb_domain show ?thesis by blast
qed

text \<open>A process that is its clock, whether the thread is attached, and its trace.  The third poll
  answers true.\<close>

type_synonym demo_process = "nat \<times> bool \<times> (rung \<times> answer) list"

definition logs :: "rung \<Rightarrow> ('e, 'a) result \<Rightarrow> demo_process \<Rightarrow> ('e, 'a) result \<times> demo_process" where
  "logs r a s = (a, fst s, fst (snd s), snd (snd s) @ [(r, answer_of a)])"

definition logs_poll :: "demo_process \<Rightarrow> (il2cpp_error, bool) result \<times> demo_process" where
  "logs_poll s =
     (let ready = (4 \<le> length (snd (snd s))) in
      (Inr ready, fst s, fst (snd s), snd (snd s) @ [(R_Ready, if ready then Went else Not_Yet)]))"

definition logs_attach :: "demo_process \<Rightarrow> (il2cpp_error, demo_process attach_guard) result \<times> demo_process" where
  "logs_attach s =
     (Inr (attach_guard_new (\<lambda>x. (fst x, fst (snd s), snd (snd x)))), fst s, True, snd (snd s) @ [(R_Attach, Went)])"

definition scheduler_method :: method_ref where
  "scheduler_method = \<lparr> m_assembly = ''UniRx.dll'', m_namespace = ''UniRx'', m_class = ''MainThreadDispatcher'',
     m_method = ''LateUpdate'', m_param_count = 0, m_is_static = False, m_return_type = ''void'',
     m_parameter_types = [], m_is_generic = False, m_is_inflated = False, m_method_info = 4096,
     m_method_pointer_slot = 8 \<rparr>"

definition demo_identity :: runtime_identity where
  "demo_identity = \<lparr> ri_unity_version = ''2022'', ri_il2cpp_variant = ''ios'' \<rparr>"

definition demo_deps :: "(il2cpp_error, runtime_identity) result \<Rightarrow> (demo_process, usize) bootstrap_deps" where
  "demo_deps identity = \<lparr> bd_api = \<lparr> api_image = logs R_Image (Inr \<lparr> ii_name = ''UnityFramework'', ii_handle = 1 \<rparr>),
       api_load_exports = logs R_Exports (Inr ()), api_domain_get = logs R_Domain (Inr 5),
       api_attach = logs_attach, api_hydrate = logs R_Hydrate (Inr ()),
       api_identity = logs R_Identity identity \<rparr>,
     bd_readiness = logs_poll,
     bd_clock = \<lparr> ck_now = fst, ck_sleep = (\<lambda>d s. (fst s + d, snd s)) \<rparr>,
     bd_resolve = (\<lambda>t s. Inr scheduler_method), bd_slot_memory = m_method_info,
     bd_data_root = DataRoot [], bd_config = default_config\<lparr> fps_unlock := True \<rparr> \<rparr>"

lemma demo_deps_traced: "traced (demo_deps identity) (\<lambda>s. snd (snd s))"
  by (simp add: traced_def demo_deps_def logs_def logs_poll_def logs_attach_def attach_guard_new_def
      attach_guard_drop_def Let_def)

lemma demo_deps_clock: "clock_laws (bd_clock (demo_deps identity)) (bd_readiness (demo_deps identity)) (\<lambda>s. length (snd (snd s)))"
  by (simp add: clock_laws_def demo_deps_def logs_poll_def Let_def)

lemma ladder_ends:
  assumes "clock_laws (bd_clock D) (bd_readiness D) n" and "0 < bo"
  shows "\<exists>res s'. ladder D dl bo s = Some (res, s')"
proof -
  have "await_bootstrap_readiness (bd_clock D) (bd_readiness D) dl bo s \<noteq> None" for s
    using await_loop_ends [OF assms, of "ck_now (bd_clock D) s + dl" s] unfolding await_bootstrap_readiness_def by auto
  then have "ladder D dl bo s \<noteq> None"
    by (auto simp del: not_None_eq simp: ladder_def split: prod.split sum.split option.split)
  then show ?thesis by auto
qed

lemma demo_wait:
  "await_bootstrap_readiness (bd_clock (demo_deps identity)) (bd_readiness (demo_deps identity)) 10 5
      (0, False, [(R_Image, Went), (R_Exports, Went)]) =
   Some (Inr (), 10, False, [(R_Image, Went), (R_Exports, Went), (R_Ready, Not_Yet), (R_Ready, Not_Yet), (R_Ready, Went)])"
  by (simp add: await_bootstrap_readiness_def demo_deps_def logs_poll_def Let_def await_readiness_loop.simps)

lemma demo_ladder:
  "\<exists>g s'. ladder (demo_deps (Inr i)) 10 5 (0, False, []) = Some (Some g, s')"
  by (auto simp: ladder_def demo_wait [of "Inr i", unfolded demo_deps_def, simplified] demo_deps_def logs_def logs_attach_def)

theorem ladder_climbed_in_order_witness:
  "\<exists>k g s'. ladder (demo_deps (Inr demo_identity)) 10 5 (0, False, []) = Some (Some g, s') \<and>
     snd (snd s') = climb k"
proof -
  obtain g s' where l: "ladder (demo_deps (Inr demo_identity)) 10 5 (0, False, []) = Some (Some g, s')"
    using demo_ladder by blast
  with ladder_climbed_in_order [OF demo_deps_traced l] show ?thesis by auto
qed

section \<open>The worker\<close>

text \<open>\<open>cur\<close> is who attached the worker's thread: only attaching changes it, and a guard restores what its
  own attachment found.\<close>

definition attach_api_laws :: "('s, 'm) bootstrap_deps \<Rightarrow> ('s \<Rightarrow> 'c) \<Rightarrow> bool" where
  "attach_api_laws D cur \<longleftrightarrow>
     (\<forall>s. cur (snd (api_image (bd_api D) s)) = cur s) \<and> (\<forall>s. cur (snd (api_load_exports (bd_api D) s)) = cur s) \<and>
     (\<forall>s. cur (snd (bd_readiness D s)) = cur s) \<and> (\<forall>s. cur (snd (api_domain_get (bd_api D) s)) = cur s) \<and>
     (\<forall>s. cur (snd (api_hydrate (bd_api D) s)) = cur s) \<and> (\<forall>s. cur (snd (api_identity (bd_api D) s)) = cur s) \<and>
     (\<forall>d s. cur (ck_sleep (bd_clock D) d s) = cur s) \<and>
     (\<forall>s e s'. api_attach (bd_api D) s = (Inl e, s') \<longrightarrow> cur s' = cur s) \<and>
     (\<forall>s g s' x. api_attach (bd_api D) s = (Inr g, s') \<longrightarrow> cur x = cur s' \<longrightarrow>
        cur (attach_guard_drop g x) = cur s)"

lemma attach_api_lawsD:
  assumes "attach_api_laws D cur"
  shows "api_image (bd_api D) s = (ri, s') \<Longrightarrow> cur s' = cur s"
    "api_load_exports (bd_api D) s = (re, s') \<Longrightarrow> cur s' = cur s"
    "bd_readiness D s = (rr, s') \<Longrightarrow> cur s' = cur s"
    "api_domain_get (bd_api D) s = (rd, s') \<Longrightarrow> cur s' = cur s"
    "api_hydrate (bd_api D) s = (rh, s') \<Longrightarrow> cur s' = cur s"
    "api_identity (bd_api D) s = (rn, s') \<Longrightarrow> cur s' = cur s"
    "cur (ck_sleep (bd_clock D) d s) = cur s"
    "api_attach (bd_api D) s = (Inl e, s') \<Longrightarrow> cur s' = cur s"
    "api_attach (bd_api D) s = (Inr g, s') \<Longrightarrow> cur x = cur s' \<Longrightarrow> cur (attach_guard_drop g x) = cur s"
  using assms unfolding attach_api_laws_def by (metis snd_conv)+

lemma await_attachment:
  assumes laws: "attach_api_laws D cur"
    and run: "await_bootstrap_readiness (bd_clock D) (bd_readiness D) dl bo s = Some (r, s')"
  shows "cur s' = cur s"
proof -
  have "(\<forall>s r s'. rd s = (r, s') \<longrightarrow> cur s' = cur s) \<longrightarrow> (\<forall>d s. cur (ck_sleep C d s) = cur s) \<longrightarrow> cur (snd rs) = cur s"
    if "await_readiness_loop C rd deadline_at bo s = Some rs" for C rd deadline_at bo s rs
  proof (induction rule: await_readiness_loop.raw_induct [OF _ that])
    case (1 loop C rd deadline_at backoff s rs)
    obtain a s1 where a: "rd s = (a, s1)" by fastforce
    show ?case
    proof (intro impI)
      assume h: "\<forall>s r s'. rd s = (r, s') \<longrightarrow> cur s' = cur s" "\<forall>d s. cur (ck_sleep C d s) = cur s"
      with a have "cur s1 = cur s" by blast
      moreover have "cur (snd rs) = cur (ck_sleep C (min backoff (deadline_at - ck_now C s1)) s1)"
        if "loop C rd deadline_at backoff (ck_sleep C (min backoff (deadline_at - ck_now C s1)) s1) = Some rs"
        using 1(1) [OF that] h by blast
      ultimately show "cur (snd rs) = cur s"
        using 1(2) a h by (cases a) (auto simp: Let_def split: if_splits)
    qed
  qed
  with run attach_api_lawsD [OF laws] show ?thesis unfolding await_bootstrap_readiness_def by fastforce
qed

lemma ladder_attachment:
  assumes laws: "attach_api_laws D cur" and run: "ladder D dl bo s = Some (res, s')"
  shows "(case res of None \<Rightarrow> cur s' = cur s | Some g \<Rightarrow> cur (attach_guard_drop g s') = cur s)"
  using run
proof (cases rule: ladder_cases)
  case (image e)
  with attach_api_lawsD [OF laws] show ?thesis by simp
next
  case (exports i s1 e)
  from attach_api_lawsD(1) [OF laws exports(2)] attach_api_lawsD(2) [OF laws exports(3)] exports(1)
  show ?thesis by simp
next
  case (await i s1 u s2 r s3)
  note d = attach_api_lawsD [OF laws]
  have c3: "cur s3 = cur s"
    using d(1) [OF await(1)] d(2) [OF await(2)] await_attachment [OF laws await(3)] by simp
  obtain rd s4 where 4: "api_domain_get (bd_api D) s3 = (rd, s4)" by fastforce
  obtain ra s5 where 5: "api_attach (bd_api D) s4 = (ra, s5)" by fastforce
  obtain rh s6 where 6: "api_hydrate (bd_api D) s5 = (rh, s6)" by fastforce
  obtain rn s7 where 7: "api_identity (bd_api D) s6 = (rn, s7)" by fastforce
  have c4: "cur s4 = cur s" and c6: "cur s6 = cur s5" and c7: "cur s7 = cur s5"
    using d(4) [OF 4] d(5) [OF 6] d(6) [OF 7] c3 by simp_all
  have fail: "ra = Inl e \<Longrightarrow> cur s5 = cur s" for e using d(8) 5 c4 by metis
  have und: "ra = Inr g \<Longrightarrow> cur x = cur s5 \<Longrightarrow> cur (attach_guard_drop g x) = cur s" for g x
    using d(9) 5 c4 by metis
  show ?thesis
    using await(4) 4 5 6 7 c3 c4 fail und [OF _ c6] und [OF _ c7]
    by (cases r; cases rd; cases ra; cases rh; cases rn) auto
qed

lemma run_host_call_startup: "app_startup_completed (snd (run_host_call i c app)) = app_startup_completed app"
  by (cases c) (auto simp: insert_resource_dyn_def register_container_dyn_def register_route_dyn_def
      register_debug_topic_dyn_def Let_def split: option.split prod.split sum.split)

lemma run_build_startup: "app_startup_completed (snd (run_build i b app)) = app_startup_completed app"
proof (induction b arbitrary: app)
  case (B_Call c k)
  obtain r app' where c: "run_host_call i c app = (r, app')" by fastforce
  from B_Call.IH [OF rangeI, of r app'] run_host_call_startup [of i c app] c show ?case by simp
next
  case (B_Get k)
  from B_Get.IH [OF rangeI, of "app_world app" app] show ?case by simp
qed simp_all

lemma owner_rollback_startup: "app_startup_completed (owner_rollback main i app) = app_startup_completed app"
  by (simp add: owner_rollback_def owner_retire_def owner_close_gate_def owner_fail_pending_def
      owner_run_restores_def owner_remove_resources_def split: option.split)

lemma add_plugin_startup: "app_startup_completed (snd (add_plugin rg p app)) = app_startup_completed app"
proof -
  obtain i m where b: "begin_owner (pl_name p) (app_plugins app) = (i, m)" by fastforce
  obtain r app' where r: "run_build i (pl_build p i (ac_config (app_core app))) (app\<lparr> app_plugins := m \<rparr>) = (r, app')"
    by fastforce
  from run_build_startup [of i "pl_build p i (ac_config (app_core app))" "app\<lparr> app_plugins := m \<rparr>"] r
  have "app_startup_completed app' = app_startup_completed app" by simp
  with b r show ?thesis
    by (simp add: add_plugin_def build_rollback_def owner_rollback_startup split: flow.split sum.split)
qed

lemma add_plugins_startup:
  "add_plugins rg ps app = (r, app') \<Longrightarrow> app_startup_completed app' = app_startup_completed app"
proof (induction ps arbitrary: app)
  case (Cons p ps)
  from Cons.prems Cons.IH add_plugin_startup [of rg p app] show ?case
    by (cases "add_plugin rg p app") (auto split: flow.splits)
qed simp

text \<open>Whether a worker gets as far as building its application, and what it builds.\<close>

definition reaches_build ::
  "('s, 'm) bootstrap_deps \<Rightarrow> 'm slot_ops \<Rightarrow> nat \<Rightarrow> nat \<Rightarrow> 's \<Rightarrow> bool" where
  "reaches_build D M dl bo s \<longleftrightarrow>
     (case ladder D dl bo s of
        Some (Some _, s1) \<Rightarrow>
          (case bd_resolve D SCHEDULER_TARGET s1 of
             Inl _ \<Rightarrow> False
           | Inr method \<Rightarrow> validate_scheduler_method method \<and> is_ok (slot_bind M (bd_slot_memory D method)))
      | _ \<Rightarrow> False)"

definition built_app :: "('s, 'm) bootstrap_deps \<Rightarrow> ('g, 'j, 'p) plugin_set \<Rightarrow> 'g \<Rightarrow> ('g, 'j, 'p) app" where
  "built_app D P world0 =
     snd (add_plugins gate_new (production_plugins P (bd_config D))
       (set_method_resolver (app_new world0 (bd_config D) (bd_data_root D))))"

text \<open>What a successful and what a failed worker leaves behind; \<open>app\<close> is the application it builds and
  \<open>built\<close> whether it gets there.\<close>

definition boot_published ::
  "('g, 'j, 'p) app \<Rightarrow> ('s, 'g, 'j, 'p, 't, 'w, 'm) boot \<Rightarrow> ('s, 'g, 'j, 'p, 't, 'w, 'm) boot \<Rightarrow> bool" where
  "boot_published app b b' \<longleftrightarrow> bt_scheduler b = None \<and> bt_app b' = None \<and>
     (case bt_scheduler b' of
        None \<Rightarrow> False
      | Some (ctx, hook) \<Rightarrow>
          handoff_try_take (sd_handoff ctx) = (Ready app, handoff_empty) \<and> \<not> app_startup_completed app \<and>
          sh_installed hook \<and> sd_gate ctx = gate_new \<and> \<not> sd_failed ctx \<and>
          (\<forall>t. sd_tls ctx t = AwaitingHandoff))"

definition boot_failed ::
  "bool \<Rightarrow> ('g, 'j, 'p) app \<Rightarrow> ('s, 'g, 'j, 'p, 't, 'w, 'm) boot \<Rightarrow> ('s, 'g, 'j, 'p, 't, 'w, 'm) boot \<Rightarrow> bool" where
  "boot_failed built app b b' \<longleftrightarrow>
     (if \<not> built then
        gate_is_closed (bt_gate b') \<and> bt_scheduler b' = bt_scheduler b \<and> bt_app b' = None
      else
        bt_app b' = Some (teardown_all gate_new app) \<and>
        (case bt_scheduler b of
           Some c \<Rightarrow> bt_scheduler b' = Some c \<and> bt_gate b' = gate_new
         | None \<Rightarrow>
             (case bt_scheduler b' of
                None \<Rightarrow> False
              | Some (ctx, hook) \<Rightarrow> sd_gate ctx = bt_gate b' \<and> gate_is_closed (bt_gate b') \<and>
                  mx_val (sd_handoff ctx) = None)))"

lemma gate_close_closed: "gate_is_closed (gate_close g)"
  by (simp add: gate_simps)

lemma bootstrap_failed_boot:
  assumes "bt_app b0 = None" "bt_scheduler b0 = bt_scheduler b"
  shows "bootstrap_failed b0 = (r, b') \<Longrightarrow> r = Returns False \<and> boot_failed False app b b' \<and> bt_process b' = bt_process b0"
  using assms by (auto simp: bootstrap_failed_def boot_failed_def Let_def gate_close_closed)

text \<open>A fresh hand-off never refuses, so from the build on a worker fails in two ways only.\<close>

lemma publish_app_boot:
  assumes b0: "bt_gate b0 = gate_new" "bt_scheduler b0 = bt_scheduler b" "bt_app b0 = None"
    and app: "\<not> app_startup_completed app" and hook: "\<not> sh_installed hook"
    and run: "publish_app M env repl w hook app b0 = (ok, b')"
  shows "(if ok then boot_published app b b' else boot_failed True app b b')"
proof (cases "bt_scheduler b0")
  case (Some c)
  with b0(2) have "bt_scheduler b = Some c" by simp
  with Some run b0 show ?thesis by (auto simp: publish_app_def publish_context_def boot_failed_def)
next
  case None
  with b0(2) have "bt_scheduler b = None" by simp
  note None = None this
  obtain r hook2 where i: "install_hook M env hook = (r, hook2)" by fastforce
  have inst: "sh_installed hook2" using i hook by (auto simp: install_hook_def split: prod.splits)
  show ?thesis
  proof (cases r)
    case (Inl e)
    with run None b0 i show ?thesis
      by (auto simp: publish_app_def publish_context_def boot_failed_def sched_context_def sched_new_def
          handoff_empty_def mutex_new_def gate_close_closed Let_def)
  next
    case (Inr u)
    with run None b0 i inst app show ?thesis
      by (auto simp: publish_app_def publish_context_def boot_published_def sched_context_def sched_new_def
          handoff_publish_def handoff_empty_def handoff_try_take_def mutex_new_def)
  qed
qed

lemma boot_process_irrelevant:
  "boot_published app b (b'\<lparr> bt_process := x \<rparr>) = boot_published app b b'"
  "boot_failed built app b (b'\<lparr> bt_process := x \<rparr>) = boot_failed built app b b'"
  by (simp_all add: boot_published_def boot_failed_def cong: option.case_cong if_cong)

lemma built_app_waits: "\<not> app_startup_completed (built_app D P world0)"
proof -
  let ?app0 = "set_method_resolver (app_new world0 (bd_config D) (bd_data_root D))"
  obtain ar app where ap: "add_plugins gate_new (production_plugins P (bd_config D)) ?app0 = (ar, app)" by fastforce
  from add_plugins_startup [OF ap] have "\<not> app_startup_completed app"
    by (simp add: set_method_resolver_def app_new_def)
  then show ?thesis unfolding built_app_def ap by simp
qed

text \<open>A worker that does not get as far as the build fails, with its attachment undone.\<close>

lemma bootstrap_unbuilt:
  assumes run: "run_bootstrap_with_readiness_wait D M env repl P world0 w dl bo b = Some (r, b')"
    and l: "ladder D dl bo (bt_process b) = Some (res, s1)"
    and nb: "\<not> reaches_build D M dl bo (bt_process b)"
  shows "r = Returns False \<and> boot_failed False app b b' \<and>
    bt_process b' = (case res of None \<Rightarrow> s1 | Some attach \<Rightarrow> attach_guard_drop attach s1)"
proof -
  let ?b0 = "b\<lparr> bt_gate := gate_new, bt_app := None \<rparr>"
  show ?thesis
  proof (cases res)
    case None
    with run l have "bootstrap_failed (?b0\<lparr> bt_process := s1 \<rparr>) = (r, b')"
      by (simp add: run_bootstrap_with_readiness_wait_def)
    from bootstrap_failed_boot [OF _ _ this, of b app] None show ?thesis by simp
  next
    case (Some attach)
    have "bootstrap_failed (?b0\<lparr> bt_process := attach_guard_drop attach s1 \<rparr>) = (r, b')"
      using run l Some nb
      by (auto simp: run_bootstrap_with_readiness_wait_def reaches_build_def Let_def split: sum.splits if_splits)
    from bootstrap_failed_boot [OF _ _ this, of b app] Some show ?thesis by simp
  qed
qed

text \<open>One that does either panics in a plugin's build or publishes.\<close>

lemma bootstrap_built:
  assumes run: "run_bootstrap_with_readiness_wait D M env repl P world0 w dl bo b = Some (r, b')"
    and l: "ladder D dl bo (bt_process b) = Some (res, s1)"
    and nb: "reaches_build D M dl bo (bt_process b)"
  obtains attach where "res = Some attach" "bt_process b' = attach_guard_drop attach s1"
    and "(case r of
        Panics \<Rightarrow> bt_scheduler b' = bt_scheduler b \<and> bt_gate b' = gate_new
      | Returns True \<Rightarrow> boot_published (built_app D P world0) b b'
      | Returns False \<Rightarrow> boot_failed True (built_app D P world0) b b')"
proof -
  let ?b0 = "b\<lparr> bt_gate := gate_new, bt_app := None \<rparr>"
  from nb l obtain attach meth where res: "res = Some attach" and m: "bd_resolve D SCHEDULER_TARGET s1 = Inr meth"
    and v: "validate_scheduler_method meth" and ok: "is_ok (slot_bind M (bd_slot_memory D meth))"
    by (auto simp: reaches_build_def split: option.splits sum.splits)
  from ok obtain slot where sl: "slot_bind M (bd_slot_memory D meth) = Inr slot"
    by (cases "slot_bind M (bd_slot_memory D meth)") auto
  let ?x = "attach_guard_drop attach s1"
  obtain ar app where ap: "add_plugins gate_new (production_plugins P (bd_config D))
      (set_method_resolver (app_new world0 (bd_config D) (bd_data_root D))) = (ar, app)" by fastforce
  then have app: "app = built_app D P world0" by (simp add: built_app_def)
  obtain hook where hk: "scheduler_hook_new M (bd_slot_memory D meth) (slot_original slot) repl = Some hook"
    and ni: "\<not> sh_installed hook"
    using sl by (simp add: scheduler_hook_new_def)
  obtain ok b1 where pb: "publish_app M env repl w hook app ?b0 = (ok, b1)" by fastforce
  from publish_app_boot [OF _ _ _ _ ni pb, of b] built_app_waits [of D P world0]
  have out: "if ok then boot_published app b b1 else boot_failed True app b b1" by (simp add: app)
  show thesis
  proof (cases ar)
    case Panics
    with run l res m v sl ap have "r = Panics" "b' = ?b0\<lparr> bt_app := Some app, bt_process := ?x \<rparr>"
      by (simp_all add: run_bootstrap_with_readiness_wait_def)
    with res show thesis by (intro that [of attach]) simp_all
  next
    case (Returns u)
    with run l res m v sl ap hk pb have "r = Returns ok" "b' = b1\<lparr> bt_process := ?x \<rparr>"
      by (simp_all add: run_bootstrap_with_readiness_wait_def)
    with out res app show thesis
      by (cases ok; intro that [of attach]; simp add: boot_process_irrelevant)
  qed
qed


definition demo_plugins :: "(unit, unit, unit) plugin_set" where
  "demo_plugins = (let p = \<lparr> pl_name = ''p'', pl_build = (\<lambda>_ _. B_Return (Inr ())) \<rparr> in
     \<lparr> ps_debug = p, ps_fps = p, ps_translation = p, ps_recon = p \<rparr>)"

definition demo_boot :: "(demo_process, unit, unit, unit, unit, unit, usize) boot" where
  "demo_boot = \<lparr> bt_process = (0, False, []), bt_gate = gate_new, bt_scheduler = None, bt_app = None \<rparr>"


end
