(* ===== verification/Bytes.thy ===== *)
theory Bytes
  imports Prelude
begin

text \<open>
  Byte strings: the conversions between integers and bytes of the Rust standard library
  (\<open>from_be_bytes\<close>, \<open>from_le_bytes\<close>, \<open>to_be_bytes\<close>), the checked slices \<open>get(a..b)\<close> and the searches
  \<open>position\<close> and \<open>windows(n).position\<close>.
\<close>

section \<open>Integers\<close>

definition u32_to_be :: "u32 \<Rightarrow> u8 list" where
  "u32_to_be w = [ucast (drop_bit 24 w), ucast (drop_bit 16 w), ucast (drop_bit 8 w), ucast w]"

definition u32_from_be :: "u8 list \<Rightarrow> u32" where
  "u32_from_be bs = foldl (\<lambda>acc b. push_bit 8 acc OR ucast b) 0 bs"

lemma u32_be_round_trip: "u32_from_be (u32_to_be w) = w"
proof (rule bit_eqI)
  fix n assume "possible_bit TYPE(32 word) n"
  then have n: "n < 32" by simp
  consider "n < 8" | "8 \<le> n" "n < 16" | "16 \<le> n" "n < 24" | "24 \<le> n" by linarith
  then show "bit (u32_from_be (u32_to_be w)) n = bit w n"
    using n by cases (auto simp: u32_from_be_def u32_to_be_def bit_simps)
qed


lemma u32_to_be_length [simp]: "length (u32_to_be w) = 4"
  by (simp add: u32_to_be_def)

definition u16_to_be :: "u16 \<Rightarrow> u8 list" where
  "u16_to_be w = [ucast (drop_bit 8 w), ucast w]"

definition u16_from_be :: "u8 \<Rightarrow> u8 \<Rightarrow> u16" where
  "u16_from_be a b = push_bit 8 (ucast a) OR ucast b"

definition u16_from_le :: "u8 \<Rightarrow> u8 \<Rightarrow> u16" where
  "u16_from_le a b = ucast a OR push_bit 8 (ucast b)"

lemma u16_to_be_length [simp]: "length (u16_to_be w) = 2"
  by (simp add: u16_to_be_def)

lemma u16_be_round_trip: "u16_from_be (u16_to_be w ! 0) (u16_to_be w ! 1) = w"
proof (rule bit_eqI)
  fix n assume "possible_bit TYPE(16 word) n"
  then have n: "n < 16" by simp
  then show "bit (u16_from_be (u16_to_be w ! 0) (u16_to_be w ! 1)) n = bit w n"
    by (cases "n < 8") (auto simp: u16_from_be_def u16_to_be_def bit_simps)
qed

section \<open>Slices and searches\<close>

definition slice :: "'a list \<Rightarrow> nat \<Rightarrow> nat \<Rightarrow> 'a list option" where
  "slice xs a n = (if a + n \<le> length xs then Some (take n (drop a xs)) else None)"

lemma slice_length: "slice xs a n = Some ys \<Longrightarrow> length ys = n"
  by (auto simp: slice_def split: if_splits)

lemma slice_within [simp]: "slice xs a n = None \<longleftrightarrow> length xs < a + n"
  by (simp add: slice_def not_le)

lemma slice_append: "length xs = a \<Longrightarrow> length ys = n \<Longrightarrow> slice (xs @ ys @ zs) a n = Some ys"
  by (simp add: slice_def)

fun position :: "('a \<Rightarrow> bool) \<Rightarrow> 'a list \<Rightarrow> nat option" where
  "position p [] = None"
| "position p (x # xs) = (if p x then Some 0 else map_option Suc (position p xs))"

lemma position_Some:
  "position p xs = Some k \<longleftrightarrow> k < length xs \<and> p (xs ! k) \<and> (\<forall>i < k. \<not> p (xs ! i))"
proof (induction xs arbitrary: k)
  case (Cons x xs)
  show ?case
  proof (cases k)
    case (Suc j)
    with Cons.IH [of j] show ?thesis by (auto simp: nth_Cons split: nat.splits)
  qed (auto split: option.splits)
qed simp

lemma position_None: "position p xs = None \<longleftrightarrow> (\<forall>x \<in> set xs. \<not> p x)"
  by (induction xs) auto

lemma position_append: "\<forall>x \<in> set xs. \<not> p x \<Longrightarrow> p y \<Longrightarrow> position p (xs @ y # ys) = Some (length xs)"
  by (induction xs) auto

text \<open>\<open>windows(n).position(|w| w == pat)\<close> for a pattern of \<open>n > 0\<close> bytes.\<close>

definition occurs_at :: "'a list \<Rightarrow> 'a list \<Rightarrow> nat \<Rightarrow> bool" where
  "occurs_at pat xs i \<longleftrightarrow> i + length pat \<le> length xs \<and> take (length pat) (drop i xs) = pat"

fun find_window :: "'a list \<Rightarrow> 'a list \<Rightarrow> nat option" where
  "find_window pat [] = None"
| "find_window pat (x # xs) =
     (if occurs_at pat (x # xs) 0 then Some 0 else map_option Suc (find_window pat xs))"

lemma occurs_at_Suc [simp]: "occurs_at pat (x # xs) (Suc i) \<longleftrightarrow> occurs_at pat xs i"
  by (simp add: occurs_at_def)

lemma occurs_at_drop: "k \<le> length xs \<Longrightarrow> occurs_at pat (drop k xs) i \<longleftrightarrow> occurs_at pat xs (k + i)"
  by (auto simp: occurs_at_def add.commute)

lemma find_window_Some:
  "pat \<noteq> [] \<Longrightarrow> find_window pat xs = Some k \<longleftrightarrow> occurs_at pat xs k \<and> (\<forall>i < k. \<not> occurs_at pat xs i)"
proof (induction xs arbitrary: k)
  case Nil
  then show ?case by (simp add: occurs_at_def)
next
  case (Cons x xs)
  show ?case
  proof (cases k)
    case (Suc j)
    with Cons.IH [OF Cons.prems, of j] show ?thesis
      by (auto simp: less_Suc_eq_0_disj)
  qed (auto split: option.splits)
qed

lemma find_window_None: "pat \<noteq> [] \<Longrightarrow> find_window pat xs = None \<longleftrightarrow> (\<forall>i. \<not> occurs_at pat xs i)"
proof (induction xs)
  case Nil
  then show ?case by (simp add: occurs_at_def)
next
  case (Cons x xs)
  have "(\<forall>i. \<not> occurs_at pat (x # xs) i) \<longleftrightarrow> \<not> occurs_at pat (x # xs) 0 \<and> (\<forall>i. \<not> occurs_at pat xs i)"
    by (metis not0_implies_Suc occurs_at_Suc)
  with Cons show ?case by simp
qed

end
