(* ===== verification/Debug_Wire.thy ===== *)
theory Debug_Wire
  imports Plugin_App Bytes
begin

text \<open>
  The debug transport of \<open>crates/debug/src/lib.rs\<close> with the limits of \<open>protocol.rs\<close>: the framed
  connection, the envelope checks, the bounded queues with the active ids, and the dispatch system
  that carries requests into the topic channels and answers back to the wire.

  JSON values are a type \<open>'j\<close> with the operations of \<open>wire_json\<close> (the serde_json crate).  The socket is
  the list of what its reads will meet, cut into chunks as the peer and the system please; its output
  is the list of bytes written.
\<close>

section \<open>Limits and records\<close>

definition MAX_FRAME_BYTES :: nat where "MAX_FRAME_BYTES = 1024 * 1024"
definition MAX_INBOX_REQUESTS :: nat where "MAX_INBOX_REQUESTS = 128"
definition MAX_OUTBOX_RESPONSES :: nat where "MAX_OUTBOX_RESPONSES = 256"

lemmas wire_limits = MAX_FRAME_BYTES_def MAX_INBOX_REQUESTS_def MAX_OUTBOX_RESPONSES_def

record 'j wire_request =
  wq_id :: 'j
  wq_method :: string
  wq_params :: 'j
  wq_generation :: u64

record 'j wire_response =
  wr_body :: 'j
  wr_generation :: u64

text \<open>\<open>wj_get\<close> is the member of an object; of any other value it is \<open>None\<close>.\<close>

record 'j wire_json =
  wj_parse :: "u8 list \<Rightarrow> 'j option"
  wj_to_vec :: "'j \<Rightarrow> u8 list option"
  wj_to_string :: "'j \<Rightarrow> string option"
  wj_is_null :: "'j \<Rightarrow> bool"
  wj_is_array :: "'j \<Rightarrow> bool"
  wj_is_object :: "'j \<Rightarrow> bool"
  wj_get :: "'j \<Rightarrow> string \<Rightarrow> 'j option"
  wj_as_str :: "'j \<Rightarrow> string option"
  wj_null :: 'j
  wj_str :: "string \<Rightarrow> 'j"
  wj_int :: "int \<Rightarrow> 'j"
  wj_obj :: "(string \<times> 'j) list \<Rightarrow> 'j"

record 'j debug_transport =
  dt_inbox :: "'j wire_request list"
  dt_outbox :: "'j wire_response list"
  dt_runtime_gate :: gate_reader
  dt_active_ids :: "string list"
  dt_generation :: u64

definition trackable_id :: "'j wire_json \<Rightarrow> 'j \<Rightarrow> string option" where
  "trackable_id J v = (if wj_is_null J v then None else wj_to_string J v)"

definition transport_new :: "'j debug_transport" where
  "transport_new = \<lparr> dt_inbox = [], dt_outbox = [], dt_runtime_gate = Runtime_Reader, dt_active_ids = [],
     dt_generation = 0 \<rparr>"

definition next_generation :: "'j debug_transport \<Rightarrow> u64 \<times> 'j debug_transport" where
  "next_generation t = (dt_generation t + 1, t\<lparr> dt_generation := dt_generation t + 1 \<rparr>)"

definition current_generation :: "'j debug_transport \<Rightarrow> u64" where
  "current_generation t = dt_generation t"

section \<open>Answers\<close>

definition push_response :: "'j \<Rightarrow> u64 \<Rightarrow> 'j debug_transport \<Rightarrow> 'j debug_transport" where
  "push_response body generation t =
     (if MAX_OUTBOX_RESPONSES \<le> length (dt_outbox t) then t
      else t\<lparr> dt_outbox := dt_outbox t @ [\<lparr> wr_body = body, wr_generation = generation \<rparr>] \<rparr>)"

definition respond_ok :: "'j wire_json \<Rightarrow> 'j \<Rightarrow> 'j \<Rightarrow> u64 \<Rightarrow> 'j debug_transport \<Rightarrow> 'j debug_transport" where
  "respond_ok J rid result generation t =
     push_response (wj_obj J [(''jsonrpc'', wj_str J ''2.0''), (''id'', rid), (''result'', result)]) generation t"

definition respond_error ::
  "'j wire_json \<Rightarrow> 'j \<Rightarrow> int \<Rightarrow> string option \<Rightarrow> string \<Rightarrow> u64 \<Rightarrow> 'j debug_transport \<Rightarrow> 'j debug_transport" where
  "respond_error J rid code data_code message generation t =
     (let error = wj_obj J ((''code'', wj_int J code) #
            (case data_code of
               Some dc \<Rightarrow> [(''data'', wj_obj J [(''code'', wj_str J dc), (''message'', wj_str J message)])]
             | None \<Rightarrow> [(''message'', wj_str J message)])) in
      push_response (wj_obj J [(''jsonrpc'', wj_str J ''2.0''), (''id'', rid), (''error'', error)]) generation t)"

section \<open>One frame\<close>

definition accept_request ::
  "'j wire_json \<Rightarrow> 'j \<Rightarrow> string \<Rightarrow> 'j \<Rightarrow> u64 \<Rightarrow> 'j debug_transport \<Rightarrow> 'j debug_transport" where
  "accept_request J rid meth params generation t =
     (if MAX_INBOX_REQUESTS \<le> length (dt_inbox t) then
        respond_error J rid (- 32000) (Some (code_name QueueFull)) ''transport inbox capacity reached'' generation t
      else t\<lparr> dt_inbox := dt_inbox t @ [\<lparr> wq_id = rid, wq_method = meth, wq_params = params,
             wq_generation = generation \<rparr>] \<rparr>)"

definition handle_frame :: "'j wire_json \<Rightarrow> u8 list \<Rightarrow> u64 \<Rightarrow> 'j debug_transport \<Rightarrow> 'j debug_transport" where
  "handle_frame J bytes generation t =
     (case wj_parse J bytes of
        None \<Rightarrow> respond_error J (wj_null J) (- 32700) None ''parse error'' generation t
      | Some v \<Rightarrow>
          if wj_is_array J v then
            respond_error J (wj_null J) (- 32600) None ''batch not supported'' generation t
          else if \<not> wj_is_object J v then
            respond_error J (wj_null J) (- 32600) None ''invalid request'' generation t
          else
            (let version_ok = (Option.bind (wj_get J v ''jsonrpc'') (wj_as_str J) = Some ''2.0'');
                 meth = Option.bind (wj_get J v ''method'') (wj_as_str J);
                 rid = wj_get J v ''id'';
                 params = (case wj_get J v ''params'' of None \<Rightarrow> wj_null J | Some p \<Rightarrow> p) in
             if \<not> version_ok then
               respond_error J (case rid of None \<Rightarrow> wj_null J | Some i \<Rightarrow> i) (- 32600) None
                 ''invalid request'' generation t
             else
               (case meth of
                  None \<Rightarrow> respond_error J (wj_null J) (- 32600) None ''invalid request'' generation t
                | Some m \<Rightarrow>
                    (case rid of
                       None \<Rightarrow> respond_error J (wj_null J) (- 32600) None ''notifications not supported'' generation t
                     | Some i \<Rightarrow>
                         (case trackable_id J i of
                            None \<Rightarrow> accept_request J i m params generation t
                          | Some key \<Rightarrow>
                              if key \<in> set (dt_active_ids t) then
                                respond_error J i (- 32600) None ''duplicate active id'' generation t
                              else
                                accept_request J i m params generation
                                  (t\<lparr> dt_active_ids := dt_active_ids t @ [key] \<rparr>))))))"

section \<open>The socket\<close>

datatype sock_event = Chunk "u8 list" | Would_Block | Sock_Error

datatype io_outcome = UnexpectedEof | BlockError | OtherError | InvalidData

datatype sock_input = Got "u8 list" | Read_Eof | Read_Err io_outcome

text \<open>One \<open>read\<close> into a buffer of \<open>n\<close> bytes; a closed peer is the end of the list.\<close>

fun sock_read :: "nat \<Rightarrow> sock_event list \<Rightarrow> sock_input \<times> sock_event list" where
  "sock_read n [] = (Read_Eof, [])"
| "sock_read n (Would_Block # es) = (Read_Err BlockError, es)"
| "sock_read n (Sock_Error # es) = (Read_Err OtherError, es)"
| "sock_read n (Chunk bs # es) =
     (if bs = [] then (Read_Eof, Chunk bs # es)
      else if length bs \<le> n then (Got bs, es)
      else (Got (take n bs), Chunk (drop n bs) # es))"

definition sock_size :: "sock_event list \<Rightarrow> nat" where
  "sock_size es = (\<Sum>e \<leftarrow> es. case e of Chunk bs \<Rightarrow> Suc (length bs) | _ \<Rightarrow> 1)"

lemma sock_read_size: "sock_read n es = (Got bs, es') \<Longrightarrow> 0 < n \<Longrightarrow> sock_size es' < sock_size es"
  by (cases "(n, es)" rule: sock_read.cases) (auto simp: sock_size_def split: if_splits)

text \<open>\<open>read_exact_resilient\<close>: any error of a read ends it, a would-block of the read timeout too.\<close>

function read_exact_resilient ::
  "nat \<Rightarrow> sock_event list \<Rightarrow> (io_outcome, u8 list) result \<times> sock_event list" where
  "read_exact_resilient need es =
     (if need = 0 then (Inr [], es)
      else
        (case sock_read need es of
           (Read_Err e, es') \<Rightarrow> (Inl e, es')
         | (Read_Eof, es') \<Rightarrow> (Inl UnexpectedEof, es')
         | (Got bs, es') \<Rightarrow>
             (case read_exact_resilient (need - length bs) es' of
                (r, es'') \<Rightarrow> (bind_result r (\<lambda>rest. Inr (bs @ rest)), es''))))"
  by pat_completeness auto
termination
  by (relation "measure (\<lambda>(need, es). sock_size es)") (auto dest: sock_read_size [OF sym])

text \<open>\<open>discard\<close>, in pieces of at most 4096 bytes; the peer's close ends it quietly.\<close>

function discard :: "nat \<Rightarrow> sock_event list \<Rightarrow> (io_outcome, unit) result \<times> sock_event list" where
  "discard remaining es =
     (if remaining = 0 then (Inr (), es)
      else
        (case sock_read (min remaining 4096) es of
           (Read_Err e, es') \<Rightarrow> (Inl e, es')
         | (Read_Eof, es') \<Rightarrow> (Inr (), es')
         | (Got bs, es') \<Rightarrow> discard (remaining - length bs) es'))"
  by pat_completeness auto
termination
  by (relation "measure (\<lambda>(remaining, es). sock_size es)") (auto dest: sock_read_size [OF sym])

declare read_exact_resilient.simps [simp del] discard.simps [simp del]

definition frame_bytes :: "u8 list \<Rightarrow> u8 list" where
  "frame_bytes json = u32_to_be (of_nat (length json)) @ json"

definition encode_frame :: "'j wire_json \<Rightarrow> 'j \<Rightarrow> (io_outcome, u8 list) result" where
  "encode_frame J body =
     bind_result (ok_or OtherError (wj_to_vec J body)) (\<lambda>json.
       if 2 ^ 32 \<le> length json then Inl InvalidData else Inr (frame_bytes json))"

section \<open>One connection\<close>

text \<open>What one read of the loop yields, with the bytes of the length prefix read so far.\<close>

datatype wire_input =
    In_Nothing
  | In_Frame "u8 list"
  | In_Oversized "(io_outcome, unit) result"
  | In_Closed
  | In_Block
  | In_Failed io_outcome

definition read_input :: "u8 list \<times> sock_event list \<Rightarrow> wire_input \<times> u8 list \<times> sock_event list" where
  "read_input s =
     (case s of (buffer, es) \<Rightarrow>
        (case sock_read (4 - length buffer) es of
           (Read_Eof, es') \<Rightarrow> (In_Closed, buffer, es')
         | (Read_Err e, es') \<Rightarrow> (if e = BlockError then In_Block else In_Failed e, buffer, es')
         | (Got bs, es') \<Rightarrow>
             (let buffer' = buffer @ bs in
              if length buffer' \<noteq> 4 then (In_Nothing, buffer', es')
              else
                (let len = unat (u32_from_be buffer') in
                 if MAX_FRAME_BYTES < len then
                   (case discard len es' of (r, es'') \<Rightarrow> (In_Oversized r, [], es''))
                 else
                   (case read_exact_resilient len es' of
                      (Inl e, es'') \<Rightarrow> (In_Failed e, [], es'')
                    | (Inr body, es'') \<Rightarrow> (In_Frame body, [], es''))))))"

text \<open>Answers of this connection are written in order; an answer frees its id first.\<close>

fun write_responses ::
  "'j wire_json \<Rightarrow> u64 \<Rightarrow> 'j wire_response list \<Rightarrow> 'j debug_transport \<Rightarrow> u8 list
     \<Rightarrow> (io_outcome, unit) result \<times> 'j debug_transport \<times> u8 list" where
  "write_responses J generation [] t out = (Inr (), t, out)"
| "write_responses J generation (response # rest) t out =
     (if wr_generation response \<noteq> generation then write_responses J generation rest t out
      else
        (let t1 = (case Option.bind (wj_get J (wr_body response) ''id'') (trackable_id J) of
               None \<Rightarrow> t
             | Some key \<Rightarrow> t\<lparr> dt_active_ids := filter (\<lambda>active. active \<noteq> key) (dt_active_ids t) \<rparr>) in
         case encode_frame J (wr_body response) of
           Inl e \<Rightarrow> (Inl e, t1, out)
         | Inr frame \<Rightarrow> write_responses J generation rest t1 (out @ frame)))"

record 'j connection =
  cn_transport :: "'j debug_transport"
  cn_buffer :: "u8 list"
  cn_events :: "sock_event list"
  cn_out :: "u8 list"

definition start_connection :: "'j debug_transport \<Rightarrow> sock_event list \<Rightarrow> u64 \<times> 'j connection" where
  "start_connection t es =
     (case next_generation t of
        (generation, t1) \<Rightarrow>
          (generation, \<lparr> cn_transport = t1\<lparr>
               dt_outbox := filter (\<lambda>r. wr_generation r = generation) (dt_outbox t1), dt_active_ids := [] \<rparr>,
             cn_buffer = [], cn_events = es, cn_out = [] \<rparr>))"

text \<open>One turn of the loop; \<open>None\<close> goes on, \<open>Some\<close> is the function's result.\<close>

definition connection_round ::
  "'j wire_json \<Rightarrow> u64 \<Rightarrow> 'j connection \<Rightarrow> (io_outcome, unit) result option \<times> 'j connection" where
  "connection_round J generation c =
     (let t = cn_transport c; responses = dt_outbox t in
      case write_responses J generation responses (t\<lparr> dt_outbox := [] \<rparr>) (cn_out c) of
        (Inl e, t1, out) \<Rightarrow> (Some (Inl e), c\<lparr> cn_transport := t1, cn_out := out \<rparr>)
      | (Inr _, t1, out) \<Rightarrow>
          (case read_input (cn_buffer c, cn_events c) of
             (input, buffer, es) \<Rightarrow>
               (let c1 = c\<lparr> cn_transport := t1, cn_buffer := buffer, cn_events := es, cn_out := out \<rparr> in
                case input of
                  In_Nothing \<Rightarrow> (None, c1)
                | In_Block \<Rightarrow> (None, c1)
                | In_Closed \<Rightarrow> (Some (Inr ()), c1)
                | In_Failed e \<Rightarrow> (Some (Inl e), c1)
                | In_Oversized r \<Rightarrow>
                    (map_option Inl (case r of Inl e \<Rightarrow> Some e | Inr _ \<Rightarrow> None),
                     c1\<lparr> cn_transport := respond_error J (wj_null J) (- 32000) (Some (code_name PayloadTooLarge))
                       ''frame exceeds the payload limit'' generation t1 \<rparr>)
                | In_Frame body \<Rightarrow> (None, c1\<lparr> cn_transport := handle_frame J body generation t1 \<rparr>))))"

text \<open>\<open>meanwhile\<close> is what the main thread does to the shared transport before each turn; as many turns
  are run as it has entries, and \<open>None\<close> is a connection still served.\<close>

fun connection_rounds ::
  "'j wire_json \<Rightarrow> u64 \<Rightarrow> ('j debug_transport \<Rightarrow> 'j debug_transport) list \<Rightarrow> 'j connection
     \<Rightarrow> (io_outcome, unit) result option \<times> 'j connection" where
  "connection_rounds J generation [] c = (None, c)"
| "connection_rounds J generation (f # meanwhile) c =
     (case connection_round J generation (c\<lparr> cn_transport := f (cn_transport c) \<rparr>) of
        (Some r, c') \<Rightarrow> (Some r, c')
      | (None, c') \<Rightarrow> connection_rounds J generation meanwhile c')"

definition handle_connection ::
  "'j wire_json \<Rightarrow> ('j debug_transport \<Rightarrow> 'j debug_transport) list \<Rightarrow> sock_event list \<Rightarrow> 'j debug_transport
     \<Rightarrow> (io_outcome, unit) result option \<times> 'j connection" where
  "handle_connection J meanwhile es t =
     (case start_connection t es of (generation, c) \<Rightarrow> connection_rounds J generation meanwhile c)"

text \<open>The worker serves one client after the other; whatever a connection ends with, the next is taken.\<close>

definition io_worker ::
  "'j wire_json \<Rightarrow> (('j debug_transport \<Rightarrow> 'j debug_transport) list \<times> sock_event list) list
     \<Rightarrow> 'j debug_transport \<Rightarrow> 'j debug_transport" where
  "io_worker J clients t =
     fold (\<lambda>(meanwhile, es) t. cn_transport (snd (handle_connection J meanwhile es t))) clients t"

section \<open>The dispatch system\<close>

fun map_wire_code :: "debug_wire_error_code \<Rightarrow> int" where
  "map_wire_code MethodNotFound = - 32601"
| "map_wire_code InvalidParams = - 32602"
| "map_wire_code (ServerError _) = - 32000"

definition respond_result ::
  "'j wire_json \<Rightarrow> 'j debug_response \<Rightarrow> 'j debug_transport \<Rightarrow> 'j debug_transport" where
  "respond_result J response t =
     (case dr_result response of
        Inr v \<Rightarrow> respond_ok J (dr_id response) v (dr_generation response) t
      | Inl err \<Rightarrow>
          (case we_code err of
             ServerError server \<Rightarrow> respond_error J (dr_id response) (- 32000) (Some (code_name server))
               (we_message err) (dr_generation response) t
           | other \<Rightarrow> respond_error J (dr_id response) (map_wire_code other) None (we_message err)
               (dr_generation response) t))"

text \<open>One request: answered on the spot or queued in its topic's channel, which lives in the world.\<close>

definition dispatch_request ::
  "'j wire_json \<Rightarrow> gate_env \<Rightarrow> (string \<Rightarrow> 'j option) \<Rightarrow> ('w, 'j, 'p) topic_entry list \<Rightarrow> 'j wire_request
     \<Rightarrow> 'j debug_transport \<times> 'w \<Rightarrow> 'j debug_transport \<times> 'w" where
  "dispatch_request J G introspection topics request s =
     (case s of (t, w) \<Rightarrow>
        (let rid = wq_id request; generation = wq_generation request in
         case introspection (wq_method request) of
           Some payload \<Rightarrow> (respond_ok J rid payload generation t, w)
         | None \<Rightarrow>
             if \<not> reader_is_open G (dt_runtime_gate t) then
               (respond_error J rid (- 32000) (Some (code_name RuntimeUnavailable)) ''runtime unavailable''
                  generation t, w)
             else
               (case find_first (\<lambda>e. te_name e = wq_method request) topics of
                  None \<Rightarrow> (respond_error J rid (- 32601) None ''method not found'' generation t, w)
                | Some topic \<Rightarrow>
                    if \<not> dispatchable G (cr_get (te_channel topic) w) then
                      (respond_error J rid (- 32000) (Some (code_name PluginUnavailable)) ''plugin unavailable''
                         generation t, w)
                    else
                      (case te_decode topic (wq_params request) of
                         Inl message \<Rightarrow>
                           (respond_error J rid (- 32602) None (''invalid params: '' @ message) generation t, w)
                       | Inr payload \<Rightarrow>
                           (case enqueue rid payload generation (cr_get (te_channel topic) w) of
                              (Inl _, ch) \<Rightarrow>
                                (respond_error J rid (- 32000) (Some (code_name QueueFull))
                                   ''topic pending capacity reached'' generation t, cr_put (te_channel topic) ch w)
                            | (Inr _, ch) \<Rightarrow> (t, cr_put (te_channel topic) ch w))))))"

definition drain_topic ::
  "'j wire_json \<Rightarrow> u64 \<Rightarrow> ('w, 'j, 'p) topic_entry \<Rightarrow> 'j debug_transport \<times> 'w \<Rightarrow> 'j debug_transport \<times> 'w" where
  "drain_topic J current topic s =
     (case s of (t, w) \<Rightarrow>
        (let ch = cr_get (te_channel topic) w in
         (fold (respond_result J) (filter (\<lambda>r. dr_generation r = current) (ch_outbox ch)) t,
          cr_put (te_channel topic) (ch\<lparr> ch_outbox := [] \<rparr>) w)))"

definition dispatch_run ::
  "'j wire_json \<Rightarrow> gate_env \<Rightarrow> (string \<Rightarrow> 'j option) \<Rightarrow> ('w, 'j, 'p) topic_entry list
     \<Rightarrow> 'j debug_transport \<times> 'w \<Rightarrow> 'j debug_transport \<times> 'w" where
  "dispatch_run J G introspection topics s =
     (case s of (t, w) \<Rightarrow>
        (let current = current_generation t;
             requests = filter (\<lambda>q. wq_generation q = current) (dt_inbox t);
             s1 = fold (dispatch_request J G introspection topics) requests (t\<lparr> dt_inbox := [] \<rparr>, w) in
         fold (drain_topic J current) topics s1))"

end
