(* ===== verification/Debug_Wire_Correct.thy ===== *)
theory Debug_Wire_Correct
  imports Debug_Wire Entry_Patch_Correct
begin

text \<open>
  What the debug transport guarantees: frames come out of any chunking of the byte stream exactly as
  they were put in, the queues stay within their limits and active ids stay unique, and where the
  uniqueness of ids in flight fails.
\<close>

section \<open>Framing\<close>

definition sock_data :: "sock_event list \<Rightarrow> u8 list" where
  "sock_data es = concat (map (\<lambda>e. case e of Chunk bs \<Rightarrow> bs | _ \<Rightarrow> []) es)"

text \<open>Only data, in pieces of any positive length.\<close>

definition only_chunks :: "sock_event list \<Rightarrow> bool" where
  "only_chunks es \<longleftrightarrow> list_all (\<lambda>e. case e of Chunk bs \<Rightarrow> bs \<noteq> [] | _ \<Rightarrow> False) es"

lemma only_chunks_empty: "only_chunks es \<Longrightarrow> sock_data es = [] \<Longrightarrow> es = []"
  by (cases es) (auto simp: only_chunks_def sock_data_def split: sock_event.splits)

lemma sock_read_chunks:
  assumes "only_chunks es" "sock_data es \<noteq> []" "0 < n"
  obtains bs es' where "sock_read n es = (Got bs, es')" "bs \<noteq> []" "length bs \<le> n"
    "sock_data es = bs @ sock_data es'" "only_chunks es'"
proof -
  from assms(1,2) obtain cs rest where es: "es = Chunk cs # rest" "cs \<noteq> []"
    by (cases es) (auto simp: only_chunks_def sock_data_def split: sock_event.splits)
  show thesis
  proof (cases "length cs \<le> n")
    case True
    with es assms(1) show thesis by (intro that [of cs rest]) (auto simp: sock_data_def only_chunks_def)
  next
    case False
    with es assms show thesis
      by (intro that [of "take n cs" "Chunk (drop n cs) # rest"]) (auto simp: sock_data_def only_chunks_def)
  qed
qed

lemma read_exact_chunks:
  assumes "only_chunks es" "need \<le> length (sock_data es)"
  shows "\<exists>es'. read_exact_resilient need es = (Inr (take need (sock_data es)), es') \<and>
    sock_data es' = drop need (sock_data es) \<and> only_chunks es'"
  using assms
proof (induction need arbitrary: es rule: less_induct)
  case (less need)
  show ?case
  proof (cases "need = 0")
    case True
    with less.prems show ?thesis by (simp add: read_exact_resilient.simps [of 0])
  next
    case False
    with less.prems have "sock_data es \<noteq> []" by auto
    from sock_read_chunks [OF less.prems(1) this, of need] False obtain bs es1 where
      r: "sock_read need es = (Got bs, es1)" "bs \<noteq> []" "length bs \<le> need"
      and d: "sock_data es = bs @ sock_data es1" "only_chunks es1" by auto
    have "need - length bs < need" "need - length bs \<le> length (sock_data es1)"
      using r False less.prems(2) d by auto
    from less.IH [OF this(1) d(2) this(2)] r d False show ?thesis
      by (auto simp: read_exact_resilient.simps [of need])
  qed
qed

text \<open>The reads of the loop, one after another.\<close>

fun read_inputs :: "nat \<Rightarrow> u8 list \<times> sock_event list \<Rightarrow> wire_input list \<times> u8 list \<times> sock_event list" where
  "read_inputs 0 s = ([], s)"
| "read_inputs (Suc n) s =
     (case read_input s of (i, s1) \<Rightarrow> (case read_inputs n s1 of (is', s2) \<Rightarrow> (i # is', s2)))"

definition frames_of :: "wire_input list \<Rightarrow> u8 list list" where
  "frames_of xs = concat (map (\<lambda>i. case i of In_Frame b \<Rightarrow> [b] | _ \<Rightarrow> []) xs)"

definition quiet_inputs :: "wire_input list \<Rightarrow> bool" where
  "quiet_inputs xs \<longleftrightarrow> list_all (\<lambda>i. case i of In_Frame _ \<Rightarrow> True | In_Nothing \<Rightarrow> True | _ \<Rightarrow> False) xs"

lemma read_input_step:
  assumes oc: "only_chunks es" and ne: "sock_data es \<noteq> []" and b: "length buffer < 4"
    and lim: "\<forall>x \<in> set bodies. length x \<le> MAX_FRAME_BYTES"
    and data: "buffer @ sock_data es = concat (map frame_bytes bodies)"
  shows "\<exists>buffer' es' bodies'. length (sock_data es') < length (sock_data es) \<and> only_chunks es' \<and> length buffer' < 4 \<and>
    buffer' @ sock_data es' = concat (map frame_bytes bodies') \<and>
    (read_input (buffer, es) = (In_Nothing, buffer', es') \<and> bodies = bodies' \<or>
     (\<exists>x. read_input (buffer, es) = (In_Frame x, buffer', es') \<and> bodies = x # bodies'))"
proof -
  from sock_read_chunks [OF oc ne, of "4 - length buffer"] b obtain bs es1 where
    r: "sock_read (4 - length buffer) es = (Got bs, es1)" "bs \<noteq> []" "length bs \<le> 4 - length buffer"
    and d: "sock_data es = bs @ sock_data es1" "only_chunks es1" by auto
  show ?thesis
  proof (cases "length (buffer @ bs) = 4")
    case False
    have "length (buffer @ bs) < 4" using r(3) b False by auto
    moreover have "read_input (buffer, es) = (In_Nothing, buffer @ bs, es1)"
      using r False by (simp add: read_input_def Let_def)
    moreover have "length (sock_data es1) < length (sock_data es)" using d r(2) by simp
    moreover have "(buffer @ bs) @ sock_data es1 = concat (map frame_bytes bodies)" using data d by simp
    ultimately show ?thesis using d(2) by blast
  next
    case True
    obtain x rest where x: "bodies = x # rest" using data d r(2) by (cases bodies) auto
    have eq: "(buffer @ bs) @ sock_data es1 = u32_to_be (of_nat (length x)) @ x @ concat (map frame_bytes rest)"
      using data d x by (simp add: frame_bytes_def)
    have "length (buffer @ bs) = length (u32_to_be (of_nat (length x)))" using True by (simp add: u32_to_be_length)
    note sp = eq [unfolded append_eq_append_conv [OF disjI1 [OF this]]]
    from sp have hd: "buffer @ bs = u32_to_be (of_nat (length x))"
      and tail: "sock_data es1 = x @ concat (map frame_bytes rest)"
      by simp_all
    have lx: "length x \<le> MAX_FRAME_BYTES" using lim x by simp
    have len: "unat (u32_from_be (buffer @ bs)) = length x"
      unfolding hd u32_be_round_trip using lx by (simp add: unat_of_nat wire_limits)
    from read_exact_chunks [OF d(2), of "length x"] tail obtain es2 where
      e: "read_exact_resilient (length x) es1 = (Inr x, es2)"
      "sock_data es2 = concat (map frame_bytes rest)" "only_chunks es2" by auto
    have "read_input (buffer, es) = (In_Frame x, [], es2)"
      using r True len lx e by (simp add: read_input_def Let_def)
    moreover have "length (sock_data es2) < length (sock_data es)" using e(2) tail d r(2) by simp
    moreover have "[] @ sock_data es2 = concat (map frame_bytes rest)" using e(2) by simp
    ultimately show ?thesis using x e(3) by (metis length_greater_0_conv list.size(3) zero_less_numeral)
  qed
qed

lemma framing:
  assumes "only_chunks es" "length buffer < 4" "\<forall>x \<in> set bodies. length x \<le> MAX_FRAME_BYTES"
    and "buffer @ sock_data es = concat (map frame_bytes bodies)"
  shows "\<exists>n xs. read_inputs n (buffer, es) = (xs, [], []) \<and> frames_of xs = bodies \<and> quiet_inputs xs"
  using assms
proof (induction "length (sock_data es)" arbitrary: es buffer bodies rule: less_induct)
  case less
  show ?case
  proof (cases "sock_data es = []")
    case True
    with less.prems(1) have es: "es = []" by (rule only_chunks_empty)
    have "bodies = []"
    proof (cases bodies)
      case (Cons x rest)
      then have "4 \<le> length (concat (map frame_bytes bodies))" by (simp add: frame_bytes_def u32_to_be_def)
      with less.prems(2,4) True show ?thesis by (metis append_Nil2 not_le)
    qed simp
    with less.prems(4) True es show ?thesis
      by (intro exI [of _ 0] exI [of _ "[]"]) (simp add: frames_of_def quiet_inputs_def)
  next
    case False
    from read_input_step [OF less.prems(1) False less.prems(2-4)]
    obtain buffer' es' bodies' i where sm: "length (sock_data es') < length (sock_data es)" "only_chunks es'"
        "length buffer' < 4" "buffer' @ sock_data es' = concat (map frame_bytes bodies')"
      and ri: "read_input (buffer, es) = (i, buffer', es')"
      and i: "i = In_Nothing \<and> bodies = bodies' \<or> (\<exists>x. i = In_Frame x \<and> bodies = x # bodies')" by blast
    have "\<forall>x \<in> set bodies'. length x \<le> MAX_FRAME_BYTES" using less.prems(3) i by auto
    from less.hyps [OF sm(1-3) this sm(4)] obtain n xs where
      n: "read_inputs n (buffer', es') = (xs, [], [])" "frames_of xs = bodies'" "quiet_inputs xs" by blast
    have "read_inputs (Suc n) (buffer, es) = (i # xs, [], [])" using ri n(1) by simp
    moreover have "frames_of (i # xs) = bodies" "quiet_inputs (i # xs)"
      using i n(2,3) by (auto simp: frames_of_def quiet_inputs_def)
    ultimately show ?thesis by blast
  qed
qed

text \<open>
  C23: framing round-trips. However the concatenation of the encoded frames is cut into pieces on its
  way, the reading loop recovers exactly the bodies, in order, each as one frame, and ends between two
  frames with nothing buffered.
\<close>

theorem framing_round_trip:
  assumes "only_chunks es" "\<forall>x \<in> set bodies. length x \<le> MAX_FRAME_BYTES"
    and "sock_data es = concat (map frame_bytes bodies)"
  shows "\<exists>n xs. read_inputs n ([], es) = (xs, [], []) \<and> frames_of xs = bodies \<and> quiet_inputs xs"
  by (rule framing [OF assms(1) _ assms(2)]) (simp_all add: assms(3))

theorem framing_round_trip_witness:
  "\<exists>n xs. read_inputs n ([], [Chunk [0, 0], Chunk [0, 2, 123], Chunk [125, 0, 0, 0], Chunk [0]]) = (xs, [], []) \<and>
     frames_of xs = [[123, 125], []]"
  using framing_round_trip [of "[Chunk [0, 0], Chunk [0, 2, 123], Chunk [125, 0, 0, 0], Chunk [0]]" "[[123, 125], []]"]
  by (auto simp: only_chunks_def sock_data_def frame_bytes_def u32_to_be_def wire_limits)

section \<open>Limits\<close>

definition transport_ok :: "'j debug_transport \<Rightarrow> bool" where
  "transport_ok t \<longleftrightarrow> length (dt_inbox t) \<le> MAX_INBOX_REQUESTS \<and> length (dt_outbox t) \<le> MAX_OUTBOX_RESPONSES"

lemma push_response_ok: "transport_ok t \<Longrightarrow> transport_ok (push_response body g t)"
  by (simp add: transport_ok_def push_response_def)

lemma respond_keeps [intro]:
  "transport_ok t \<Longrightarrow> transport_ok (respond_error J rid code dc msg g t)"
  "transport_ok t \<Longrightarrow> transport_ok (respond_ok J rid res g t)"
  by (simp_all add: respond_error_def respond_ok_def Let_def push_response_ok)

lemma accept_request_ok [intro]: "transport_ok t \<Longrightarrow> transport_ok (accept_request J i m ps g t)"
  by (auto simp: accept_request_def) (auto simp: transport_ok_def)

lemma add_id_ok:
  "transport_ok t \<Longrightarrow> transport_ok (t\<lparr> dt_active_ids := dt_active_ids t @ [k] \<rparr>)"
  by (simp add: transport_ok_def)

lemma handle_frame_ok: "transport_ok t \<Longrightarrow> transport_ok (handle_frame J bytes g t)"
  unfolding handle_frame_def Let_def by (auto split: option.split intro: add_id_ok)

lemma free_id_ok: "transport_ok t \<Longrightarrow> transport_ok (t\<lparr> dt_active_ids := filter p (dt_active_ids t) \<rparr>)"
  by (simp add: transport_ok_def)

lemma write_responses_ok:
  "write_responses J g rs t out = (r, t', out') \<Longrightarrow> transport_ok t \<Longrightarrow> transport_ok t'"
proof (induction rs arbitrary: t out)
  case (Cons x rs)
  from Cons.prems show ?case
    by (auto simp: Let_def split: if_splits sum.splits option.splits intro: Cons.IH free_id_ok)
qed simp

lemma connection_round_ok:
  assumes "transport_ok (cn_transport c)"
  shows "transport_ok (cn_transport (snd (connection_round J g c)))"
proof -
  obtain r t1 out where w: "write_responses J g (dt_outbox (cn_transport c)) ((cn_transport c)\<lparr> dt_outbox := [] \<rparr>)
      (cn_out c) = (r, t1, out)" by (metis prod_cases3)
  have "transport_ok ((cn_transport c)\<lparr> dt_outbox := [] \<rparr>)" using assms by (simp add: transport_ok_def)
  with write_responses_ok [OF w] have "transport_ok t1" .
  moreover obtain i b es where "read_input (cn_buffer c, cn_events c) = (i, b, es)" by (metis prod_cases3)
  ultimately show ?thesis
    using w by (cases r; cases i) (auto simp: connection_round_def Let_def handle_frame_ok)
qed

lemma dispatch_request_ok:
  "transport_ok (fst s) \<Longrightarrow> transport_ok (fst (dispatch_request J G intro topics q s))"
  by (auto simp: dispatch_request_def Let_def case_prod_beta split: option.split sum.split)

lemma respond_result_ok: "transport_ok t \<Longrightarrow> transport_ok (respond_result J r t)"
  by (auto simp: respond_result_def split: sum.split debug_wire_error_code.split)

lemma drain_topic_ok: "transport_ok (fst s) \<Longrightarrow> transport_ok (fst (drain_topic J g e s))"
  by (auto simp: drain_topic_def Let_def case_prod_beta intro!: fold_invariant [where P = transport_ok] respond_result_ok)

lemma dispatch_run_ok:
  assumes "transport_ok (fst s)"
  shows "transport_ok (fst (dispatch_run J G intro topics s))"
proof -
  obtain t w where s: "s = (t, w)" by fastforce
  let ?rs = "filter (\<lambda>q. wq_generation q = current_generation t) (dt_inbox t)"
  have "transport_ok (fst (t\<lparr> dt_inbox := [] \<rparr>, w))" using assms s by (simp add: transport_ok_def)
  then have "transport_ok (fst (fold (dispatch_request J G intro topics) ?rs (t\<lparr> dt_inbox := [] \<rparr>, w)))"
    by (rule fold_invariant [where P = "\<lambda>s. transport_ok (fst s)"]) (rule dispatch_request_ok)
  then have "transport_ok (fst (fold (drain_topic J (current_generation t)) topics
      (fold (dispatch_request J G intro topics) ?rs (t\<lparr> dt_inbox := [] \<rparr>, w))))"
    by (rule fold_invariant [where P = "\<lambda>s. transport_ok (fst s)"]) (rule drain_topic_ok)
  then show ?thesis by (simp add: s dispatch_run_def Let_def)
qed

text \<open>What happens to the transport: a client connects, the I/O worker turns, the main thread dispatches.\<close>

datatype ('j, 'w, 'p) wire_op =
    W_Accept "sock_event list"
  | W_Round
  | W_Dispatch gate_env "string \<Rightarrow> 'j option" "('w, 'j, 'p) topic_entry list"

fun wire_step ::
  "'j wire_json \<Rightarrow> ('j, 'w, 'p) wire_op \<Rightarrow> (u64 \<times> 'j connection) \<times> 'w \<Rightarrow> (u64 \<times> 'j connection) \<times> 'w" where
  "wire_step J (W_Accept es) ((g, c), w) = (start_connection (cn_transport c) es, w)"
| "wire_step J W_Round ((g, c), w) = ((g, snd (connection_round J g c)), w)"
| "wire_step J (W_Dispatch G intro topics) ((g, c), w) =
     (case dispatch_run J G intro topics (cn_transport c, w) of (t, w') \<Rightarrow> ((g, c\<lparr> cn_transport := t \<rparr>), w'))"

definition wire_start :: "u64 \<times> 'j connection" where
  "wire_start = (0, \<lparr> cn_transport = transport_new, cn_buffer = [], cn_events = [], cn_out = [] \<rparr>)"

text \<open>Reading: a read gives at most what was asked for, so the prefix never outgrows its four bytes and a
  body never its announced length.\<close>

lemma sock_read_bound: "sock_read n es = (Got bs, es') \<Longrightarrow> length bs \<le> n"
  by (cases "(n, es)" rule: sock_read.cases) (auto split: if_splits)

lemma read_exact_length: "read_exact_resilient need es = (Inr body, es') \<Longrightarrow> length body = need"
proof (induction need es arbitrary: body es' rule: read_exact_resilient.induct)
  case (1 need es)
  show ?case
  proof (cases "need = 0")
    case False
    with "1.prems" obtain bs es1 rest where r: "sock_read need es = (Got bs, es1)"
      "read_exact_resilient (need - length bs) es1 = (Inr rest, es')" "body = bs @ rest"
      by (subst (asm) read_exact_resilient.simps)
        (auto split: prod.splits sock_input.splits simp: bind_result_eq_Inr)
    from "1.IH" [OF False r(1) [symmetric] refl r(2)] sock_read_bound [OF r(1)] r(3) show ?thesis by simp
  qed (use "1.prems" in \<open>simp add: read_exact_resilient.simps\<close>)
qed

lemma read_input_bounds:
  assumes "read_input (buffer, es) = (i, buffer', es')" and "length buffer < 4"
  shows "length buffer' < 4" and "i = In_Frame body \<Longrightarrow> length body \<le> MAX_FRAME_BYTES"
proof -
  obtain x es1 where x: "sock_read (4 - length buffer) es = (x, es1)" by fastforce
  have "length buffer' < 4 \<and> (\<forall>body. i = In_Frame body \<longrightarrow> length body \<le> MAX_FRAME_BYTES)"
  proof (cases x)
    case (Got bs)
    with x sock_read_bound [of "4 - length buffer" es bs es1] assms(2) have "length (buffer @ bs) \<le> 4" by simp
    then show ?thesis
      using assms x Got read_exact_length
      by (auto simp: read_input_def Let_def split: if_splits prod.splits sum.splits)
  qed (use assms x in \<open>auto simp: read_input_def split: if_splits\<close>)
  then show "length buffer' < 4" and "i = In_Frame body \<Longrightarrow> length body \<le> MAX_FRAME_BYTES" by auto
qed

lemma connection_round_buffer:
  assumes "length (cn_buffer c) < 4"
  shows "length (cn_buffer (snd (connection_round J g c))) < 4"
proof -
  obtain r t1 out where w: "write_responses J g (dt_outbox (cn_transport c)) ((cn_transport c)\<lparr> dt_outbox := [] \<rparr>)
      (cn_out c) = (r, t1, out)" by (metis prod_cases3)
  obtain i b es where i: "read_input (cn_buffer c, cn_events c) = (i, b, es)" by (metis prod_cases3)
  from read_input_bounds(1) [OF i assms] show ?thesis
    using w i assms by (cases r; cases i) (auto simp: connection_round_def Let_def)
qed

lemma wire_step_ok:
  assumes ok: "transport_ok (cn_transport (snd (fst s)))" and buf: "length (cn_buffer (snd (fst s))) < 4"
  shows "transport_ok (cn_transport (snd (fst (wire_step J e s)))) \<and> length (cn_buffer (snd (fst (wire_step J e s)))) < 4"
proof -
  obtain g c v where s: "s = ((g, c), v)" by (metis prod.exhaust)
  show ?thesis
  proof (cases e)
    case (W_Accept es)
    have "length (filter p (dt_outbox (cn_transport c))) \<le> MAX_OUTBOX_RESPONSES" for p
      using ok s by (intro le_trans [OF length_filter_le]) (simp add: transport_ok_def)
    with ok s W_Accept show ?thesis
      by (simp add: start_connection_def next_generation_def transport_ok_def)
  next
    case W_Round
    with ok buf s show ?thesis by (simp add: connection_round_ok connection_round_buffer)
  next
    case (W_Dispatch G intro topics)
    with ok buf s dispatch_run_ok [of "(cn_transport c, v)" J G intro topics] show ?thesis
      by (simp add: case_prod_beta)
  qed
qed


section \<open>Ids in flight\<close>

text \<open>A frame that is a request with id \<open>i\<close>, tracked as \<open>k\<close>.\<close>

definition request_frame :: "'j wire_json \<Rightarrow> u8 list \<Rightarrow> 'j \<Rightarrow> string \<Rightarrow> bool" where
  "request_frame J q i k \<longleftrightarrow> (\<exists>v m. wj_parse J q = Some v \<and> \<not> wj_is_array J v \<and> wj_is_object J v \<and>
     Option.bind (wj_get J v ''jsonrpc'') (wj_as_str J) = Some ''2.0'' \<and>
     Option.bind (wj_get J v ''method'') (wj_as_str J) = Some m \<and>
     wj_get J v ''id'' = Some i \<and> trackable_id J i = Some k)"

text \<open>Objects answer with the members they were built from, and serialise.\<close>

definition object_laws :: "'j wire_json \<Rightarrow> bool" where
  "object_laws J \<longleftrightarrow> (\<forall>ms key. wj_get J (wj_obj J ms) key = map_of ms key) \<and>
     (\<forall>ms. \<exists>bs. wj_to_vec J (wj_obj J ms) = Some bs \<and> length bs < 2 ^ 32)"

lemma handle_request_frame:
  assumes "request_frame J q i k"
  shows "\<exists>m ps. handle_frame J q g t =
    (if k \<in> set (dt_active_ids t) then respond_error J i (- 32600) None ''duplicate active id'' g t
     else accept_request J i m ps g (t\<lparr> dt_active_ids := dt_active_ids t @ [k] \<rparr>))"
proof -
  from assms obtain v m where "wj_parse J q = Some v" "\<not> wj_is_array J v" "wj_is_object J v"
    "Option.bind (wj_get J v ''jsonrpc'') (wj_as_str J) = Some ''2.0''"
    "Option.bind (wj_get J v ''method'') (wj_as_str J) = Some m"
    "wj_get J v ''id'' = Some i" "trackable_id J i = Some k" unfolding request_frame_def by blast
  then show ?thesis by (intro exI) (simp only: handle_frame_def Let_def option.case simp_thms if_True if_False)
qed

lemma respond_error_body:
  "length (dt_outbox t) < MAX_OUTBOX_RESPONSES \<Longrightarrow>
    \<exists>ms. respond_error J i code dc msg g t = t\<lparr> dt_outbox := dt_outbox t @
      [\<lparr> wr_body = wj_obj J ms, wr_generation = g \<rparr>] \<rparr> \<and> map_of ms ''id'' = Some i"
proof -
  assume "length (dt_outbox t) < MAX_OUTBOX_RESPONSES"
  then have "push_response b g t = t\<lparr> dt_outbox := dt_outbox t @ [\<lparr> wr_body = b, wr_generation = g \<rparr>] \<rparr>" for b
    by (simp add: push_response_def)
  then show ?thesis unfolding respond_error_def Let_def by (intro exI conjI, assumption) simp
qed

lemma write_one:
  assumes "object_laws J" "map_of ms ''id'' = Some i" "trackable_id J i = Some k"
  shows "\<exists>out'. write_responses J g [\<lparr> wr_body = wj_obj J ms, wr_generation = g \<rparr>] t out =
    (Inr (), t\<lparr> dt_active_ids := filter (\<lambda>a. a \<noteq> k) (dt_active_ids t) \<rparr>, out')"
proof -
  from assms(1) obtain bs where "wj_to_vec J (wj_obj J ms) = Some bs" "length bs < 2 ^ 32"
    unfolding object_laws_def by blast
  then have "encode_frame J (wj_obj J ms) = Inr (frame_bytes bs)" by (simp add: encode_frame_def)
  moreover have "wj_get J (wj_obj J ms) ''id'' = Some i" using assms(1,2) by (simp add: object_laws_def)
  ultimately show ?thesis using assms(3) by simp
qed

text \<open>
  Ids in flight are not unique after all. While a request waits in the inbox, a second one with its
  id is refused, but writing that refusal frees the id of the first one, so a third request with the
  same id is accepted: two requests of one connection are in flight under one id.
\<close>

theorem duplicate_refusal_frees_id:
  assumes J: "object_laws J" and q: "request_frame J q i k"
    and t: "dt_outbox t = []" "length (dt_inbox t) + 2 \<le> MAX_INBOX_REQUESTS" "k \<notin> set (dt_active_ids t)"
  shows "let t2 = handle_frame J q g (handle_frame J q g t);
      (r, t3, out) = write_responses J g (dt_outbox t2) (t2\<lparr> dt_outbox := [] \<rparr>) [] in
    map wq_id (dt_inbox (handle_frame J q g t3)) = map wq_id (dt_inbox t) @ [i, i]"
proof -
  have tr: "trackable_id J i = Some k" using q by (auto simp: request_frame_def)
  from handle_request_frame [OF q, of g t] t obtain m ps where
    h1: "handle_frame J q g t = t\<lparr> dt_active_ids := dt_active_ids t @ [k], dt_inbox := dt_inbox t @
      [\<lparr> wq_id = i, wq_method = m, wq_params = ps, wq_generation = g \<rparr>] \<rparr>"
    by (auto simp: accept_request_def)
  let ?t1 = "handle_frame J q g t"
  have "length (dt_outbox ?t1) < MAX_OUTBOX_RESPONSES" using h1 t(1) by (simp add: wire_limits)
  from respond_error_body [OF this] obtain ms where
    e: "respond_error J i (- 32600) None ''duplicate active id'' g ?t1 =
      ?t1\<lparr> dt_outbox := dt_outbox ?t1 @ [\<lparr> wr_body = wj_obj J ms, wr_generation = g \<rparr>] \<rparr>"
    "map_of ms ''id'' = Some i" by blast
  have h2: "handle_frame J q g ?t1 = ?t1\<lparr> dt_outbox := [\<lparr> wr_body = wj_obj J ms, wr_generation = g \<rparr>] \<rparr>"
    using handle_request_frame [OF q, of g ?t1] e(1) h1 t(1) by simp
  let ?t2 = "handle_frame J q g ?t1"
  have o2: "dt_outbox ?t2 = [\<lparr> wr_body = wj_obj J ms, wr_generation = g \<rparr>]" by (simp add: h2)
  from write_one [OF J e(2) tr, of g "?t2\<lparr> dt_outbox := [] \<rparr>" "[]"] obtain out where
    w: "write_responses J g (dt_outbox ?t2) (?t2\<lparr> dt_outbox := [] \<rparr>) [] =
      (Inr (), ?t2\<lparr> dt_outbox := [], dt_active_ids := filter (\<lambda>a. a \<noteq> k) (dt_active_ids ?t2) \<rparr>, out)"
    unfolding o2 by auto
  let ?t3 = "?t2\<lparr> dt_outbox := [], dt_active_ids := filter (\<lambda>a. a \<noteq> k) (dt_active_ids ?t2) \<rparr>"
  have "map wq_id (dt_inbox (handle_frame J q g ?t3)) = map wq_id (dt_inbox ?t3) @ [i]"
    using handle_request_frame [OF q, of g ?t3] h1 h2 t(2) by (auto simp: accept_request_def)
  then show ?thesis using w h1 h2 by (simp add: Let_def)
qed

text \<open>An instance of the JSON operations to apply it to: every frame is the same request.\<close>

datatype mini_json = MJ_Null | MJ_Str string | MJ_Int int | MJ_Obj "(string \<times> mini_json) list"

fun mini_get :: "mini_json \<Rightarrow> string \<Rightarrow> mini_json option" where
  "mini_get (MJ_Obj ms) k = map_of ms k"
| "mini_get _ k = None"

fun mini_as_str :: "mini_json \<Rightarrow> string option" where
  "mini_as_str (MJ_Str s) = Some s"
| "mini_as_str _ = None"

definition mini_wire :: "mini_json wire_json" where
  "mini_wire = \<lparr> wj_parse = (\<lambda>_. Some (MJ_Obj [(''jsonrpc'', MJ_Str ''2.0''), (''method'', MJ_Str ''fps''),
       (''id'', MJ_Str ''a'')])),
     wj_to_vec = (\<lambda>_. Some [123, 125]), wj_to_string = mini_as_str, wj_is_null = (\<lambda>v. v = MJ_Null),
     wj_is_array = (\<lambda>_. False), wj_is_object = (\<lambda>v. case v of MJ_Obj _ \<Rightarrow> True | _ \<Rightarrow> False), wj_get = mini_get,
     wj_as_str = mini_as_str, wj_null = MJ_Null, wj_str = MJ_Str, wj_int = MJ_Int, wj_obj = MJ_Obj \<rparr>"

theorem duplicate_refusal_frees_id_witness:
  "let t2 = handle_frame mini_wire [] 1 (handle_frame mini_wire [] 1 transport_new);
      (r, t3, out) = write_responses mini_wire 1 (dt_outbox t2) (t2\<lparr> dt_outbox := [] \<rparr>) [] in
    map wq_id (dt_inbox (handle_frame mini_wire [] 1 t3)) = [MJ_Str ''a'', MJ_Str ''a'']"
proof -
  have "object_laws mini_wire" by (simp add: object_laws_def mini_wire_def)
  moreover have "request_frame mini_wire [] (MJ_Str ''a'') ''a''"
    by (simp add: request_frame_def mini_wire_def trackable_id_def)
  ultimately show ?thesis
    using duplicate_refusal_frees_id [of mini_wire "[]" "MJ_Str ''a''" "''a''" transport_new 1]
    by (simp add: transport_new_def wire_limits)
qed

end
