(* ===== verification/Unicode.thy ===== *)
theory Unicode
  imports Prelude "HOL-Library.List_Lexorder"
begin

text \<open>
  Rust's \<open>String\<close> as the list of its characters, and the operations of the standard library on it
  that the plugins use: UTF-16 decoding and encoding, decimal printing, trimming, prefixes and
  replacement.  The order of strings is the order of their characters, which is that of their UTF-8
  bytes.
\<close>

type_synonym ustr = "nat list"

definition ustr :: "string \<Rightarrow> ustr" where "ustr s = map of_char s"

text \<open>A \<open>char\<close> is a Unicode scalar value.\<close>

definition scalar :: "nat \<Rightarrow> bool" where
  "scalar c \<longleftrightarrow> c < 0xD800 \<or> 0xE000 \<le> c \<and> c < 0x110000"

definition valid_ustr :: "ustr \<Rightarrow> bool" where "valid_ustr s = list_all scalar s"

section \<open>UTF-16\<close>

definition high_surrogate :: "u16 \<Rightarrow> bool" where
  "high_surrogate u \<longleftrightarrow> 0xD800 \<le> unat u \<and> unat u < 0xDC00"

definition low_surrogate :: "u16 \<Rightarrow> bool" where
  "low_surrogate u \<longleftrightarrow> 0xDC00 \<le> unat u \<and> unat u < 0xE000"

definition join_surrogates :: "u16 \<Rightarrow> u16 \<Rightarrow> nat" where
  "join_surrogates h l = 0x10000 + (unat h - 0xD800) * 0x400 + (unat l - 0xDC00)"

text \<open>\<open>char::decode_utf16\<close>: an unpaired surrogate is an error, and decoding goes on behind it.\<close>

fun decode_utf16 :: "u16 list \<Rightarrow> (u16, nat) result list" where
  "decode_utf16 [] = []"
| "decode_utf16 [u] = [if high_surrogate u \<or> low_surrogate u then Inl u else Inr (unat u)]"
| "decode_utf16 (u # v # us) =
     (if high_surrogate u then
        (if low_surrogate v then Inr (join_surrogates u v) # decode_utf16 us
         else Inl u # decode_utf16 (v # us))
      else if low_surrogate u then Inl u # decode_utf16 (v # us)
      else Inr (unat u) # decode_utf16 (v # us))"

definition from_utf16 :: "u16 list \<Rightarrow> ustr option" where
  "from_utf16 us = (case collect_results (decode_utf16 us) of Inl _ \<Rightarrow> None | Inr s \<Rightarrow> Some s)"

definition from_utf16_lossy :: "u16 list \<Rightarrow> ustr" where
  "from_utf16_lossy us = map (\<lambda>r. case r of Inl _ \<Rightarrow> 0xFFFD | Inr c \<Rightarrow> c) (decode_utf16 us)"

definition encode_char :: "nat \<Rightarrow> u16 list" where
  "encode_char c =
     (if c < 0x10000 then [of_nat c]
      else [of_nat (0xD800 + (c - 0x10000) div 0x400), of_nat (0xDC00 + (c - 0x10000) mod 0x400)])"

definition encode_utf16 :: "ustr \<Rightarrow> u16 list" where
  "encode_utf16 s = concat (map encode_char s)"

lemma unat_of_nat_16: "k < 0x10000 \<Longrightarrow> unat (of_nat k :: u16) = k"
  by (simp add: unat_of_nat)

lemma scalar_unit:
  "scalar c \<Longrightarrow> c < 0x10000 \<Longrightarrow> unat (of_nat c :: u16) = c \<and> \<not> high_surrogate (of_nat c) \<and> \<not> low_surrogate (of_nat c)"
  by (auto simp: scalar_def unat_of_nat high_surrogate_def low_surrogate_def)

lemma scalar_pair:
  assumes "scalar c" "\<not> c < 0x10000"
  defines "h \<equiv> of_nat (0xD800 + (c - 0x10000) div 0x400) :: u16"
    and "l \<equiv> of_nat (0xDC00 + (c - 0x10000) mod 0x400) :: u16"
  shows "high_surrogate h" "low_surrogate l" "join_surrogates h l = c"
proof -
  have "c - 0x10000 < 0x100000" using assms(1) by (auto simp: scalar_def)
  then have d: "(c - 0x10000) div 0x400 < 0x400" by auto
  have m: "(c - 0x10000) mod 0x400 < 0x400" by simp
  have uh: "unat h = 0xD800 + (c - 0x10000) div 0x400" unfolding h_def using d by (intro unat_of_nat_16) simp
  have ul: "unat l = 0xDC00 + (c - 0x10000) mod 0x400" unfolding l_def using m by (intro unat_of_nat_16) simp
  show "high_surrogate h" "low_surrogate l" using uh ul d m by (simp_all add: high_surrogate_def low_surrogate_def)
  have "(c - 0x10000) div 0x400 * 0x400 + (c - 0x10000) mod 0x400 = c - 0x10000" by simp
  then show "join_surrogates h l = c" using assms(2) unfolding join_surrogates_def uh ul by simp
qed

lemma decode_plain: "\<not> high_surrogate u \<Longrightarrow> \<not> low_surrogate u \<Longrightarrow> decode_utf16 (u # us) = Inr (unat u) # decode_utf16 us"
  by (cases us) simp_all

lemma decode_encode_char:
  assumes "scalar c"
  shows "decode_utf16 (encode_char c @ us) = Inr c # decode_utf16 us"
proof (cases "c < 0x10000")
  case True
  with scalar_unit [OF assms True] show ?thesis by (simp add: encode_char_def decode_plain)
next
  case False
  with scalar_pair [OF assms False] show ?thesis by (simp add: encode_char_def)
qed

lemma decode_encode: "valid_ustr s \<Longrightarrow> decode_utf16 (encode_utf16 s) = map Inr s"
  by (induction s) (simp_all add: encode_utf16_def valid_ustr_def decode_encode_char)

lemma collect_Inr [simp]: "collect_results (map Inr s) = Inr s"
  by (induction s) simp_all

lemma from_encode_utf16 [simp]: "valid_ustr s \<Longrightarrow> from_utf16 (encode_utf16 s) = Some s"
  by (simp add: from_utf16_def decode_encode)

lemma unat_16: "unat (u :: u16) < 0x10000"
  using unsigned_less [of u] by simp

lemma unit_scalar: "\<not> high_surrogate u \<Longrightarrow> \<not> low_surrogate u \<Longrightarrow> scalar (unat u)"
  using unat_16 [of u] by (auto simp: scalar_def high_surrogate_def low_surrogate_def)

lemma join_encode:
  assumes "high_surrogate h" "low_surrogate l"
  shows "scalar (join_surrogates h l)" "encode_char (join_surrogates h l) = [h, l]"
proof -
  let ?a = "unat h - 0xD800" and ?b = "unat l - 0xDC00"
  have ab: "?a < 0x400" "?b < 0x400" "0xD800 + ?a = unat h" "0xDC00 + ?b = unat l"
    using assms by (auto simp: high_surrogate_def low_surrogate_def)
  have "(?a * 0x400 + ?b) div 0x400 = ?a" "(?a * 0x400 + ?b) mod 0x400 = ?b" using ab(2) by auto
  then show "encode_char (join_surrogates h l) = [h, l]"
    by (simp add: encode_char_def join_surrogates_def ab(3,4) add.assoc)
  show "scalar (join_surrogates h l)" using ab(1,2) by (simp add: scalar_def join_surrogates_def)
qed

lemma from_utf16_sound:
  "collect_results (decode_utf16 us) = Inr s \<Longrightarrow> valid_ustr s \<and> encode_utf16 s = us"
proof (induction us arbitrary: s rule: decode_utf16.induct)
  case (2 u)
  then show ?case
    using unat_16 [of u]
    by (auto simp: valid_ustr_def encode_utf16_def encode_char_def unit_scalar split: if_splits)
next
  case (3 u v us)
  show ?case
  proof (cases "high_surrogate u")
    case True
    with "3.prems" have "low_surrogate v" by (cases "low_surrogate v") simp_all
    with True "3.IH"(1) "3.prems" join_encode [of u v] show ?thesis
      by (auto simp: valid_ustr_def encode_utf16_def)
  next
    case False
    with "3.prems" have l: "\<not> low_surrogate u" by (cases "low_surrogate u") simp_all
    with False "3.IH"(4) "3.prems" unit_scalar [OF False l] unat_16 [of u] show ?thesis
      by (auto simp: valid_ustr_def encode_utf16_def encode_char_def)
  qed
qed (auto simp: valid_ustr_def encode_utf16_def)

lemma from_utf16_iff: "from_utf16 us = Some s \<longleftrightarrow> valid_ustr s \<and> us = encode_utf16 s"
  using from_utf16_sound [of us s] from_encode_utf16 [of s]
  by (auto simp: from_utf16_def split: sum.splits)

section \<open>Decimal numbers\<close>

fun nat_digits :: "nat \<Rightarrow> nat \<Rightarrow> ustr" where
  "nat_digits 0 n = []"
| "nat_digits (Suc f) n = (if n < 10 then [48 + n] else nat_digits f (n div 10) @ [48 + n mod 10])"

definition decimal :: "nat \<Rightarrow> ustr" where "decimal n = nat_digits (Suc n) n"

definition u32_decimal :: "u32 \<Rightarrow> ustr" where "u32_decimal w = decimal (unat w)"

definition i32_decimal :: "i32 \<Rightarrow> ustr" where
  "i32_decimal w = (if sint w < 0 then 45 # decimal (nat (- sint w)) else decimal (nat (sint w)))"

text \<open>\<open>{n:02}\<close>\<close>

definition decimal2 :: "nat \<Rightarrow> ustr" where
  "decimal2 n = (let d = decimal n in replicate (2 - length d) 48 @ d)"

fun digits_value :: "ustr \<Rightarrow> nat \<Rightarrow> nat" where
  "digits_value [] acc = acc"
| "digits_value (d # ds) acc = digits_value ds (acc * 10 + (d - 48))"

lemma digits_value_append: "digits_value (xs @ ys) acc = digits_value ys (digits_value xs acc)"
  by (induction xs arbitrary: acc) simp_all

lemma digits_value_nat: "n < f \<Longrightarrow> digits_value (nat_digits f n) 0 = n"
proof (induction f arbitrary: n)
  case (Suc f)
  then have "n div 10 < f" if "\<not> n < 10" using that by (auto intro: less_le_trans)
  with Suc.IH show ?case by (simp add: digits_value_append)
qed simp

lemma decimal_value: "digits_value (decimal n) 0 = n"
  by (simp add: decimal_def digits_value_nat del: nat_digits.simps)

lemma decimal_inj [simp]: "decimal m = decimal n \<longleftrightarrow> m = n"
  by (metis decimal_value)

lemma nat_digits_digit: "c \<in> set (nat_digits f n) \<Longrightarrow> 48 \<le> c \<and> c < 58"
  by (induction f arbitrary: n) (auto split: if_splits)

lemma decimal_head: "hd (decimal n) \<noteq> 45"
proof -
  have "decimal n \<noteq> []" by (simp add: decimal_def)
  then have "hd (decimal n) \<in> set (decimal n)" by simp
  then have "48 \<le> hd (decimal n)" unfolding decimal_def by (blast dest: nat_digits_digit)
  then show ?thesis by linarith
qed

section \<open>Trimming, prefixes, replacement\<close>

definition is_white :: "nat \<Rightarrow> bool" where
  "is_white c \<longleftrightarrow> 9 \<le> c \<and> c \<le> 13 \<or> c = 0x20 \<or> c = 0x85 \<or> c = 0xA0 \<or> c = 0x1680 \<or> 0x2000 \<le> c \<and> c \<le> 0x200A \<or>
     c = 0x2028 \<or> c = 0x2029 \<or> c = 0x202F \<or> c = 0x205F \<or> c = 0x3000"

definition trim :: "ustr \<Rightarrow> ustr" where
  "trim s = rev (dropWhile is_white (rev (dropWhile is_white s)))"

fun strip_prefix :: "ustr \<Rightarrow> ustr \<Rightarrow> ustr option" where
  "strip_prefix [] s = Some s"
| "strip_prefix (p # ps) [] = None"
| "strip_prefix (p # ps) (c # cs) = (if p = c then strip_prefix ps cs else None)"

definition starts_with :: "ustr \<Rightarrow> ustr \<Rightarrow> bool" where
  "starts_with p s \<longleftrightarrow> strip_prefix p s \<noteq> None"

definition ends_with :: "ustr \<Rightarrow> ustr \<Rightarrow> bool" where
  "ends_with p s \<longleftrightarrow> strip_prefix (rev p) (rev s) \<noteq> None"

fun contains :: "ustr \<Rightarrow> ustr \<Rightarrow> bool" where
  "contains p [] \<longleftrightarrow> p = []"
| "contains p (c # cs) \<longleftrightarrow> starts_with p (c # cs) \<or> contains p cs"

lemma strip_prefix_Some: "strip_prefix p s = Some r \<longleftrightarrow> s = p @ r"
  by (induction p s rule: strip_prefix.induct) auto

text \<open>\<open>trim_start_matches\<close> takes every leading copy of a non-empty pattern away; \<open>replace_all\<close> replaces
  the copies from the left.\<close>

function trim_start_matches :: "ustr \<Rightarrow> ustr \<Rightarrow> ustr" where
  "trim_start_matches p s =
     (case strip_prefix p s of None \<Rightarrow> s | Some r \<Rightarrow> if p = [] then s else trim_start_matches p r)"
  by pat_completeness auto
termination
  by (relation "measure (\<lambda>(p, s). length s)") (auto simp: strip_prefix_Some)

function replace_all :: "ustr \<Rightarrow> ustr \<Rightarrow> ustr \<Rightarrow> ustr" where
  "replace_all p q s =
     (case s of
        [] \<Rightarrow> []
      | c # cs \<Rightarrow>
          (case strip_prefix p s of
             Some r \<Rightarrow> if p = [] then s else q @ replace_all p q r
           | None \<Rightarrow> c # replace_all p q cs))"
  by pat_completeness auto
termination
  by (relation "measure (\<lambda>(p, q, s). length s)") (auto simp: strip_prefix_Some)

declare trim_start_matches.simps [simp del] replace_all.simps [simp del]

end
