(* ===== verification/Dump_State.thy ===== *)
theory Dump_State
  imports Unicode Mailbox
begin

text \<open>
  The collected dump of \<open>crates/translation_dump/src/lib.rs\<close>: the bounded records the hooks send, the
  table of texts, merging, and the flush to disk.  \<open>BTreeMap\<close> is a sorted association list; the file
  system is its files and directories, and every operation on it fails where the argument of type
  \<open>write_faults\<close> says so.  \<open>serde_json\<close> is the parameter \<open>dump_json\<close>.
\<close>

section \<open>Ordered maps\<close>

fun bt_insert :: "'k::linorder \<Rightarrow> 'v \<Rightarrow> ('k \<times> 'v) list \<Rightarrow> ('k \<times> 'v) list" where
  "bt_insert k v [] = [(k, v)]"
| "bt_insert k v ((a, b) # m) =
     (if k < a then (k, v) # (a, b) # m else if k = a then (k, v) # m else (a, b) # bt_insert k v m)"

definition bt_sorted :: "('k::linorder \<times> 'v) list \<Rightarrow> bool" where
  "bt_sorted m = sorted_wrt (<) (map fst m)"

text \<open>What the clients of a map rely on; the lemmas of several inserts in a row follow from it.\<close>

locale ordered_map =
  fixes lookup :: "'m \<Rightarrow> 'k \<Rightarrow> 'v option"
    and insert :: "'k \<Rightarrow> 'v \<Rightarrow> 'm \<Rightarrow> 'm"
    and inv :: "'m \<Rightarrow> bool"
  assumes inv_insert: "inv m \<Longrightarrow> inv (insert k v m)"
    and lookup_insert: "inv m \<Longrightarrow> lookup (insert k v m) x = (if x = k then Some v else lookup m x)"
begin

lemma inv_inserts: "inv m \<Longrightarrow> inv (fold (\<lambda>(k, v). insert k v) kvs m)"
  by (induction kvs arbitrary: m) (auto simp: inv_insert)

lemma lookup_inserts:
  "inv m \<Longrightarrow> lookup (fold (\<lambda>(k, v). insert k v) kvs m) x =
     (case map_of (rev kvs) x of Some v \<Rightarrow> Some v | None \<Rightarrow> lookup m x)"
proof (induction kvs arbitrary: m)
  case (Cons kv kvs)
  obtain k v where kv: "kv = (k, v)" by fastforce
  from Cons.IH [OF inv_insert [OF Cons.prems], of k v] show ?case
    by (simp add: kv lookup_insert [OF Cons.prems] map_add_def split: option.splits)
qed simp

end

lemma bt_insert_keys: "set (map fst (bt_insert k v m)) = insert k (set (map fst m))"
  by (induction k v m rule: bt_insert.induct) auto

lemma bt_insert_sorted: "bt_sorted m \<Longrightarrow> bt_sorted (bt_insert k v m)"
proof (induction k v m rule: bt_insert.induct)
  case (2 k v a b m)
  then show ?case
    using bt_insert_keys [of k v m] by (auto simp: bt_sorted_def)
qed (simp add: bt_sorted_def)

lemma bt_lookup_insert: "bt_sorted m \<Longrightarrow> map_of (bt_insert k v m) x = (if x = k then Some v else map_of m x)"
  by (induction k v m rule: bt_insert.induct) (auto simp: bt_sorted_def)

lemma bt_insert_same: "bt_sorted m \<Longrightarrow> map_of m k = Some v \<Longrightarrow> bt_insert k v m = m"
proof (induction k v m rule: bt_insert.induct)
  case (2 k v a b m)
  show ?case
  proof (cases "k = a")
    case False
    with "2.prems"(2) have "map_of m k = Some v" by simp
    moreover from this have "k \<in> fst ` set m" by (auto dest: map_of_SomeD intro: rev_image_eqI)
    ultimately show ?thesis using 2 False by (force simp: bt_sorted_def)
  qed (use 2 in auto)
qed simp

interpretation bt: ordered_map map_of bt_insert bt_sorted
  by unfold_locales (simp_all add: bt_insert_sorted bt_lookup_insert)

section \<open>Records\<close>

definition CATEGORY_UTF16_CAPACITY :: nat where "CATEGORY_UTF16_CAPACITY = 128"
definition TEXT_UTF16_CAPACITY :: nat where "TEXT_UTF16_CAPACITY = 2048"
definition DUMP_QUEUE_CAPACITY :: nat where "DUMP_QUEUE_CAPACITY = 256"
definition FLUSH_INTERVAL_FRAMES :: u32 where "FLUSH_INTERVAL_FRAMES = 60"

lemmas dump_limits = CATEGORY_UTF16_CAPACITY_def TEXT_UTF16_CAPACITY_def

text \<open>The arrays have their full length; \<open>category_len\<close> and \<open>text_len\<close> say how much of them is used.\<close>

record dump_record =
  dr_category_len :: u16
  dr_text_len :: u16
  dr_num :: i32
  dr_category :: "u16 list"
  dr_text :: "u16 list"

definition copy_prefix :: "u16 list \<Rightarrow> nat \<Rightarrow> u16 list" where
  "copy_prefix xs n = xs @ replicate (n - length xs) 0"

definition dump_capture :: "u16 list \<Rightarrow> i32 \<Rightarrow> u16 list \<Rightarrow> dump_record option" where
  "dump_capture category num text =
     (if CATEGORY_UTF16_CAPACITY < length category \<or> TEXT_UTF16_CAPACITY < length text then None
      else Some \<lparr> dr_category_len = of_nat (length category), dr_text_len = of_nat (length text), dr_num = num,
        dr_category = copy_prefix category CATEGORY_UTF16_CAPACITY,
        dr_text = copy_prefix text TEXT_UTF16_CAPACITY \<rparr>)"

definition dump_decode :: "dump_record \<Rightarrow> (unit, ustr \<times> ustr \<times> ustr) result" where
  "dump_decode r =
     bind_result (ok_or () (from_utf16 (take (unat (dr_category_len r)) (dr_category r)))) (\<lambda>category.
     bind_result (ok_or () (from_utf16 (take (unat (dr_text_len r)) (dr_text r)))) (\<lambda>text.
       Inr (category, i32_decimal (dr_num r), text)))"

record lyrics_record =
  lr_len :: u16
  lr_source :: u8
  lr_text :: "u16 list"

definition lyrics_capture :: "u16 list \<Rightarrow> u8 \<Rightarrow> lyrics_record option" where
  "lyrics_capture text source =
     (if TEXT_UTF16_CAPACITY < length text then None
      else Some \<lparr> lr_len = of_nat (length text), lr_source = source, lr_text = copy_prefix text TEXT_UTF16_CAPACITY \<rparr>)"

definition lyrics_decode :: "lyrics_record \<Rightarrow> u8 \<times> ustr" where
  "lyrics_decode r =
     (lr_source r, case from_utf16 (take (unat (lr_len r)) (lr_text r)) of None \<Rightarrow> [] | Some s \<Rightarrow> s)"

definition SRC_MV_OVERLAY :: u8 where "SRC_MV_OVERLAY = 0"
definition SRC_TIMELINE :: u8 where "SRC_TIMELINE = 1"
definition SRC_TMP_TEXT :: u8 where "SRC_TMP_TEXT = 2"

text \<open>Relaxed counters, one \<open>u64\<close> each.\<close>

record dump_diagnostics =
  dg_get_bytes_seen :: u64
  dg_get_bytes_dumps :: u64
  dg_lyrics_seen :: u64
  dg_lyrics_kept :: u64
  dg_mv_lyrics_kept :: u64
  dg_timeline_lyrics_kept :: u64
  dg_tmp_texts_kept :: u64
  dg_hook_hits :: u64
  dg_get_text_hits :: u64
  dg_enqueued :: u64
  dg_null_strings :: u64
  dg_oversized :: u64
  dg_queue_full :: u64
  dg_invalid_utf16 :: u64
  dg_merged :: u64
  dg_flushes :: u64

definition diagnostics_default :: dump_diagnostics where
  "diagnostics_default = \<lparr> dg_get_bytes_seen = 0, dg_get_bytes_dumps = 0, dg_lyrics_seen = 0, dg_lyrics_kept = 0,
     dg_mv_lyrics_kept = 0, dg_timeline_lyrics_kept = 0, dg_tmp_texts_kept = 0, dg_hook_hits = 0,
     dg_get_text_hits = 0, dg_enqueued = 0, dg_null_strings = 0, dg_oversized = 0, dg_queue_full = 0,
     dg_invalid_utf16 = 0, dg_merged = 0, dg_flushes = 0 \<rparr>"

section \<open>The file system\<close>

type_synonym path = "ustr list"

record dump_fs =
  df_files :: "path \<Rightarrow> u8 list option"
  df_dirs :: "path \<Rightarrow> bool"

definition fs_put :: "path \<Rightarrow> u8 list \<Rightarrow> dump_fs \<Rightarrow> dump_fs" where
  "fs_put p bs fs = fs\<lparr> df_files := (df_files fs)(p \<mapsto> bs) \<rparr>"

definition fs_remove :: "path \<Rightarrow> dump_fs \<Rightarrow> dump_fs" where
  "fs_remove p fs = fs\<lparr> df_files := (df_files fs)(p := None) \<rparr>"

definition fs_rename :: "path \<Rightarrow> path \<Rightarrow> dump_fs \<Rightarrow> dump_fs" where
  "fs_rename p q fs = fs\<lparr> df_files := (df_files fs)(p := None, q := df_files fs p) \<rparr>"

definition fs_mkdirs :: "path \<Rightarrow> dump_fs \<Rightarrow> dump_fs" where
  "fs_mkdirs p fs = fs\<lparr> df_dirs := (\<lambda>q. df_dirs fs q \<or> q \<in> set (map (\<lambda>n. take n p) [1..<Suc (length p)])) \<rparr>"

definition fs_exists :: "path \<Rightarrow> dump_fs \<Rightarrow> bool" where
  "fs_exists p fs \<longleftrightarrow> df_files fs p \<noteq> None \<or> df_dirs fs p"

text \<open>\<open>Path::with_extension\<close>, on a file name.\<close>

definition file_stem :: "ustr \<Rightarrow> ustr" where
  "file_stem name =
     (case dropWhile (\<lambda>c. c \<noteq> 46) (rev name) of
        [] \<Rightarrow> name
      | _ # before \<Rightarrow> if before = [] then name else rev before)"

definition with_extension :: "path \<Rightarrow> ustr \<Rightarrow> path" where
  "with_extension p ext = butlast p @ [file_stem (last p) @ 46 # ext]"

section \<open>Writing\<close>

type_synonym localify = "(ustr \<times> (ustr \<times> ustr) list) list"

text \<open>The writers give the bytes they emit and whether they got to the end.\<close>

record dump_json =
  dj_from_slice :: "u8 list \<Rightarrow> localify option"
  dj_pretty :: "localify \<Rightarrow> u8 list \<times> bool"
  dj_pretty_flat :: "(ustr \<times> ustr) list \<Rightarrow> u8 list \<times> bool"

text \<open>\<open>wf_write = Some (n, enc)\<close>: only \<open>n\<close> bytes get out of the buffered writer, and the error comes up
  while the JSON is written (\<open>enc\<close>) or later.\<close>

record write_faults =
  wf_dir :: bool
  wf_open :: bool
  wf_write :: "(nat \<times> bool) option"
  wf_sync :: bool
  wf_rename :: bool

text \<open>The states of a file while it is filled.\<close>

definition partial_writes :: "path \<Rightarrow> u8 list \<Rightarrow> dump_fs \<Rightarrow> dump_fs list" where
  "partial_writes p bs fs = map (\<lambda>n. fs_put p (take n bs) fs) [0..<Suc (length bs)]"

text \<open>\<open>write_atomic_json\<close> with all the states the file system goes through, the last one being where it
  leaves it.\<close>

definition write_atomic_json ::
  "dump_json \<Rightarrow> write_faults \<Rightarrow> path \<Rightarrow> localify \<Rightarrow> dump_fs \<Rightarrow> (plugin_error, unit) result \<times> dump_fs list" where
  "write_atomic_json J F path entries fs =
     (if path = [] then (Inl (Message ''translation dump path has no parent''), [fs])
      else if wf_dir F then (Inl Io, [fs])
      else
        (let fs1 = fs_mkdirs (butlast path) fs;
             temp = with_extension path (ustr ''json.tmp'') in
         if wf_open F then (Inl Io, [fs, fs1])
         else
           (case dj_pretty J entries of
              (bs, False) \<Rightarrow>
                (Inl (Message ''translation dump JSON encode failed''), fs # fs1 # partial_writes temp bs fs1)
            | (bs, True) \<Rightarrow>
                (let content = bs @ [10] in
                 case wf_write F of
                   Some (n, enc) \<Rightarrow>
                     (Inl (if enc then Message ''translation dump JSON encode failed'' else Io),
                      fs # fs1 # partial_writes temp (take n content) fs1)
                 | None \<Rightarrow>
                     (let full = fs_put temp content fs1 in
                      if wf_sync F \<or> wf_rename F then (Inl Io, fs # fs1 # partial_writes temp content fs1)
                      else (Inr (), (fs # fs1 # partial_writes temp content fs1) @ [fs_rename temp path full]))))))"

section \<open>The state\<close>

record dump_state =
  ds_path :: path
  ds_entries :: localify
  ds_dirty :: bool
  ds_frames :: u32
  ds_lyrics :: "(ustr \<times> ustr) list"
  ds_lyrics_dirty :: bool
  ds_scenario_cursor :: nat
  ds_lyrics_cursor :: nat

text \<open>Where the plugin keeps its table and the files of the game's data.\<close>

definition dump_path :: "data_root \<Rightarrow> path" where
  "dump_path root = map ustr (data_root_join root ''shiny-song-tools'') @ [ustr ''dumps'', ustr ''localify.json'']"

definition json_dir :: "data_root \<Rightarrow> path" where
  "json_dir root = map ustr (data_root_join root ''shiny-song-tools'') @ [ustr ''dumps'', ustr ''json'']"

text \<open>\<open>unreadable\<close>: reading fails other than by a missing file.\<close>

definition dump_load :: "dump_json \<Rightarrow> bool \<Rightarrow> path \<Rightarrow> dump_fs \<Rightarrow> (plugin_error, dump_state) result" where
  "dump_load J unreadable path fs =
     bind_result
       (if unreadable then Inl Io
        else (case df_files fs path of
            None \<Rightarrow> Inr []
          | Some bytes \<Rightarrow> ok_or (Message ''translation dump JSON is invalid'') (dj_from_slice J bytes)))
       (\<lambda>entries. Inr \<lparr> ds_path = path, ds_entries = entries, ds_dirty = False, ds_frames = 0, ds_lyrics = [],
          ds_lyrics_dirty = False, ds_scenario_cursor = 0, ds_lyrics_cursor = 0 \<rparr>)"

definition bt_entry :: "ustr \<Rightarrow> localify \<Rightarrow> (ustr \<times> ustr) list" where
  "bt_entry c m = (case map_of m c of None \<Rightarrow> [] | Some b \<Rightarrow> b)"

definition dump_merge :: "dump_record \<Rightarrow> dump_state \<times> dump_diagnostics \<Rightarrow> dump_state \<times> dump_diagnostics" where
  "dump_merge record s =
     (case s of (st, d) \<Rightarrow>
        (case dump_decode record of
           Inl _ \<Rightarrow> (st, d\<lparr> dg_invalid_utf16 := dg_invalid_utf16 d + 1 \<rparr>)
         | Inr (category, num, text) \<Rightarrow>
             (let bucket = bt_entry category (ds_entries st); old = map_of bucket num in
              (st\<lparr> ds_entries := bt_insert category (bt_insert num text bucket) (ds_entries st),
                   ds_dirty := (if old \<noteq> Some text then True else ds_dirty st) \<rparr>,
               d\<lparr> dg_merged := dg_merged d + 1 \<rparr>))))"

definition merge_row ::
  "ustr \<times> ustr \<Rightarrow> (ustr \<times> ustr) list \<times> bool \<times> dump_diagnostics \<times> nat
     \<Rightarrow> (ustr \<times> ustr) list \<times> bool \<times> dump_diagnostics \<times> nat" where
  "merge_row row s =
     (case (row, s) of ((num, text), (slot, dirty, d, n)) \<Rightarrow>
        (bt_insert num text slot, (if map_of slot num \<noteq> Some text then True else dirty),
         d\<lparr> dg_merged := dg_merged d + 1 \<rparr>, n + 1))"

definition merge_category ::
  "ustr \<times> (ustr \<times> ustr) list \<Rightarrow> (dump_state \<times> dump_diagnostics) \<times> nat \<times> nat
     \<Rightarrow> (dump_state \<times> dump_diagnostics) \<times> nat \<times> nat" where
  "merge_category row s =
     (case (row, s) of ((category, bucket), ((st, d), categories, entries)) \<Rightarrow>
        (case fold merge_row bucket (bt_entry category (ds_entries st), ds_dirty st, d, entries) of
           (slot, dirty, d', entries') \<Rightarrow>
             ((st\<lparr> ds_entries := bt_insert category slot (ds_entries st), ds_dirty := dirty \<rparr>, d'),
              categories + 1, entries')))"

definition merge_map ::
  "localify \<Rightarrow> dump_state \<times> dump_diagnostics \<Rightarrow> (dump_state \<times> dump_diagnostics) \<times> nat \<times> nat" where
  "merge_map table s = fold merge_category table (s, 0, 0)"

text \<open>The lyrics file: its errors are ignored, also those of the buffer's last write.\<close>

definition write_lyrics :: "dump_json \<Rightarrow> write_faults \<Rightarrow> path \<Rightarrow> (ustr \<times> ustr) list \<Rightarrow> dump_fs \<Rightarrow> dump_fs" where
  "write_lyrics J F path lyrics fs =
     (let lyrics_path = butlast path @ [ustr ''lyrics_dump.json''];
          lyrics_tmp = with_extension lyrics_path (ustr ''json.tmp'') in
      if wf_open F then fs
      else
        (case dj_pretty_flat J lyrics of
           (bs, ok) \<Rightarrow>
             (let out = (case wf_write F of None \<Rightarrow> bs | Some (n, _) \<Rightarrow> take n bs);
                  written = (ok \<and> (case wf_write F of Some (_, True) \<Rightarrow> False | _ \<Rightarrow> True));
                  fs1 = fs_put lyrics_tmp out fs;
                  fs2 = (if written \<and> \<not> wf_rename F then fs_rename lyrics_tmp lyrics_path fs1 else fs1) in
              fs_remove lyrics_tmp fs2)))"

text \<open>The faults of the two files are \<open>F\<close> and \<open>FL\<close>.\<close>

definition flush ::
  "dump_json \<Rightarrow> write_faults \<times> write_faults \<Rightarrow> dump_state \<times> dump_diagnostics \<Rightarrow> dump_fs
     \<Rightarrow> (plugin_error, bool) result \<times> (dump_state \<times> dump_diagnostics) \<times> dump_fs" where
  "flush J F s fs =
     (case s of (st, d) \<Rightarrow>
        if \<not> ds_dirty st \<and> \<not> ds_lyrics_dirty st then (Inr False, (st\<lparr> ds_frames := 0 \<rparr>, d), fs)
        else
          (case write_atomic_json J (fst F) (ds_path st) (ds_entries st) fs of
             (Inl e, states) \<Rightarrow> (Inl e, (st, d), last states)
           | (Inr _, states) \<Rightarrow>
               (let fs2 = (if ds_lyrics_dirty st
                      then write_lyrics J (snd F) (ds_path st) (ds_lyrics st) (last states) else last states) in
                (Inr True, (st\<lparr> ds_dirty := False, ds_lyrics_dirty := False, ds_frames := 0 \<rparr>,
                   d\<lparr> dg_flushes := dg_flushes d + 1 \<rparr>), fs2))))"

definition saturating_inc :: "u32 \<Rightarrow> u32" where
  "saturating_inc n = (if n = - 1 then - 1 else n + 1)"

definition flush_if_due ::
  "dump_json \<Rightarrow> write_faults \<times> write_faults \<Rightarrow> dump_state \<times> dump_diagnostics \<Rightarrow> dump_fs
     \<Rightarrow> (plugin_error, unit) result \<times> (dump_state \<times> dump_diagnostics) \<times> dump_fs" where
  "flush_if_due J F s fs =
     (case s of (st, d) \<Rightarrow>
        (let st1 = st\<lparr> ds_frames := saturating_inc (ds_frames st) \<rparr> in
         if ds_dirty st1 \<and> FLUSH_INTERVAL_FRAMES \<le> ds_frames st1 then
           (case flush J F (st1, d) fs of (r, s', fs') \<Rightarrow> (bind_result r (\<lambda>_. Inr ()), s', fs'))
         else (Inr (), (st1, d), fs)))"

section \<open>The update system and its topics\<close>

definition merge_lyric :: "lyrics_record \<Rightarrow> dump_state \<times> dump_diagnostics \<Rightarrow> dump_state \<times> dump_diagnostics" where
  "merge_lyric record s =
     (case (lyrics_decode record, s) of ((source, text), (st, d)) \<Rightarrow>
        if trim text = [] then (st, d)
        else
          (let old = map_of (ds_lyrics st) text in
           (st\<lparr> ds_lyrics := bt_insert text [] (ds_lyrics st),
                ds_lyrics_dirty := (if old = None then True else ds_lyrics_dirty st) \<rparr>,
            if source = SRC_MV_OVERLAY then d\<lparr> dg_mv_lyrics_kept := dg_mv_lyrics_kept d + 1 \<rparr>
            else if source = SRC_TIMELINE then d\<lparr> dg_timeline_lyrics_kept := dg_timeline_lyrics_kept d + 1 \<rparr>
            else d\<lparr> dg_tmp_texts_kept := dg_tmp_texts_kept d + 1 \<rparr>)))"

text \<open>\<open>records\<close> and \<open>lyrics\<close> are what the message readers yield in this frame.\<close>

definition dump_update ::
  "dump_json \<Rightarrow> write_faults \<times> write_faults \<Rightarrow> dump_record list \<Rightarrow> lyrics_record list
     \<Rightarrow> dump_state \<times> dump_diagnostics \<Rightarrow> dump_fs
     \<Rightarrow> (plugin_error, unit) result \<times> (dump_state \<times> dump_diagnostics) \<times> dump_fs" where
  "dump_update J F records lyrics s fs =
     flush_if_due J F (fold merge_lyric lyrics (fold dump_merge records s)) fs"

record dump_status =
  st_categories :: nat
  st_entries :: nat
  st_dirty :: bool
  st_counters :: dump_diagnostics

definition dump_status_handler :: "dump_state \<times> dump_diagnostics \<Rightarrow> dump_status" where
  "dump_status_handler s =
     (case s of (st, d) \<Rightarrow>
        \<lparr> st_categories = length (ds_entries st),
          st_entries = sum_list (map (\<lambda>(category, bucket). length bucket) (ds_entries st)),
          st_dirty = ds_dirty st, st_counters = d \<rparr>)"

definition dump_flush_handler ::
  "dump_json \<Rightarrow> write_faults \<times> write_faults \<Rightarrow> dump_state \<times> dump_diagnostics \<Rightarrow> dump_fs
     \<Rightarrow> (plugin_error, bool) result \<times> (dump_state \<times> dump_diagnostics) \<times> dump_fs" where
  "dump_flush_handler J F s fs = flush J F s fs"

end
