(* ===== verification/Dump_Capture.thy ===== *)
theory Dump_Capture
  imports Dump_State Hook Backend
begin

text \<open>
  The hooks of \<open>crates/translation_dump\<close>: the targets of \<open>targets.rs\<close> and the six replacements of
  \<open>lib.rs\<close>.  A replacement runs inside the game: its world is the game's state and memory, the two
  record queues, the counters and the file system.  The game's functions are the typed originals.
\<close>

section \<open>Targets\<close>

definition localization_target :: "string \<Rightarrow> target_id" where
  "localization_target meth = \<lparr> t_assembly = ''PRISM.Legacy.dll'', t_namespace = ''ENTERPRISE.Localization'',
     t_class = ''LocalizationManager'', t_method = meth, t_param_count = 2, t_is_static = False,
     t_return_type = ''string'', t_parameter_types = [''string'', ''int''] \<rparr>"

definition LOCALIZATION_GET_TEXT_OR_NULL_TARGET :: target_id where
  "LOCALIZATION_GET_TEXT_OR_NULL_TARGET = localization_target ''GetTextOrNull''"

definition LOCALIZATION_GET_TEXT_TARGET :: target_id where
  "LOCALIZATION_GET_TEXT_TARGET = localization_target ''GetText''"

definition DATA_FILE_GET_BYTES_TARGET :: target_id where
  "DATA_FILE_GET_BYTES_TARGET = \<lparr> t_assembly = ''PRISM.Legacy.dll'', t_namespace = ''PRISM'',
     t_class = ''DataFile'', t_method = ''GetBytes'', t_param_count = 1, t_is_static = True,
     t_return_type = ''byte[]'', t_parameter_types = [''string''] \<rparr>"

definition LIVE_MV_UPDATE_LYRICS_TARGET :: target_id where
  "LIVE_MV_UPDATE_LYRICS_TARGET = \<lparr> t_assembly = ''PRISM.Interactions.Live.dll'',
     t_namespace = ''PRISM.Interactions.Live'', t_class = ''LiveMVOverlayView'', t_method = ''UpdateLyrics'',
     t_param_count = 1, t_is_static = False, t_return_type = ''void'', t_parameter_types = [''string''] \<rparr>"

definition TIMELINE_SET_LYRIC_TARGET :: target_id where
  "TIMELINE_SET_LYRIC_TARGET = \<lparr> t_assembly = ''PRISM.Legacy.dll'', t_namespace = ''PRISM'',
     t_class = ''TimelineController'', t_method = ''SetLyric'', t_param_count = 1, t_is_static = False,
     t_return_type = ''void'', t_parameter_types = [''string''] \<rparr>"

definition TMP_TEXT_SET_TEXT_TARGET :: target_id where
  "TMP_TEXT_SET_TEXT_TARGET = \<lparr> t_assembly = ''Unity.TextMeshPro.dll'', t_namespace = ''TMPro'',
     t_class = ''TMP_Text'', t_method = ''set_text'', t_param_count = 1, t_is_static = False,
     t_return_type = ''void'', t_parameter_types = [''string''] \<rparr>"

text \<open>All six use the entry patch; \<open>addr\<close> is the compiled replacement and \<open>fn\<close> the typed original at an
  address.\<close>

definition dump_target :: "target_id \<Rightarrow> usize \<Rightarrow> (usize \<Rightarrow> 'o) \<Rightarrow> 'o hook_target" where
  "dump_target t addr fn = \<lparr> ht_target = t, ht_mechanism = EntryPatchMech, ht_replacement_addr = (\<lambda>_. addr),
     ht_original_from_raw = fn \<rparr>"

section \<open>The world of a replacement\<close>

text \<open>\<open>dw_returned\<close> is the cell of the running replacement; the rest of its container, the game and the
  disk.  \<open>dw_fault\<close> records that a replacement has dereferenced a null pointer: that is a memory fault, not a
  panic, so nothing catches it and the run has no result.\<close>

record ('w, 'q, 'l) dump_world =
  dw_returned :: usize
  dw_records :: 'q
  dw_lyrics :: 'l
  dw_diag :: dump_diagnostics
  dw_instance :: usize
  dw_fs :: dump_fs
  dw_mem :: "usize \<Rightarrow> u8"
  dw_game :: 'w
  dw_fault :: bool

record ('w, 'q, 'l) dump_sites =
  sx_il2cpp :: "'w bridge"
  sx_records :: "(dump_record, 'q) array_queue"
  sx_lyrics :: "(lyrics_record, 'l) array_queue"
  sx_json_dir :: path

abbreviation managed_utf16 ::
  "('w, 'q, 'l) dump_sites \<Rightarrow> usize \<Rightarrow> ('w, 'q, 'l) dump_world \<Rightarrow> u16 list option" where
  "managed_utf16 S p w \<equiv> string_utf16 (sx_il2cpp S) (dw_mem w) p (dw_game w)"

definition count :: "(dump_diagnostics \<Rightarrow> dump_diagnostics) \<Rightarrow> ('w, 'q, 'l) dump_world \<Rightarrow> ('w, 'q, 'l) dump_world" where
  "count f w = w\<lparr> dw_diag := f (dw_diag w) \<rparr>"

section \<open>Localization texts\<close>

definition capture_text ::
  "('w, 'q, 'l) dump_sites \<Rightarrow> (dump_diagnostics \<Rightarrow> dump_diagnostics) \<Rightarrow> usize \<Rightarrow> usize \<Rightarrow> i32 \<Rightarrow> usize
     \<Rightarrow> ('w, 'q, 'l) dump_world \<Rightarrow> ('w, 'q, 'l) dump_world" where
  "capture_text S hits this category num result w =
     (let w1 = (count hits (w\<lparr> dw_returned := result \<rparr>))\<lparr> dw_instance := this \<rparr> in
      case (managed_utf16 S category w1, managed_utf16 S result w1) of
        (Some category_utf16, Some text_utf16) \<Rightarrow>
          (case dump_capture category_utf16 num text_utf16 of
             Some record \<Rightarrow>
               (case callback_bounded_writer_try_send (sx_records S) CallbackCtx record (dw_records w1) of
                  (outcome, q) \<Rightarrow>
                    (let w2 = w1\<lparr> dw_records := q \<rparr> in
                     case outcome of
                       Accepted \<Rightarrow> count (\<lambda>d. d\<lparr> dg_enqueued := dg_enqueued d + 1 \<rparr>) w2
                     | Full \<Rightarrow> count (\<lambda>d. d\<lparr> dg_queue_full := dg_queue_full d + 1 \<rparr>) w2
                     | Replaced \<Rightarrow> w2
                     | Busy \<Rightarrow> w2))
           | None \<Rightarrow> count (\<lambda>d. d\<lparr> dg_oversized := dg_oversized d + 1 \<rparr>) w1)
      | _ \<Rightarrow> count (\<lambda>d. d\<lparr> dg_null_strings := dg_null_strings d + 1 \<rparr>) w1)"

type_synonym ('w, 'q, 'l) get_text_fn =
  "usize \<Rightarrow> usize \<Rightarrow> i32 \<Rightarrow> usize \<Rightarrow> ('w, 'q, 'l) dump_world \<Rightarrow> usize flow \<times> ('w, 'q, 'l) dump_world"

text \<open>A passthrough remembers what it returns; a replacement starts with an empty cell of its own, and
  answers a panic with what the cell holds.\<close>

definition remember ::
  "usize flow \<times> ('w, 'q, 'l) dump_world \<Rightarrow> usize flow \<times> ('w, 'q, 'l) dump_world" where
  "remember r = (case r of (Returns v, w) \<Rightarrow> (Returns v, w\<lparr> dw_returned := v \<rparr>) | (Panics, w) \<Rightarrow> (Panics, w))"

definition with_cell ::
  "(('w, 'q, 'l) dump_world \<Rightarrow> usize flow \<times> ('w, 'q, 'l) dump_world) \<Rightarrow> ('w, 'q, 'l) dump_world
     \<Rightarrow> usize \<times> ('w, 'q, 'l) dump_world" where
  "with_cell body w =
     (case body (w\<lparr> dw_returned := 0 \<rparr>) of
        (Returns v, w') \<Rightarrow> (v, w'\<lparr> dw_returned := dw_returned w \<rparr>)
      | (Panics, w') \<Rightarrow> (dw_returned w', w'\<lparr> dw_returned := dw_returned w \<rparr>))"

definition get_text_handler ::
  "('w, 'q, 'l) dump_sites \<Rightarrow> (dump_diagnostics \<Rightarrow> dump_diagnostics) \<Rightarrow> usize \<Rightarrow> usize \<Rightarrow> i32 \<Rightarrow> usize
     \<Rightarrow> (('w, 'q, 'l) get_text_fn, ('w, 'q, 'l) dump_world, usize, usize) handler" where
  "get_text_handler S hits this category num meth =
     H_Call (\<lambda>original. original this category num meth)
       (\<lambda>called. H_Get (\<lambda>w.
          let result = (case called of Some v \<Rightarrow> v | None \<Rightarrow> dw_returned w) in
          H_Do (capture_text S hits this category num result) (H_Return result)))"

definition text_replacement ::
  "('w, 'q, 'l) dump_sites \<Rightarrow> (dump_diagnostics \<Rightarrow> dump_diagnostics) \<Rightarrow> ('w, 'q, 'l) get_text_fn hook_target
     \<Rightarrow> 'm slot_ops \<Rightarrow> gate_env \<Rightarrow> (('w, 'q, 'l) get_text_fn, 'c, 'm) hook_site
     \<Rightarrow> usize \<Rightarrow> usize \<Rightarrow> i32 \<Rightarrow> usize \<Rightarrow> ('w, 'q, 'l) dump_world \<Rightarrow> usize \<times> ('w, 'q, 'l) dump_world" where
  "text_replacement S hits T M G site this category num meth =
     with_cell (dispatch T M G
       (\<lambda>original w. remember (original this category num meth w))
       (\<lambda>w. (Returns (dw_returned w), w))
       (get_text_handler S hits this category num meth) site)"

definition get_text_or_null_replacement ::
  "('w, 'q, 'l) dump_sites \<Rightarrow> ('w, 'q, 'l) get_text_fn hook_target
     \<Rightarrow> 'm slot_ops \<Rightarrow> gate_env \<Rightarrow> (('w, 'q, 'l) get_text_fn, 'c, 'm) hook_site
     \<Rightarrow> usize \<Rightarrow> usize \<Rightarrow> i32 \<Rightarrow> usize \<Rightarrow> ('w, 'q, 'l) dump_world \<Rightarrow> usize \<times> ('w, 'q, 'l) dump_world" where
  "get_text_or_null_replacement S = text_replacement S (\<lambda>d. d\<lparr> dg_hook_hits := dg_hook_hits d + 1 \<rparr>)"

definition get_text_replacement ::
  "('w, 'q, 'l) dump_sites \<Rightarrow> ('w, 'q, 'l) get_text_fn hook_target
     \<Rightarrow> 'm slot_ops \<Rightarrow> gate_env \<Rightarrow> (('w, 'q, 'l) get_text_fn, 'c, 'm) hook_site
     \<Rightarrow> usize \<Rightarrow> usize \<Rightarrow> i32 \<Rightarrow> usize \<Rightarrow> ('w, 'q, 'l) dump_world \<Rightarrow> usize \<times> ('w, 'q, 'l) dump_world" where
  "get_text_replacement S = text_replacement S (\<lambda>d. d\<lparr> dg_get_text_hits := dg_get_text_hits d + 1 \<rparr>)"

section \<open>Data files\<close>

definition MAX_DATA_FILE_BYTES :: nat where "MAX_DATA_FILE_BYTES = 64 * 1024 * 1024"

definition safe_char :: "nat \<Rightarrow> bool" where
  "safe_char c \<longleftrightarrow> 48 \<le> c \<and> c \<le> 57 \<or> 65 \<le> c \<and> c \<le> 90 \<or> 97 \<le> c \<and> c \<le> 122 \<or> c = 95 \<or> c = 46"

definition sanitize :: "ustr \<Rightarrow> ustr" where
  "sanitize s = map (\<lambda>c. if safe_char c then c else 95) s"

text \<open>\<open>std::fs::write\<close> with its faults: it may not open, or write only a part.\<close>

definition fs_write :: "write_faults \<Rightarrow> path \<Rightarrow> u8 list \<Rightarrow> dump_fs \<Rightarrow> bool \<times> dump_fs" where
  "fs_write F p bs fs =
     (if wf_open F then (False, fs)
      else (case wf_write F of None \<Rightarrow> (True, fs_put p bs fs) | Some (n, _) \<Rightarrow> (False, fs_put p (take n bs) fs)))"

text \<open>The bytes of a managed array: its length at 0x18, its elements at 0x20.\<close>

definition array_len :: "(usize \<Rightarrow> u8) \<Rightarrow> usize \<Rightarrow> nat" where
  "array_len m a = unat (load_i32 m (a + 0x18))"

definition array_bytes :: "(usize \<Rightarrow> u8) \<Rightarrow> usize \<Rightarrow> u8 list" where
  "array_bytes m a = read_bytes m (a + 0x20) (array_len m a)"

text \<open>The length is read before anything looks at the pointer, so a null array faults.\<close>

definition dump_bytes ::
  "('w, 'q, 'l) dump_sites \<Rightarrow> write_faults \<Rightarrow> usize \<Rightarrow> usize \<Rightarrow> ('w, 'q, 'l) dump_world
     \<Rightarrow> ('w, 'q, 'l) dump_world" where
  "dump_bytes S F file result w =
     (let w1 = count (\<lambda>d. d\<lparr> dg_get_bytes_seen := dg_get_bytes_seen d + 1 \<rparr>) (w\<lparr> dw_returned := result \<rparr>) in
      case managed_utf16 S file w1 of
        None \<Rightarrow> w1
      | Some path_units \<Rightarrow>
          (let path_str = from_utf16_lossy path_units in
           if \<not> ends_with (ustr ''.json'') path_str \<or> contains (ustr ''..'') path_str then w1
           else if result = 0 then w1\<lparr> dw_fault := True \<rparr>
           else
             (let len = array_len (dw_mem w1) result in
              if len = 0 \<or> MAX_DATA_FILE_BYTES < len then w1
              else
                (let bytes = array_bytes (dw_mem w1) result;
                     sanitized = sanitize path_str in
                 if contains (ustr ''..'') sanitized then w1
                 else
                   (let target = sx_json_dir S @ [sanitized] in
                    if fs_exists target (dw_fs w1) then w1
                    else count (\<lambda>d. d\<lparr> dg_get_bytes_dumps := dg_get_bytes_dumps d + 1 \<rparr>)
                      (w1\<lparr> dw_fs := snd (fs_write F target bytes (dw_fs w1)) \<rparr>))))))"

type_synonym ('w, 'q, 'l) get_bytes_fn =
  "usize \<Rightarrow> usize \<Rightarrow> ('w, 'q, 'l) dump_world \<Rightarrow> usize flow \<times> ('w, 'q, 'l) dump_world"

definition get_bytes_handler ::
  "('w, 'q, 'l) dump_sites \<Rightarrow> write_faults \<Rightarrow> usize \<Rightarrow> usize
     \<Rightarrow> (('w, 'q, 'l) get_bytes_fn, ('w, 'q, 'l) dump_world, usize, usize) handler" where
  "get_bytes_handler S F file meth =
     H_Call (\<lambda>original. original file meth)
       (\<lambda>called. H_Get (\<lambda>w.
          let result = (case called of Some v \<Rightarrow> v | None \<Rightarrow> dw_returned w) in
          H_Do (dump_bytes S F file result) (H_Return result)))"

text \<open>\<open>None\<close> is a run that faults.\<close>

definition get_bytes_replacement ::
  "('w, 'q, 'l) dump_sites \<Rightarrow> write_faults \<Rightarrow> ('w, 'q, 'l) get_bytes_fn hook_target
     \<Rightarrow> 'm slot_ops \<Rightarrow> gate_env \<Rightarrow> (('w, 'q, 'l) get_bytes_fn, 'c, 'm) hook_site
     \<Rightarrow> usize \<Rightarrow> usize \<Rightarrow> ('w, 'q, 'l) dump_world \<Rightarrow> (usize \<times> ('w, 'q, 'l) dump_world) option" where
  "get_bytes_replacement S F T M G site file meth w =
     (case with_cell (dispatch T M G
         (\<lambda>original w. remember (original file meth w))
         (\<lambda>w. (Returns (dw_returned w), w))
         (get_bytes_handler S F file meth) site) w of
       (r, w') \<Rightarrow> if dw_fault w' then None else Some (r, w'))"

section \<open>Lyrics\<close>

definition capture_lyrics ::
  "('w, 'q, 'l) dump_sites \<Rightarrow> u8 \<Rightarrow> usize \<Rightarrow> ('w, 'q, 'l) dump_world \<Rightarrow> ('w, 'q, 'l) dump_world" where
  "capture_lyrics S source text_ptr w =
     (let w1 = count (\<lambda>d. d\<lparr> dg_lyrics_seen := dg_lyrics_seen d + 1 \<rparr>) w in
      case managed_utf16 S text_ptr w1 of
        None \<Rightarrow> w1
      | Some units \<Rightarrow>
          (case lyrics_capture units source of
             None \<Rightarrow> w1
           | Some record \<Rightarrow>
               (case callback_bounded_writer_try_send (sx_lyrics S) CallbackCtx record (dw_lyrics w1) of
                  (outcome, q) \<Rightarrow>
                    (let w2 = w1\<lparr> dw_lyrics := q \<rparr> in
                     if outcome = Accepted then count (\<lambda>d. d\<lparr> dg_lyrics_kept := dg_lyrics_kept d + 1 \<rparr>) w2
                     else count (\<lambda>d. d\<lparr> dg_queue_full := dg_queue_full d + 1 \<rparr>) w2))))"

type_synonym ('w, 'q, 'l) lyrics_fn =
  "usize \<Rightarrow> usize \<Rightarrow> usize \<Rightarrow> ('w, 'q, 'l) dump_world \<Rightarrow> unit flow \<times> ('w, 'q, 'l) dump_world"

text \<open>The handler does not call the original: the dispatch passes the call on after it.\<close>

definition lyrics_replacement ::
  "u8 \<Rightarrow> ('w, 'q, 'l) dump_sites \<Rightarrow> ('w, 'q, 'l) lyrics_fn hook_target
     \<Rightarrow> 'm slot_ops \<Rightarrow> gate_env \<Rightarrow> (('w, 'q, 'l) lyrics_fn, 'c, 'm) hook_site
     \<Rightarrow> usize \<Rightarrow> usize \<Rightarrow> usize \<Rightarrow> ('w, 'q, 'l) dump_world \<Rightarrow> ('w, 'q, 'l) dump_world" where
  "lyrics_replacement source S T M G site this text_ptr meth w =
     snd (dispatch T M G
       (\<lambda>original w. original this text_ptr meth w)
       (\<lambda>w. (Returns (), w))
       (H_Do (capture_lyrics S source text_ptr) (H_Return ()) :: (_, _, unit, unit) handler) site w)"

definition update_lyrics_replacement ::
  "('w, 'q, 'l) dump_sites \<Rightarrow> ('w, 'q, 'l) lyrics_fn hook_target
     \<Rightarrow> 'm slot_ops \<Rightarrow> gate_env \<Rightarrow> (('w, 'q, 'l) lyrics_fn, 'c, 'm) hook_site
     \<Rightarrow> usize \<Rightarrow> usize \<Rightarrow> usize \<Rightarrow> ('w, 'q, 'l) dump_world \<Rightarrow> ('w, 'q, 'l) dump_world" where
  "update_lyrics_replacement = lyrics_replacement SRC_MV_OVERLAY"

definition set_lyric_replacement ::
  "('w, 'q, 'l) dump_sites \<Rightarrow> ('w, 'q, 'l) lyrics_fn hook_target
     \<Rightarrow> 'm slot_ops \<Rightarrow> gate_env \<Rightarrow> (('w, 'q, 'l) lyrics_fn, 'c, 'm) hook_site
     \<Rightarrow> usize \<Rightarrow> usize \<Rightarrow> usize \<Rightarrow> ('w, 'q, 'l) dump_world \<Rightarrow> ('w, 'q, 'l) dump_world" where
  "set_lyric_replacement = lyrics_replacement SRC_TIMELINE"

definition tmp_text_replacement ::
  "('w, 'q, 'l) dump_sites \<Rightarrow> ('w, 'q, 'l) lyrics_fn hook_target
     \<Rightarrow> 'm slot_ops \<Rightarrow> gate_env \<Rightarrow> (('w, 'q, 'l) lyrics_fn, 'c, 'm) hook_site
     \<Rightarrow> usize \<Rightarrow> usize \<Rightarrow> usize \<Rightarrow> ('w, 'q, 'l) dump_world \<Rightarrow> ('w, 'q, 'l) dump_world" where
  "tmp_text_replacement = lyrics_replacement SRC_TMP_TEXT"

end
