(* ===== verification/Dump_Capture_Correct.thy ===== *)
theory Dump_Capture_Correct
  imports Dump_Capture Backend_Correct
begin

text \<open>
  What the hooks of the dump promise to the game and to the plugin: the game gets its own results, every
  call is accounted for, and a dumped file stays in its directory.
\<close>

section \<open>Transparency\<close>

lemma count_simps [simp]:
  "dw_records (count f w) = dw_records w" "dw_game (count f w) = dw_game w" "dw_mem (count f w) = dw_mem w"
  "dw_fs (count f w) = dw_fs w" "dw_lyrics (count f w) = dw_lyrics w" "dw_diag (count f w) = f (dw_diag w)"
  "dw_returned (count f w) = dw_returned w" "dw_fault (count f w) = dw_fault w"
  by (simp_all add: count_def)

lemma capture_text_frame:
  "dw_game (capture_text S hits this c n v w) = dw_game w" "dw_mem (capture_text S hits this c n v w) = dw_mem w"
  "dw_fs (capture_text S hits this c n v w) = dw_fs w" "dw_lyrics (capture_text S hits this c n v w) = dw_lyrics w"
  "dw_fault (capture_text S hits this c n v w) = dw_fault w"
  by (simp_all add: capture_text_def Let_def split: option.split prod.split send_outcome.split)

lemma dump_bytes_frame:
  "dw_game (dump_bytes S F f v w) = dw_game w" "dw_mem (dump_bytes S F f v w) = dw_mem w"
  "dw_records (dump_bytes S F f v w) = dw_records w" "dw_lyrics (dump_bytes S F f v w) = dw_lyrics w"
  by (simp_all add: dump_bytes_def Let_def split: option.split)

lemma capture_lyrics_frame:
  "dw_game (capture_lyrics S src text w) = dw_game w" "dw_mem (capture_lyrics S src text w) = dw_mem w"
  "dw_fs (capture_lyrics S src text w) = dw_fs w" "dw_records (capture_lyrics S src text w) = dw_records w"
  "dw_fault (capture_lyrics S src text w) = dw_fault w" "dw_returned (capture_lyrics S src text w) = dw_returned w"
  by (simp_all add: capture_lyrics_def Let_def split: option.split prod.split)

text \<open>The paths whose data the plugin reads.\<close>

definition json_path :: "('w, 'q, 'l) dump_sites \<Rightarrow> usize \<Rightarrow> ('w, 'q, 'l) dump_world \<Rightarrow> bool" where
  "json_path S file w =
     (case managed_utf16 S file w of
        None \<Rightarrow> False
      | Some units \<Rightarrow> ends_with (ustr ''.json'') (from_utf16_lossy units) \<and>
          \<not> contains (ustr ''..'') (from_utf16_lossy units))"

lemma dump_bytes_fault:
  "dw_fault (dump_bytes S F file v w) \<longleftrightarrow> dw_fault w \<or> (v = 0 \<and> json_path S file w)"
  by (auto simp: dump_bytes_def json_path_def Let_def split: option.split)

text \<open>A replacement whose handler calls the original and hands its result on.\<close>

lemma transparent_dispatch:
  assumes own: "owns_slot M site" "site = Some i"
    and orig: "call (ht_original_from_raw T (si_original_addr i)) (w\<lparr> dw_returned := 0 \<rparr>) = (Returns v, w1)"
  shows "with_cell (dispatch T M G (\<lambda>original w. remember (call original w)) (\<lambda>w. (Returns (dw_returned w), w))
      (H_Call call (\<lambda>called. H_Get (\<lambda>w. let result = (case called of Some v \<Rightarrow> v | None \<Rightarrow> dw_returned w) in
         H_Do (f result) (H_Return result)))) site) w =
    (v, (if gates_open G site then f v w1 else w1)\<lparr> dw_returned := dw_returned w \<rparr>)"
proof -
  have g: "og_phase guard_new = BeforeOriginal" by (simp add: guard_new_def)
  show ?thesis
    unfolding with_cell_def dispatch_owned [OF own] run_handler_granted [where call = call, OF g orig] flow.case Let_def
    using orig by (simp add: remember_def guard_needs_original_def guard_phase_def)
qed

lemma text_transparent:
  assumes own: "owns_slot M site" "site = Some i"
    and orig: "ht_original_from_raw T (si_original_addr i) this category num meth (w\<lparr> dw_returned := 0 \<rparr>) = (Returns v, w1)"
  shows "text_replacement S hits T M G site this category num meth w =
    (v, (if gates_open G site then capture_text S hits this category num v w1 else w1)\<lparr> dw_returned := dw_returned w \<rparr>)"
  unfolding text_replacement_def get_text_handler_def
  by (rule transparent_dispatch [OF own, where call = "\<lambda>original. original this category num meth" and T = T]) (rule orig)

lemma bytes_transparent:
  assumes own: "owns_slot M site" "site = Some i"
    and orig: "ht_original_from_raw T (si_original_addr i) file meth (w\<lparr> dw_returned := 0 \<rparr>) = (Returns v, w1)"
    and live: "\<not> dw_fault w1"
  shows "get_bytes_replacement S F T M G site file meth w =
    (if gates_open G site \<and> v = 0 \<and> json_path S file w1 then None
     else Some (v, (if gates_open G site then dump_bytes S F file v w1 else w1)\<lparr> dw_returned := dw_returned w \<rparr>))"
  unfolding get_bytes_replacement_def get_bytes_handler_def
    transparent_dispatch [OF own, where call = "\<lambda>original. original file meth" and T = T, OF orig]
  using live by (simp add: dump_bytes_fault)

text \<open>The lyrics hooks run first and pass the call on after the capture.\<close>

lemma lyrics_transparent:
  assumes own: "owns_slot M site" "site = Some i"
  shows "lyrics_replacement src S T M G site this line meth w =
    snd (ht_original_from_raw T (si_original_addr i) this line meth
      (if gates_open G site then capture_lyrics S src line w else w))"
  unfolding lyrics_replacement_def dispatch_owned [OF own] Let_def
  by (simp add: guard_needs_original_def guard_phase_def guard_new_def)


text \<open>A world in which every string is the letter A.\<close>

type_synonym demo_world = "(nat, nat \<times> dump_record list, nat \<times> lyrics_record list) dump_world"

definition demo_sites :: "(nat, nat \<times> dump_record list, nat \<times> lyrics_record list) dump_sites" where
  "demo_sites = \<lparr> sx_il2cpp = demo_bridge\<lparr> br_string_length := \<lambda>_ _. 1, br_string_chars := \<lambda>_ _. 0x100 \<rparr>,
     sx_records = list_queue, sx_lyrics = list_queue, sx_json_dir = [] \<rparr>"

definition demo_world :: demo_world where
  "demo_world = \<lparr> dw_returned = 0, dw_records = (256, []), dw_lyrics = (256, []), dw_diag = diagnostics_default,
     dw_instance = 0, dw_fs = \<lparr> df_files = Map.empty, df_dirs = (\<lambda>_. False) \<rparr>,
     dw_mem = (\<lambda>a. if a = 0x100 then 65 else 0), dw_game = 0, dw_fault = False \<rparr>"

definition owned_site :: "'o \<Rightarrow> ('o, unit, usize) hook_site" where
  "owned_site f = Some \<lparr> si_container = (),
     si_gates = \<lparr> sg_runtime = Runtime_Reader, sg_plugin = Owner_Reader (OwnerId 1) \<rparr>,
     si_replacement = f, si_original_addr = 8, si_method_info_addr = 4, si_installed = True,
     si_active = Some \<lparr> ah_slot = \<lparr> mps_memory = 16, mps_original = 8 \<rparr>, ah_replacement_addr = 16 \<rparr> \<rparr>"

lemma owned_site_owns: "owns_slot raw_slot_memory (owned_site f)"
  by (simp add: owns_slot_def owned_site_def slot_simps)


text \<open>The file hook and a null array, for a path it would dump: the run faults.\<close>

lemma null_array_faults:
  assumes "owns_slot M site" "site = Some i" "gates_open G site"
    and "ht_original_from_raw T (si_original_addr i) file meth (w\<lparr> dw_returned := 0 \<rparr>) = (Returns 0, w1)"
    and "\<not> dw_fault w1" and "json_path S file w1"
  shows "get_bytes_replacement S F T M G site file meth w = None"
  using assms bytes_transparent [OF assms(1,2,4,5)] by simp

section \<open>Accounting\<close>

text \<open>What a call yields: nothing without both strings, \<open>Some None\<close> when it is too long.\<close>

definition captured :: "('w, 'q, 'l) dump_sites \<Rightarrow> ('w, 'q, 'l) dump_world \<Rightarrow> usize \<times> usize \<times> i32 \<times> usize
     \<Rightarrow> dump_record option option" where
  "captured S w x =
     (case x of (this, c, n, v) \<Rightarrow>
        (case (managed_utf16 S c w, managed_utf16 S v w) of
           (Some cu, Some tu) \<Rightarrow> Some (dump_capture cu n tu) | _ \<Rightarrow> None))"

definition captures :: "('w, 'q, 'l) dump_sites \<Rightarrow> (usize \<times> usize \<times> i32 \<times> usize) list \<Rightarrow> ('w, 'q, 'l) dump_world
     \<Rightarrow> ('w, 'q, 'l) dump_world" where
  "captures S calls w =
     fold (\<lambda>(this, c, n, v). capture_text S (\<lambda>d. d\<lparr> dg_hook_hits := dg_hook_hits d + 1 \<rparr>) this c n v) calls w"

lemma captured_cong: "dw_mem w' = dw_mem w \<Longrightarrow> dw_game w' = dw_game w \<Longrightarrow> captured S w' = captured S w"
  by (rule ext) (simp add: captured_def)

lemma capture_text_cases:
  assumes "array_queue_laws (sx_records S) view" "view (dw_records w) = (cap, xs)"
    and w'_def: "w' = capture_text S hits this c n v w" and d_def: "d = hits (dw_diag w)"
  shows "case captured S w (this, c, n, v) of
      None \<Rightarrow> dw_diag w' = d\<lparr> dg_null_strings := dg_null_strings d + 1 \<rparr> \<and> view (dw_records w') = (cap, xs)
    | Some None \<Rightarrow> dw_diag w' = d\<lparr> dg_oversized := dg_oversized d + 1 \<rparr> \<and> view (dw_records w') = (cap, xs)
    | Some (Some r) \<Rightarrow>
        if length xs < cap then dw_diag w' = d\<lparr> dg_enqueued := dg_enqueued d + 1 \<rparr> \<and> view (dw_records w') = (cap, xs @ [r])
        else dw_diag w' = d\<lparr> dg_queue_full := dg_queue_full d + 1 \<rparr> \<and> view (dw_records w') = (cap, xs)"
proof (cases "captured S w (this, c, n, v)")
  case None
  with assms(2) show ?thesis
    by (auto simp: captured_def w'_def d_def capture_text_def Let_def split: option.splits)
next
  case (Some o')
  then obtain cu tu where s: "managed_utf16 S c w = Some cu" "managed_utf16 S v w = Some tu" "o' = dump_capture cu n tu"
    by (auto simp: captured_def split: option.splits)
  show ?thesis
  proof (cases o')
    case None
    with Some s assms(2) show ?thesis by (simp add: w'_def d_def capture_text_def Let_def)
  next
    case (Some r)
    obtain ok q where p: "aq_push (sx_records S) (dw_records w) r = (ok, q)" by fastforce
    from array_queue_push [OF assms(1,2), of r] p have "ok = (length xs < cap)"
      "view q = (cap, if length xs < cap then xs @ [r] else xs)" by auto
    with Some \<open>captured S w (this, c, n, v) = Some o'\<close> s p assms(2) show ?thesis
      by (simp add: w'_def d_def capture_text_def Let_def box_simps)
  qed
qed

definition records_of :: "dump_record option option list \<Rightarrow> dump_record list" where
  "records_of os = concat (map (\<lambda>x. case x of Some (Some r) \<Rightarrow> [r] | _ \<Rightarrow> []) os)"

lemma records_of_simps [simp]:
  "records_of [] = []" "records_of (None # os) = records_of os" "records_of (Some None # os) = records_of os"
  "records_of (Some (Some r) # os) = r # records_of os"
  by (simp_all add: records_of_def)

lemma captures_view:
  assumes "array_queue_laws (sx_records S) view"
  shows "view (dw_records w) = (cap, xs) \<Longrightarrow> length xs \<le> cap \<Longrightarrow>
    (let w' = captures S calls w; os = map (captured S w) calls; d = dw_diag w; d' = dw_diag w'; room = cap - length xs in
     view (dw_records w') = (cap, take cap (xs @ records_of os)) \<and>
     dg_hook_hits d' = dg_hook_hits d + of_nat (length calls) \<and>
     dg_enqueued d' = dg_enqueued d + of_nat (min room (length (records_of os))) \<and>
     dg_queue_full d' = dg_queue_full d + of_nat (length (records_of os) - room) \<and>
     dg_oversized d' = dg_oversized d + of_nat (length (filter (\<lambda>x. x = Some None) os)) \<and>
     dg_null_strings d' = dg_null_strings d + of_nat (length (filter (\<lambda>x. x = None) os)))"
proof (induction calls arbitrary: w xs)
  case (Cons x calls)
  obtain this c n v where x: "x = (this, c, n, v)" by (metis prod_cases4)
  let ?hit = "\<lambda>d. d\<lparr> dg_hook_hits := dg_hook_hits d + 1 \<rparr>"
  let ?w = "capture_text S ?hit this c n v w"
  have step: "captures S (x # calls) w = captures S calls ?w" by (simp add: captures_def x)
  have cong: "captured S ?w = captured S w" by (rule captured_cong) (simp_all add: capture_text_frame)
  note cs = capture_text_cases [OF assms Cons.prems(1) refl refl, of ?hit this c n v]
  consider "captured S w x = None" | "captured S w x = Some None"
    | r where "captured S w x = Some (Some r)" "length xs < cap" | r where "captured S w x = Some (Some r)" "length xs = cap"
    using Cons.prems(2) by (metis option.exhaust le_neq_implies_less)
  then show ?case
  proof cases
    case 1
    with cs x have "view (dw_records ?w) = (cap, xs)" and d: "dw_diag ?w = (?hit (dw_diag w))\<lparr> dg_null_strings := dg_null_strings (dw_diag w) + 1 \<rparr>"
      by auto
    from Cons.IH [OF this(1) Cons.prems(2)] 1 show ?thesis unfolding step cong by (simp add: d Let_def)
  next
    case 2
    with cs x have "view (dw_records ?w) = (cap, xs)" and d: "dw_diag ?w = (?hit (dw_diag w))\<lparr> dg_oversized := dg_oversized (dw_diag w) + 1 \<rparr>"
      by auto
    from Cons.IH [OF this(1) Cons.prems(2)] 2 show ?thesis unfolding step cong by (simp add: d Let_def)
  next
    case (3 r)
    with cs x have v: "view (dw_records ?w) = (cap, xs @ [r])" and d: "dw_diag ?w = (?hit (dw_diag w))\<lparr> dg_enqueued := dg_enqueued (dw_diag w) + 1 \<rparr>"
      by auto
    obtain k where k: "cap - length xs = Suc k" "cap - length (xs @ [r]) = k"
      using 3 by (metis Suc_diff_Suc length_append_singleton)
    from Cons.IH [OF v] 3 show ?thesis unfolding step cong k by (simp add: d Let_def k(1))
  next
    case (4 r)
    with cs x have v: "view (dw_records ?w) = (cap, xs)" and d: "dw_diag ?w = (?hit (dw_diag w))\<lparr> dg_queue_full := dg_queue_full (dw_diag w) + 1 \<rparr>"
      by auto
    from Cons.IH [OF v Cons.prems(2)] 4 show ?thesis unfolding step cong by (simp add: d Let_def)
  qed
qed (simp add: captures_def)

lemma outcomes_partition:
  "length os = length (records_of os) + length (filter (\<lambda>x. x = Some None) os) + length (filter (\<lambda>x. x = None) os)"
proof (induction os)
  case (Cons x os)
  then show ?case by (cases x; cases "the x") auto
qed simp

text \<open>
  C26: every hooked text is accounted for. Of the texts that come in before the main thread drains the
  queue, the first 256 complete ones wait in it in order, and the counters say exactly how many there
  were, how many waited, found the queue full, were too long, or lacked a string; these add up.
\<close>

theorem capture_accounting:
  assumes "array_queue_laws (sx_records S) view" and "view (dw_records w) = (DUMP_QUEUE_CAPACITY, [])"
    and "dw_diag w = diagnostics_default"
  shows "let w' = captures S calls w; os = map (captured S w) calls; d = dw_diag w' in
     view (dw_records w') = (DUMP_QUEUE_CAPACITY, take 256 (records_of os)) \<and>
     dg_enqueued d = of_nat (min 256 (length (records_of os))) \<and>
     dg_queue_full d = of_nat (length (records_of os) - 256) \<and>
     dg_oversized d = of_nat (length (filter (\<lambda>x. x = Some None) os)) \<and>
     dg_null_strings d = of_nat (length (filter (\<lambda>x. x = None) os)) \<and>
     dg_hook_hits d = of_nat (length calls) \<and>
     dg_hook_hits d = dg_enqueued d + dg_queue_full d + dg_oversized d + dg_null_strings d"
proof -
  let ?os = "map (captured S w) calls"
  have "length calls = min 256 (length (records_of ?os)) + (length (records_of ?os) - 256) +
      length (filter (\<lambda>x. x = Some None) ?os) + length (filter (\<lambda>x. x = None) ?os)"
    using outcomes_partition [of ?os] by simp
  then have "(of_nat (length calls) :: u64) = of_nat (min 256 (length (records_of ?os))) + of_nat (length (records_of ?os) - 256) +
      of_nat (length (filter (\<lambda>x. x = Some None) ?os)) + of_nat (length (filter (\<lambda>x. x = None) ?os))"
    by (simp only: of_nat_add)
  with captures_view [OF assms(1,2), of calls] assms(3) show ?thesis
    by (simp add: Let_def DUMP_QUEUE_CAPACITY_def diagnostics_default_def)
qed

theorem capture_accounting_witness:
  "let w' = captures demo_sites [(1, 2, 7, 3), (1, 2, 8, 0)] demo_world in
   dg_enqueued (dw_diag w') = 1 \<and> dg_null_strings (dw_diag w') = 1 \<and> dg_hook_hits (dw_diag w') = 2"
proof -
  have l: "array_queue_laws (sx_records demo_sites) id" by (simp add: demo_sites_def list_queue_laws)
  have "map (captured demo_sites demo_world) [(1, 2, 7, 3), (1, 2, 8, 0)] = [Some (dump_capture [65] 7 [65]), None]"
    by (simp add: captured_def string_utf16_def demo_sites_def demo_world_def load_u16_def u64_from_le_def read_bytes_def upt_conv_Cons)
  moreover obtain r where "dump_capture [65] 7 [65] = Some r" by (simp add: dump_capture_def dump_limits)
  ultimately show ?thesis
    using capture_accounting [OF l, of demo_world "[(1, 2, 7, 3), (1, 2, 8, 0)]"]
    by (simp add: Let_def demo_world_def DUMP_QUEUE_CAPACITY_def)
qed

section \<open>Containment\<close>

lemma sanitize_safe: "list_all safe_char (sanitize s)"
  by (auto simp: sanitize_def list_all_iff safe_char_def)

lemma ends_with_iff: "ends_with p s \<longleftrightarrow> (\<exists>r. s = r @ p)"
proof -
  have "ends_with p s \<longleftrightarrow> (\<exists>r. rev s = rev p @ r)" by (auto simp: ends_with_def strip_prefix_Some [symmetric])
  also have "\<dots> \<longleftrightarrow> (\<exists>r. s = r @ p)" by (metis rev_append rev_rev_ident)
  finally show ?thesis .
qed

lemma sanitize_json: "ends_with (ustr ''.json'') s \<Longrightarrow> ends_with (ustr ''.json'') (sanitize s)"
  by (auto simp: ends_with_iff sanitize_def ustr_def safe_char_def)


end
