(* ===== verification/Dump_Walk.thy ===== *)
theory Dump_Walk
  imports Dump_Capture
begin

text \<open>
  The whole-table and bulk dumps of \<open>crates/translation_dump/src/lib.rs\<close>: the walk over the game's
  dictionaries in memory, and the two handlers that probe the game's data files in batches.  The game
  functions they call are the record \<open>data_file_game\<close>.
\<close>

section \<open>Errors and loops\<close>

text \<open>Errors are texts; an error of another layer stands for its own text.\<close>

datatype dump_error =
    Text string
  | Count_Text string nat
  | Il2Cpp_Text il2cpp_error
  | Plugin_Text plugin_error
  | Io_Text

text \<open>A loop whose body may leave the function with \<open>?\<close>.\<close>

fun try_fold :: "('a \<Rightarrow> 's \<Rightarrow> ('e, 's) result) \<Rightarrow> 'a list \<Rightarrow> 's \<Rightarrow> ('e, 's) result" where
  "try_fold f [] s = Inr s"
| "try_fold f (x # xs) s = bind_result (f x s) (try_fold f xs)"

section \<open>The dictionaries\<close>

definition IL2CPP_ARRAY_DATA :: usize where "IL2CPP_ARRAY_DATA = 0x20"
definition DICT_ENTRIES :: usize where "DICT_ENTRIES = 0x18"
definition DICT_COUNT :: usize where "DICT_COUNT = 0x20"
definition ENTRY_STRIDE :: usize where "ENTRY_STRIDE = 0x18"
definition ENTRY_HASH :: usize where "ENTRY_HASH = 0"
definition ENTRY_KEY :: usize where "ENTRY_KEY = 0x8"
definition ENTRY_VALUE :: usize where "ENTRY_VALUE = 0x10"
definition MAX_WALK_ENTRIES :: nat where "MAX_WALK_ENTRIES = 500000"

definition read_u32 :: "(usize \<Rightarrow> u8) \<Rightarrow> usize \<Rightarrow> (dump_error, u32) result" where
  "read_u32 m p = Inr (load_i32 m p)"

definition read_ptr :: "(usize \<Rightarrow> u8) \<Rightarrow> usize \<Rightarrow> (dump_error, usize) result" where
  "read_ptr m p = Inr (load_u64 m p)"

definition read_string :: "(usize \<Rightarrow> u8) \<Rightarrow> usize \<Rightarrow> (dump_error, ustr) result" where
  "read_string m p =
     bind_result (ok_or (Text ''null string in dictionary entry'') (read_il2cpp_string_utf16 m p)) (\<lambda>units.
       ok_or (Text ''invalid utf16 in dictionary string'') (from_utf16 units))"

definition entry_addr :: "usize \<Rightarrow> nat \<Rightarrow> usize" where
  "entry_addr entries i = entries + IL2CPP_ARRAY_DATA + of_nat i * ENTRY_STRIDE"

definition walk_int_row ::
  "(usize \<Rightarrow> u8) \<Rightarrow> usize \<Rightarrow> nat \<Rightarrow> (ustr \<times> ustr) list \<Rightarrow> (dump_error, (ustr \<times> ustr) list) result" where
  "walk_int_row m entries i out =
     bind_result (read_u32 m (entry_addr entries i + ENTRY_HASH)) (\<lambda>hash.
       if sint hash < 0 then Inr out
       else bind_result (read_u32 m (entry_addr entries i + ENTRY_KEY)) (\<lambda>num.
         bind_result (read_ptr m (entry_addr entries i + ENTRY_VALUE)) (\<lambda>p.
         bind_result (read_string m p) (\<lambda>text. Inr (bt_insert (u32_decimal num) text out)))))"

definition walk_int_dictionary ::
  "(usize \<Rightarrow> u8) \<Rightarrow> usize \<Rightarrow> (ustr \<times> ustr) list \<Rightarrow> (dump_error, (ustr \<times> ustr) list) result" where
  "walk_int_dictionary m dict out =
     (if dict = 0 then Inr out
      else
        bind_result (read_u32 m (dict + DICT_COUNT)) (\<lambda>n.
        bind_result (read_ptr m (dict + DICT_ENTRIES)) (\<lambda>entries.
          if entries = 0 then Inr out
          else if MAX_WALK_ENTRIES < unat n then Inl (Count_Text ''inner dictionary malformed: count='' (unat n))
          else try_fold (walk_int_row m entries) [0..<unat n] out)))"

definition walk_string_row :: "(usize \<Rightarrow> u8) \<Rightarrow> usize \<Rightarrow> nat \<Rightarrow> localify \<Rightarrow> (dump_error, localify) result" where
  "walk_string_row m entries i out =
     bind_result (read_u32 m (entry_addr entries i + ENTRY_HASH)) (\<lambda>hash.
       if sint hash < 0 then Inr out
       else bind_result (read_ptr m (entry_addr entries i + ENTRY_KEY)) (\<lambda>key.
         bind_result (read_ptr m (entry_addr entries i + ENTRY_VALUE)) (\<lambda>inner.
         bind_result (read_string m key) (\<lambda>category.
           if category = [] then Inr out
           else bind_result (walk_int_dictionary m inner (bt_entry category out)) (\<lambda>bucket.
             Inr (bt_insert category bucket out))))))"

definition walk_string_dictionary :: "(usize \<Rightarrow> u8) \<Rightarrow> usize \<Rightarrow> localify \<Rightarrow> (dump_error, localify) result" where
  "walk_string_dictionary m dict out =
     (if dict = 0 then Inl (Text ''outer dictionary is null'')
      else
        bind_result (read_u32 m (dict + DICT_COUNT)) (\<lambda>n.
        bind_result (read_ptr m (dict + DICT_ENTRIES)) (\<lambda>entries.
          if entries = 0 \<or> MAX_WALK_ENTRIES < unat n
          then Inl (Count_Text ''outer dictionary malformed: count='' (unat n))
          else try_fold (walk_string_row m entries) [0..<unat n] out)))"

record dump_dic_response =
  dd_instance :: usize
  dd_merged_categories :: nat
  dd_merged_entries :: nat
  dd_flushed :: bool

definition dump_dic_handler ::
  "'w bridge \<Rightarrow> dump_json \<Rightarrow> write_faults \<times> write_faults \<Rightarrow> (usize \<Rightarrow> u8) \<Rightarrow> usize \<Rightarrow> 'w
     \<Rightarrow> dump_state \<times> dump_diagnostics \<Rightarrow> dump_fs
     \<Rightarrow> (dump_error, dump_dic_response) result \<times> (dump_state \<times> dump_diagnostics) \<times> dump_fs" where
  "dump_dic_handler B J F m instance_ptr w s fs =
     (if instance_ptr = 0 then
        (Inl (Text ''manager instance not captured yet; visit a screen with text first''), s, fs)
      else
        (case class_surface B m ''PRISM.Legacy.dll'' ''ENTERPRISE.Localization.LocalizationManager'' w of
           Inl _ \<Rightarrow> (Inl (Text ''LocalizationManager surface unavailable''), s, fs)
         | Inr surface \<Rightarrow>
             (case find_first (\<lambda>f. fs_name f = ''dic'') (cs_fields surface) of
                None \<Rightarrow> (Inl (Text ''dic field missing on LocalizationManager''), s, fs)
              | Some f \<Rightarrow>
                  (let dic_ptr = load_u64 m (instance_ptr + scast (fs_offset f)) in
                   if dic_ptr = 0 then (Inl (Text ''dic is null''), s, fs)
                   else
                     (case walk_string_dictionary m dic_ptr [] of
                        Inl e \<Rightarrow> (Inl e, s, fs)
                      | Inr parsed \<Rightarrow>
                          (case merge_map parsed s of
                             (s1, categories, entries) \<Rightarrow>
                               (case flush J F s1 fs of
                                  (r, s2, fs2) \<Rightarrow>
                                    (bind_result (map_err Plugin_Text r) (\<lambda>flushed.
                                       Inr \<lparr> dd_instance = instance_ptr, dd_merged_categories = categories,
                                         dd_merged_entries = entries, dd_flushed = flushed \<rparr>), s2, fs2))))))))"

section \<open>Data files\<close>

record 'w data_file_game =
  gm_string_new :: "u16 list \<Rightarrow> 'w \<Rightarrow> usize \<times> 'w"
  gm_is_key_exist :: "u64 \<Rightarrow> usize \<Rightarrow> 'w \<Rightarrow> bool \<times> 'w"
  gm_get_bytes :: "u64 \<Rightarrow> usize \<Rightarrow> 'w \<Rightarrow> usize \<times> 'w"
  gm_mem :: "'w \<Rightarrow> usize \<Rightarrow> u8"

text \<open>The faults of a write are those of its target.\<close>

definition dump_one_data_file ::
  "'w data_file_game \<Rightarrow> (path \<Rightarrow> write_faults) \<Rightarrow> u64 \<Rightarrow> ustr \<Rightarrow> path \<Rightarrow> 'w \<times> dump_fs
     \<Rightarrow> (dump_error, unit) result \<times> 'w \<times> dump_fs" where
  "dump_one_data_file g F va key target s =
     (case s of (w, fs) \<Rightarrow>
        (case gm_string_new g (encode_utf16 key) w of
           (key_ptr, w1) \<Rightarrow>
             if key_ptr = 0 then (Inl (Text ''string_new failed''), w1, fs)
             else
               (case gm_get_bytes g va key_ptr w1 of
                  (arr, w2) \<Rightarrow>
                    if arr = 0 then (Inl (Text ''GetBytes returned null''), w2, fs)
                    else
                      (let len = array_len (gm_mem g w2) arr in
                       if MAX_DATA_FILE_BYTES < len then (Inl (Count_Text ''data file too large: '' len), w2, fs)
                       else
                         (let fs1 = (if wf_dir (F target) then fs else fs_mkdirs (butlast target) fs) in
                          case fs_write (F target) target (array_bytes (gm_mem g w2) arr) fs1 of
                            (ok, fs2) \<Rightarrow> (if ok then Inr () else Inl Io_Text, w2, fs2))))))"

text \<open>Both method addresses of \<open>DataFile\<close>, or the error text.\<close>

definition resolve_data_file :: "'w bridge \<Rightarrow> string \<Rightarrow> string \<Rightarrow> 'w \<Rightarrow> (dump_error, u64) result" where
  "resolve_data_file B meth missing w =
     bind_result (map_err Il2Cpp_Text (resolve_method_va B ''PRISM.Legacy.dll'' ''PRISM.DataFile'' meth 1 w))
       (ok_or (Text missing))"

definition data_file_vas :: "'w bridge \<Rightarrow> 'w \<Rightarrow> (dump_error, u64 \<times> u64) result" where
  "data_file_vas B w =
     bind_result (resolve_data_file B ''IsKeyExist'' ''DataFile.IsKeyExist(1) not found'' w) (\<lambda>is_key_va.
     bind_result (resolve_data_file B ''GetBytes'' ''DataFile.GetBytes(1) not found'' w) (\<lambda>get_bytes_va.
       Inr (is_key_va, get_bytes_va)))"

section \<open>Scenarios\<close>

definition title_prefix :: ustr where "title_prefix = ustr ''mlADVInfo_Title_''"

definition scenario_sids :: "localify \<Rightarrow> ustr list" where
  "scenario_sids entries =
     remdups_adj (sort (map (trim_start_matches title_prefix) (filter (starts_with title_prefix) (map fst entries))))"

definition part_name :: "ustr \<Rightarrow> u32 \<Rightarrow> ustr" where
  "part_name sid part = sid @ ustr ''_'' @ decimal2 (unat part) @ ustr ''.json''"

text \<open>The probe of one scenario: parts are asked for until five in a row are missing.  A game that never
  says no keeps it busy for ever.\<close>

partial_function (option) probe_parts ::
  "'w data_file_game \<Rightarrow> (path \<Rightarrow> write_faults) \<Rightarrow> u64 \<times> u64 \<Rightarrow> path \<Rightarrow> ustr \<Rightarrow> u32 \<Rightarrow> nat \<Rightarrow> nat \<Rightarrow> 'w \<times> dump_fs
     \<Rightarrow> ((dump_error, nat) result \<times> 'w \<times> dump_fs) option" where
  "probe_parts g F va dir sid part misses written s =
     (if 5 \<le> misses then Some (Inr written, s)
      else
        (case s of (w, fs) \<Rightarrow>
          (case gm_string_new g (encode_utf16 (part_name sid part)) w of
             (key, w1) \<Rightarrow>
               if key = 0 then Some (Inl (Text ''string_new failed''), w1, fs)
               else
                 (case gm_is_key_exist g (fst va) key w1 of
                    (exist, w2) \<Rightarrow>
                      if \<not> exist then probe_parts g F va dir sid (part + 1) (misses + 1) written (w2, fs)
                      else
                        (case dump_one_data_file g F (snd va) (part_name sid part) (dir @ [part_name sid part]) (w2, fs) of
                           (Inl e, s') \<Rightarrow> Some (Inl e, s')
                         | (Inr _, s') \<Rightarrow> probe_parts g F va dir sid (part + 1) 0 (written + 1) s')))))"

text \<open>The batch: \<open>limit\<close> scenarios from the cursor on; \<open>(cursor, sids_done, files_written)\<close> and the result.\<close>

fun dump_sids ::
  "'w data_file_game \<Rightarrow> (path \<Rightarrow> write_faults) \<Rightarrow> u64 \<times> u64 \<Rightarrow> path \<Rightarrow> ustr list \<Rightarrow> nat \<Rightarrow> nat \<times> nat \<times> nat \<Rightarrow> 'w \<times> dump_fs
     \<Rightarrow> ((dump_error, unit) result \<times> (nat \<times> nat \<times> nat) \<times> 'w \<times> dump_fs) option" where
  "dump_sids g F va dir sids 0 c s = Some (Inr (), c, s)"
| "dump_sids g F va dir sids (Suc limit) (cursor, sids_done, files) s =
     (if cursor < length sids then
        (case probe_parts g F va dir (sids ! cursor) 0 0 0 s of
           None \<Rightarrow> None
         | Some (Inl e, s') \<Rightarrow> Some (Inl e, (cursor, sids_done, files), s')
         | Some (Inr n, s') \<Rightarrow> dump_sids g F va dir sids limit (cursor + 1, sids_done + 1, files + n) s')
      else Some (Inr (), (cursor, sids_done, files), s))"

record scenario_dump_response =
  sr_total_sids :: nat
  sr_cursor :: nat
  sr_sids_done :: nat
  sr_files_written :: nat
  sr_done :: bool

definition scenario_dump_handler ::
  "'w bridge \<Rightarrow> 'w data_file_game \<Rightarrow> (path \<Rightarrow> write_faults) \<Rightarrow> nat option \<Rightarrow> dump_state \<Rightarrow> 'w \<times> dump_fs
     \<Rightarrow> ((dump_error, scenario_dump_response) result \<times> dump_state \<times> 'w \<times> dump_fs) option" where
  "scenario_dump_handler B g F limit st s =
     (let total_sids = length (filter (starts_with title_prefix) (map fst (ds_entries st)));
          sids = scenario_sids (ds_entries st) in
      case data_file_vas B (fst s) of
        Inl e \<Rightarrow> Some (Inl e, st, s)
      | Inr va \<Rightarrow>
          (let dir = butlast (ds_path st) @ [ustr ''json''];
               fs1 = (if wf_dir (F dir) then snd s else fs_mkdirs dir (snd s)) in
           case dump_sids g F va dir sids (case limit of None \<Rightarrow> 25 | Some n \<Rightarrow> n)
                  (ds_scenario_cursor st, 0, 0) (fst s, fs1) of
             None \<Rightarrow> None
           | Some (r, (cursor, sids_done, files), s') \<Rightarrow>
               Some (bind_result r (\<lambda>_. Inr \<lparr> sr_total_sids = total_sids, sr_cursor = cursor, sr_sids_done = sids_done,
                   sr_files_written = files, sr_done = (length sids \<le> cursor) \<rparr>),
                 st\<lparr> ds_scenario_cursor := cursor \<rparr>, s')))"

section \<open>Lyrics\<close>

definition default_patterns :: "ustr list" where
  "default_patterns = map ustr [''{id}_lyrics'', ''lyrics/{id}'', ''music/{id}_lyrics'', ''music/{id}/lyrics'',
     ''musicscore/{id}'', ''musicscore/{id}_score'', ''lyric/{id}'']"

fun probe_patterns ::
  "'w data_file_game \<Rightarrow> (path \<Rightarrow> write_faults) \<Rightarrow> u64 \<times> u64 \<Rightarrow> path \<Rightarrow> ustr \<Rightarrow> ustr list \<Rightarrow> nat \<Rightarrow> 'w \<times> dump_fs
     \<Rightarrow> (dump_error, unit) result \<times> nat \<times> 'w \<times> dump_fs" where
  "probe_patterns g F va dir music [] files s = (Inr (), files, s)"
| "probe_patterns g F va dir music (pattern # patterns) files (w, fs) =
     (let key = replace_all (ustr ''{id}'') music pattern in
      case gm_string_new g (encode_utf16 key) w of
        (key_ptr, w1) \<Rightarrow>
          if key_ptr = 0 then probe_patterns g F va dir music patterns files (w1, fs)
          else
            (case gm_is_key_exist g (fst va) key_ptr w1 of
               (exist, w2) \<Rightarrow>
                 if \<not> exist then probe_patterns g F va dir music patterns files (w2, fs)
                 else
                   (let target = dir @ [ustr ''lyrics'', sanitize key] in
                    if fs_exists target fs then probe_patterns g F va dir music patterns files (w2, fs)
                    else
                      (case dump_one_data_file g F (snd va) key target (w2, fs) of
                         (Inl e, s') \<Rightarrow> (Inl e, files, s')
                       | (Inr _, s') \<Rightarrow> probe_patterns g F va dir music patterns (files + 1) s'))))"

fun dump_music ::
  "'w data_file_game \<Rightarrow> (path \<Rightarrow> write_faults) \<Rightarrow> u64 \<times> u64 \<Rightarrow> path \<Rightarrow> ustr list \<Rightarrow> ustr list \<Rightarrow> nat \<Rightarrow> nat \<times> nat \<Rightarrow> 'w \<times> dump_fs
     \<Rightarrow> (dump_error, unit) result \<times> (nat \<times> nat) \<times> 'w \<times> dump_fs" where
  "dump_music g F va dir patterns music 0 c s = (Inr (), c, s)"
| "dump_music g F va dir patterns music (Suc limit) (cursor, files) s =
     (if cursor < length music then
        (case probe_patterns g F va dir (music ! cursor) patterns files s of
           (Inl e, files', s') \<Rightarrow> (Inl e, (cursor, files'), s')
         | (Inr _, files', s') \<Rightarrow> dump_music g F va dir patterns music limit (cursor + 1, files') s')
      else (Inr (), (cursor, files), s))"

record lyrics_dump_response =
  lq_total_music :: nat
  lq_cursor :: nat
  lq_files_written :: nat
  lq_patterns_used :: "ustr list"
  lq_done :: bool

definition lyrics_dump_handler ::
  "'w bridge \<Rightarrow> 'w data_file_game \<Rightarrow> (path \<Rightarrow> write_faults) \<Rightarrow> ustr list \<Rightarrow> nat option \<Rightarrow> dump_state \<Rightarrow> 'w \<times> dump_fs
     \<Rightarrow> (dump_error, lyrics_dump_response) result \<times> dump_state \<times> 'w \<times> dump_fs" where
  "lyrics_dump_handler B g F requested limit st s =
     (let patterns = (if requested = [] then default_patterns else requested);
          music = map fst (bt_entry (ustr ''mlMusic_Name'') (ds_entries st));
          dir = butlast (ds_path st) @ [ustr ''json''];
          fs1 = (if wf_dir (F dir) then snd s else fs_mkdirs dir (snd s)) in
      case data_file_vas B (fst s) of
        Inl e \<Rightarrow> (Inl e, st, fst s, fs1)
      | Inr va \<Rightarrow>
          (case dump_music g F va dir patterns music (case limit of None \<Rightarrow> 20 | Some n \<Rightarrow> n)
                  (ds_lyrics_cursor st, 0) (fst s, fs1) of
             (r, (cursor, files), s') \<Rightarrow>
               (bind_result r (\<lambda>_. Inr \<lparr> lq_total_music = length music, lq_cursor = cursor, lq_files_written = files,
                   lq_patterns_used = patterns, lq_done = (length music \<le> cursor) \<rparr>),
                st\<lparr> ds_lyrics_cursor := cursor \<rparr>, s')))"

end
