(* ===== verification/Dump_State_Correct.thy ===== *)
theory Dump_State_Correct
  imports Dump_State
begin

text \<open>
  What the dump guarantees: records carry texts unchanged, a flush replaces the file at once or not at
  all, the table holds the last text written for every id, and a clean table is on disk.  Lyrics have
  no such guarantee.
\<close>

section \<open>Records\<close>

lemma take_copy_prefix: "length xs \<le> n \<Longrightarrow> n < 65536 \<Longrightarrow> take (unat (of_nat (length xs) :: u16)) (copy_prefix xs n) = xs"
  by (simp add: copy_prefix_def unat_of_nat_16)

lemma dump_capture_decode:
  "map_option dump_decode (dump_capture category num text) =
     (if 128 < length category \<or> 2048 < length text then None
      else Some (case (from_utf16 category, from_utf16 text) of
             (Some c, Some t) \<Rightarrow> Inr (c, i32_decimal num, t) | _ \<Rightarrow> Inl ()))"
  by (simp add: dump_capture_def dump_decode_def take_copy_prefix dump_limits split: option.split)

lemma i32_decimal_inj: "i32_decimal a = i32_decimal b \<Longrightarrow> a = b"
proof -
  assume e: "i32_decimal a = i32_decimal b"
  have "sint a = sint b"
  proof (cases "sint a < 0"; cases "sint b < 0")
    assume "sint a < 0" "\<not> sint b < 0"
    with e have "hd (decimal (nat (sint b))) = 45" by (metis i32_decimal_def list.sel(1))
    then show ?thesis by (simp add: decimal_head)
  next
    assume "\<not> sint a < 0" "sint b < 0"
    with e have "hd (decimal (nat (sint a))) = 45" by (metis i32_decimal_def list.sel(1))
    then show ?thesis by (simp add: decimal_head)
  qed (use e in \<open>auto simp: i32_decimal_def\<close>)
  then show "a = b" by (simp add: signed_word_eqI)
qed

text \<open>
  A text goes through a record unchanged or not at all. A category and a text of the hook within
  128 and 2048 UTF-16 units come back from the record exactly as they were, under the decimal id, and
  different ids stay different; longer ones are refused, never cut.
\<close>

theorem dump_record_round_trip:
  assumes "valid_ustr category" "valid_ustr text"
  shows "map_option dump_decode (dump_capture (encode_utf16 category) num (encode_utf16 text)) =
      (if 128 < length (encode_utf16 category) \<or> 2048 < length (encode_utf16 text) then None
       else Some (Inr (category, i32_decimal num, text))) \<and> inj i32_decimal"
  using assms by (auto simp: dump_capture_decode intro: injI i32_decimal_inj)

theorem dump_record_round_trip_witness:
  "map_option dump_decode (dump_capture (encode_utf16 [0x5267]) 7 (encode_utf16 [0x1F600])) =
     Some (Inr ([0x5267], i32_decimal 7, [0x1F600]))"
  using dump_record_round_trip [of "[0x5267]" "[0x1F600]" 7]
  by (simp add: valid_ustr_def scalar_def encode_utf16_def encode_char_def)

section \<open>Atomic writing\<close>

lemma with_extension_other: "path \<noteq> [] \<Longrightarrow> with_extension path (ustr ''json.tmp'') \<noteq> path"
proof
  assume ne: "path \<noteq> []" and eq: "with_extension path (ustr ''json.tmp'') = path"
  define s where "s = file_stem (last path)"
  from eq have n: "last path = s @ 46 # ustr ''json.tmp''" unfolding with_extension_def s_def by (metis last_snoc)
  have "file_stem (s @ 46 # ustr ''json.tmp'') = s @ 46 # ustr ''json''"
    by (simp add: file_stem_def ustr_def)
  moreover have "file_stem (s @ 46 # ustr ''json.tmp'') = s" using n s_def by metis
  ultimately show False by simp
qed

lemma fs_put_other [simp]: "q \<noteq> p \<Longrightarrow> df_files (fs_put p bs fs) q = df_files fs q"
  by (simp add: fs_put_def)

lemma fs_mkdirs_files [simp]: "df_files (fs_mkdirs p fs) = df_files fs"
  by (simp add: fs_mkdirs_def)

definition same_but :: "path set \<Rightarrow> dump_fs \<Rightarrow> dump_fs \<Rightarrow> bool" where
  "same_but ps fs s \<longleftrightarrow> (\<forall>q. q \<notin> ps \<longrightarrow> df_files s q = df_files fs q)"

lemma same_but_refl [simp]: "same_but ps fs fs"
  by (simp add: same_but_def)

lemma same_but_mkdirs [simp]: "same_but ps fs (fs_mkdirs p s) = same_but ps fs s"
  by (simp add: same_but_def)

lemma same_but_partial: "list_all (same_but {p} fs) (partial_writes p bs (fs_mkdirs d fs))"
  by (auto simp: partial_writes_def list_all_iff same_but_def)

lemma write_atomic_cases:
  assumes "path \<noteq> []" and "write_atomic_json J F path entries fs = (r, states)"
  defines "temp \<equiv> with_extension path (ustr ''json.tmp'')"
  shows "list_all (same_but {temp} fs) states \<and> r \<noteq> Inr () \<and> states \<noteq> [] \<or>
    (\<exists>bs sts. dj_pretty J entries = (bs, True) \<and> r = Inr () \<and> list_all (same_but {temp} fs) sts \<and>
       states = sts @ [fs_rename temp path (fs_put temp (bs @ [10]) (fs_mkdirs (butlast path) fs))])"
proof -
  obtain bs ok where p: "dj_pretty J entries = (bs, ok)" by fastforce
  note w = assms(2) [unfolded write_atomic_json_def if_not_P [OF assms(1)] Let_def, folded temp_def]
  have all: "list_all (same_but {temp} fs) (fs # fs_mkdirs d fs # partial_writes temp x (fs_mkdirs d fs))" for d x
    using same_but_partial by simp
  consider "wf_dir F" | "\<not> wf_dir F" "wf_open F" | "\<not> wf_dir F" "\<not> wf_open F" "\<not> ok"
    | n enc where "\<not> wf_dir F" "\<not> wf_open F" "ok" "wf_write F = Some (n, enc)"
    | "\<not> wf_dir F" "\<not> wf_open F" "ok" "wf_write F = None" "wf_sync F \<or> wf_rename F"
    | "\<not> wf_dir F" "\<not> wf_open F" "ok" "wf_write F = None" "\<not> (wf_sync F \<or> wf_rename F)"
    by (cases "wf_write F") auto
  then show ?thesis
  proof cases
    case 6
    then have "r = Inr ()" "states = (fs # fs_mkdirs (butlast path) fs # partial_writes temp (bs @ [10])
        (fs_mkdirs (butlast path) fs)) @ [fs_rename temp path (fs_put temp (bs @ [10]) (fs_mkdirs (butlast path) fs))]"
      using w p by auto
    moreover have "dj_pretty J entries = (bs, True)" using p 6 by simp
    ultimately show ?thesis using all by (intro disjI2 exI conjI)
  qed (use w p all in auto)
qed

text \<open>
  C14: a flush is atomic. Whatever fails on the way, and whenever the process dies, the dump file is the
  old one or the complete new one: every state the file system goes through, but the last one of a
  successful write, has the old file; after a success the file is the complete JSON with its newline;
  and no other file than the temporary one is ever touched.
\<close>

theorem write_is_atomic:
  assumes "path \<noteq> []"
  shows "case write_atomic_json J F path entries fs of (r, states) \<Rightarrow>
    (if r = Inr () then df_files (last states) path = Some (fst (dj_pretty J entries) @ [10]) \<and>
       snd (dj_pretty J entries) \<and> list_all (\<lambda>s. df_files s path = df_files fs path) (butlast states)
     else list_all (\<lambda>s. df_files s path = df_files fs path) states) \<and>
    list_all (same_but {path, with_extension path (ustr ''json.tmp'')} fs) states"
proof -
  obtain r states where w: "write_atomic_json J F path entries fs = (r, states)" by fastforce
  note ne = with_extension_other [OF assms]
  have old: "list_all (\<lambda>s. df_files s path = df_files fs path) sts"
    and oth: "list_all (same_but {path, with_extension path (ustr ''json.tmp'')} fs) sts"
    if "list_all (same_but {with_extension path (ustr ''json.tmp'')} fs) sts" for sts
    using that ne by (auto simp: list_all_iff same_but_def)
  from write_atomic_cases [OF assms w] show ?thesis unfolding w
    using ne by (auto simp: old oth fs_rename_def fs_put_def same_but_def)
qed


definition demo_json :: dump_json where
  "demo_json = \<lparr> dj_from_slice = (\<lambda>bs. if bs = [123, 10] then Some [] else if bs = [91, 10] then Some [([65], [([55], [84])])] else None),
     dj_pretty = (\<lambda>m. if m = [] then ([123], True) else if m = [([65], [([55], [84])])] then ([91], True) else ([], False)),
     dj_pretty_flat = (\<lambda>m. ([], True)) \<rparr>"

definition no_faults :: write_faults where
  "no_faults = \<lparr> wf_dir = False, wf_open = False, wf_write = None, wf_sync = False, wf_rename = False \<rparr>"

definition empty_fs :: dump_fs where
  "empty_fs = \<lparr> df_files = (\<lambda>_. None), df_dirs = (\<lambda>_. False) \<rparr>"

theorem write_is_atomic_witness:
  "df_files (last (snd (write_atomic_json demo_json no_faults [ustr ''d.json''] [] empty_fs))) [ustr ''d.json''] =
     Some [123, 10]"
  using write_is_atomic [where path = "[ustr ''d.json'']" and J = demo_json and F = no_faults and entries = "[]" and fs = empty_fs]
  by (simp add: demo_json_def no_faults_def write_atomic_json_def Let_def)

section \<open>The table and the file\<close>

definition localify_ok :: "localify \<Rightarrow> bool" where
  "localify_ok m \<longleftrightarrow> bt_sorted m \<and> (\<forall>c b. map_of m c = Some b \<longrightarrow> bt_sorted b)"

text \<open>What is printed parses back, and what is parsed is a map of maps.\<close>

definition json_laws :: "dump_json \<Rightarrow> bool" where
  "json_laws J \<longleftrightarrow> (\<forall>m bs. localify_ok m \<and> dj_pretty J m = (bs, True) \<longrightarrow> dj_from_slice J (bs @ [10]) = Some m) \<and>
     (\<forall>bs m. dj_from_slice J bs = Some m \<longrightarrow> localify_ok m)"

definition texts :: "localify \<Rightarrow> ustr \<times> ustr \<Rightarrow> ustr option" where
  "texts m x = map_of (bt_entry (fst x) m) (snd x)"

definition texts_on_disk :: "dump_json \<Rightarrow> dump_fs \<Rightarrow> path \<Rightarrow> ustr \<times> ustr \<Rightarrow> ustr option" where
  "texts_on_disk J fs p =
     (case Option.bind (df_files fs p) (dj_from_slice J) of None \<Rightarrow> Map.empty | Some m \<Rightarrow> texts m)"

lemma bt_entry_sorted: "localify_ok m \<Longrightarrow> bt_sorted (bt_entry c m)"
  by (auto simp: localify_ok_def bt_entry_def bt_sorted_def [of "[]"] split: option.split)

lemma localify_insert_ok: "localify_ok m \<Longrightarrow> bt_sorted b \<Longrightarrow> localify_ok (bt_insert c b m)"
  by (auto simp: localify_ok_def bt_insert_sorted bt_lookup_insert split: if_splits)

definition at_category :: "ustr \<Rightarrow> (ustr \<times> ustr) list \<Rightarrow> (ustr \<times> ustr \<Rightarrow> ustr option) \<Rightarrow> ustr \<times> ustr \<Rightarrow> ustr option" where
  "at_category c b T x = (if fst x = c then map_of b (snd x) else T x)"

lemma at_category_insert:
  "bt_sorted b \<Longrightarrow> at_category c (bt_insert i t b) T = (at_category c b T)((c, i) \<mapsto> t)"
  by (rule ext) (auto simp: at_category_def bt_lookup_insert)

lemma at_category_same: "at_category c (bt_entry c m) (texts m) = texts m"
  by (rule ext) (simp add: at_category_def texts_def)

lemma texts_insert: "localify_ok m \<Longrightarrow> texts (bt_insert c b m) = at_category c b (texts m)"
  by (rule ext) (simp add: texts_def bt_entry_def localify_ok_def bt_lookup_insert at_category_def)

text \<open>What an operation of the plugin writes.\<close>

datatype dump_op =
    D_Frame "write_faults \<times> write_faults" "dump_record list" "lyrics_record list"
  | D_Table localify
  | D_Flush "write_faults \<times> write_faults"

fun dump_step ::
  "dump_json \<Rightarrow> dump_op \<Rightarrow> (dump_state \<times> dump_diagnostics) \<times> dump_fs \<Rightarrow> (dump_state \<times> dump_diagnostics) \<times> dump_fs" where
  "dump_step J (D_Frame F records lyrics) (s, fs) = snd (dump_update J F records lyrics s fs)"
| "dump_step J (D_Table table) (s, fs) = (fst (merge_map table s), fs)"
| "dump_step J (D_Flush F) (s, fs) = snd (flush J F s fs)"

definition record_writes :: "dump_record \<Rightarrow> ((ustr \<times> ustr) \<times> ustr) list" where
  "record_writes r = (case dump_decode r of Inl _ \<Rightarrow> [] | Inr (category, num, text) \<Rightarrow> [((category, num), text)])"

fun op_writes :: "dump_op \<Rightarrow> ((ustr \<times> ustr) \<times> ustr) list" where
  "op_writes (D_Frame F records lyrics) = concat (map record_writes records)"
| "op_writes (D_Table table) =
     concat (map (\<lambda>(category, bucket). map (\<lambda>(num, text). ((category, num), text)) bucket) table)"
| "op_writes (D_Flush F) = []"

text \<open>\<open>tracks T st\<close>: the state holds the texts \<open>T\<close>; \<open>clean\<close>: unless it is dirty they are on disk.\<close>

definition tracks :: "path \<Rightarrow> (ustr \<times> ustr \<Rightarrow> ustr option) \<Rightarrow> dump_state \<Rightarrow> bool" where
  "tracks p T st \<longleftrightarrow> ds_path st = p \<and> localify_ok (ds_entries st) \<and> texts (ds_entries st) = T"

definition clean :: "(ustr \<times> ustr \<Rightarrow> ustr option) \<Rightarrow> dump_state \<Rightarrow> bool" where
  "clean D st \<longleftrightarrow> (\<not> ds_dirty st \<longrightarrow> texts (ds_entries st) = D)"

definition overwrite :: "((ustr \<times> ustr) \<times> ustr) list \<Rightarrow> (ustr \<times> ustr \<Rightarrow> ustr option) \<Rightarrow> ustr \<times> ustr \<Rightarrow> ustr option" where
  "overwrite ws T = T ++ map_of (rev ws)"

lemma overwrite_simps [simp]:
  "overwrite [] T = T"
  "overwrite ((x, t) # ws) T = overwrite ws (T(x \<mapsto> t))"
  "overwrite (ws @ vs) T = overwrite vs (overwrite ws T)"
  by (simp_all add: overwrite_def map_add_upd_left map_add_assoc)

lemma dump_merge_tracks:
  assumes "tracks p T st" "clean D st" "dump_merge r (st, d) = (st', d')"
  shows "tracks p (overwrite (record_writes r) T) st' \<and> clean D st'"
proof (cases "dump_decode r")
  case (Inl e)
  with assms show ?thesis by (simp add: dump_merge_def record_writes_def)
next
  case (Inr x)
  obtain c i t where x: "x = (c, i, t)" by (metis prod_cases3)
  let ?m = "ds_entries st"
  have ok: "localify_ok ?m" and T: "texts ?m = T" using assms(1) by (simp_all add: tracks_def)
  note so = bt_entry_sorted [OF ok]
  have e: "texts (bt_insert c (bt_insert i t (bt_entry c ?m)) ?m) = T((c, i) \<mapsto> t)"
    by (simp only: texts_insert [OF ok] at_category_insert [OF so] at_category_same [of c ?m, unfolded T] T)
  moreover have "T((c, i) \<mapsto> t) = T" if "map_of (bt_entry c ?m) i = Some t"
    using that by (simp add: T [symmetric] texts_def fun_upd_idem_iff)
  ultimately show ?thesis using assms Inr x localify_insert_ok [OF ok bt_insert_sorted [OF so]]
    by (auto simp: dump_merge_def record_writes_def tracks_def clean_def Let_def split: if_splits)
qed


text \<open>The rows of one category: a row that changes nothing leaves the flag, any other sets it.\<close>

lemma merge_rows:
  "fold merge_row rows (slot, dirty, d, n) = (slot', dirty', d', n') \<Longrightarrow> bt_sorted slot \<Longrightarrow>
     bt_sorted slot' \<and> at_category c slot' T = overwrite (map (\<lambda>(num, text). ((c, num), text)) rows) (at_category c slot T) \<and>
     (\<not> dirty' \<longrightarrow> \<not> dirty \<and> slot' = slot)"
proof (induction rows arbitrary: slot dirty d n)
  case (Cons row rows)
  obtain i t where row: "row = (i, t)" by fastforce
  have "merge_row row (slot, dirty, d, n) = (bt_insert i t slot, (if map_of slot i \<noteq> Some t then True else dirty),
      d\<lparr> dg_merged := dg_merged d + 1 \<rparr>, n + 1)"
    by (simp add: row merge_row_def)
  with Cons.prems(1) have step: "fold merge_row rows (bt_insert i t slot, (if map_of slot i \<noteq> Some t then True else dirty),
      d\<lparr> dg_merged := dg_merged d + 1 \<rparr>, n + 1) = (slot', dirty', d', n')"
    by simp
  note ih = Cons.IH [OF step bt_insert_sorted [OF Cons.prems(2)]]
  show ?case
  proof (cases "map_of slot i = Some t")
    case True
    note same = bt_insert_same [OF Cons.prems(2) True]
    from ih show ?thesis
      unfolding row list.map prod.case overwrite_simps at_category_insert [OF Cons.prems(2), symmetric] same
      by (simp add: True)
  next
    case False
    with ih show ?thesis
      unfolding row list.map prod.case overwrite_simps at_category_insert [OF Cons.prems(2), symmetric] by simp
  qed
qed simp

definition category_writes :: "ustr \<times> (ustr \<times> ustr) list \<Rightarrow> ((ustr \<times> ustr) \<times> ustr) list" where
  "category_writes row = (case row of (category, bucket) \<Rightarrow> map (\<lambda>(num, text). ((category, num), text)) bucket)"

lemma merge_category_tracks:
  assumes "tracks p T st" "clean D st" "merge_category row ((st, d), a, b) = ((st', d'), a', b')"
  shows "tracks p (overwrite (category_writes row) T) st' \<and> clean D st'"
proof -
  obtain c bucket where row: "row = (c, bucket)" by fastforce
  let ?m = "ds_entries st"
  have ok: "localify_ok ?m" and T: "texts ?m = T" using assms(1) by (simp_all add: tracks_def)
  note so = bt_entry_sorted [OF ok, of c]
  obtain slot dirty d1 n where f: "fold merge_row bucket (bt_entry c ?m, ds_dirty st, d, b) = (slot, dirty, d1, n)"
    by (metis prod_cases4)
  note r = merge_rows [OF f so, of c T]
  have base: "at_category c (bt_entry c ?m) T = T" using at_category_same [of c ?m] T by simp
  have st': "st' = st\<lparr> ds_entries := bt_insert c slot ?m, ds_dirty := dirty \<rparr>"
    using assms(3) f by (simp add: merge_category_def row)
  have e: "texts (bt_insert c slot ?m) = overwrite (category_writes row) T"
    using r base by (simp add: texts_insert [OF ok] T category_writes_def row)
  moreover have "texts (bt_insert c slot ?m) = T" if "\<not> dirty"
    using that r base by (simp add: texts_insert [OF ok] T)
  ultimately show ?thesis using assms(1,2) r localify_insert_ok [OF ok, of slot c]
    by (auto simp: st' tracks_def clean_def T)
qed

lemma merge_map_tracks:
  "tracks p T st \<Longrightarrow> clean D st \<Longrightarrow> fold merge_category table ((st, d), a, b) = ((st', d'), a', b') \<Longrightarrow>
     tracks p (overwrite (concat (map category_writes table)) T) st' \<and> clean D st'"
proof (induction table arbitrary: T st d a b)
  case (Cons row table)
  obtain st1 d1 a1 b1 where m: "merge_category row ((st, d), a, b) = ((st1, d1), a1, b1)" by (metis prod.exhaust)
  from merge_category_tracks [OF Cons.prems(1,2) m] Cons.IH [of "overwrite (category_writes row) T" st1 d1 a1 b1]
    Cons.prems(3) m show ?case by simp
qed simp

lemma merge_records_tracks:
  "tracks p T st \<Longrightarrow> clean D st \<Longrightarrow> fold dump_merge rs (st, d) = (st', d') \<Longrightarrow>
     tracks p (overwrite (concat (map record_writes rs)) T) st' \<and> clean D st'"
proof (induction rs arbitrary: T st d)
  case (Cons r rs)
  obtain st1 d1 where m: "dump_merge r (st, d) = (st1, d1)" by fastforce
  from dump_merge_tracks [OF Cons.prems(1,2) m] Cons.IH [of "overwrite (record_writes r) T" st1 d1] Cons.prems(3) m
  show ?case by simp
qed simp

lemma merge_lyric_entries:
  "merge_lyric r (st, d) = (st', d') \<Longrightarrow> ds_path st' = ds_path st \<and> ds_entries st' = ds_entries st \<and> ds_dirty st' = ds_dirty st
     \<and> ds_frames st' = ds_frames st"
  by (auto simp: merge_lyric_def Let_def case_prod_beta split: if_splits)

lemma merge_lyrics_entries:
  "fold merge_lyric rs (st, d) = (st', d') \<Longrightarrow> ds_path st' = ds_path st \<and> ds_entries st' = ds_entries st \<and> ds_dirty st' = ds_dirty st
     \<and> ds_frames st' = ds_frames st"
proof (induction rs arbitrary: st d)
  case (Cons r rs)
  obtain st1 d1 where m: "merge_lyric r (st, d) = (st1, d1)" by fastforce
  from merge_lyric_entries [OF m] Cons.IH [of st1 d1] Cons.prems m show ?case by simp
qed simp


lemma write_lyrics_other:
  assumes "p = dump_path root"
  shows "df_files (write_lyrics J F p lyrics fs) p = df_files fs p"
proof -
  have "butlast p @ [ustr ''lyrics_dump.json''] \<noteq> p"
    and "with_extension (butlast p @ [ustr ''lyrics_dump.json'']) (ustr ''json.tmp'') \<noteq> p"
    by (simp_all add: assms dump_path_def with_extension_def butlast_append file_stem_def ustr_def)
  then show ?thesis
    by (simp add: write_lyrics_def Let_def fs_remove_def fs_rename_def fs_put_def split: prod.split)
qed

lemma texts_on_disk_cong: "df_files fs' p = df_files fs p \<Longrightarrow> texts_on_disk J fs' p = texts_on_disk J fs p"
  by (simp add: texts_on_disk_def)

lemma flush_tracks:
  assumes J: "json_laws J" and p: "p = dump_path root"
    and t: "tracks p T st" "clean (texts_on_disk J fs p) st"
    and f: "flush J F (st, d) fs = (r, (st', d'), fs')"
  shows "tracks p T st' \<and> clean (texts_on_disk J fs' p) st'"
proof (cases "\<not> ds_dirty st \<and> \<not> ds_lyrics_dirty st")
  case True
  with t f show ?thesis by (auto simp: flush_def tracks_def clean_def)
next
  case False
  have path: "ds_path st = p" and ne: "p \<noteq> []" using t(1) p by (auto simp: tracks_def dump_path_def)
  obtain res states where w: "write_atomic_json J (fst F) p (ds_entries st) fs = (res, states)" by fastforce
  note c = write_atomic_cases [OF ne w]
  note other = with_extension_other [OF ne]
  show ?thesis
  proof (cases res)
    case (Inl e)
    with c have l: "list_all (same_but {with_extension p (ustr ''json.tmp'')} fs) states" "states \<noteq> []" by auto
    then have "same_but {with_extension p (ustr ''json.tmp'')} fs (last states)" by (simp add: list_all_iff)
    with other have "df_files (last states) p = df_files fs p" by (auto simp: same_but_def)
    then have "texts_on_disk J (last states) p = texts_on_disk J fs p" by (rule texts_on_disk_cong)
    moreover have "st' = st" "fs' = last states" using f w Inl False path by (simp_all add: flush_def)
    ultimately show ?thesis using t by simp
  next
    case (Inr u)
    with c obtain bs where b: "dj_pretty J (ds_entries st) = (bs, True)" "df_files (last states) p = Some (bs @ [10])"
      by (auto simp: fs_rename_def fs_put_def)
    from f w Inr False path have fs': "df_files fs' p = df_files (last states) p"
      and st': "st' = st\<lparr> ds_dirty := False, ds_lyrics_dirty := False, ds_frames := 0 \<rparr>"
      using write_lyrics_other [OF p] by (auto simp: flush_def Let_def)
    have "dj_from_slice J (bs @ [10]) = Some (ds_entries st)"
      using J b(1) t(1) by (auto simp: json_laws_def tracks_def)
    with fs' b(2) st' t(1) show ?thesis by (auto simp: tracks_def clean_def texts_on_disk_def)
  qed
qed

lemma flush_if_due_tracks:
  assumes "json_laws J" and "p = dump_path root"
    and "tracks p T st" "clean (texts_on_disk J fs p) st"
    and "flush_if_due J F (st, d) fs = (r, (st', d'), fs')"
  shows "tracks p T st' \<and> clean (texts_on_disk J fs' p) st'"
proof -
  let ?st = "st\<lparr> ds_frames := saturating_inc (ds_frames st) \<rparr>"
  have "tracks p T ?st" "clean (texts_on_disk J fs p) ?st" using assms(3,4) by (simp_all add: tracks_def clean_def)
  from flush_tracks [OF assms(1,2) this, of F d] assms(5) this show ?thesis
    by (auto simp: flush_if_due_def Let_def split: if_splits prod.splits)
qed

lemma dump_step_tracks:
  assumes "json_laws J" and "p = dump_path root"
    and "tracks p T st" "clean (texts_on_disk J fs p) st"
    and "dump_step J op ((st, d), fs) = ((st', d'), fs')"
  shows "tracks p (overwrite (op_writes op) T) st' \<and> clean (texts_on_disk J fs' p) st'"
proof (cases op)
  case (D_Frame F records lyrics)
  obtain st1 d1 where r: "fold dump_merge records (st, d) = (st1, d1)" by fastforce
  obtain st2 d2 where l: "fold merge_lyric lyrics (st1, d1) = (st2, d2)" by fastforce
  have "tracks p (overwrite (op_writes op) T) st2 \<and> clean (texts_on_disk J fs p) st2"
    using merge_records_tracks [OF assms(3,4) r] merge_lyrics_entries [OF l] D_Frame
    by (auto simp: tracks_def clean_def)
  with flush_if_due_tracks [OF assms(1,2), of _ st2 fs F d2] assms(5) D_Frame r l show ?thesis
    by (cases "flush_if_due J F (st2, d2) fs") (auto simp: dump_update_def)
next
  case (D_Table table)
  with assms(5) obtain a b where "fold merge_category table ((st, d), 0, 0) = ((st', d'), a, b)" "fs' = fs"
    by (cases "fold merge_category table ((st, d), 0, 0)") (auto simp: merge_map_def)
  with merge_map_tracks [OF assms(3,4)] D_Table show ?thesis
    by (simp add: category_writes_def [abs_def])
next
  case (D_Flush F)
  with assms(5) flush_tracks [OF assms(1-4), of F d] show ?thesis
    by (cases "flush J F (st, d) fs") auto
qed

lemma dump_steps_tracks:
  assumes "json_laws J" and "p = dump_path root"
  shows "tracks p T st \<Longrightarrow> clean (texts_on_disk J fs p) st \<Longrightarrow> fold (dump_step J) ops ((st, d), fs) = ((st', d'), fs') \<Longrightarrow>
    tracks p (overwrite (concat (map op_writes ops)) T) st' \<and> clean (texts_on_disk J fs' p) st'"
proof (induction ops arbitrary: T st d fs)
  case (Cons op ops)
  obtain st1 d1 fs1 where s: "dump_step J op ((st, d), fs) = ((st1, d1), fs1)" by (metis prod.exhaust)
  from dump_step_tracks [OF assms Cons.prems(1,2) s] Cons.IH [of "overwrite (op_writes op) T" st1 fs1 d1] Cons.prems(3) s
  show ?case by simp
qed simp

text \<open>
  C13: nothing dumped is lost and a clean table is on disk. After loading the file and then any frames,
  whole-table merges and flushes, with any I/O faults, the table holds for every id the last text
  written, or else what the file held at the start; and when the table is not marked dirty, the file
  parses to exactly these texts.
\<close>

theorem dump_history:
  assumes "json_laws J" and "dump_load J False (dump_path root) fs = Inr st"
    and "fold (dump_step J) ops ((st, d), fs) = ((st', d'), fs')"
  shows "(\<forall>x. texts (ds_entries st') x =
      (case map_of (rev (concat (map op_writes ops))) x of
         Some t \<Rightarrow> Some t | None \<Rightarrow> texts_on_disk J fs (dump_path root) x)) \<and>
    (if ds_dirty st' then True else texts_on_disk J fs' (dump_path root) = texts (ds_entries st'))"
proof -
  let ?p = "dump_path root"
  have "tracks ?p (texts_on_disk J fs ?p) st" "clean (texts_on_disk J fs ?p) st"
    using assms(1,2)
    by (auto simp: dump_load_def tracks_def clean_def texts_on_disk_def json_laws_def localify_ok_def bt_sorted_def
        texts_def bt_entry_def split: option.splits)
  from dump_steps_tracks [OF assms(1) refl this assms(3)] show ?thesis
    by (auto simp: tracks_def clean_def overwrite_def map_add_def split: option.split)
qed

lemma demo_json_laws: "json_laws demo_json"
  by (auto simp: json_laws_def demo_json_def localify_ok_def bt_sorted_def split: if_splits)

theorem dump_history_witness:
  "let ((st, d), fs) = fold (dump_step demo_json)
         [D_Frame (no_faults, no_faults) [the (dump_capture [65] 7 [84])] [],
          D_Flush (no_faults\<lparr> wf_sync := True \<rparr>, no_faults), D_Flush (no_faults, no_faults)]
         ((\<lparr> ds_path = dump_path (DataRoot []), ds_entries = [], ds_dirty = False, ds_frames = 0, ds_lyrics = [],
            ds_lyrics_dirty = False, ds_scenario_cursor = 0, ds_lyrics_cursor = 0 \<rparr>, diagnostics_default), empty_fs) in
   texts (ds_entries st) ([65], [55]) = Some [84]"
proof -
  let ?st = "\<lparr> ds_path = dump_path (DataRoot []), ds_entries = [], ds_dirty = False, ds_frames = 0, ds_lyrics = [],
            ds_lyrics_dirty = False, ds_scenario_cursor = 0, ds_lyrics_cursor = 0 \<rparr>"
  let ?ops = "[D_Frame (no_faults, no_faults) [the (dump_capture [65] 7 [84])] [],
          D_Flush (no_faults\<lparr> wf_sync := True \<rparr>, no_faults), D_Flush (no_faults, no_faults)]"
  obtain st d fs where f: "fold (dump_step demo_json) ?ops ((?st, diagnostics_default), empty_fs) = ((st, d), fs)"
    by (metis prod.exhaust)
  have l: "dump_load demo_json False (dump_path (DataRoot [])) empty_fs = Inr ?st"
    by (simp add: dump_load_def empty_fs_def)
  have seven: "decimal 7 = [55]" by (simp add: decimal_def eval_nat_numeral)
  have "map_option dump_decode (dump_capture [65] 7 [84]) = Some (Inr ([65], [55], [84]))"
    by (simp add: dump_capture_decode from_utf16_def high_surrogate_def low_surrogate_def i32_decimal_def seven)
  then have "record_writes (the (dump_capture [65] 7 [84])) = [(([65], [55]), [84])]"
    by (cases "dump_capture [65] 7 [84]") (simp_all add: record_writes_def)
  with dump_history [OF demo_json_laws l f] f show ?thesis by (simp add: Let_def)
qed

section \<open>Lyrics\<close>

lemma flush_if_due_clean:
  "\<not> ds_dirty st \<Longrightarrow> flush_if_due J F (st, d) fs = (Inr (), (st\<lparr> ds_frames := saturating_inc (ds_frames st) \<rparr>, d), fs)"
  by (simp add: flush_if_due_def Let_def)

definition lyric_frames ::
  "dump_json \<Rightarrow> ((write_faults \<times> write_faults) \<times> lyrics_record list) list \<Rightarrow> (dump_state \<times> dump_diagnostics) \<times> dump_fs
     \<Rightarrow> (dump_state \<times> dump_diagnostics) \<times> dump_fs" where
  "lyric_frames J frames s = fold (\<lambda>(F, lyrics) (s, fs). snd (dump_update J F [] lyrics s fs)) frames s"

lemma lyric_frames_fs:
  "\<not> ds_dirty st \<Longrightarrow> snd (lyric_frames J frames ((st, d), fs)) = fs"
proof (induction frames arbitrary: st d)
  case (Cons x frames)
  obtain F lyrics where x: "x = (F, lyrics)" by fastforce
  obtain st1 d1 where l: "fold merge_lyric lyrics (st, d) = (st1, d1)" by fastforce
  with merge_lyrics_entries [OF l] Cons.prems have "\<not> ds_dirty st1" by simp
  with l show ?case
    using Cons.IH [of "st1\<lparr> ds_frames := saturating_inc (ds_frames st1) \<rparr>" d1]
    by (simp add: lyric_frames_def x dump_update_def flush_if_due_clean)
qed (simp add: lyric_frames_def)

text \<open>
  Captured lyrics have no such guarantee. As long as no localization text comes in, no number of
  frames ever writes them, because the interval flush looks only at the other flag; and a flush whose
  lyrics file cannot be opened still reports success and marks them as written, after which a flush
  does nothing.
\<close>

theorem lyrics_not_flushed:
  assumes "\<not> ds_dirty st"
  shows "snd (lyric_frames J frames ((st, d), fs)) = fs \<and>
    (let (r, (st1, d1), fs1) = flush J (no_faults, no_faults\<lparr> wf_open := True \<rparr>) (st\<lparr> ds_lyrics_dirty := True \<rparr>, d) fs in
     (if snd (dj_pretty J (ds_entries st)) \<and> ds_path st \<noteq> []
      then r = Inr True \<and> ds_lyrics st1 = ds_lyrics st \<and>
        same_but {ds_path st, with_extension (ds_path st) (ustr ''json.tmp'')} fs fs1 \<and>
        fst (flush J F (st1, d1) fs1) = Inr False
      else True))"
proof -
  let ?F = "(no_faults, no_faults\<lparr> wf_open := True \<rparr>)"
  obtain r st1 d1 fs1 where f: "flush J ?F (st\<lparr> ds_lyrics_dirty := True \<rparr>, d) fs = (r, (st1, d1), fs1)"
    by (metis prod_cases3 prod.exhaust)
  have "r = Inr True \<and> ds_lyrics st1 = ds_lyrics st \<and>
        same_but {ds_path st, with_extension (ds_path st) (ustr ''json.tmp'')} fs fs1 \<and>
        fst (flush J F (st1, d1) fs1) = Inr False"
    if p: "snd (dj_pretty J (ds_entries st))" "ds_path st \<noteq> []"
  proof -
    obtain bs where b: "dj_pretty J (ds_entries st) = (bs, True)" using p(1) by (cases "dj_pretty J (ds_entries st)") auto
    show ?thesis using f p(2) b
      by (auto simp: flush_def write_atomic_json_def no_faults_def write_lyrics_def Let_def same_but_def
          fs_rename_def fs_put_def)
  qed
  then show ?thesis using lyric_frames_fs [OF assms] f by (auto simp: Let_def)
qed

theorem lyrics_not_flushed_witness:
  "snd (lyric_frames demo_json [((no_faults, no_faults), [the (lyrics_capture [65] 0)])]
     ((\<lparr> ds_path = dump_path (DataRoot []), ds_entries = [], ds_dirty = False, ds_frames = 0, ds_lyrics = [],
        ds_lyrics_dirty = False, ds_scenario_cursor = 0, ds_lyrics_cursor = 0 \<rparr>, diagnostics_default), empty_fs)) = empty_fs"
  using lyrics_not_flushed [of "\<lparr> ds_path = dump_path (DataRoot []), ds_entries = [], ds_dirty = False, ds_frames = 0,
      ds_lyrics = [], ds_lyrics_dirty = False, ds_scenario_cursor = 0, ds_lyrics_cursor = 0 \<rparr>" demo_json
      "[((no_faults, no_faults), [the (lyrics_capture [65] 0)])]" diagnostics_default empty_fs]
  by simp

end
