(* ===== verification/Dump_Walk_Correct.thy ===== *)
theory Dump_Walk_Correct
  imports Dump_Walk Dump_State_Correct
begin

text \<open>
  What the bulk dumps guarantee: the walk reads exactly the rows a dictionary in memory holds, the
  probe of a scenario ends, and a dump cut into batches does what one long batch does.
\<close>

section \<open>The walk\<close>

text \<open>\<open>managed_string m p s\<close>: a managed string object with the text \<open>s\<close> is at \<open>p\<close>.\<close>

definition managed_string :: "(usize \<Rightarrow> u8) \<Rightarrow> usize \<Rightarrow> ustr \<Rightarrow> bool" where
  "managed_string m p s \<longleftrightarrow> p \<noteq> 0 \<and> valid_ustr s \<and> sint (load_i32 m (p + 0x10)) = int (length (encode_utf16 s)) \<and>
     (\<forall>i < length (encode_utf16 s). load_u16 m (p + 0x14 + of_nat i * 2) = encode_utf16 s ! i)"

lemma encode_utf16_empty: "encode_utf16 s = [] \<longleftrightarrow> s = []"
  by (cases s) (simp_all add: encode_utf16_def encode_char_def)

lemma read_managed_string: "managed_string m p s \<Longrightarrow> read_string m p = Inr s"
proof -
  assume s: "managed_string m p s"
  let ?us = "encode_utf16 s"
  have "read_il2cpp_string_utf16 m p = Some ?us"
  proof (cases "s = []")
    case True
    with s show ?thesis by (simp add: managed_string_def read_il2cpp_string_utf16_def encode_utf16_def)
  next
    case False
    then have "0 < length ?us" by (simp add: encode_utf16_empty)
    moreover have "map (\<lambda>i. load_u16 m (p + 0x14 + of_nat i * 2)) [0..<length ?us] = ?us"
      using s by (intro nth_equalityI) (simp_all add: managed_string_def)
    ultimately show ?thesis using s by (simp add: managed_string_def read_il2cpp_string_utf16_def)
  qed
  with s show ?thesis by (simp add: read_string_def managed_string_def)
qed

text \<open>The dictionaries of the game: the used part of the entry array, \<open>None\<close> being a freed slot.\<close>

definition dict_header :: "(usize \<Rightarrow> u8) \<Rightarrow> usize \<Rightarrow> nat \<Rightarrow> usize \<Rightarrow> bool" where
  "dict_header m d n entries \<longleftrightarrow> d \<noteq> 0 \<and> unat (load_i32 m (d + DICT_COUNT)) = n \<and> n \<le> MAX_WALK_ENTRIES \<and>
     load_u64 m (d + DICT_ENTRIES) = entries \<and> entries \<noteq> 0"

definition dict_rows :: "(usize \<Rightarrow> u8) \<Rightarrow> usize \<Rightarrow> ('r \<Rightarrow> usize \<Rightarrow> bool) \<Rightarrow> 'r option list \<Rightarrow> bool" where
  "dict_rows m entries row rows \<longleftrightarrow> (\<forall>i < length rows.
     (case rows ! i of
        None \<Rightarrow> sint (load_i32 m (entry_addr entries i + ENTRY_HASH)) < 0
      | Some r \<Rightarrow> 0 \<le> sint (load_i32 m (entry_addr entries i + ENTRY_HASH)) \<and> row r (entry_addr entries i)))"

definition int_dict :: "(usize \<Rightarrow> u8) \<Rightarrow> usize \<Rightarrow> (u32 \<times> ustr) option list \<Rightarrow> bool" where
  "int_dict m d rows \<longleftrightarrow> (\<exists>entries. dict_header m d (length rows) entries \<and>
     dict_rows m entries (\<lambda>(num, text) e. load_i32 m (e + ENTRY_KEY) = num \<and>
       managed_string m (load_u64 m (e + ENTRY_VALUE)) text) rows)"

text \<open>A null inner dictionary has no rows.\<close>

definition string_dict :: "(usize \<Rightarrow> u8) \<Rightarrow> usize \<Rightarrow> (ustr \<times> (u32 \<times> ustr) option list) option list \<Rightarrow> bool" where
  "string_dict m d rows \<longleftrightarrow> (\<exists>entries. dict_header m d (length rows) entries \<and>
     dict_rows m entries (\<lambda>(category, inner) e. managed_string m (load_u64 m (e + ENTRY_KEY)) category \<and>
       (if load_u64 m (e + ENTRY_VALUE) = 0 then inner = [] else int_dict m (load_u64 m (e + ENTRY_VALUE)) inner)) rows)"

lemma try_fold_rows:
  assumes "\<And>i s. i < length rows \<Longrightarrow> P s \<Longrightarrow> f (k + i) s = Inr (h (rows ! i) s)"
    and "\<And>x s. x \<in> set rows \<Longrightarrow> P s \<Longrightarrow> P (h x s)" and "P s"
  shows "try_fold f [k..<k + length rows] s = Inr (fold h rows s)"
  using assms
proof (induction rows arbitrary: k s)
  case (Cons x rows)
  have "[k..<k + length (x # rows)] = k # [Suc k..<Suc k + length rows]" by (subst upt_rec) simp
  moreover have "f k s = Inr (h x s)" using Cons.prems(1) [of 0 s] Cons.prems(3) by simp
  moreover have "try_fold f [Suc k..<Suc k + length rows] (h x s) = Inr (fold h rows (h x s))"
  proof (rule Cons.IH)
    show "f (Suc k + i) s = Inr (h (rows ! i) s)" if "i < length rows" "P s" for i s
      using Cons.prems(1) [of "Suc i" s] that by simp
    show "P (h y s)" if "y \<in> set rows" "P s" for y s using Cons.prems(2) that by simp
    show "P (h x s)" using Cons.prems(2,3) by simp
  qed
  ultimately show ?case by simp
qed simp

definition put_row :: "(u32 \<times> ustr) option \<Rightarrow> (ustr \<times> ustr) list \<Rightarrow> (ustr \<times> ustr) list" where
  "put_row r b = (case r of None \<Rightarrow> b | Some (num, text) \<Rightarrow> bt_insert (u32_decimal num) text b)"

definition put_category :: "(ustr \<times> (u32 \<times> ustr) option list) option \<Rightarrow> localify \<Rightarrow> localify" where
  "put_category r out =
     (case r of
        None \<Rightarrow> out
      | Some (category, inner) \<Rightarrow>
          if category = [] then out else bt_insert category (fold put_row inner (bt_entry category out)) out)"

lemma walk_int_rows: "int_dict m d rows \<Longrightarrow> walk_int_dictionary m d b = Inr (fold put_row rows b)"
proof -
  assume "int_dict m d rows"
  then obtain entries where h: "dict_header m d (length rows) entries"
    and r: "dict_rows m entries (\<lambda>(num, text) e. load_i32 m (e + ENTRY_KEY) = num \<and>
       managed_string m (load_u64 m (e + ENTRY_VALUE)) text) rows" by (auto simp: int_dict_def)
  have "try_fold (walk_int_row m entries) [0..<0 + length rows] b = Inr (fold put_row rows b)"
  proof (rule try_fold_rows [where P = "\<lambda>_. True"])
    fix i s assume "i < length rows"
    with r show "walk_int_row m entries (0 + i) s = Inr (put_row (rows ! i) s)"
      by (auto simp: dict_rows_def walk_int_row_def read_u32_def read_ptr_def put_row_def
          dest!: read_managed_string split: option.splits)
  qed simp_all
  with h show ?thesis by (simp add: walk_int_dictionary_def dict_header_def read_u32_def read_ptr_def)
qed

lemma walk_string_rows: "string_dict m d rows \<Longrightarrow> walk_string_dictionary m d out = Inr (fold put_category rows out)"
proof -
  assume "string_dict m d rows"
  then obtain entries where h: "dict_header m d (length rows) entries"
    and r: "dict_rows m entries (\<lambda>(category, inner) e. managed_string m (load_u64 m (e + ENTRY_KEY)) category \<and>
       (if load_u64 m (e + ENTRY_VALUE) = 0 then inner = [] else int_dict m (load_u64 m (e + ENTRY_VALUE)) inner)) rows"
    by (auto simp: string_dict_def)
  have "try_fold (walk_string_row m entries) [0..<0 + length rows] out = Inr (fold put_category rows out)"
  proof (rule try_fold_rows [where P = "\<lambda>_. True"])
    fix i s assume i: "i < length rows"
    show "walk_string_row m entries (0 + i) s = Inr (put_category (rows ! i) s)"
    proof (cases "rows ! i")
      case None
      with r i show ?thesis by (auto simp: dict_rows_def walk_string_row_def read_u32_def put_category_def)
    next
      case (Some x)
      obtain c inner where x: "x = (c, inner)" by fastforce
      let ?e = "entry_addr entries i"
      from r i Some x have e: "0 \<le> sint (load_i32 m (?e + ENTRY_HASH))" "managed_string m (load_u64 m (?e + ENTRY_KEY)) c"
        "if load_u64 m (?e + ENTRY_VALUE) = 0 then inner = [] else int_dict m (load_u64 m (?e + ENTRY_VALUE)) inner"
        by (auto simp: dict_rows_def)
      from e(3) have "walk_int_dictionary m (load_u64 m (?e + ENTRY_VALUE)) b = Inr (fold put_row inner b)" for b
        by (cases "load_u64 m (?e + ENTRY_VALUE) = 0") (simp_all add: walk_int_rows, simp add: walk_int_dictionary_def)
      with e(1) read_managed_string [OF e(2)] show ?thesis
        by (simp add: walk_string_row_def read_u32_def read_ptr_def put_category_def Some x)
    qed
  qed simp_all
  with h show ?thesis by (simp add: walk_string_dictionary_def dict_header_def read_u32_def read_ptr_def)
qed

text \<open>The texts of the rows, in the order of the walk.\<close>

definition inner_writes :: "ustr \<Rightarrow> (u32 \<times> ustr) option list \<Rightarrow> ((ustr \<times> ustr) \<times> ustr) list" where
  "inner_writes c inner =
     concat (map (\<lambda>r. case r of None \<Rightarrow> [] | Some (num, text) \<Rightarrow> [((c, u32_decimal num), text)]) inner)"

definition dict_writes :: "(ustr \<times> (u32 \<times> ustr) option list) option list \<Rightarrow> ((ustr \<times> ustr) \<times> ustr) list" where
  "dict_writes rows =
     concat (map (\<lambda>r. case r of None \<Rightarrow> [] | Some (c, inner) \<Rightarrow> if c = [] then [] else inner_writes c inner) rows)"

lemma put_rows_texts:
  "bt_sorted b \<Longrightarrow> bt_sorted (fold put_row rows b) \<and>
     at_category c (fold put_row rows b) T = overwrite (inner_writes c rows) (at_category c b T)"
proof (induction rows arbitrary: b)
  case (Cons r rows)
  show ?case
  proof (cases r)
    case None
    with Cons show ?thesis by (simp add: put_row_def inner_writes_def)
  next
    case (Some x)
    obtain num t where x: "x = (num, t)" by fastforce
    from Cons.IH [OF bt_insert_sorted [OF Cons.prems], of "u32_decimal num" t]
    show ?thesis by (simp add: put_row_def inner_writes_def Some x at_category_insert [OF Cons.prems] del: fun_upd_apply)
  qed
qed (simp add: inner_writes_def)

lemma put_categories_texts:
  "localify_ok out \<Longrightarrow> localify_ok (fold put_category rows out) \<and>
     texts (fold put_category rows out) = overwrite (dict_writes rows) (texts out)"
proof (induction rows arbitrary: out)
  case (Cons r rows)
  have "localify_ok (put_category r out) \<and> texts (put_category r out) = overwrite (dict_writes [r]) (texts out)"
  proof (cases r)
    case None
    with Cons.prems show ?thesis by (simp add: put_category_def dict_writes_def)
  next
    case (Some x)
    obtain c inner where x: "x = (c, inner)" by fastforce
    note p = put_rows_texts [OF bt_entry_sorted [OF Cons.prems], where c = c and rows = inner and T = "texts out"]
    with Cons.prems localify_insert_ok [OF Cons.prems, of "fold put_row inner (bt_entry c out)" c] show ?thesis
      by (simp add: Some x put_category_def dict_writes_def texts_insert at_category_same)
  qed
  with Cons.IH [of "put_category r out"] show ?case by (simp add: dict_writes_def)
qed (simp add: dict_writes_def)

text \<open>
  C19: the walk reads a dictionary as it is. If the game's memory holds a dictionary of dictionaries with
  any used and freed slots, null inner dictionaries included, the walk succeeds and yields a well-formed
  table with exactly its texts, the last row of an id counting, every id printed as the unsigned number.
\<close>

theorem walk_reads_dictionary:
  assumes "string_dict m d rows"
  shows "case walk_string_dictionary m d [] of
      Inl _ \<Rightarrow> False
    | Inr out \<Rightarrow> localify_ok out \<and> texts out = map_of (rev (dict_writes rows))"
proof -
  have "localify_ok []" by (simp add: localify_ok_def bt_sorted_def)
  moreover have "texts [] = Map.empty" by (rule ext) (simp add: texts_def bt_entry_def)
  ultimately show ?thesis
    using put_categories_texts [of "[]" rows] by (simp add: walk_string_rows [OF assms] overwrite_def)
qed

text \<open>A dictionary of one category \<open>A\<close> whose text 7 is \<open>A\<close>.\<close>

definition demo_memory :: "usize \<Rightarrow> u8" where
  "demo_memory a =
     (case map_of [(0x1020, 1), (0x1019, 0x20), (0x2029, 0x30), (0x2031, 0x40), (0x3010, 1), (0x3014, 65),
        (0x4020, 1), (0x4019, 0x50), (0x5028, 7), (0x5031, 0x30)] a of None \<Rightarrow> 0 | Some b \<Rightarrow> b)"

lemma demo_loads:
  "load_i32 demo_memory 0x1020 = 1" "load_u64 demo_memory 0x1018 = 0x2000" "load_i32 demo_memory 0x2020 = 0"
  "load_u64 demo_memory 0x2028 = 0x3000" "load_u64 demo_memory 0x2030 = 0x4000" "load_i32 demo_memory 0x3010 = 1"
  "load_u16 demo_memory 0x3014 = 65" "load_i32 demo_memory 0x4020 = 1" "load_u64 demo_memory 0x4018 = 0x5000"
  "load_i32 demo_memory 0x5020 = 0" "load_i32 demo_memory 0x5028 = 7" "load_u64 demo_memory 0x5030 = 0x3000"
  by (simp_all add: load_i32_def load_u64_def load_u16_def read_bytes_def upt_conv_Cons u64_from_le_def demo_memory_def)

theorem walk_reads_dictionary_witness:
  "case walk_string_dictionary demo_memory 0x1000 [] of
     Inl _ \<Rightarrow> False | Inr out \<Rightarrow> texts out ([65], u32_decimal 7) = Some [65]"
proof -
  have s: "managed_string demo_memory 0x3000 [65]"
    by (simp add: managed_string_def demo_loads valid_ustr_def scalar_def encode_utf16_def encode_char_def)
  have "int_dict demo_memory 0x4000 [Some (7, [65])]"
    using s by (simp add: int_dict_def dict_header_def dict_rows_def demo_loads entry_addr_def DICT_COUNT_def DICT_ENTRIES_def
        IL2CPP_ARRAY_DATA_def ENTRY_HASH_def ENTRY_KEY_def ENTRY_VALUE_def MAX_WALK_ENTRIES_def)
  then have "string_dict demo_memory 0x1000 [Some ([65], [Some (7, [65])])]"
    using s by (simp add: string_dict_def dict_header_def dict_rows_def demo_loads entry_addr_def DICT_COUNT_def DICT_ENTRIES_def
        IL2CPP_ARRAY_DATA_def ENTRY_HASH_def ENTRY_KEY_def ENTRY_VALUE_def MAX_WALK_ENTRIES_def)
  from walk_reads_dictionary [OF this] show ?thesis
    by (auto simp: dict_writes_def inner_writes_def split: sum.splits)
qed

lemma walk_refuses_oversized:
  "d \<noteq> 0 \<Longrightarrow> 500000 < unat (load_i32 m (d + DICT_COUNT)) \<Longrightarrow>
    walk_string_dictionary m d out = Inl (Count_Text ''outer dictionary malformed: count='' (unat (load_i32 m (d + DICT_COUNT))))"
  by (simp add: walk_string_dictionary_def read_u32_def read_ptr_def MAX_WALK_ENTRIES_def)

text \<open>The hooks print an id as a signed number, the walk as an unsigned one.\<close>

lemma negative_id_has_two_names: "sint n < 0 \<Longrightarrow> u32_decimal n \<noteq> i32_decimal n"
  using decimal_head [of "unat n"] by (auto simp: u32_decimal_def i32_decimal_def)

section \<open>The probe\<close>

definition part_missing :: "'w data_file_game \<Rightarrow> u64 \<times> u64 \<Rightarrow> ustr \<Rightarrow> u32 \<Rightarrow> bool" where
  "part_missing g va sid part \<longleftrightarrow>
     (\<forall>w. case gm_string_new g (encode_utf16 (part_name sid part)) w of
        (key, w1) \<Rightarrow> \<not> fst (gm_is_key_exist g (fst va) key w1))"

lemma probe_parts_stops:
  assumes "\<forall>part. N \<le> unat part \<longrightarrow> part_missing g va sid part" and "N + 5 < 2 ^ 32"
  shows "unat part \<le> N + misses \<Longrightarrow> \<exists>r. probe_parts g F va dir sid part misses written s = Some r"
proof (induction "(N - unat part) * 6 + (5 - misses)" arbitrary: part misses written s rule: less_induct)
  case less
  show ?case
  proof (cases "5 \<le> misses")
    case True
    then show ?thesis by (simp add: probe_parts.simps)
  next
    case False
    have p1: "unat (part + 1) = unat part + 1"
      using less.prems False assms(2) by (simp add: unat_word_ariths)
    obtain w fs key w1 ex w2 where s: "s = (w, fs)" "gm_string_new g (encode_utf16 (part_name sid part)) w = (key, w1)"
      "gm_is_key_exist g (fst va) key w1 = (ex, w2)" by (metis prod.exhaust)
    have miss: "\<exists>r. probe_parts g F va dir sid (part + 1) (misses + 1) written (w2, fs) = Some r"
    proof (rule less.hyps)
      show "unat (part + 1) \<le> N + (misses + 1)" using p1 less.prems by simp
      show "(N - unat (part + 1)) * 6 + (5 - (misses + 1)) < (N - unat part) * 6 + (5 - misses)"
        using p1 False by simp
    qed
    show ?thesis
    proof (cases ex)
      case False
      with miss s show ?thesis by (subst probe_parts.simps) simp
    next
      case True
      have lt: "unat part < N"
      proof (rule ccontr)
        assume "\<not> unat part < N"
        with assms(1) have "part_missing g va sid part" by simp
        then have "\<not> fst (gm_is_key_exist g (fst va) key w1)"
          unfolding part_missing_def using s(2) by (metis case_prod_conv)
        with s(3) True show False by simp
      qed
      have hit: "\<exists>r. probe_parts g F va dir sid (part + 1) 0 (written + 1) s' = Some r" for s'
      proof (rule less.hyps)
        show "unat (part + 1) \<le> N + 0" using p1 lt by simp
        show "(N - unat (part + 1)) * 6 + (5 - 0) < (N - unat part) * 6 + (5 - misses)"
          using p1 lt by simp
      qed
      obtain r s' where d: "dump_one_data_file g F (snd va) (part_name sid part) (dir @ [part_name sid part]) (w2, fs) = (r, s')"
        by (metis prod.exhaust)
      show ?thesis
        using hit [of s'] s True d by (subst probe_parts.simps) (cases r; simp)
    qed
  qed
qed

text \<open>
  C37: the probe of a scenario ends. If the game has no part of a scenario from some number on, the loop
  that asks for its parts returns, whatever the game answers before and whatever fails.
\<close>

theorem scenario_probe_returns:
  assumes "\<forall>part. N \<le> unat part \<longrightarrow> part_missing g va sid part" and "N + 5 < 2 ^ 32"
  shows "\<exists>r. probe_parts g F va dir sid 0 0 0 s = Some r"
  by (rule probe_parts_stops [OF assms]) simp

theorem scenario_probe_returns_witness:
  "\<exists>r. probe_parts \<lparr> gm_string_new = (\<lambda>_ w. (1, w)), gm_is_key_exist = (\<lambda>_ _ w. (False, w)),
       gm_get_bytes = (\<lambda>_ _ w. (0, w)), gm_mem = (\<lambda>_ _. 0) \<rparr> (\<lambda>_. no_faults) (1, 2) [] [65] 0 0 0 (0 :: nat, empty_fs) = Some r"
  by (rule scenario_probe_returns [of 0]) (simp_all add: part_missing_def)

section \<open>Batches\<close>

lemma dump_sids_end: "length sids \<le> cursor \<Longrightarrow> dump_sids g F va dir sids n (cursor, d, files) s = Some (Inr (), (cursor, d, files), s)"
  by (cases n) simp_all

lemma dump_sids_add:
  "dump_sids g F va dir sids (a + b) c s =
     (case dump_sids g F va dir sids a c s of
        Some (Inr _, c1, s1) \<Rightarrow> dump_sids g F va dir sids b c1 s1 | r \<Rightarrow> r)"
proof (induction a arbitrary: c s)
  case (Suc a)
  obtain cursor d files where c: "c = (cursor, d, files)" by (metis prod_cases3)
  show ?case
  proof (cases "cursor < length sids")
    case True
    with Suc show ?thesis by (simp add: c split: option.split sum.split)
  next
    case False
    then show ?thesis by (simp add: c dump_sids_end)
  qed
qed simp

lemma dump_sids_cursor:
  "dump_sids g F va dir sids n (cursor, d, files) s = Some (Inr u, (cursor', d', files'), s') \<Longrightarrow>
     cursor' = max cursor (min (length sids) (cursor + n)) \<and> cursor' + d = cursor + d'"
proof (induction n arbitrary: cursor d files s)
  case (Suc n)
  show ?case
  proof (cases "cursor < length sids")
    case True
    with Suc.prems obtain k s1 where "dump_sids g F va dir sids n (cursor + 1, d + 1, k) s1 = Some (Inr u, (cursor', d', files'), s')"
      by (auto split: option.splits sum.splits)
    from Suc.IH [OF this] True show ?thesis by auto
  next
    case False
    with Suc.prems show ?thesis by auto
  qed
qed auto

fun run_batches ::
  "'w data_file_game \<Rightarrow> (path \<Rightarrow> write_faults) \<Rightarrow> u64 \<times> u64 \<Rightarrow> path \<Rightarrow> ustr list \<Rightarrow> nat list \<Rightarrow> nat \<times> nat \<times> nat \<Rightarrow> 'w \<times> dump_fs
     \<Rightarrow> ((dump_error, unit) result \<times> (nat \<times> nat \<times> nat) \<times> 'w \<times> dump_fs) option" where
  "run_batches g F va dir sids [] c s = Some (Inr (), c, s)"
| "run_batches g F va dir sids (limit # limits) c s =
     (case dump_sids g F va dir sids limit c s of
        Some (Inr _, c1, s1) \<Rightarrow> run_batches g F va dir sids limits c1 s1 | r \<Rightarrow> r)"

text \<open>
  A dump in batches is one dump. Cutting the scenarios into batches of any sizes has the same
  effect on the game, the disk and the cursor, errors included, as one batch of their total size; and a
  batch that succeeds moves the cursor by what it did, up to the end.
\<close>

theorem scenario_batches_compose:
  "run_batches g F va dir sids limits c s = dump_sids g F va dir sids (sum_list limits) c s \<and>
   (case dump_sids g F va dir sids n (cursor, 0, 0) s of
      Some (Inr _, (cursor', sids_done, files), s') \<Rightarrow>
        cursor' = max cursor (min (length sids) (cursor + n)) \<and> cursor' = cursor + sids_done
    | _ \<Rightarrow> True)"
proof
  show "run_batches g F va dir sids limits c s = dump_sids g F va dir sids (sum_list limits) c s"
    by (induction limits arbitrary: c s) (simp_all add: dump_sids_add split: option.split sum.split)
qed (auto dest: dump_sids_cursor split: option.split sum.split)

text \<open>A batch sees only the scenarios from the cursor on, although the list is computed anew from the
  table: a title that arrives later and sorts before the cursor is never dumped.\<close>

lemma batch_ignores_earlier_sids:
  "length sids = length sids' \<Longrightarrow> drop cursor sids = drop cursor sids' \<Longrightarrow>
     dump_sids g F va dir sids n (cursor, d, files) s = dump_sids g F va dir sids' n (cursor, d, files) s"
proof (induction n arbitrary: cursor d files s)
  case (Suc n)
  show ?case
  proof (cases "cursor < length sids")
    case True
    with Suc.prems have "sids ! cursor = sids' ! cursor" "drop (cursor + 1) sids = drop (cursor + 1) sids'"
      by (metis nth_via_drop Cons_nth_drop_Suc, metis drop_drop Suc_eq_plus1 plus_1_eq_Suc drop_Suc)
    with Suc True show ?thesis by (simp split: option.split sum.split)
  next
    case False
    with Suc.prems show ?thesis by (simp add: dump_sids_end)
  qed
qed simp

end
