(* ===== verification/Facade.thy ===== *)
theory Facade
  imports Plugin_App
begin

text \<open>
  How a plugin's \<open>build\<close> uses the facade: the early returns of \<open>?\<close>, the hook builder of
  \<open>crates/core/src/plugin_api/hook.rs\<close> over the host of \<open>Plugin_App\<close>, and the registration of a
  main-thread topic.  Each is a build with a continuation.
\<close>

section \<open>Building blocks\<close>

definition try_result :: "(plugin_error, 'a) result \<Rightarrow> ('a \<Rightarrow> ('w, 'j, 'p) build) \<Rightarrow> ('w, 'j, 'p) build" where
  "try_result r k = (case r of Inl e \<Rightarrow> B_Return (Inl e) | Inr x \<Rightarrow> k x)"

definition try_call :: "('w, 'j, 'p) host_call \<Rightarrow> ('w, 'j, 'p) build \<Rightarrow> ('w, 'j, 'p) build" where
  "try_call c b = B_Call c (\<lambda>r. try_result r (\<lambda>_. b))"

text \<open>\<open>HookBuilder::handler\<close>, on the static site.\<close>

definition hook_publish ::
  "('w, ('o, 'c, 'm) hook_site) shared_ref \<Rightarrow> 'c \<Rightarrow> owner_id \<Rightarrow> 'o
     \<Rightarrow> ((plugin_error, unit) result \<Rightarrow> ('w, 'j, 'p) build) \<Rightarrow> ('w, 'j, 'p) build" where
  "hook_publish site c i replacement k =
     B_Get (\<lambda>w. case hook_handler c i replacement (sr_get site w) of
       (r, s) \<Rightarrow> B_Do (sr_put site s) (k (map_err Hook r)))"

text \<open>The restore action that an installation leaves in the owner's ledger.\<close>

definition hook_restore_entry ::
  "'m slot_ops \<Rightarrow> ('m \<Rightarrow> 'm) \<Rightarrow> ('w, ('o, 'c, 'm) hook_site) shared_ref \<Rightarrow> hook_state \<Rightarrow> 'w restore_action" where
  "hook_restore_entry M env site st = AnyThread (\<lambda>w.
     case sr_get site w of
       None \<Rightarrow> (Returns (Inr ()), w)
     | Some i \<Rightarrow> (case hook_restore_action M env st i of (r, i') \<Rightarrow> (Returns r, sr_put site (Some i') w)))"

text \<open>\<open>HookBuilder::install\<close> with the resolver the host hands out.\<close>

definition hook_install_through ::
  "'o hook_target \<Rightarrow> 'm slot_ops \<Rightarrow> ('m \<Rightarrow> 'm) \<Rightarrow> 'm method_resolver option
     \<Rightarrow> ('w, ('o, 'c, 'm) hook_site) shared_ref
     \<Rightarrow> ((plugin_error, hook_state) result \<Rightarrow> ('w, 'j, 'p) build) \<Rightarrow> ('w, 'j, 'p) build" where
  "hook_install_through T M env R site k =
     B_Get (\<lambda>w. case hook_install T M env R (sr_get site w) of
       (r, s, registered) \<Rightarrow> B_Do (sr_put site s)
         (case r of
            Inr st \<Rightarrow> if registered then B_Call (C_Restore (hook_restore_entry M env site st)) (\<lambda>_. k r) else k r
          | Inl _ \<Rightarrow> k r))"

text \<open>\<open>ctx.hook(&SITE).container(c).handler(f)?.install()\<close>\<close>

definition hook_chain ::
  "'o hook_target \<Rightarrow> 'm slot_ops \<Rightarrow> ('m \<Rightarrow> 'm) \<Rightarrow> 'm method_resolver option
     \<Rightarrow> ('w, ('o, 'c, 'm) hook_site) shared_ref \<Rightarrow> 'c \<Rightarrow> owner_id \<Rightarrow> 'o
     \<Rightarrow> ((plugin_error, hook_state) result \<Rightarrow> ('w, 'j, 'p) build) \<Rightarrow> ('w, 'j, 'p) build" where
  "hook_chain T M env R site c i replacement k =
     hook_publish site c i replacement (\<lambda>r. try_result r (\<lambda>_. hook_install_through T M env R site k))"

text \<open>What a main-thread topic needs besides its handler: its channel, and the decoding, the access to
  its parameters and the encoding that the typed registration supplies.\<close>

record ('w, 'j, 'p, 'req, 'res) topic_glue =
  tg_channel :: "('w, 'j, 'p) channel_ref"
  tg_decode :: "'j \<Rightarrow> (string, 'p arc) result"
  tg_downcast :: "'p \<Rightarrow> 'req option"
  tg_params :: "'w \<Rightarrow> bool"
  tg_apply :: "'w \<Rightarrow> 'w"
  tg_to_value :: "'res \<Rightarrow> (string, 'j) result"

definition main_topic ::
  "owner_id \<Rightarrow> string \<Rightarrow> ('w, 'j, 'p, 'req, 'res) topic_glue \<Rightarrow> ('req \<Rightarrow> 'w \<Rightarrow> (string, 'res) result flow \<times> 'w)
     \<Rightarrow> ('w, 'j, 'p) build \<Rightarrow> ('w, 'j, 'p) build" where
  "main_topic i name g handle b =
     register_main_debug i name (tg_channel g) (tg_decode g)
       \<lparr> dh_downcast = tg_downcast g, dh_params = tg_params g, dh_handle = handle, dh_apply = tg_apply g,
         dh_to_value = tg_to_value g \<rparr>
       (\<lambda>r. try_result r (\<lambda>_. b))"

end
