(* ===== verification/Unlock_Fps.thy ===== *)
theory Unlock_Fps
  imports Hook
begin

text \<open>
  The FPS plugin of \<open>crates/unlock_fps\<close>: the two Unity setters it hooks, the setting that the main
  thread sends to the callbacks, the startup system and the debug controls.  The world of a callback is
  the mailbox cell, the counters and the engine; the setters are the typed originals.
\<close>

section \<open>Targets\<close>

definition RATE_TARGET :: target_id where
  "RATE_TARGET = \<lparr> t_assembly = ''UnityEngine.CoreModule.dll'', t_namespace = ''UnityEngine'', t_class = ''Application'',
     t_method = ''set_targetFrameRate'', t_param_count = 1, t_is_static = True, t_return_type = ''void'',
     t_parameter_types = [''int''] \<rparr>"

definition VSYNC_TARGET :: target_id where
  "VSYNC_TARGET = \<lparr> t_assembly = ''UnityEngine.CoreModule.dll'', t_namespace = ''UnityEngine'', t_class = ''QualitySettings'',
     t_method = ''set_vSyncCount'', t_param_count = 1, t_is_static = True, t_return_type = ''void'',
     t_parameter_types = [''int''] \<rparr>"

definition UNLOCKED_TARGET :: i32 where "UNLOCKED_TARGET = 120"
definition LOCKED_TARGET :: i32 where "LOCKED_TARGET = 60"

section \<open>State\<close>

datatype fps_setting = FpsSetting bool

record fps_diagnostics =
  fd_apply_count :: u64
  fd_last_applied :: i32
  fd_rate_hook_hits :: u64
  fd_rate_last_input :: i32
  fd_vsync_hook_hits :: u64
  fd_vsync_last_input :: i32

record ('w, 'c) fps_world =
  fw_setting :: 'c
  fw_diag :: fps_diagnostics
  fw_engine :: 'w

record fps_state =
  fp_unlock :: bool
  fp_updates :: u64

text \<open>A typed setter, called with the value and the method info.\<close>

type_synonym ('w, 'c) setter_fn = "i32 \<Rightarrow> usize \<Rightarrow> ('w, 'c) fps_world \<Rightarrow> unit flow \<times> ('w, 'c) fps_world"

section \<open>The hooks\<close>

definition rate_handler ::
  "(fps_setting option, 'c) atomic_cell \<Rightarrow> i32 \<Rightarrow> usize
     \<Rightarrow> (('w, 'c) setter_fn, ('w, 'c) fps_world, unit, unit) handler" where
  "rate_handler C requested meth =
     H_Do (\<lambda>w. w\<lparr> fw_diag := (fw_diag w)\<lparr> fd_rate_hook_hits := fd_rate_hook_hits (fw_diag w) + 1,
         fd_rate_last_input := requested \<rparr> \<rparr>)
       (H_Get (\<lambda>w.
          let target = (case callback_latest_reader_try_read C CallbackCtx (fw_setting w) of
                None \<Rightarrow> requested
              | Some (FpsSetting on) \<Rightarrow> if on then UNLOCKED_TARGET else requested) in
          H_Call (\<lambda>original. original target meth) (\<lambda>_. H_Return ())))"

definition vsync_handler ::
  "(fps_setting option, 'c) atomic_cell \<Rightarrow> i32 \<Rightarrow> usize
     \<Rightarrow> (('w, 'c) setter_fn, ('w, 'c) fps_world, unit, unit) handler" where
  "vsync_handler C requested meth =
     H_Do (\<lambda>w. w\<lparr> fw_diag := (fw_diag w)\<lparr> fd_vsync_hook_hits := fd_vsync_hook_hits (fw_diag w) + 1,
         fd_vsync_last_input := requested \<rparr> \<rparr>)
       (H_Get (\<lambda>w.
          let vsync = (case callback_latest_reader_try_read C CallbackCtx (fw_setting w) of
                None \<Rightarrow> requested
              | Some (FpsSetting on) \<Rightarrow> if on then 0 else requested) in
          H_Call (\<lambda>original. original vsync meth) (\<lambda>_. H_Return ())))"

text \<open>The outer \<open>catch_unwind\<close> swallows whatever comes out of the dispatch.\<close>

definition setter_replacement ::
  "(('w, 'c) setter_fn, ('w, 'c) fps_world, unit, unit) handler \<Rightarrow> ('w, 'c) setter_fn hook_target \<Rightarrow> 'm slot_ops
     \<Rightarrow> gate_env \<Rightarrow> (('w, 'c) setter_fn, 's, 'm) hook_site \<Rightarrow> i32 \<Rightarrow> usize \<Rightarrow> ('w, 'c) fps_world \<Rightarrow> ('w, 'c) fps_world" where
  "setter_replacement h T M G site requested meth w =
     snd (dispatch T M G (\<lambda>original w. original requested meth w) (\<lambda>w. (Returns (), w)) h site w)"

definition rate_replacement ::
  "(fps_setting option, 'c) atomic_cell \<Rightarrow> ('w, 'c) setter_fn hook_target \<Rightarrow> 'm slot_ops
     \<Rightarrow> gate_env \<Rightarrow> (('w, 'c) setter_fn, 's, 'm) hook_site \<Rightarrow> i32 \<Rightarrow> usize \<Rightarrow> ('w, 'c) fps_world \<Rightarrow> ('w, 'c) fps_world" where
  "rate_replacement C T M G site requested meth =
     setter_replacement (rate_handler C requested meth) T M G site requested meth"

definition vsync_replacement ::
  "(fps_setting option, 'c) atomic_cell \<Rightarrow> ('w, 'c) setter_fn hook_target \<Rightarrow> 'm slot_ops
     \<Rightarrow> gate_env \<Rightarrow> (('w, 'c) setter_fn, 's, 'm) hook_site \<Rightarrow> i32 \<Rightarrow> usize \<Rightarrow> ('w, 'c) fps_world \<Rightarrow> ('w, 'c) fps_world" where
  "vsync_replacement C T M G site requested meth =
     setter_replacement (vsync_handler C requested meth) T M G site requested meth"

section \<open>The main thread\<close>

text \<open>The installed hooks: each is its target, its site and the state the installation returned.\<close>

record ('w, 'c, 's, 'm) fps_hooks =
  fh_rate_target :: "('w, 'c) setter_fn hook_target"
  fh_rate_site :: "(('w, 'c) setter_fn, 's, 'm) site_inner"
  fh_rate_state :: hook_state
  fh_vsync_target :: "('w, 'c) setter_fn hook_target"
  fh_vsync_site :: "(('w, 'c) setter_fn, 's, 'm) site_inner"
  fh_vsync_state :: hook_state

text \<open>A panic of a setter leaves \<open>apply_setting\<close> and its callers; it is caught where the system runs.\<close>

definition apply_setting ::
  "'m slot_ops \<Rightarrow> ('w, 'c, 's, 'm) fps_hooks \<Rightarrow> bool \<Rightarrow> ('w, 'c) fps_world
     \<Rightarrow> (hook_error, unit) result flow \<times> ('w, 'c) fps_world" where
  "apply_setting M H unlock w =
     (let target = (if unlock then UNLOCKED_TARGET else LOCKED_TARGET);
          vsync = (if unlock then 0 else 1) in
      case call_original_on_main (fh_vsync_target H) M (fh_vsync_state H) (fh_vsync_site H)
             (\<lambda>original meth. original vsync meth) w of
        (Inl e, w1) \<Rightarrow> (Returns (Inl e), w1)
      | (Inr Panics, w1) \<Rightarrow> (Panics, w1)
      | (Inr (Returns _), w1) \<Rightarrow>
          (case call_original_on_main (fh_rate_target H) M (fh_rate_state H) (fh_rate_site H)
                 (\<lambda>original meth. original target meth) w1 of
             (Inl e, w2) \<Rightarrow> (Returns (Inl e), w2)
           | (Inr Panics, w2) \<Rightarrow> (Panics, w2)
           | (Inr (Returns _), w2) \<Rightarrow>
               (Returns (Inr ()), w2\<lparr> fw_diag := (fw_diag w2)\<lparr> fd_last_applied := target,
                  fd_apply_count := fd_apply_count (fw_diag w2) + 1 \<rparr> \<rparr>)))"

definition map_flow :: "('a \<Rightarrow> 'b) \<Rightarrow> 'a flow \<times> 'w \<Rightarrow> 'b flow \<times> 'w" where
  "map_flow f r = (case r of (Returns v, w) \<Rightarrow> (Returns (f v), w) | (Panics, w) \<Rightarrow> (Panics, w))"

definition fps_startup ::
  "'m slot_ops \<Rightarrow> ('w, 'c, 's, 'm) fps_hooks \<Rightarrow> fps_state \<Rightarrow> ('w, 'c) fps_world
     \<Rightarrow> (plugin_error, unit) result flow \<times> ('w, 'c) fps_world" where
  "fps_startup M H st w =
     map_flow (map_err (\<lambda>_. Message ''unlock_fps startup apply failed'')) (apply_setting M H (fp_unlock st) w)"

definition fps_set_handler ::
  "(fps_setting option, 'c) atomic_cell \<Rightarrow> 'm slot_ops \<Rightarrow> ('w, 'c, 's, 'm) fps_hooks \<Rightarrow> bool
     \<Rightarrow> fps_state \<times> ('w, 'c) fps_world \<Rightarrow> (string, bool) result flow \<times> fps_state \<times> ('w, 'c) fps_world" where
  "fps_set_handler C M H unlock s =
     (case s of (st, w) \<Rightarrow>
        (let st1 = st\<lparr> fp_unlock := unlock, fp_updates := fp_updates st + 1 \<rparr> in
         case main_latest_writer_try_send C UpdateCtx (FpsSetting unlock) (fw_setting w) of
           (_, cell) \<Rightarrow>
             (case map_flow (\<lambda>r. bind_result (map_err (\<lambda>_. ''unlock_fps apply failed'') r) (\<lambda>_. Inr True))
                     (apply_setting M H unlock (w\<lparr> fw_setting := cell \<rparr>)) of
                (r, w1) \<Rightarrow> (r, st1, w1))))"

record fps_get_response =
  fg_unlock_fps :: bool
  fg_counters :: fps_diagnostics

definition fps_get_handler :: "fps_state \<times> ('w, 'c) fps_world \<Rightarrow> fps_get_response" where
  "fps_get_handler s = (case s of (st, w) \<Rightarrow> \<lparr> fg_unlock_fps = fp_unlock st, fg_counters = fw_diag w \<rparr>)"

text \<open>What \<open>build\<close> sets up: the state with the configured value, and an empty cell.\<close>

definition fps_state_new :: "bool \<Rightarrow> fps_state" where
  "fps_state_new configured = \<lparr> fp_unlock = configured, fp_updates = 0 \<rparr>"

definition fps_world_new :: "(fps_setting option, 'c) atomic_cell \<Rightarrow> 'w \<Rightarrow> ('w, 'c) fps_world" where
  "fps_world_new C engine = \<lparr> fw_setting = latest_new C,
     fw_diag = \<lparr> fd_apply_count = 0, fd_last_applied = 0, fd_rate_hook_hits = 0, fd_rate_last_input = 0,
       fd_vsync_hook_hits = 0, fd_vsync_last_input = 0 \<rparr>,
     fw_engine = engine \<rparr>"

section \<open>What the engine is told\<close>

text \<open>An engine that remembers the last frame rate and vSync count it was given.\<close>

type_synonym engine = "i32 \<times> i32"

definition set_rate :: "(engine, 'c) setter_fn" where
  "set_rate v meth w = (Returns (), w\<lparr> fw_engine := (v, snd (fw_engine w)) \<rparr>)"

definition set_vsync :: "(engine, 'c) setter_fn" where
  "set_vsync v meth w = (Returns (), w\<lparr> fw_engine := (fst (fw_engine w), v) \<rparr>)"

definition hooked_setter :: "'m slot_ops \<Rightarrow> ('w, 'c) setter_fn hook_target \<Rightarrow> (('w, 'c) setter_fn, 's, 'm) site_inner
    \<Rightarrow> hook_state \<Rightarrow> ('w, 'c) setter_fn \<Rightarrow> bool" where
  "hooked_setter M T i st f \<longleftrightarrow> owns_slot M (Some i) \<and> si_installed i \<and> ht_original_from_raw T (si_original_addr i) = f \<and>
     (\<exists>a. si_active i = Some a \<and> hs_replacement st = ah_replacement_addr a \<and> slot_original (ah_slot a) = si_original_addr i)"

text \<open>Both hooks are installed over the engine's setters.\<close>

definition fps_installed :: "'m slot_ops \<Rightarrow> (engine, 'c, 's, 'm) fps_hooks \<Rightarrow> bool" where
  "fps_installed M H \<longleftrightarrow> hooked_setter M (fh_rate_target H) (fh_rate_site H) (fh_rate_state H) set_rate \<and>
     hooked_setter M (fh_vsync_target H) (fh_vsync_site H) (fh_vsync_state H) set_vsync"

text \<open>The game sets its frame rate or vSync count under some gates; the plugin's topic sets the switch.\<close>

datatype fps_op = Game_Rate gate_env i32 | Game_Vsync gate_env i32 | Set_Fps bool

fun fps_step ::
  "(fps_setting option, 'c) atomic_cell \<Rightarrow> 'm slot_ops \<Rightarrow> (engine, 'c, 's, 'm) fps_hooks \<Rightarrow> fps_op
     \<Rightarrow> fps_state \<times> (engine, 'c) fps_world \<Rightarrow> fps_state \<times> (engine, 'c) fps_world" where
  "fps_step C M H (Game_Rate G v) (st, w) = (st, rate_replacement C (fh_rate_target H) M G (Some (fh_rate_site H)) v 0 w)"
| "fps_step C M H (Game_Vsync G v) (st, w) = (st, vsync_replacement C (fh_vsync_target H) M G (Some (fh_vsync_site H)) v 0 w)"
| "fps_step C M H (Set_Fps b) s = snd (fps_set_handler C M H b s)"

fun last_set :: "bool option \<Rightarrow> fps_op list \<Rightarrow> bool option" where
  "last_set acc [] = acc"
| "last_set acc (Set_Fps b # ops) = last_set (Some b) ops"
| "last_set acc (Game_Rate G v # ops) = last_set acc ops"
| "last_set acc (Game_Vsync G v # ops) = last_set acc ops"

lemma main_call:
  assumes "hooked_setter M T i st f"
  shows "call_original_on_main T M st i call w = (case call f (hs_method_info st) w of (r, w') \<Rightarrow> (Inr r, w'))"
  using assms by (auto simp: hooked_setter_def call_original_on_main_def owns_slot_def)

lemma apply_installed:
  assumes "fps_installed M H"
  shows "apply_setting M H b w = (Returns (Inr ()), w\<lparr> fw_engine := (if b then (120, 0) else (60, 1)),
     fw_diag := (fw_diag w)\<lparr> fd_last_applied := (if b then 120 else 60), fd_apply_count := fd_apply_count (fw_diag w) + 1 \<rparr> \<rparr>)"
proof -
  from assms have r: "hooked_setter M (fh_rate_target H) (fh_rate_site H) (fh_rate_state H) set_rate"
    and v: "hooked_setter M (fh_vsync_target H) (fh_vsync_site H) (fh_vsync_state H) set_vsync"
    by (simp_all add: fps_installed_def)
  show ?thesis
    by (simp add: apply_setting_def Let_def main_call [OF r] main_call [OF v] set_rate_def set_vsync_def
        UNLOCKED_TARGET_def LOCKED_TARGET_def)
qed

text \<open>A handler that counts, chooses a value and calls the original with it.\<close>

lemma setter_dispatch:
  assumes "hooked_setter M T i st f" and "\<And>v w. fst (f v meth w) = Returns ()"
  shows "setter_replacement (H_Do g (H_Get (\<lambda>w. let v = pick w in H_Call (\<lambda>original. original v meth) (\<lambda>_. H_Return ()))))
      T M G (Some i) requested meth w =
    snd (if gates_open G (Some i) then f (pick (g w)) meth (g w) else f requested meth w)"
proof -
  have own: "owns_slot M (Some i)" and o: "ht_original_from_raw T (si_original_addr i) = f"
    using assms(1) by (simp_all add: hooked_setter_def)
  obtain w1 where w1: "f (pick (g w)) meth (g w) = (Returns (), w1)" using assms(2) by (metis prod.collapse)
  have "og_phase guard_new = BeforeOriginal" by (simp add: guard_new_def)
  from run_handler_granted [where call = "\<lambda>original. original (pick (g w)) meth" and T = T and i = i
      and k = "\<lambda>_. H_Return ()", OF this, of "g w"] o w1
  have run: "run_handler T i (H_Call (\<lambda>original. original (pick (g w)) meth) (\<lambda>_. H_Return ())) guard_new (g w) =
      (Returns (), guard_new\<lparr> og_phase := AfterOriginal \<rparr>, w1)" by simp
  show ?thesis
    unfolding setter_replacement_def dispatch_owned [OF own refl] run_handler.simps(3,4) Let_def run
    by (simp add: o w1 guard_needs_original_def guard_phase_def)
qed

lemma rate_engine:
  assumes "fps_installed M H"
  shows "rate_replacement C (fh_rate_target H) M G (Some (fh_rate_site H)) v 0 w =
    (let on = gates_open G (Some (fh_rate_site H)) in
     w\<lparr> fw_diag := (if on then (fw_diag w)\<lparr> fd_rate_hook_hits := fd_rate_hook_hits (fw_diag w) + 1, fd_rate_last_input := v \<rparr>
         else fw_diag w),
       fw_engine := (if on \<and> latest_try_read C (fw_setting w) = Some (FpsSetting True) then 120 else v, snd (fw_engine w)) \<rparr>)"
proof -
  have r: "hooked_setter M (fh_rate_target H) (fh_rate_site H) (fh_rate_state H) set_rate"
    using assms by (simp add: fps_installed_def)
  show ?thesis unfolding rate_replacement_def rate_handler_def
    by (subst setter_dispatch [OF r])
      (auto simp: set_rate_def Let_def callback_latest_reader_try_read_def UNLOCKED_TARGET_def split: option.split fps_setting.split)
qed

lemma vsync_engine:
  assumes "fps_installed M H"
  shows "vsync_replacement C (fh_vsync_target H) M G (Some (fh_vsync_site H)) v 0 w =
    (let on = gates_open G (Some (fh_vsync_site H)) in
     w\<lparr> fw_diag := (if on then (fw_diag w)\<lparr> fd_vsync_hook_hits := fd_vsync_hook_hits (fw_diag w) + 1, fd_vsync_last_input := v \<rparr>
         else fw_diag w),
       fw_engine := (fst (fw_engine w), if on \<and> latest_try_read C (fw_setting w) = Some (FpsSetting True) then 0 else v) \<rparr>)"
proof -
  have r: "hooked_setter M (fh_vsync_target H) (fh_vsync_site H) (fh_vsync_state H) set_vsync"
    using assms by (simp add: fps_installed_def)
  show ?thesis unfolding vsync_replacement_def vsync_handler_def
    by (subst setter_dispatch [OF r])
      (auto simp: set_vsync_def Let_def callback_latest_reader_try_read_def split: option.split fps_setting.split)
qed

text \<open>What an engine is told by a history, given the last request \<open>b\<close> and the values \<open>e\<close> it holds: a
  request tells it both unlocked or both locked values at once; a call of the game passes unless the gates
  are open and the last request switched the plugin on.\<close>

fun engine_told :: "('w, 'c, 's, 'm) fps_hooks \<Rightarrow> bool option \<Rightarrow> engine \<Rightarrow> fps_op list \<Rightarrow> engine" where
  "engine_told H b e [] = e"
| "engine_told H b e (Set_Fps x # ops) = engine_told H (Some x) (if x then (120, 0) else (60, 1)) ops"
| "engine_told H b e (Game_Rate G v # ops) =
     engine_told H b (if gates_open G (Some (fh_rate_site H)) \<and> b = Some True then 120 else v, snd e) ops"
| "engine_told H b e (Game_Vsync G v # ops) =
     engine_told H b (fst e, if gates_open G (Some (fh_vsync_site H)) \<and> b = Some True then 0 else v) ops"

definition fps_tracks :: "(fps_setting option, 'c) atomic_cell \<Rightarrow> bool \<Rightarrow> bool option \<Rightarrow> fps_state \<times> (engine, 'c) fps_world \<Rightarrow> bool" where
  "fps_tracks C configured b s \<longleftrightarrow> latest_try_read C (fw_setting (snd s)) = map_option FpsSetting b \<and>
     fp_unlock (fst s) = (case b of None \<Rightarrow> configured | Some b \<Rightarrow> b)"

lemma fps_set_installed:
  assumes "fps_installed M H" and "atomic_cell_laws C"
  shows "fst (fps_set_handler C M H x s) = Returns (Inr True)"
    and "fps_tracks C configured (Some x) (fps_step C M H (Set_Fps x) s)"
    and "fw_engine (snd (fps_step C M H (Set_Fps x) s)) = (if x then (120, 0) else (60, 1))"
  by (cases s; simp add: fps_tracks_def fps_set_handler_def apply_installed [OF assms(1)] map_flow_def Let_def
      main_latest_writer_try_send_def latest_try_send_def latest_try_read_def
      atomic_cell_simps [OF assms(2)] case_prod_beta)+

lemma fps_steps_track:
  assumes "fps_installed M H" and "atomic_cell_laws C"
  shows "fps_tracks C configured b s \<Longrightarrow> fps_tracks C configured (last_set b ops) (fold (fps_step C M H) ops s)
    \<and> fw_engine (snd (fold (fps_step C M H) ops s)) = engine_told H b (fw_engine (snd s)) ops"
proof (induction ops arbitrary: b s)
  case (Cons op ops)
  obtain st w where s: "s = (st, w)" by fastforce
  have on: "(latest_try_read C (fw_setting w) = Some (FpsSetting True)) = (b = Some True)"
    using Cons.prems by (cases b) (simp_all add: s fps_tracks_def)
  show ?case
  proof (cases op)
    case (Game_Rate G v)
    with Cons.prems have "fps_tracks C configured b (fps_step C M H op s)"
      by (simp add: s fps_tracks_def rate_engine [OF assms(1)] Let_def)
    from Cons.IH [OF this] Game_Rate on show ?thesis by (simp add: s rate_engine [OF assms(1)] Let_def)
  next
    case (Game_Vsync G v)
    with Cons.prems have "fps_tracks C configured b (fps_step C M H op s)"
      by (simp add: s fps_tracks_def vsync_engine [OF assms(1)] Let_def)
    from Cons.IH [OF this] Game_Vsync on show ?thesis by (simp add: s vsync_engine [OF assms(1)] Let_def)
  next
    case (Set_Fps x)
    from Cons.IH [OF fps_set_installed(2) [OF assms, of configured x s]] Set_Fps show ?thesis
      by (simp add: fps_set_installed(3) [OF assms] del: fps_step.simps)
  qed
qed simp

definition fps_started ::
  "(fps_setting option, 'c) atomic_cell \<Rightarrow> 'm slot_ops \<Rightarrow> (engine, 'c, 's, 'm) fps_hooks \<Rightarrow> bool \<Rightarrow> engine
     \<Rightarrow> fps_state \<times> (engine, 'c) fps_world" where
  "fps_started C M H configured e =
     (fps_state_new configured, snd (fps_startup M H (fps_state_new configured) (fps_world_new C e)))"

text \<open>
  C20: what the engine is told. Startup applies the configured setting to the engine once.  After any
  history of game calls and requests the engine holds exactly what \<open>engine_told\<close> says: a request
  switches it to 120 and 0 or to 60 and 1 at once, and answers that it was applied; a frame rate or vSync
  count the game sets is replaced, by 120 and 0, exactly when the gates are open and the last request to the
  plugin's topic switched it on.  So without such a request the game's next call undoes a configured
  unlock, while the plugin still reports it.
\<close>

theorem fps_history:
  assumes "fps_installed M H" and "atomic_cell_laws C"
  shows "let s0 = fps_started C M H configured e; s = fold (fps_step C M H) ops s0; on = (last_set None ops = Some True) in
    fw_engine (snd s0) = (if configured then (120, 0) else (60, 1)) \<and>
    fw_engine (snd s) = engine_told H None (if configured then (120, 0) else (60, 1)) ops \<and>
    fp_unlock (fst s) = (case last_set None ops of None \<Rightarrow> configured | Some b \<Rightarrow> b) \<and>
    fst (fw_engine (snd (fps_step C M H (Game_Rate G v) s))) =
      (if gates_open G (Some (fh_rate_site H)) \<and> on then 120 else v) \<and>
    snd (fw_engine (snd (fps_step C M H (Game_Vsync G v) s))) =
      (if gates_open G (Some (fh_vsync_site H)) \<and> on then 0 else v) \<and>
    fst (fps_set_handler C M H x s) = Returns (Inr True) \<and>
    fw_engine (snd (snd (fps_set_handler C M H x s))) = (if x then (120, 0) else (60, 1))"
proof -
  let ?s0 = "fps_started C M H configured e"
  have "fps_tracks C configured None ?s0"
    by (simp add: fps_started_def fps_tracks_def fps_startup_def fps_world_new_def fps_state_new_def apply_installed [OF assms(1)]
        map_flow_def latest_try_read_def latest_new_def atomic_cell_simps [OF assms(2)])
  note t = fps_steps_track [OF assms(1,2) this, of ops]
  obtain st w where s: "fold (fps_step C M H) ops ?s0 = (st, w)" by fastforce
  have e: "fw_engine (snd ?s0) = (if configured then (120, 0) else (60, 1))"
    by (simp add: fps_started_def fps_startup_def fps_state_new_def apply_installed [OF assms(1)] map_flow_def)
  have on: "(latest_try_read C (fw_setting w) = Some (FpsSetting True)) = (last_set None ops = Some True)"
    using t by (cases "last_set None ops") (simp_all add: s fps_tracks_def)
  show ?thesis unfolding Let_def
  proof (intro conjI)
    show "fp_unlock (fst (fold (fps_step C M H) ops ?s0)) = (case last_set None ops of None \<Rightarrow> configured | Some b \<Rightarrow> b)"
      using t by (simp add: fps_tracks_def)
    show "fw_engine (snd (snd (fps_set_handler C M H x (fold (fps_step C M H) ops ?s0)))) = (if x then (120, 0) else (60, 1))"
      using fps_set_installed(3) [OF assms] by simp
  qed (use e t in \<open>simp_all add: s rate_engine [OF assms(1)] vsync_engine [OF assms(1)] on Let_def
        fps_set_installed(1) [OF assms]\<close>)
qed

definition fps_demo_site :: "'o \<Rightarrow> ('o, unit, usize) site_inner" where
  "fps_demo_site f = \<lparr> si_container = (),
     si_gates = \<lparr> sg_runtime = Runtime_Reader, sg_plugin = Owner_Reader (OwnerId 1) \<rparr>,
     si_replacement = f, si_original_addr = 8, si_method_info_addr = 4, si_installed = True,
     si_active = Some \<lparr> ah_slot = \<lparr> mps_memory = 16, mps_original = 8 \<rparr>, ah_replacement_addr = 16 \<rparr> \<rparr>"

definition fps_demo_hooks :: "(engine, fps_setting option, unit, usize) fps_hooks" where
  "fps_demo_hooks = \<lparr>
     fh_rate_target = \<lparr> ht_target = RATE_TARGET, ht_mechanism = MethodPointerSlotMech, ht_replacement_addr = (\<lambda>_. 16),
       ht_original_from_raw = (\<lambda>_. set_rate) \<rparr>,
     fh_rate_site = fps_demo_site set_rate, fh_rate_state = \<lparr> hs_replacement = 16, hs_method_info = 4 \<rparr>,
     fh_vsync_target = \<lparr> ht_target = VSYNC_TARGET, ht_mechanism = MethodPointerSlotMech, ht_replacement_addr = (\<lambda>_. 16),
       ht_original_from_raw = (\<lambda>_. set_vsync) \<rparr>,
     fh_vsync_site = fps_demo_site set_vsync, fh_vsync_state = \<lparr> hs_replacement = 16, hs_method_info = 4 \<rparr> \<rparr>"

theorem fps_history_witness:
  "let s0 = fps_started plain_cell raw_slot_memory fps_demo_hooks True (30, 1) in
   fw_engine (snd s0) = (120, 0) \<and>
   fst (fw_engine (snd (fps_step plain_cell raw_slot_memory fps_demo_hooks (Game_Rate open_env 60) s0))) = 60 \<and>
   fst (fw_engine (snd (fps_step plain_cell raw_slot_memory fps_demo_hooks (Game_Rate open_env 60)
     (fps_step plain_cell raw_slot_memory fps_demo_hooks (Set_Fps True) s0)))) = 120"
proof -
  have i: "fps_installed raw_slot_memory fps_demo_hooks"
    by (simp add: fps_installed_def hooked_setter_def owns_slot_def fps_demo_hooks_def fps_demo_site_def slot_simps)
  have "gates_open open_env (Some (fh_rate_site fps_demo_hooks))"
    by (simp add: gates_open_def fps_demo_hooks_def fps_demo_site_def open_env_def gate_simps)
  then show ?thesis
    using fps_history [OF i plain_cell_laws, where ops = "[]" and configured = True and G = open_env and v = 60 and e = "(30, 1)"]
      fps_history [OF i plain_cell_laws, where ops = "[Set_Fps True]" and configured = True and G = open_env and v = 60 and e = "(30, 1)"]
    by (simp add: Let_def)
qed

end
