(* ===== verification/Recon.thy ===== *)
theory Recon
  imports Backend
begin

text \<open>
  The reconnaissance topics of \<open>crates/recon/src/lib.rs\<close>: the class query, the search for the direct
  callers of a function, and the walk over the Mach-O load commands that finds the code section.
  Memory is partial here: \<open>None\<close> is an address that is not mapped, and a result \<open>None\<close> is a run
  that read one.
\<close>

section \<open>Reads\<close>

type_synonym image_memory = "usize \<Rightarrow> u8 option"

definition rd_bytes :: "image_memory \<Rightarrow> usize \<Rightarrow> nat \<Rightarrow> u8 list option" where
  "rd_bytes m a n = those (map (\<lambda>i. m (a + of_nat i)) [0..<n])"

definition rd_u32 :: "image_memory \<Rightarrow> usize \<Rightarrow> u32 option" where
  "rd_u32 m a = map_option (\<lambda>bs. ucast (u64_from_le bs)) (rd_bytes m a 4)"

definition rd_u64 :: "image_memory \<Rightarrow> usize \<Rightarrow> u64 option" where
  "rd_u64 m a = map_option u64_from_le (rd_bytes m a 8)"

definition c_bytes :: "string \<Rightarrow> u8 list" where
  "c_bytes s = map (\<lambda>c. of_nat (of_char c)) s @ [0]"

section \<open>The code section\<close>

definition MH_MAGIC_64 :: u32 where "MH_MAGIC_64 = 0xFEEDFACF"
definition LC_SEGMENT_64 :: u32 where "LC_SEGMENT_64 = 0x19"

definition name_is :: "string \<Rightarrow> u8 list \<Rightarrow> bool" where
  "name_is s name \<longleftrightarrow> take (length (c_bytes s)) name = c_bytes s"

fun macho_sections :: "image_memory \<Rightarrow> usize \<Rightarrow> usize \<Rightarrow> nat list \<Rightarrow> (usize \<times> u64) option option" where
  "macho_sections m header sections [] = Some None"
| "macho_sections m header sections (s # ss) =
     (let base = sections + of_nat s * 80 in
      Option.bind (rd_bytes m base 16) (\<lambda>sectname.
        if name_is ''__text'' sectname then
          Option.bind (rd_u64 m (base + 32)) (\<lambda>addr.
          Option.bind (rd_u64 m (base + 40)) (\<lambda>size.
            Some (Some (header + addr, size))))
        else macho_sections m header sections ss))"

text \<open>The loop over the commands: \<open>n\<close> are left, \<open>offset\<close> is where the next one begins.\<close>

fun macho_commands :: "image_memory \<Rightarrow> usize \<Rightarrow> nat \<Rightarrow> nat \<Rightarrow> nat \<Rightarrow> (usize \<times> u64) option option" where
  "macho_commands m header stop 0 offset = Some None"
| "macho_commands m header stop (Suc n) offset =
     (if stop < offset + 8 then Some None
      else
        Option.bind (rd_u32 m (header + of_nat offset)) (\<lambda>cmd.
        Option.bind (rd_u32 m (header + of_nat offset + 4)) (\<lambda>cmdsize.
          if cmdsize = 0 \<or> stop < offset + unat cmdsize then Some None
          else if cmd = LC_SEGMENT_64 then
            Option.bind (rd_bytes m (header + of_nat offset + 8) 16) (\<lambda>segname.
              if name_is ''__TEXT'' segname then
                Option.bind (rd_u32 m (header + of_nat offset + 64)) (\<lambda>nsects.
                Option.bind (macho_sections m header (header + of_nat offset + 72) [0..<unat nsects]) (\<lambda>found.
                  (case found of
                     Some r \<Rightarrow> Some (Some r)
                   | None \<Rightarrow> macho_commands m header stop n (offset + unat cmdsize))))
              else macho_commands m header stop n (offset + unat cmdsize))
          else macho_commands m header stop n (offset + unat cmdsize))))"

definition macho_text_section :: "image_memory \<Rightarrow> usize \<Rightarrow> (usize \<times> u64) option option" where
  "macho_text_section m header =
     Option.bind (rd_u32 m header) (\<lambda>magic.
       if magic \<noteq> MH_MAGIC_64 then Some None
       else
         Option.bind (rd_u32 m (header + 16)) (\<lambda>ncmds.
         Option.bind (rd_u32 m (header + 20)) (\<lambda>sizeofcmds.
           macho_commands m header (32 + unat sizeofcmds) (unat ncmds) 32)))"

text \<open>The images of the loader: a name, when it has one, and the header's address.\<close>

fun text_section :: "image_memory \<Rightarrow> (string option \<times> usize) list \<Rightarrow> (usize \<times> u64) option option" where
  "text_section m [] = Some None"
| "text_section m ((name, header) # images) =
     (case name of
        None \<Rightarrow> text_section m images
      | Some path \<Rightarrow>
          if rev (take (length ''UnityFramework'') (rev path)) \<noteq> ''UnityFramework'' then text_section m images
          else if header = 0 then text_section m images
          else macho_text_section m header)"

section \<open>The topics\<close>

definition class_query_handler ::
  "'w bridge \<Rightarrow> (usize \<Rightarrow> u8) \<Rightarrow> string \<Rightarrow> string \<Rightarrow> 'w \<Rightarrow> (il2cpp_error, class_surface) result" where
  "class_query_handler B m assembly class_name w = class_surface B m assembly class_name w"

record callers_response =
  cl_image_base :: u64
  cl_text_rva :: u64
  cl_text_size :: u64
  cl_total :: nat
  cl_truncated :: bool
  cl_caller_rvas :: "u64 list"

definition is_bl :: "u32 \<Rightarrow> bool" where
  "is_bl word \<longleftrightarrow> word AND 0xFC000000 = 0x94000000"

definition bl_target :: "u64 \<Rightarrow> u64 \<Rightarrow> u32 \<Rightarrow> u64" where
  "bl_target text_va offset word =
     (let imm26 = word AND 0x03FFFFFF;
          signed26 = scast (signed_drop_bit 6 (push_bit 6 imm26)) in
      text_va + offset + signed26 * 4)"

fun scan_callers ::
  "image_memory \<Rightarrow> u64 \<Rightarrow> u64 \<Rightarrow> u64 \<Rightarrow> nat \<Rightarrow> u64 list \<Rightarrow> nat \<times> bool \<times> u64 list \<Rightarrow> (nat \<times> bool \<times> u64 list) option" where
  "scan_callers m base text_va target_va limit [] acc = Some acc"
| "scan_callers m base text_va target_va limit (offset # offsets) (tot, truncated, rvas) =
     Option.bind (rd_u32 m (text_va + offset)) (\<lambda>word.
       if \<not> is_bl word then scan_callers m base text_va target_va limit offsets (tot, truncated, rvas)
       else if bl_target text_va offset word = target_va then
         (if length rvas < limit
          then scan_callers m base text_va target_va limit offsets (tot + 1, truncated, rvas @ [text_va + offset - base])
          else scan_callers m base text_va target_va limit offsets (tot + 1, True, rvas))
       else scan_callers m base text_va target_va limit offsets (tot, truncated, rvas))"

text \<open>\<open>(0..n).step_by(4)\<close>\<close>

definition word_offsets :: "u64 \<Rightarrow> u64 list" where
  "word_offsets n = map (\<lambda>k. of_nat (4 * k)) [0..<(unat n + 3) div 4]"

definition callers_query_handler ::
  "'w bridge \<Rightarrow> image_memory \<Rightarrow> (string option \<times> usize) list \<Rightarrow> u64 \<Rightarrow> nat option \<Rightarrow> 'w
     \<Rightarrow> (string, callers_response) result option" where
  "callers_query_handler B m images rva requested w =
     (case image_base B w of
        None \<Rightarrow> Some (Inl ''UnityFramework image base unknown'')
      | Some base \<Rightarrow>
          Option.bind (text_section m images) (\<lambda>found.
            (case found of
               None \<Rightarrow> Some (Inl ''__TEXT.__text not found in the image'')
             | Some (text_va, text_size) \<Rightarrow>
                 (let target_va = base + rva;
                      limit = (case requested of None \<Rightarrow> 64 | Some n \<Rightarrow> n) in
                  Option.bind (scan_callers m base text_va target_va limit (word_offsets text_size) (0, False, []))
                    (\<lambda>(tot, truncated, rvas).
                       Some (Inr \<lparr> cl_image_base = base, cl_text_rva = text_va - base, cl_text_size = text_size,
                         cl_total = tot, cl_truncated = truncated, cl_caller_rvas = rvas \<rparr>))))))"

section \<open>Callers\<close>

lemma bl_offset: "scast (signed_drop_bit 6 (push_bit 6 ((w :: u32) AND 0x03FFFFFF))) = (of_int (signed_take_bit 25 (uint w)) :: u64)"
proof (rule bit_eqI)
  fix n assume "possible_bit TYPE(64 word) n"
  then have n: "n < 64" by simp
  have mask: "(0x03FFFFFF :: u32) = mask 26" by (simp add: mask_eq_exp_minus_1)
  show "bit (scast (signed_drop_bit 6 (push_bit 6 (w AND 0x03FFFFFF))) :: u64) n = bit (of_int (signed_take_bit 25 (uint w)) :: u64) n"
    using n unfolding mask by (cases "n = 25") (auto simp: bit_simps min_def)
qed

text \<open>Where a \<open>bl\<close> at a place goes: 26 bits, signed, in words.\<close>

definition calls :: "u64 \<Rightarrow> u64 \<Rightarrow> u32 \<Rightarrow> bool" where
  "calls place target w \<longleftrightarrow> w AND 0xFC000000 = 0x94000000 \<and> place + of_int (4 * signed_take_bit 25 (uint w)) = target"

lemma bl_calls: "is_bl w \<and> bl_target text_va off w = target \<longleftrightarrow> calls (text_va + off) target w"
  unfolding is_bl_def bl_target_def calls_def Let_def bl_offset by (simp add: mult.commute)

lemma scan_callers_exact:
  assumes "list_all (\<lambda>off. rd_u32 m (text_va + off) = Some (word off)) offs"
    and "length rvas \<le> limit" "truncated = (limit < tot)" "length rvas = min limit tot"
  shows "scan_callers m base text_va target limit offs (tot, truncated, rvas) =
    (let hits = filter (\<lambda>off. calls (text_va + off) target (word off)) offs in
     Some (tot + length hits, limit < tot + length hits,
       rvas @ take (limit - length rvas) (map (\<lambda>off. text_va + off - base) hits)))"
  using assms
proof (induction offs arbitrary: tot truncated rvas)
  case (Cons off offs)
  have rd: "rd_u32 m (text_va + off) = Some (word off)" and all: "list_all (\<lambda>off. rd_u32 m (text_va + off) = Some (word off)) offs"
    using Cons.prems(1) by simp_all
  show ?case
  proof (cases "calls (text_va + off) target (word off)")
    case False
    then have "\<not> is_bl (word off) \<or> bl_target text_va off (word off) \<noteq> target" using bl_calls by blast
    with Cons.IH [OF all Cons.prems(2-4)] rd False show ?thesis by auto
  next
    case True
    then have b: "is_bl (word off)" "bl_target text_va off (word off) = target" using bl_calls by blast+
    show ?thesis
    proof (cases "length rvas < limit")
      case less: True
      then obtain k where k: "limit - length rvas = Suc k" "limit - Suc (length rvas) = k" by (metis Suc_diff_Suc)
      have "length (rvas @ [text_va + off - base]) \<le> limit" "truncated = (limit < tot + 1)"
        "length (rvas @ [text_va + off - base]) = min limit (tot + 1)"
        using less Cons.prems(3,4) by auto
      from Cons.IH [OF all this] rd b less True k show ?thesis by (simp add: Let_def)
    next
      case ge: False
      have "True = (limit < tot + 1)" "length rvas = min limit (tot + 1)"
        using ge Cons.prems(3,4) by auto
      from Cons.IH [OF all Cons.prems(2) this] rd b ge True show ?thesis by (simp add: Let_def)
    qed
  qed
qed simp

text \<open>
  C35: the caller search is exact. Over a readable code section the search reports how many of its words
  are branch-with-link instructions to the target, the addresses of the first of them up to the limit,
  in order, and whether some were left out.
\<close>

theorem callers_exact:
  assumes "image_base B w = Some base" and "text_section m images = Some (Some (text_va, text_size))"
    and "list_all (\<lambda>off. rd_u32 m (text_va + off) = Some (word off)) (word_offsets text_size)"
  shows "callers_query_handler B m images rva (Some limit) w =
    (let hits = filter (\<lambda>off. calls (text_va + off) (base + rva) (word off)) (word_offsets text_size) in
     Some (Inr \<lparr> cl_image_base = base, cl_text_rva = text_va - base, cl_text_size = text_size,
       cl_total = length hits, cl_truncated = (limit < length hits),
       cl_caller_rvas = take limit (map (\<lambda>off. text_va + off - base) hits) \<rparr>))"
  using scan_callers_exact [OF assms(3), of "[]" limit False 0 base "base + rva"] assms(1,2)
  by (simp add: callers_query_handler_def Let_def)

section \<open>The load commands\<close>

text \<open>A segment with its sections (name, address, size), or another command.\<close>

datatype load_command = LC_Segment "u8 list" "(u8 list \<times> u64 \<times> u64) list" | LC_Other u32

definition section_at :: "image_memory \<Rightarrow> usize \<Rightarrow> u8 list \<times> u64 \<times> u64 \<Rightarrow> bool" where
  "section_at m a s \<longleftrightarrow> rd_bytes m a 16 = Some (fst s) \<and> rd_u64 m (a + 32) = Some (fst (snd s)) \<and>
     rd_u64 m (a + 40) = Some (snd (snd s))"

text \<open>A command of \<open>csize\<close> bytes; the sections a segment announces lie inside it.\<close>

fun command_at :: "image_memory \<Rightarrow> usize \<Rightarrow> nat \<Rightarrow> load_command \<Rightarrow> bool" where
  "command_at m a csize (LC_Other cmd) \<longleftrightarrow> rd_u32 m a = Some cmd \<and> cmd \<noteq> LC_SEGMENT_64 \<and> 8 \<le> csize"
| "command_at m a csize (LC_Segment name sections) \<longleftrightarrow> rd_u32 m a = Some LC_SEGMENT_64 \<and> rd_bytes m (a + 8) 16 = Some name \<and>
     72 + 80 * length sections \<le> csize \<and> length sections < 2 ^ 32 \<and> rd_u32 m (a + 64) = Some (of_nat (length sections)) \<and>
     (\<forall>i < length sections. section_at m (a + 72 + of_nat i * 80) (sections ! i))"

text \<open>The commands with their sizes, one behind the other; together they fill the size the header announces.\<close>

fun commands_at :: "image_memory \<Rightarrow> usize \<Rightarrow> nat \<Rightarrow> (load_command \<times> u32) list \<Rightarrow> bool" where
  "commands_at m header offset [] \<longleftrightarrow> True"
| "commands_at m header offset ((c, csize) # cs) \<longleftrightarrow> command_at m (header + of_nat offset) (unat csize) c \<and>
     rd_u32 m (header + of_nat offset + 4) = Some csize \<and> commands_at m header (offset + unat csize) cs"

definition commands_size :: "(load_command \<times> u32) list \<Rightarrow> nat" where
  "commands_size cs = sum_list (map (\<lambda>(c, csize). unat csize) cs)"

definition header_at :: "image_memory \<Rightarrow> usize \<Rightarrow> (load_command \<times> u32) list \<Rightarrow> bool" where
  "header_at m header cs \<longleftrightarrow> rd_u32 m header = Some MH_MAGIC_64 \<and>
     (\<exists>n s. rd_u32 m (header + 16) = Some n \<and> unat n = length cs \<and>
        rd_u32 m (header + 20) = Some s \<and> unat s = commands_size cs) \<and>
     commands_at m header 32 cs"

text \<open>The first \<open>__text\<close> of a \<open>__TEXT\<close>, moved by the header's address.\<close>

fun first_text :: "usize \<Rightarrow> (load_command \<times> u32) list \<Rightarrow> (usize \<times> u64) option" where
  "first_text header [] = None"
| "first_text header ((LC_Other cmd, _) # cs) = first_text header cs"
| "first_text header ((LC_Segment name sections, _) # cs) =
     (case (if name_is ''__TEXT'' name then find_first (\<lambda>s. name_is ''__text'' (fst s)) sections else None) of
        Some (_, addr, csize) \<Rightarrow> Some (header + addr, csize)
      | None \<Rightarrow> first_text header cs)"

lemma macho_sections_find:
  "\<forall>i < length secs. section_at m (a + of_nat (k + i) * 80) (secs ! i) \<Longrightarrow>
     macho_sections m header a [k..<k + length secs] =
       Some (map_option (\<lambda>s. (header + fst (snd s), snd (snd s))) (find_first (\<lambda>s. name_is ''__text'' (fst s)) secs))"
proof (induction secs arbitrary: k)
  case (Cons s secs)
  have "[k..<k + length (s # secs)] = k # [Suc k..<Suc k + length secs]" by (subst upt_rec) simp
  moreover have "section_at m (a + of_nat k * 80) s" using Cons.prems [rule_format, of 0] by simp
  moreover have "\<forall>i < length secs. section_at m (a + of_nat (Suc k + i) * 80) (secs ! i)"
  proof (intro allI impI)
    fix i assume "i < length secs"
    with Cons.prems [rule_format, of "Suc i"] show "section_at m (a + of_nat (Suc k + i) * 80) (secs ! i)" by simp
  qed
  note Cons.IH [OF this]
  ultimately show ?case by (simp add: section_at_def Let_def)
qed simp

lemma commands_size_simps [simp]:
  "commands_size [] = 0" "commands_size ((c, csize) # cs) = unat csize + commands_size cs"
  by (simp_all add: commands_size_def)

lemma command_at_size: "command_at m a csize c \<Longrightarrow> 8 \<le> csize"
  by (cases c) simp_all

lemma macho_commands_find:
  "commands_at m header offset cs \<Longrightarrow> offset + commands_size cs \<le> stop \<Longrightarrow>
     macho_commands m header stop (length cs) offset = Some (first_text header cs)"
proof (induction cs arbitrary: offset)
  case (Cons x cs)
  obtain c csize where x: "x = (c, csize)" by fastforce
  from Cons.prems have c: "command_at m (header + of_nat offset) (unat csize) c" "rd_u32 m (header + of_nat offset + 4) = Some csize"
    and r: "commands_at m header (offset + unat csize) cs" "offset + unat csize + commands_size cs \<le> stop"
    by (simp_all add: x)
  note ih = Cons.IH [OF r]
  have g: "\<not> stop < offset + 8" "csize \<noteq> 0" "\<not> stop < offset + unat csize"
    using command_at_size [OF c(1)] r(2) by auto
  show ?case
  proof (cases c)
    case (LC_Other cmd)
    with c g ih show ?thesis by (simp add: x)
  next
    case (LC_Segment name secs)
    from c(1) LC_Segment have sec: "macho_sections m header (header + of_nat offset + 72) [0..<0 + length secs] =
        Some (map_option (\<lambda>s. (header + fst (snd s), snd (snd s))) (find_first (\<lambda>s. name_is ''__text'' (fst s)) secs))"
      by (intro macho_sections_find) simp
    have n: "unat (of_nat (length secs) :: u32) = length secs"
      using c(1) LC_Segment by (simp add: unat_of_nat)
    show ?thesis
      using c g ih sec LC_Segment n
      by (cases "find_first (\<lambda>s. name_is ''__text'' (fst s)) secs") (auto simp: x)
  qed
qed simp

text \<open>The image memory cut down to the first \<open>n\<close> bytes from \<open>header\<close> on: everything else is unmapped, so
  a walk that reads there has no result.\<close>

definition header_window :: "image_memory \<Rightarrow> usize \<Rightarrow> nat \<Rightarrow> image_memory" where
  "header_window m header n = (\<lambda>a. if unat (a - header) < n then m a else None)"

lemma rd_bytes_window:
  assumes "a = header + of_nat off" and "off + k \<le> n" and "n \<le> 2 ^ 63"
  shows "rd_bytes (header_window m header n) a k = rd_bytes m a k"
proof -
  have "header_window m header n (a + of_nat i) = m (a + of_nat i)" if "i < k" for i
  proof -
    have "a + of_nat i - header = of_nat (off + i)" by (simp add: assms(1))
    moreover have "unat (of_nat (off + i) :: usize) = off + i"
      using that assms(2,3) by (simp add: unat_of_nat take_bit_nat_eq_self del: of_nat_add)
    ultimately have "unat (a + of_nat i - header) < n" using that assms(2) by (simp only:)
    then show ?thesis by (simp add: header_window_def)
  qed
  then have "map (\<lambda>i. header_window m header n (a + of_nat i)) [0..<k] = map (\<lambda>i. m (a + of_nat i)) [0..<k]"
    by simp
  then show ?thesis by (simp add: rd_bytes_def del: map_eq_conv)
qed

lemma rd_u32_window:
  "a = header + of_nat off \<Longrightarrow> off + 4 \<le> n \<Longrightarrow> n \<le> 2 ^ 63 \<Longrightarrow> rd_u32 (header_window m header n) a = rd_u32 m a"
  by (simp add: rd_u32_def rd_bytes_window)

lemma section_at_window:
  assumes "section_at m (header + of_nat off) s" and "off + 80 \<le> n" and "n \<le> 2 ^ 63"
  shows "section_at (header_window m header n) (header + of_nat off) s"
  using assms rd_bytes_window [of "header + of_nat off" header off 16 n m]
    rd_bytes_window [of "header + of_nat off + 32" header "off + 32" 8 n m]
    rd_bytes_window [of "header + of_nat off + 40" header "off + 40" 8 n m]
  by (simp add: section_at_def rd_u64_def)

lemma command_at_window:
  assumes c: "command_at m (header + of_nat off) csize c" and n: "off + csize \<le> n" "n \<le> 2 ^ 63"
  shows "command_at (header_window m header n) (header + of_nat off) csize c"
proof (cases c)
  case (LC_Other cmd)
  with c n show ?thesis by (simp add: rd_u32_window)
next
  case (LC_Segment name secs)
  have i: "section_at (header_window m header n) (header + of_nat off + 72 + of_nat i * 80) (secs ! i)"
    if "i < length secs" for i
  proof -
    have e: "header + of_nat off + 72 + of_nat i * 80 = header + (of_nat (off + 72 + i * 80) :: usize)"
      by (simp add: algebra_simps)
    have "off + 72 + i * 80 + 80 \<le> n" using that c n(1) LC_Segment by simp
    moreover have "section_at m (header + of_nat off + 72 + of_nat i * 80) (secs ! i)" using c that LC_Segment by simp
    ultimately show ?thesis using n(2) unfolding e by (intro section_at_window)
  qed
  show ?thesis
    using c n i LC_Segment rd_u32_window [of "header + of_nat off" header off n m]
      rd_u32_window [of "header + of_nat off + 64" header "off + 64" n m]
      rd_bytes_window [of "header + of_nat off + 8" header "off + 8" 16 n m] by simp
qed

lemma commands_at_window:
  "commands_at m header off cs \<Longrightarrow> off + commands_size cs \<le> n \<Longrightarrow> n \<le> 2 ^ 63 \<Longrightarrow>
     commands_at (header_window m header n) header off cs"
proof (induction cs arbitrary: off)
  case (Cons x cs)
  obtain c csize where x: "x = (c, csize)" by fastforce
  from Cons.prems have c: "command_at m (header + of_nat off) (unat csize) c" by (simp add: x)
  from Cons.prems command_at_window [OF c, of n] command_at_size [OF c]
    rd_u32_window [of "header + of_nat off + 4" header "off + 4" n m] Cons.IH [of "off + unat csize"]
  show ?case by (simp add: x)
qed simp

lemma header_at_window:
  assumes "header_at m header cs"
  shows "header_at (header_window m header (32 + commands_size cs)) header cs"
proof -
  let ?n = "32 + commands_size cs"
  from assms obtain k s where h: "rd_u32 m header = Some MH_MAGIC_64" "rd_u32 m (header + 16) = Some k" "unat k = length cs"
    "rd_u32 m (header + 20) = Some s" "unat s = commands_size cs" "commands_at m header 32 cs"
    by (auto simp: header_at_def)
  have n: "?n \<le> 2 ^ 63" using unsigned_less [of s, where ?'a = nat] h(5) by simp
  show ?thesis
    using h commands_at_window [OF h(6) order_refl n] rd_u32_window [of header header 0 ?n m]
      rd_u32_window [of "header + 16" header 16 ?n m] rd_u32_window [of "header + 20" header 20 ?n m] n
    by (simp add: header_at_def)
qed

lemma macho_text_find:
  assumes "header_at m header cs"
  shows "macho_text_section m header = Some (first_text header cs)"
proof -
  from assms obtain n s where h: "rd_u32 m header = Some MH_MAGIC_64" "rd_u32 m (header + 16) = Some n" "unat n = length cs"
    "rd_u32 m (header + 20) = Some s" "unat s = commands_size cs" "commands_at m header 32 cs"
    by (auto simp: header_at_def)
  from macho_commands_find [OF h(6), of "32 + unat s"] h show ?thesis by (simp add: macho_text_section_def)
qed

text \<open>
  C36: the code section is found. Over a mapped Mach-O header whose commands fill the announced size and
  whose segments hold the sections they announce, the walk returns the first __text section of a __TEXT
  segment, at its address behind the header, or nothing when there is none; and it does so in a memory in
  which the 32 bytes of the header and the announced size of the commands are all that is mapped, so it reads
  nothing outside them.
\<close>

theorem macho_text_found:
  assumes "header_at m header cs"
  shows "macho_text_section m header = Some (first_text header cs)
    \<and> macho_text_section (header_window m header (32 + commands_size cs)) header = Some (first_text header cs)"
  using macho_text_find [OF assms] macho_text_find [OF header_at_window [OF assms]] by simp

text \<open>An image of 512 bytes: one __TEXT segment with one __text section of two words at 0x100, the first
  of which calls 0x110.\<close>

definition demo_image :: "nat \<Rightarrow> (usize \<times> u8) list \<Rightarrow> image_memory" where
  "demo_image n bytes a =
     (if unat (a - 0x10000) < n then Some (case map_of bytes (a - 0x10000) of None \<Rightarrow> 0 | Some b \<Rightarrow> b) else None)"

definition demo_bytes :: "(usize \<times> u8) list" where
  "demo_bytes = [(0, 0xCF), (1, 0xFA), (2, 0xED), (3, 0xFE), (16, 1), (20, 152),
     (32, 0x19), (36, 152), (40, 95), (41, 95), (42, 84), (43, 69), (44, 88), (45, 84), (96, 1),
     (104, 95), (105, 95), (106, 116), (107, 101), (108, 120), (109, 116), (137, 1), (144, 8),
     (0x100, 4), (0x103, 0x94)]"

lemmas demo_read = rd_u32_def rd_u64_def rd_bytes_def upt_conv_Cons u64_from_le_def demo_image_def demo_bytes_def

lemma demo_reads:
  "rd_u32 (demo_image 512 demo_bytes) 0x10000 = Some MH_MAGIC_64"
  "rd_u32 (demo_image 512 demo_bytes) 0x10010 = Some 1" "rd_u32 (demo_image 512 demo_bytes) 0x10014 = Some 152"
  "rd_u32 (demo_image 512 demo_bytes) 0x10020 = Some LC_SEGMENT_64" "rd_u32 (demo_image 512 demo_bytes) 0x10024 = Some 152"
  "rd_bytes (demo_image 512 demo_bytes) 0x10028 16 = Some ([95, 95, 84, 69, 88, 84] @ [0, 0, 0, 0, 0, 0, 0, 0, 0, 0])"
  "rd_u32 (demo_image 512 demo_bytes) 0x10060 = Some 1"
  "rd_bytes (demo_image 512 demo_bytes) 0x10068 16 = Some ([95, 95, 116, 101, 120, 116] @ [0, 0, 0, 0, 0, 0, 0, 0, 0, 0])"
  "rd_u64 (demo_image 512 demo_bytes) 0x10088 = Some 0x100" "rd_u64 (demo_image 512 demo_bytes) 0x10090 = Some 8"
  "rd_u32 (demo_image 512 demo_bytes) 0x10100 = Some 0x94000004" "rd_u32 (demo_image 512 demo_bytes) 0x10104 = Some 0"
  by (simp_all add: demo_read MH_MAGIC_64_def LC_SEGMENT_64_def)

lemma demo_names [simp]:
  "name_is ''__TEXT'' [95, 95, 84, 69, 88, 84, 0, 0, 0, 0, 0, 0, 0, 0, 0, 0]"
  "name_is ''__text'' [95, 95, 116, 101, 120, 116, 0, 0, 0, 0, 0, 0, 0, 0, 0, 0]"
  by (simp_all add: name_is_def c_bytes_def)

lemma demo_header:
  "header_at (demo_image 512 demo_bytes) 0x10000
     [(LC_Segment [95, 95, 84, 69, 88, 84, 0, 0, 0, 0, 0, 0, 0, 0, 0, 0]
        [([95, 95, 116, 101, 120, 116, 0, 0, 0, 0, 0, 0, 0, 0, 0, 0], 0x100, 8)], 152)]"
  by (simp add: header_at_def demo_reads section_at_def)

theorem macho_text_found_witness:
  "macho_text_section (demo_image 512 demo_bytes) 0x10000 = Some (Some (0x10100, 8)) \<and>
   macho_text_section (header_window (demo_image 512 demo_bytes) 0x10000 184) 0x10000 = Some (Some (0x10100, 8))"
  using macho_text_found [OF demo_header] by simp

theorem callers_exact_witness:
  "callers_query_handler \<lparr> br_load = (\<lambda>f w. (Inr (), w)), br_domain_get = (\<lambda>w. (5, w)), br_thread_current = (\<lambda>_. 0),
       br_thread_attach = (\<lambda>d w. (7, w)), br_thread_detach = (\<lambda>t w. w), br_cache_init = (\<lambda>w. (True, w)),
       br_assembly = (\<lambda>n w. None), br_class = (\<lambda>a n w. None), br_method = (\<lambda>c x. None),
       br_image_base = (\<lambda>n w. Some 0x10000), br_string_length = (\<lambda>p w. 0), br_string_chars = (\<lambda>p w. 0) \<rparr>
     (demo_image 512 demo_bytes) [(Some ''/UnityFramework'', 0x10000)] 0x110 (Some 64) () =
   Some (Inr \<lparr> cl_image_base = 0x10000, cl_text_rva = 0x100, cl_text_size = 8, cl_total = 1, cl_truncated = False,
     cl_caller_rvas = [0x100] \<rparr>)"
proof -
  let ?B = "\<lparr> br_load = (\<lambda>f w. (Inr (), w)), br_domain_get = (\<lambda>w. (5, w)), br_thread_current = (\<lambda>_. 0),
       br_thread_attach = (\<lambda>d w. (7, w)), br_thread_detach = (\<lambda>t w. w), br_cache_init = (\<lambda>w. (True, w)),
       br_assembly = (\<lambda>n w. None), br_class = (\<lambda>a n w. None), br_method = (\<lambda>c x. None),
       br_image_base = (\<lambda>n w. Some 0x10000), br_string_length = (\<lambda>p w. 0), br_string_chars = (\<lambda>p w. 0) \<rparr> :: unit bridge"
  have o: "word_offsets 8 = [0, 4]" by (simp add: word_offsets_def upt_conv_Cons)
  have t: "text_section (demo_image 512 demo_bytes) [(Some ''/UnityFramework'', 0x10000)] = Some (Some (0x10100, 8))"
    using macho_commands_find [of "demo_image 512 demo_bytes" "0x10000" 32
        "[(LC_Segment [95, 95, 84, 69, 88, 84, 0, 0, 0, 0, 0, 0, 0, 0, 0, 0]
        [([95, 95, 116, 101, 120, 116, 0, 0, 0, 0, 0, 0, 0, 0, 0, 0], 0x100, 8)], 152)]" 184] demo_header
    by (simp add: macho_text_section_def demo_reads header_at_def)
  have c: "calls 0x10100 0x10110 0x94000004" by (simp add: calls_def)
  have n: "\<not> calls 0x10104 0x10110 0" by (simp add: calls_def)
  have b: "image_base ?B () = Some 0x10000" by (simp add: image_base_def)
  show ?thesis
    using callers_exact [OF b t, where word = "\<lambda>off. if off = 0 then 0x94000004 else 0" and limit = 64 and rva = "0x110"] c n
    by (simp add: o demo_reads)
qed

text \<open>The walk does not stay inside the commands when a segment announces sections behind its own end:
  here the commands end at 40 bytes, the image too, and the name of the segment is read behind them.\<close>

lemma walk_leaves_commands:
  "macho_text_section (demo_image 40 [(0, 0xCF), (1, 0xFA), (2, 0xED), (3, 0xFE), (16, 1), (20, 8), (32, 0x19), (36, 8)])
     0x10000 = None"
proof -
  let ?m = "demo_image 40 [(0, 0xCF), (1, 0xFA), (2, 0xED), (3, 0xFE), (16, 1), (20, 8), (32, 0x19), (36, 8)]"
  have "rd_u32 ?m 0x10000 = Some MH_MAGIC_64" "rd_u32 ?m 0x10010 = Some 1" "rd_u32 ?m 0x10014 = Some 8"
    "rd_u32 ?m 0x10020 = Some LC_SEGMENT_64" "rd_u32 ?m 0x10024 = Some 8" "rd_bytes ?m 0x10028 16 = None"
    by (simp_all add: demo_read MH_MAGIC_64_def LC_SEGMENT_64_def)
  then show ?thesis by (simp add: macho_text_section_def)
qed

end
