(* ===== verification/Shipped_Plugins.thy ===== *)
theory Shipped_Plugins
  imports Facade Unlock_Fps Dump_Walk Recon Debug_Wire Bootstrap
begin

text \<open>
  The \<open>build\<close> functions of the four plugins the runtime ships: \<open>crates/unlock_fps\<close>,
  \<open>crates/translation_dump\<close>, \<open>crates/recon\<close> and \<open>crates/debug\<close>.  The world \<open>'w\<close> of the application is
  abstract; a glue record says where in it a plugin's shared objects and static sites are, how its
  resources enter the ECS, and what the typed registrations supply.  \<open>R\<close> is the method resolver the host
  hands out, \<open>i\<close> the owner.
\<close>

abbreviation shared_map :: "('w, 'a) shared_ref \<Rightarrow> ('a \<Rightarrow> 'a) \<Rightarrow> 'w \<Rightarrow> 'w" where
  "shared_map r f w \<equiv> sr_put r (f (sr_get r w)) w"

section \<open>Frame rate\<close>

record ('w, 'v, 'e, 'c, 'm, 's, 'j, 'p) fps_glue =
  fx_ops :: "('w, 'v) world_ops"
  fx_state_res :: "type_id \<times> (fps_state \<Rightarrow> 'v)"
  fx_writer_res :: "type_id \<times> 'v"
  fx_hooks_res :: "type_id \<times> (hook_state \<Rightarrow> hook_state \<Rightarrow> 'v)"
  fx_state :: "('w, fps_state) shared_ref"
  fx_world :: "('w, ('e, 'c) fps_world) shared_ref"
  fx_rate_site :: "('w, (('e, 'c) setter_fn, usize, 'm) hook_site) shared_ref"
  fx_vsync_site :: "('w, (('e, 'c) setter_fn, usize, 'm) hook_site) shared_ref"
  fx_rate_target :: "('e, 'c) setter_fn hook_target"
  fx_vsync_target :: "('e, 'c) setter_fn hook_target"
  fx_rate_fn :: "('e, 'c) setter_fn"
  fx_vsync_fn :: "('e, 'c) setter_fn"
  fx_container :: usize
  fx_startup_state :: "('w, 's, unit) system_state_ops"
  fx_get_topic :: "('w, 'j, 'p, unit, fps_get_response) topic_glue"
  fx_set_topic :: "('w, 'j, 'p, bool, bool) topic_glue"

text \<open>The installed hooks as they are now, for the calls on the main thread.\<close>

definition fps_hooks_now ::
  "('w, 'v, 'e, 'c, 'm, 's, 'j, 'p) fps_glue \<Rightarrow> hook_state \<Rightarrow> hook_state \<Rightarrow> 'w \<Rightarrow> ('e, 'c, usize, 'm) fps_hooks option" where
  "fps_hooks_now G rate vsync w =
     (case (sr_get (fx_rate_site G) w, sr_get (fx_vsync_site G) w) of
        (Some r, Some v) \<Rightarrow> Some \<lparr> fh_rate_target = fx_rate_target G, fh_rate_site = r, fh_rate_state = rate,
           fh_vsync_target = fx_vsync_target G, fh_vsync_site = v, fh_vsync_state = vsync \<rparr>
      | _ \<Rightarrow> None)"

definition fps_startup_system ::
  "('w, 'v, 'e, 'c, 'm, 's, 'j, 'p) fps_glue \<Rightarrow> 'm slot_ops \<Rightarrow> hook_state \<Rightarrow> hook_state \<Rightarrow> 'w startup_system" where
  "fps_startup_system G M rate vsync = lazy_startup_run (fx_startup_state G) (\<lambda>_ w.
     case fps_hooks_now G rate vsync w of
       None \<Rightarrow> (Returns (Inl (Message ''unlock_fps startup apply failed'')), [], [], w)
     | Some H \<Rightarrow>
         (case fps_startup M H (sr_get (fx_state G) w) (sr_get (fx_world G) w) of
            (r, fw) \<Rightarrow> (r, [], [], sr_put (fx_world G) fw w)))"

definition fps_get_topic_handler ::
  "('w, 'v, 'e, 'c, 'm, 's, 'j, 'p) fps_glue \<Rightarrow> unit \<Rightarrow> 'w \<Rightarrow> (string, fps_get_response) result flow \<times> 'w" where
  "fps_get_topic_handler G _ w = (Returns (Inr (fps_get_handler (sr_get (fx_state G) w, sr_get (fx_world G) w))), w)"

definition fps_set_topic_handler ::
  "('w, 'v, 'e, 'c, 'm, 's, 'j, 'p) fps_glue \<Rightarrow> (fps_setting option, 'c) atomic_cell \<Rightarrow> 'm slot_ops
     \<Rightarrow> hook_state \<Rightarrow> hook_state \<Rightarrow> bool \<Rightarrow> 'w \<Rightarrow> (string, bool) result flow \<times> 'w" where
  "fps_set_topic_handler G C M rate vsync unlock w =
     (case fps_hooks_now G rate vsync w of
        None \<Rightarrow> (Returns (Inl ''unlock_fps apply failed''), w)
      | Some H \<Rightarrow>
          (case fps_set_handler C M H unlock (sr_get (fx_state G) w, sr_get (fx_world G) w) of
             (r, st, fw) \<Rightarrow> (r, sr_put (fx_world G) fw (sr_put (fx_state G) st w))))"

definition fps_build ::
  "('w, 'v, 'e, 'c, 'm, 's, 'j, 'p) fps_glue \<Rightarrow> (fps_setting option, 'c) atomic_cell \<Rightarrow> 'm slot_ops \<Rightarrow> ('m \<Rightarrow> 'm)
     \<Rightarrow> 'm method_resolver option \<Rightarrow> owner_id \<Rightarrow> runtime_config \<Rightarrow> ('w, 'j, 'p) build" where
  "fps_build G C M env R i config =
     B_Do (sr_put (fx_state G) (fps_state_new (fps_unlock config)))
     (try_call (C_Insert (resource_insert_of (fx_ops G) (fst (fx_state_res G)) ''unlock_fps::FpsState''
        (snd (fx_state_res G) (fps_state_new (fps_unlock config)))))
     (B_Do (shared_map (fx_world G) (\<lambda>fw. fps_world_new C (fw_engine fw)))
     (try_call (main_to_callback_latest ''unlock_fps::FpsSetting'')
     (try_call (C_Insert (resource_insert_of (fx_ops G) (fst (fx_writer_res G)) ''unlock_fps::FpsWriter'' (snd (fx_writer_res G))))
     (try_call (C_Container (fx_container G))
     (hook_chain (fx_rate_target G) M env R (fx_rate_site G) (fx_container G) i (fx_rate_fn G) (\<lambda>r. try_result r (\<lambda>rate.
     (hook_chain (fx_vsync_target G) M env R (fx_vsync_site G) (fx_container G) i (fx_vsync_fn G) (\<lambda>r. try_result r (\<lambda>vsync.
     (try_call (C_Insert (resource_insert_of (fx_ops G) (fst (fx_hooks_res G)) ''unlock_fps::FpsHooks'' (snd (fx_hooks_res G) rate vsync)))
     (main_topic i ''unlock_fps.get'' (fx_get_topic G) (fps_get_topic_handler G)
     (main_topic i ''unlock_fps.set'' (fx_set_topic G) (fps_set_topic_handler G C M rate vsync)
     (B_Call (C_Startup (fps_startup_system G M rate vsync)) (\<lambda>_. B_Return (Inr ())))))))))))))))))"

definition fps_plugin ::
  "('w, 'v, 'e, 'c, 'm, 's, 'j, 'p) fps_glue \<Rightarrow> (fps_setting option, 'c) atomic_cell \<Rightarrow> 'm slot_ops \<Rightarrow> ('m \<Rightarrow> 'm)
     \<Rightarrow> 'm method_resolver option \<Rightarrow> ('w, 'j, 'p) plugin" where
  "fps_plugin G C M env R = \<lparr> pl_name = ''unlock_fps'', pl_build = fps_build G C M env R \<rparr>"

section \<open>Translation dump\<close>

record ('w, 'v, 'g, 'q, 'l, 'm, 's, 'j, 'p) dump_glue =
  dx_ops :: "('w, 'v) world_ops"
  dx_state_res :: "type_id \<times> (dump_state \<Rightarrow> 'v)"
  dx_sites_res :: "type_id \<times> 'v"
  dx_hook_res :: "type_id \<times> (hook_state \<Rightarrow> hook_state option list \<Rightarrow> 'v)"
  dx_state :: "('w, dump_state) shared_ref"
  dx_world :: "('w, ('g, 'q, 'l) dump_world) shared_ref"
  dx_sites :: "('g, 'q, 'l) dump_sites"
  dx_text_or_null_site :: "('w, (('g, 'q, 'l) get_text_fn, usize, 'm) hook_site) shared_ref"
  dx_text_site :: "('w, (('g, 'q, 'l) get_text_fn, usize, 'm) hook_site) shared_ref"
  dx_bytes_site :: "('w, (('g, 'q, 'l) get_bytes_fn, usize, 'm) hook_site) shared_ref"
  dx_update_lyrics_site :: "('w, (('g, 'q, 'l) lyrics_fn, usize, 'm) hook_site) shared_ref"
  dx_set_lyric_site :: "('w, (('g, 'q, 'l) lyrics_fn, usize, 'm) hook_site) shared_ref"
  dx_tmp_text_site :: "('w, (('g, 'q, 'l) lyrics_fn, usize, 'm) hook_site) shared_ref"
  dx_addr :: "target_id \<Rightarrow> usize"
  dx_text_raw :: "usize \<Rightarrow> ('g, 'q, 'l) get_text_fn"
  dx_bytes_raw :: "usize \<Rightarrow> ('g, 'q, 'l) get_bytes_fn"
  dx_lyrics_raw :: "usize \<Rightarrow> ('g, 'q, 'l) lyrics_fn"
  dx_container :: usize
  dx_records_recv :: "('w, dump_record list option) shared_ref"
  dx_lyrics_recv :: "('w, lyrics_record list option) shared_ref"
  dx_register_records :: "'w \<Rightarrow> 'w"
  dx_register_lyrics :: "'w \<Rightarrow> 'w"
  dx_json :: dump_json
  dx_unreadable :: bool
  dx_mkdir_fails :: bool
  dx_faults :: "'w \<Rightarrow> write_faults \<times> write_faults"
  dx_file_faults :: "path \<Rightarrow> write_faults"
  dx_game :: "'g data_file_game"
  dx_show :: "plugin_error \<Rightarrow> string"
  dx_stuck :: "'w \<Rightarrow> (string, (dump_error, scenario_dump_response) result) result flow \<times> 'w"
  dx_update_state :: "('w, 's, dump_record list \<times> lyrics_record list) system_state_ops"
  dx_status_topic :: "('w, 'j, 'p, unit, dump_status) topic_glue"
  dx_flush_topic :: "('w, 'j, 'p, unit, bool) topic_glue"
  dx_dic_topic :: "('w, 'j, 'p, unit, (dump_error, dump_dic_response) result) topic_glue"
  dx_scenario_topic :: "('w, 'j, 'p, nat option, (dump_error, scenario_dump_response) result) topic_glue"
  dx_lyrics_topic :: "('w, 'j, 'p, ustr list \<times> nat option, (dump_error, lyrics_dump_response) result) topic_glue"

text \<open>The resource and the counters, and where the systems and handlers leave them.\<close>

definition dump_load_parts ::
  "('w, 'v, 'g, 'q, 'l, 'm, 's, 'j, 'p) dump_glue \<Rightarrow> 'w \<Rightarrow> (dump_state \<times> dump_diagnostics) \<times> dump_fs" where
  "dump_load_parts G w =
     (let dw = sr_get (dx_world G) w in ((sr_get (dx_state G) w, dw_diag dw), dw_fs dw))"

definition dump_store_parts ::
  "('w, 'v, 'g, 'q, 'l, 'm, 's, 'j, 'p) dump_glue \<Rightarrow> dump_state \<times> dump_diagnostics \<Rightarrow> dump_fs \<Rightarrow> 'w \<Rightarrow> 'w" where
  "dump_store_parts G s fs w =
     sr_put (dx_state G) (fst s) (shared_map (dx_world G) (\<lambda>dw. dw\<lparr> dw_diag := snd s, dw_fs := fs \<rparr>) w)"

definition dump_update_system :: "('w, 'v, 'g, 'q, 'l, 'm, 's, 'j, 'p) dump_glue \<Rightarrow> 'w update_system" where
  "dump_update_system G = lazy_update_run (dx_update_state G) (\<lambda>(records, lyrics) w.
     case dump_load_parts G w of (s, fs) \<Rightarrow>
       (case dump_update (dx_json G) (dx_faults G w) records lyrics s fs of
          (r, s', fs') \<Rightarrow> (Returns r, dump_store_parts G s' fs' w)))"

definition dump_status_topic_handler ::
  "('w, 'v, 'g, 'q, 'l, 'm, 's, 'j, 'p) dump_glue \<Rightarrow> unit \<Rightarrow> 'w \<Rightarrow> (string, dump_status) result flow \<times> 'w" where
  "dump_status_topic_handler G _ w = (Returns (Inr (dump_status_handler (fst (dump_load_parts G w)))), w)"

definition dump_flush_topic_handler ::
  "('w, 'v, 'g, 'q, 'l, 'm, 's, 'j, 'p) dump_glue \<Rightarrow> unit \<Rightarrow> 'w \<Rightarrow> (string, bool) result flow \<times> 'w" where
  "dump_flush_topic_handler G _ w =
     (case dump_load_parts G w of (s, fs) \<Rightarrow>
        (case dump_flush_handler (dx_json G) (dx_faults G w) s fs of
           (r, s', fs') \<Rightarrow> (Returns (map_err (dx_show G) r), dump_store_parts G s' fs' w)))"

definition dump_dic_topic_handler ::
  "('w, 'v, 'g, 'q, 'l, 'm, 's, 'j, 'p) dump_glue \<Rightarrow> unit \<Rightarrow> 'w
     \<Rightarrow> (string, (dump_error, dump_dic_response) result) result flow \<times> 'w" where
  "dump_dic_topic_handler G _ w =
     (let dw = sr_get (dx_world G) w in
      case dump_load_parts G w of (s, fs) \<Rightarrow>
        (case dump_dic_handler (sx_il2cpp (dx_sites G)) (dx_json G) (dx_faults G w) (dw_mem dw) (dw_instance dw) (dw_game dw) s fs of
           (r, s', fs') \<Rightarrow> (Returns (Inr r), dump_store_parts G s' fs' w)))"

text \<open>The probe of a scenario may never return; \<open>dx_stuck\<close> stands for such a call.\<close>

definition scenario_dump_topic_handler ::
  "('w, 'v, 'g, 'q, 'l, 'm, 's, 'j, 'p) dump_glue \<Rightarrow> nat option \<Rightarrow> 'w
     \<Rightarrow> (string, (dump_error, scenario_dump_response) result) result flow \<times> 'w" where
  "scenario_dump_topic_handler G limit w =
     (let dw = sr_get (dx_world G) w in
      case scenario_dump_handler (sx_il2cpp (dx_sites G)) (dx_game G) (dx_file_faults G) limit (sr_get (dx_state G) w) (dw_game dw, dw_fs dw) of
        None \<Rightarrow> dx_stuck G w
      | Some (r, st, game, fs) \<Rightarrow>
          (Returns (Inr r), sr_put (dx_state G) st (sr_put (dx_world G) (dw\<lparr> dw_game := game, dw_fs := fs \<rparr>) w)))"

definition lyrics_dump_topic_handler ::
  "('w, 'v, 'g, 'q, 'l, 'm, 's, 'j, 'p) dump_glue \<Rightarrow> ustr list \<times> nat option \<Rightarrow> 'w
     \<Rightarrow> (string, (dump_error, lyrics_dump_response) result) result flow \<times> 'w" where
  "lyrics_dump_topic_handler G request w =
     (let dw = sr_get (dx_world G) w in
      case lyrics_dump_handler (sx_il2cpp (dx_sites G)) (dx_game G) (dx_file_faults G) (fst request) (snd request)
             (sr_get (dx_state G) w) (dw_game dw, dw_fs dw) of
        (r, st, game, fs) \<Rightarrow>
          (Returns (Inr r), sr_put (dx_state G) st (sr_put (dx_world G) (dw\<lparr> dw_game := game, dw_fs := fs \<rparr>) w)))"

text \<open>A hook whose refused installation is only logged.\<close>

definition optional_hook ::
  "'o hook_target \<Rightarrow> 'm slot_ops \<Rightarrow> ('m \<Rightarrow> 'm) \<Rightarrow> 'm method_resolver option
     \<Rightarrow> ('w, ('o, 'c, 'm) hook_site) shared_ref \<Rightarrow> 'c \<Rightarrow> owner_id \<Rightarrow> 'o
     \<Rightarrow> (hook_state option \<Rightarrow> ('w, 'j, 'p) build) \<Rightarrow> ('w, 'j, 'p) build" where
  "optional_hook T M env R site c i f k =
     hook_chain T M env R site c i f (\<lambda>r. k (case r of Inr st \<Rightarrow> Some st | Inl _ \<Rightarrow> None))"

text \<open>The counters are fresh; the rest of the world is the game's and the disk.\<close>

definition dump_world_new :: "('g, 'q, 'l) dump_world \<Rightarrow> ('g, 'q, 'l) dump_world" where
  "dump_world_new dw = dw\<lparr> dw_diag := diagnostics_default \<rparr>"

abbreviation dump_target_at ::
  "('w, 'v, 'g, 'q, 'l, 'm, 's, 'j, 'p) dump_glue \<Rightarrow> (usize \<Rightarrow> 'o) \<Rightarrow> target_id \<Rightarrow> 'o hook_target" where
  "dump_target_at G raw t \<equiv> dump_target t (dx_addr G t) raw"

text \<open>The systems and topics at the end of the build.\<close>

definition dump_register ::
  "('w, 'v, 'g, 'q, 'l, 'm, 's, 'j, 'p) dump_glue \<Rightarrow> owner_id \<Rightarrow> ('w, 'j, 'p) build" where
  "dump_register G i =
     B_Call (C_Update (dump_update_system G)) (\<lambda>_.
     main_topic i ''translation_dump.status'' (dx_status_topic G) (dump_status_topic_handler G)
     (main_topic i ''translation_dump.flush'' (dx_flush_topic G) (dump_flush_topic_handler G)
     (main_topic i ''translation_dump.dicdump'' (dx_dic_topic G) (dump_dic_topic_handler G)
     (main_topic i ''translation_dump.scenariodump'' (dx_scenario_topic G) (scenario_dump_topic_handler G)
     (main_topic i ''translation_dump.lyricsdump'' (dx_lyrics_topic G) (lyrics_dump_topic_handler G)
       (B_Return (Inr ())))))))"

text \<open>The six hooks, of which only the first is required.\<close>

definition dump_hooks ::
  "('w, 'v, 'g, 'q, 'l, 'm, 's, 'j, 'p) dump_glue \<Rightarrow> 'm slot_ops \<Rightarrow> ('m \<Rightarrow> 'm) \<Rightarrow> 'm method_resolver option
     \<Rightarrow> owner_id \<Rightarrow> (hook_state \<Rightarrow> hook_state option list \<Rightarrow> ('w, 'j, 'p) build) \<Rightarrow> ('w, 'j, 'p) build" where
  "dump_hooks G M env R i k =
     (let text = (\<lambda>t. dump_target_at G (dx_text_raw G) t); text_fn = (\<lambda>t. dx_text_raw G (dx_addr G t));
          lyr = (\<lambda>t. dump_target_at G (dx_lyrics_raw G) t); lyr_fn = (\<lambda>t. dx_lyrics_raw G (dx_addr G t));
          C = dx_container G in
      hook_chain (text LOCALIZATION_GET_TEXT_OR_NULL_TARGET) M env R (dx_text_or_null_site G) C i
        (text_fn LOCALIZATION_GET_TEXT_OR_NULL_TARGET) (\<lambda>r. try_result r (\<lambda>hook.
      optional_hook (text LOCALIZATION_GET_TEXT_TARGET) M env R (dx_text_site G) C i
        (text_fn LOCALIZATION_GET_TEXT_TARGET) (\<lambda>get_text_hook.
      optional_hook (dump_target_at G (dx_bytes_raw G) DATA_FILE_GET_BYTES_TARGET) M env R (dx_bytes_site G) C i
        (dx_bytes_raw G (dx_addr G DATA_FILE_GET_BYTES_TARGET)) (\<lambda>get_bytes_hook.
      optional_hook (lyr LIVE_MV_UPDATE_LYRICS_TARGET) M env R (dx_update_lyrics_site G) C i
        (lyr_fn LIVE_MV_UPDATE_LYRICS_TARGET) (\<lambda>update_lyrics_hook.
      optional_hook (lyr TIMELINE_SET_LYRIC_TARGET) M env R (dx_set_lyric_site G) C i
        (lyr_fn TIMELINE_SET_LYRIC_TARGET) (\<lambda>set_lyric_hook.
      optional_hook (lyr TMP_TEXT_SET_TEXT_TARGET) M env R (dx_tmp_text_site G) C i
        (lyr_fn TMP_TEXT_SET_TEXT_TARGET) (\<lambda>tmp_text_hook.
      k hook [get_text_hook, get_bytes_hook, update_lyrics_hook, set_lyric_hook, tmp_text_hook]))))))))"

text \<open>The two queues of the callbacks.\<close>

definition dump_records_box :: "('w, 'v, 'g, 'q, 'l, 'm, 's, 'j, 'p) dump_glue \<Rightarrow> ('w, 'q) shared_ref" where
  "dump_records_box G = \<lparr> sr_get = (\<lambda>w. dw_records (sr_get (dx_world G) w)),
     sr_put = (\<lambda>q. shared_map (dx_world G) (\<lambda>dw. dw\<lparr> dw_records := q \<rparr>)) \<rparr>"

definition dump_lyrics_box :: "('w, 'v, 'g, 'q, 'l, 'm, 's, 'j, 'p) dump_glue \<Rightarrow> ('w, 'l) shared_ref" where
  "dump_lyrics_box G = \<lparr> sr_get = (\<lambda>w. dw_lyrics (sr_get (dx_world G) w)),
     sr_put = (\<lambda>q. shared_map (dx_world G) (\<lambda>dw. dw\<lparr> dw_lyrics := q \<rparr>)) \<rparr>"

definition dump_build ::
  "('w, 'v, 'g, 'q, 'l, 'm, 's, 'j, 'p) dump_glue \<Rightarrow> 'm slot_ops \<Rightarrow> ('m \<Rightarrow> 'm) \<Rightarrow> 'm method_resolver option
     \<Rightarrow> data_root \<Rightarrow> owner_id \<Rightarrow> runtime_config \<Rightarrow> ('w, 'j, 'p) build" where
  "dump_build G M env R root i config =
     (let world = dx_world G; queue = sx_records (dx_sites G); lyrics_queue = sx_lyrics (dx_sites G) in
     B_Do (shared_map world dump_world_new)
     (B_Get (\<lambda>w. try_result (dump_load (dx_json G) (dx_unreadable G) (dump_path root) (dw_fs (sr_get world w))) (\<lambda>st.
     try_call (C_Insert (resource_insert_of (dx_ops G) (fst (dx_state_res G)) ''translation_dump::DumpState'' (snd (dx_state_res G) st)))
     (B_Do (sr_put (dump_records_box G) (bounded_new queue DUMP_QUEUE_CAPACITY))
     (try_call (callback_to_main_bounded queue (\<lambda>x xs. xs @ [x]) (dump_records_box G) (dx_records_recv G)
        (dx_register_records G) ''translation_dump::DumpRecord'')
     (B_Do (sr_put (dump_lyrics_box G) (bounded_new lyrics_queue DUMP_QUEUE_CAPACITY))
     (try_call (callback_to_main_bounded lyrics_queue (\<lambda>x xs. xs @ [x]) (dump_lyrics_box G) (dx_lyrics_recv G)
        (dx_register_lyrics G) ''translation_dump::LyricsRecord'')
     (B_Do (shared_map world (\<lambda>dw. if dx_mkdir_fails G then dw else dw\<lparr> dw_fs := fs_mkdirs (json_dir root) (dw_fs dw) \<rparr>))
     (B_Do (shared_map world (\<lambda>dw. dw\<lparr> dw_instance := 0 \<rparr>))
     (try_call (C_Container (dx_container G))
     (try_call (C_Insert (resource_insert_of (dx_ops G) (fst (dx_sites_res G)) ''translation_dump::DumpSitesResource'' (snd (dx_sites_res G))))
     (dump_hooks G M env R i (\<lambda>hook optional.
     try_call (C_Insert (resource_insert_of (dx_ops G) (fst (dx_hook_res G)) ''translation_dump::DumpHook'' (snd (dx_hook_res G) hook optional)))
     (dump_register G i)))))))))))))))"

definition dump_plugin ::
  "('w, 'v, 'g, 'q, 'l, 'm, 's, 'j, 'p) dump_glue \<Rightarrow> 'm slot_ops \<Rightarrow> ('m \<Rightarrow> 'm) \<Rightarrow> 'm method_resolver option
     \<Rightarrow> data_root \<Rightarrow> ('w, 'j, 'p) plugin" where
  "dump_plugin G M env R root = \<lparr> pl_name = ''translation_dump'', pl_build = dump_build G M env R root \<rparr>"

section \<open>Reconnaissance\<close>

text \<open>The bridge, the image memory and the images of the loader are as they are in the world; \<open>rx_show\<close>
  is the text of an error.  A query that reads an unmapped address does not return.\<close>

record ('w, 'g, 'j, 'p) recon_glue =
  rx_bridge :: "'g bridge"
  rx_game :: "'w \<Rightarrow> 'g"
  rx_metadata :: "'w \<Rightarrow> usize \<Rightarrow> u8"
  rx_memory :: "'w \<Rightarrow> image_memory"
  rx_images :: "'w \<Rightarrow> (string option \<times> usize) list"
  rx_show :: "il2cpp_error \<Rightarrow> string"
  rx_fault :: "'w \<Rightarrow> (string, (string, callers_response) result) result flow \<times> 'w"
  rx_class_topic :: "('w, 'j, 'p, string \<times> string, (string, class_surface) result) topic_glue"
  rx_callers_topic :: "('w, 'j, 'p, u64 \<times> nat option, (string, callers_response) result) topic_glue"

definition class_query_topic_handler ::
  "('w, 'g, 'j, 'p) recon_glue \<Rightarrow> string \<times> string \<Rightarrow> 'w \<Rightarrow> (string, (string, class_surface) result) result flow \<times> 'w" where
  "class_query_topic_handler G request w =
     (Returns (Inr (map_err (rx_show G)
        (class_query_handler (rx_bridge G) (rx_metadata G w) (fst request) (snd request) (rx_game G w)))), w)"

definition callers_query_topic_handler ::
  "('w, 'g, 'j, 'p) recon_glue \<Rightarrow> u64 \<times> nat option \<Rightarrow> 'w \<Rightarrow> (string, (string, callers_response) result) result flow \<times> 'w" where
  "callers_query_topic_handler G request w =
     (case callers_query_handler (rx_bridge G) (rx_memory G w) (rx_images G w) (fst request) (snd request) (rx_game G w) of
        None \<Rightarrow> rx_fault G w
      | Some r \<Rightarrow> (Returns (Inr r), w))"

definition recon_build :: "('w, 'g, 'j, 'p) recon_glue \<Rightarrow> owner_id \<Rightarrow> runtime_config \<Rightarrow> ('w, 'j, 'p) build" where
  "recon_build G i config =
     main_topic i ''recon.class'' (rx_class_topic G) (class_query_topic_handler G)
     (main_topic i ''recon.callers'' (rx_callers_topic G) (callers_query_topic_handler G)
       (B_Return (Inr ())))"

definition recon_plugin :: "('w, 'g, 'j, 'p) recon_glue \<Rightarrow> ('w, 'j, 'p) plugin" where
  "recon_plugin G = \<lparr> pl_name = ''recon'', pl_build = recon_build G \<rparr>"

section \<open>Debug plane\<close>

text \<open>The steps of binding the socket that can fail.\<close>

datatype bind_step = Bind_Parent | Bind_Socket | Bind_Permissions | Bind_Nonblocking | Bind_Thread

definition transport_bind :: "(bind_step \<Rightarrow> bool) \<Rightarrow> (plugin_error, 'j debug_transport) result" where
  "transport_bind fails =
     (if fails Bind_Parent \<or> fails Bind_Socket \<or> fails Bind_Permissions \<or> fails Bind_Nonblocking \<or> fails Bind_Thread
      then Inl Io else Inr transport_new)"

record ('w, 's, 'j, 'p) debug_glue =
  bx_json :: "'j wire_json"
  bx_bind_fails :: "'w \<Rightarrow> bind_step \<Rightarrow> bool"
  bx_transport :: "('w, 'j debug_transport) shared_ref"
  bx_gates :: "'w \<Rightarrow> gate_env"
  bx_topics :: "'w \<Rightarrow> ('w, 'j, 'p) topic_entry list"
  bx_introspection :: "'w \<Rightarrow> string \<Rightarrow> 'j option"
  bx_dispatch_state :: "('w, 's, unit) system_state_ops"

definition debug_dispatch_system :: "('w, 's, 'j, 'p) debug_glue \<Rightarrow> 'w update_system" where
  "debug_dispatch_system G = lazy_update_run (bx_dispatch_state G) (\<lambda>_ w.
     case dispatch_run (bx_json G) (bx_gates G w) (bx_introspection G w) (bx_topics G w) (sr_get (bx_transport G) w, w) of
       (t, w') \<Rightarrow> (Returns (Inr ()), sr_put (bx_transport G) t w'))"

definition debug_build :: "('w, 's, 'j, 'p) debug_glue \<Rightarrow> owner_id \<Rightarrow> runtime_config \<Rightarrow> ('w, 'j, 'p) build" where
  "debug_build G i config =
     B_Get (\<lambda>w. try_result (transport_bind (bx_bind_fails G w)) (\<lambda>t.
     B_Do (sr_put (bx_transport G) t)
     (B_Call (C_Update (debug_dispatch_system G)) (\<lambda>_. B_Return (Inr ())))))"

definition debug_plugin :: "('w, 's, 'j, 'p) debug_glue \<Rightarrow> ('w, 'j, 'p) plugin" where
  "debug_plugin G = \<lparr> pl_name = ''debug'', pl_build = debug_build G \<rparr>"

section \<open>The set the bootstrap adds\<close>

definition shipped_plugins ::
  "('w, 's1, 'j, 'p) debug_glue \<Rightarrow> ('w, 'v, 'e, 'c, 'm, 's2, 'j, 'p) fps_glue \<Rightarrow> (fps_setting option, 'c) atomic_cell
     \<Rightarrow> ('w, 'v, 'g, 'q, 'l, 'm, 's3, 'j, 'p) dump_glue \<Rightarrow> ('w, 'g2, 'j, 'p) recon_glue
     \<Rightarrow> 'm slot_ops \<Rightarrow> ('m \<Rightarrow> 'm) \<Rightarrow> 'm method_resolver option \<Rightarrow> data_root \<Rightarrow> ('w, 'j, 'p) plugin_set" where
  "shipped_plugins B F C D RG M env R root = \<lparr> ps_debug = debug_plugin B, ps_fps = fps_plugin F C M env R,
     ps_translation = dump_plugin D M env R root, ps_recon = recon_plugin RG \<rparr>"

end
