(* ===== verification/Facade_Correct.thy ===== *)
theory Facade_Correct
  imports Facade Plugin_App_Correct
begin

text \<open>
  A small logic for builds: what every call of the facade keeps of a property of the application, a
  build made of such calls keeps.  Its instance \<open>guarded\<close> says that a rollback takes every
  replacement out of its method slot again, unless the memory of the slot refuses the exchange.
\<close>

section \<open>Properties a build keeps\<close>

definition build_keeps :: "owner_id \<Rightarrow> (('w, 'j, 'p) app \<Rightarrow> bool) \<Rightarrow> ('w, 'j, 'p) build \<Rightarrow> bool" where
  "build_keeps i P b \<longleftrightarrow> (\<forall>app. P app \<longrightarrow> P (snd (run_build i b app)))"

definition call_keeps :: "owner_id \<Rightarrow> (('w, 'j, 'p) app \<Rightarrow> bool) \<Rightarrow> ('w, 'j, 'p) host_call \<Rightarrow> bool" where
  "call_keeps i P c \<longleftrightarrow> (\<forall>app. P app \<longrightarrow> P (snd (run_host_call i c app)))"

definition effect_keeps :: "(('w, 'j, 'p) app \<Rightarrow> bool) \<Rightarrow> ('w \<Rightarrow> 'w) \<Rightarrow> bool" where
  "effect_keeps P f \<longleftrightarrow> (\<forall>app. P app \<longrightarrow> P (app\<lparr> app_world := f (app_world app) \<rparr>))"

lemma build_keeps_return: "build_keeps i P (B_Return r)"
  by (simp add: build_keeps_def)

lemma build_keeps_do: "effect_keeps P f \<Longrightarrow> build_keeps i P b \<Longrightarrow> build_keeps i P (B_Do f b)"
  by (simp add: build_keeps_def effect_keeps_def)

lemma build_keeps_get: "(\<And>w. build_keeps i P (k w)) \<Longrightarrow> build_keeps i P (B_Get k)"
  by (simp add: build_keeps_def)

lemma build_keeps_call: "call_keeps i P c \<Longrightarrow> (\<And>r. build_keeps i P (k r)) \<Longrightarrow> build_keeps i P (B_Call c k)"
  by (simp add: build_keeps_def call_keeps_def split: prod.split) (metis snd_conv)

lemma build_keeps_try_result: "(\<And>x. build_keeps i P (k x)) \<Longrightarrow> build_keeps i P (try_result r k)"
  by (simp add: try_result_def build_keeps_return split: sum.split)

lemma build_keeps_try_call: "call_keeps i P c \<Longrightarrow> build_keeps i P b \<Longrightarrow> build_keeps i P (try_call c b)"
  by (simp add: try_call_def build_keeps_call build_keeps_try_result)

lemma build_keeps_main_topic:
  assumes "effect_keeps P (cr_put (tg_channel g) (channel_new i))"
    and "call_keeps i P (C_Topic name False (tg_channel g) (tg_decode g))"
    and "\<And>s. call_keeps i P (C_Update s)" and "build_keeps i P b"
  shows "build_keeps i P (main_topic i name g handle b)"
  unfolding main_topic_def register_main_debug_def
  by (intro build_keeps_do build_keeps_call assms) (auto intro!: build_keeps_call build_keeps_return assms simp: try_result_def split: sum.split)

lemmas build_keeps_rules = build_keeps_return build_keeps_do build_keeps_call build_keeps_try_result build_keeps_try_call build_keeps_main_topic

section \<open>No replacement is left behind\<close>

text \<open>What a rollback is about in a site: the live slot, if there is one, and the installed flag.\<close>

definition view_site :: "('o, 'c, 'm) hook_site \<Rightarrow> 'm active_hook option \<times> bool" where
  "view_site s = (case s of None \<Rightarrow> (None, False) | Some i \<Rightarrow> (si_active i, si_installed i))"

definition slot_back :: "'m slot_ops \<Rightarrow> ('m \<Rightarrow> bool) \<Rightarrow> 'm active_hook option \<times> bool \<Rightarrow> bool" where
  "slot_back M good x \<longleftrightarrow> (case fst x of None \<Rightarrow> True
     | Some a \<Rightarrow> good (mps_memory (ah_slot a)) \<and> slot_current M (ah_slot a) = Some (mps_original (ah_slot a)))"

definition armed :: "'m slot_ops \<Rightarrow> ('m \<Rightarrow> bool) \<Rightarrow> usize \<Rightarrow> 'm active_hook option \<times> bool \<Rightarrow> bool" where
  "armed M good addr x \<longleftrightarrow> snd x \<and> (case fst x of None \<Rightarrow> False
     | Some a \<Rightarrow> good (mps_memory (ah_slot a)) \<and> slot_current M (ah_slot a) = Some addr)"

text \<open>
  The slot's memory was asked to exchange the replacement, which it held, for the original, and
  refused: the memory in the slot is what this exchange left.
\<close>

definition restore_refused :: "'m slot_ops \<Rightarrow> ('m \<Rightarrow> bool) \<Rightarrow> usize \<Rightarrow> 'm active_hook option \<times> bool \<Rightarrow> bool" where
  "restore_refused M good addr x \<longleftrightarrow> (case fst x of None \<Rightarrow> False
     | Some a \<Rightarrow> \<exists>m e. good m \<and> so_read M m = Some addr \<and>
         so_cas M addr (mps_original (ah_slot a)) m = (Inl e, mps_memory (ah_slot a)))"

definition settled :: "'m slot_ops \<Rightarrow> ('m \<Rightarrow> bool) \<Rightarrow> usize \<Rightarrow> 'm active_hook option \<times> bool \<Rightarrow> bool" where
  "settled M good addr x \<longleftrightarrow> slot_back M good x \<or> restore_refused M good addr x"

text \<open>What a resolver hands out for a target of a mechanism is a slot memory in its invariant.\<close>

definition hands_out :: "('m \<Rightarrow> bool) \<Rightarrow> hook_mechanism \<Rightarrow> 'm method_resolver option \<Rightarrow> bool" where
  "hands_out good mech R \<longleftrightarrow> (\<forall>r meth. R = Some r \<longrightarrow> (case mech of
       MethodPointerSlotMech \<Rightarrow> good (mr_slot_memory r meth)
     | EntryPatchMech \<Rightarrow> (\<forall>addr m. mr_entry_patch_memory r meth addr = Inr m \<longrightarrow> good m)))"

lemma hands_outD: "hands_out good (ht_mechanism T) (Some r) \<Longrightarrow> hook_memory T r meth addr = Inr m \<Longrightarrow> good m"
  by (auto simp: hands_out_def hook_memory_def split: hook_mechanism.splits)

text \<open>The sites under watch, each with the address of its replacement; what leaves them alone; and a
  restore action that does no harm to them, or takes the replacement out of one.\<close>

type_synonym ('w, 'm) watched = "(usize \<times> ('w \<Rightarrow> 'm active_hook option \<times> bool)) list"

definition inert :: "('w, 'm) watched \<Rightarrow> ('w \<Rightarrow> 'w) \<Rightarrow> bool" where
  "inert vs f \<longleftrightarrow> (\<forall>(addr, v) \<in> set vs. \<forall>w. v (f w) = v w)"

definition harmless :: "'m slot_ops \<Rightarrow> ('m \<Rightarrow> bool) \<Rightarrow> ('w, 'm) watched \<Rightarrow> 'w restore_action \<Rightarrow> bool" where
  "harmless M good vs a \<longleftrightarrow> (\<forall>(addr, v) \<in> set vs. \<forall>w.
     (settled M good addr (v w) \<longrightarrow> settled M good addr (v (snd (restore_fn a w)))) \<and>
     (armed M good addr (v w) \<longrightarrow> armed M good addr (v (snd (restore_fn a w))) \<or> settled M good addr (v (snd (restore_fn a w)))))"

definition disarms :: "'m slot_ops \<Rightarrow> ('m \<Rightarrow> bool) \<Rightarrow> usize \<Rightarrow> ('w \<Rightarrow> 'm active_hook option \<times> bool) \<Rightarrow> 'w restore_action \<Rightarrow> bool" where
  "disarms M good addr v a \<longleftrightarrow> any_thread a \<and> (\<forall>w. armed M good addr (v w) \<longrightarrow> settled M good addr (v (snd (restore_fn a w))))"

definition guarded :: "'m slot_ops \<Rightarrow> ('m \<Rightarrow> bool) \<Rightarrow> ('w, 'm) watched \<Rightarrow> owner_id \<Rightarrow> ('w, 'j, 'p) app \<Rightarrow> bool" where
  "guarded M good vs i app \<longleftrightarrow>
     (\<forall>e \<in> set (tr_entries (ac_topics (app_core app))). \<forall>ch. inert vs (cr_put (te_channel e) ch)) \<and>
     (\<exists>r. pm_record i (app_plugins app) = Some r \<and>
        (\<forall>a \<in> set (pr_effects r). harmless M good vs a) \<and> (\<forall>e \<in> set (pr_inserted r). inert vs (le_remove e)) \<and>
        (\<forall>(addr, v) \<in> set vs. settled M good addr (v (app_world app)) \<or>
           armed M good addr (v (app_world app)) \<and> (\<exists>a \<in> set (pr_effects r). disarms M good addr v a)))"

lemma pop_effects_disarm:
  "settled M good addr (v w) \<or> armed M good addr (v w) \<and> (\<exists>a \<in> set as. disarms M good addr v a) \<Longrightarrow>
   (\<forall>a \<in> set as. harmless M good vs a) \<Longrightarrow> (addr, v) \<in> set vs \<Longrightarrow> settled M good addr (v (pop_effects main as w))"
proof (induction as arbitrary: w)
  case (Cons a as)
  have run: "snd (execute_restore main a w) = (if main \<or> any_thread a then snd (restore_fn a w) else w)"
    by (cases a) (auto simp: execute_restore_def Let_def split: prod.split flow.split)
  have h: "settled M good addr (v w) \<Longrightarrow> settled M good addr (v (snd (restore_fn a w)))"
    "armed M good addr (v w) \<Longrightarrow> armed M good addr (v (snd (restore_fn a w))) \<or> settled M good addr (v (snd (restore_fn a w)))"
    using Cons.prems(2,3) by (auto simp: harmless_def)
  have "settled M good addr (v (snd (execute_restore main a w))) \<or>
      armed M good addr (v (snd (execute_restore main a w))) \<and> (\<exists>a \<in> set as. disarms M good addr v a)"
    using Cons.prems(1) h unfolding run by (auto simp: disarms_def)
  from Cons.IH [OF this] Cons.prems(2,3) show ?case by simp
qed simp

lemma inert_compose: "inert vs f \<Longrightarrow> (addr, v) \<in> set vs \<Longrightarrow> v (f w) = v w"
  by (auto simp: inert_def)

lemma pop_inserted_inert:
  "(\<forall>e \<in> set es. inert vs (le_remove e)) \<Longrightarrow> (addr, v) \<in> set vs \<Longrightarrow> v (pop_inserted es w) = v w"
proof (induction es arbitrary: w)
  case (Cons e es)
  from Cons.IH [of "le_remove e w"] Cons.prems inert_compose [of vs "le_remove e"] show ?case by simp
qed simp

lemma fail_pending_inert:
  assumes "\<forall>e \<in> set (tr_entries t). \<forall>ch. inert vs (cr_put (te_channel e) ch)" and "(addr, v) \<in> set vs"
  shows "v (fail_pending_requests i t w) = v w"
proof -
  have "v (cr_put (te_channel e) ch u) = v u" if "e \<in> set (tr_entries t)" for e ch u
    using inert_compose [OF _ assms(2)] assms(1) that by blast
  then show ?thesis
    unfolding fail_pending_requests_def
    by (intro fold_invariant [where P = "\<lambda>u. v u = v w"]) (auto simp: Let_def)
qed

lemma rollback_unhooks:
  assumes "guarded M good vs i app" and v: "(addr, v) \<in> set vs"
  shows "settled M good addr (v (app_world (owner_rollback main i app)))"
proof -
  from assms(1) obtain r where t: "\<forall>e \<in> set (tr_entries (ac_topics (app_core app))). \<forall>ch. inert vs (cr_put (te_channel e) ch)"
    and r: "pm_record i (app_plugins app) = Some r"
    and e: "\<forall>a \<in> set (pr_effects r). harmless M good vs a" and d: "\<forall>e \<in> set (pr_inserted r). inert vs (le_remove e)"
    and g: "settled M good addr (v (app_world app)) \<or> armed M good addr (v (app_world app)) \<and> (\<exists>a \<in> set (pr_effects r). disarms M good addr v a)"
    using v by (fastforce simp: guarded_def)
  let ?w = "pop_inserted (rev (pr_inserted r)) (fail_pending_requests i (ac_topics (app_core app)) (app_world app))"
  have "app_world (owner_rollback main i app) = pop_effects main (rev (pr_effects r)) ?w"
    by (simp add: owner_rollback_def owner_close_gate_def owner_fail_pending_def
        owner_remove_resources_def owner_run_restores_def owner_retire_def pm_record_update r)
  moreover have "v ?w = v (app_world app)"
    using pop_inserted_inert [OF _ v, of "rev (pr_inserted r)"] d fail_pending_inert [OF t v] by simp
  ultimately show ?thesis using pop_effects_disarm [of M good addr v ?w "rev (pr_effects r)" vs main] g e v by simp
qed

text \<open>What the calls of a build may touch.\<close>

fun call_inert :: "'m slot_ops \<Rightarrow> ('m \<Rightarrow> bool) \<Rightarrow> ('w, 'm) watched \<Rightarrow> ('w, 'j, 'p) host_call \<Rightarrow> bool" where
  "call_inert M good vs (C_Insert ins) \<longleftrightarrow>
     inert vs (\<lambda>w. snd (ri_insert ins w)) \<and> inert vs (ri_remove ins)"
| "call_inert M good vs (C_Message reg) = inert vs reg"
| "call_inert M good vs (C_Route dir p b d ensure) = (case ensure of None \<Rightarrow> True | Some reg \<Rightarrow> inert vs reg)"
| "call_inert M good vs (C_Restore a) = harmless M good vs a"
| "call_inert M good vs (C_Topic n cd c dc) = (\<forall>ch. inert vs (cr_put c ch))"
| "call_inert M good vs _ = True"

lemma guarded_world:
  assumes "guarded M good vs i app" and "\<And>addr v. (addr, v) \<in> set vs \<Longrightarrow> v w = v (app_world app)"
  shows "guarded M good vs i (app\<lparr> app_world := w \<rparr>)"
proof -
  from assms(1) obtain r where r: "pm_record i (app_plugins app) = Some r"
    and g: "\<forall>a \<in> set (pr_effects r). harmless M good vs a" "\<forall>e \<in> set (pr_inserted r). inert vs (le_remove e)"
      "\<forall>(addr, v) \<in> set vs. settled M good addr (v (app_world app)) \<or>
         armed M good addr (v (app_world app)) \<and> (\<exists>a \<in> set (pr_effects r). disarms M good addr v a)"
      "\<forall>e \<in> set (tr_entries (ac_topics (app_core app))). \<forall>ch. inert vs (cr_put (te_channel e) ch)"
    by (auto simp: guarded_def)
  have "\<forall>(addr, v) \<in> set vs. settled M good addr (v w) \<or> armed M good addr (v w) \<and> (\<exists>a \<in> set (pr_effects r). disarms M good addr v a)"
  proof (intro ballI)
    fix x
    assume x: "x \<in> set vs"
    with assms(2) [of "fst x" "snd x"] g(3) show "case x of (addr, v) \<Rightarrow> settled M good addr (v w) \<or>
        armed M good addr (v w) \<and> (\<exists>a \<in> set (pr_effects r). disarms M good addr v a)"
      by (auto simp: split_beta)
  qed
  with r g show ?thesis by (simp add: guarded_def)
qed

lemma guarded_effect: "inert vs f \<Longrightarrow> effect_keeps (guarded M good vs i) f"
  unfolding effect_keeps_def by (auto intro!: guarded_world dest: inert_compose)

lemma guarded_record:
  assumes "guarded M good vs i app" and "\<And>r. pr_id (f r) = pr_id r"
    and "\<And>r. \<exists>es as. pr_inserted (f r) = pr_inserted r @ es \<and> pr_effects (f r) = pr_effects r @ as \<and>
       (\<forall>e \<in> set es. inert vs (le_remove e)) \<and> (\<forall>a \<in> set as. harmless M good vs a)"
  shows "guarded M good vs i (map_owner i f app)"
proof -
  from assms(1) obtain r where r: "pm_record i (app_plugins app) = Some r"
    and g: "\<forall>a \<in> set (pr_effects r). harmless M good vs a" "\<forall>e \<in> set (pr_inserted r). inert vs (le_remove e)"
      "\<forall>(addr, v) \<in> set vs. settled M good addr (v (app_world app)) \<or>
         armed M good addr (v (app_world app)) \<and> (\<exists>a \<in> set (pr_effects r). disarms M good addr v a)"
      "\<forall>e \<in> set (tr_entries (ac_topics (app_core app))). \<forall>ch. inert vs (cr_put (te_channel e) ch)"
    by (auto simp: guarded_def)
  from assms(3) [of r] obtain es as where f: "pr_inserted (f r) = pr_inserted r @ es" "pr_effects (f r) = pr_effects r @ as"
    "\<forall>e \<in> set es. inert vs (le_remove e)" "\<forall>a \<in> set as. harmless M good vs a" by blast
  have "pm_record i (app_plugins (map_owner i f app)) = Some (f r)"
    by (simp add: pm_record_update r assms(2))
  moreover have "\<forall>(addr, v) \<in> set vs. settled M good addr (v (app_world app)) \<or>
      armed M good addr (v (app_world app)) \<and> (\<exists>a \<in> set (pr_effects (f r)). disarms M good addr v a)"
    using g(3) by (simp add: f(2) ball_Un bex_Un split_beta) blast
  ultimately show ?thesis using g(1,2,4) f(3,4) by (simp add: guarded_def f(1,2) ball_Un)
qed

lemma guarded_core:
  "guarded M good vs i app \<Longrightarrow> \<forall>e \<in> set (tr_entries (ac_topics c)). \<forall>ch. inert vs (cr_put (te_channel e) ch) \<Longrightarrow>
     guarded M good vs i (app\<lparr> app_core := c \<rparr>)"
  by (simp add: guarded_def)

lemma guarded_topics:
  "guarded M good vs i app \<Longrightarrow> \<forall>e \<in> set (tr_entries (ac_topics (app_core app))). \<forall>ch. inert vs (cr_put (te_channel e) ch)"
  by (simp add: guarded_def)

lemma guarded_host_call:
  fixes c :: "('w, 'j, 'p) host_call"
  assumes "call_inert M good vs c"
  shows "call_keeps i (guarded M good vs i) c"
  unfolding call_keeps_def
proof (intro allI impI)
  fix app :: "('w, 'j, 'p) app"
  assume g: "guarded M good vs i app"
  show "guarded M good vs i (snd (run_host_call i c app))"
  proof (cases c)
    case (C_Insert ins)
    obtain r w where ins: "ri_insert ins (app_world app) = (r, w)" by fastforce
    with assms C_Insert have "v w = v (app_world app)" if "(addr, v) \<in> set vs" for addr v
      using inert_compose [of vs "\<lambda>w. snd (ri_insert ins w)", OF _ that, of "app_world app"] by simp
    with g have gw: "guarded M good vs i (app\<lparr> app_world := w \<rparr>)" by (auto intro: guarded_world)
    have "guarded M good vs i (map_owner i (\<lambda>r. r\<lparr> pr_inserted := pr_inserted r @ [e] \<rparr>) (app\<lparr> app_world := w \<rparr>))"
      if "le_remove e = ri_remove ins" for e
      by (rule guarded_record [OF gw]) (use assms C_Insert that in auto)
    with gw ins C_Insert show ?thesis by (simp add: insert_resource_dyn_def Let_def split: sum.split)
  next
    case (C_Message reg)
    with assms guarded_world [OF g, of "reg (app_world app)"] show ?thesis by (simp add: inert_compose)
  next
    case (C_Startup s)
    show ?thesis unfolding C_Startup run_host_call.simps snd_conv by (rule guarded_record [OF g]) simp_all
  next
    case (C_Update s)
    show ?thesis unfolding C_Update run_host_call.simps snd_conv by (rule guarded_record [OF g]) simp_all
  next
    case (C_Container k)
    have "guarded M good vs i (map_owner i (\<lambda>r. r\<lparr> pr_container := Some k \<rparr>) app)"
      by (rule guarded_record [OF g]) simp_all
    with g C_Container show ?thesis by (simp add: register_container_dyn_def split: option.split)
  next
    case (C_Route dir p b d ensure)
    let ?w = "case ensure of None \<Rightarrow> app_world app | Some reg \<Rightarrow> reg (app_world app)"
    have gw: "guarded M good vs i (app\<lparr> app_world := ?w \<rparr>)"
      using assms g by (intro guarded_world) (auto simp: C_Route inert_compose split: option.split)
    have "guarded M good vs i (map_owner i (\<lambda>r. r\<lparr> pr_route_ids := pr_route_ids r @ [k] \<rparr>)
        (app\<lparr> app_world := ?w, app_core := (app_core app)\<lparr> ac_routes := rt \<rparr> \<rparr>))" for k rt
      by (rule guarded_record, rule guarded_core [OF gw]) (use guarded_topics [OF g] in simp_all)
    then show ?thesis by (simp add: C_Route register_route_dyn_def route_push_def Let_def)
  next
    case (C_Restore a)
    show ?thesis unfolding C_Restore run_host_call.simps snd_conv
      by (rule guarded_record [OF g]) (use assms C_Restore in simp_all)
  next
    case (C_Topic name cd ch dc)
    have "guarded M good vs i (map_owner i (\<lambda>r. r\<lparr> pr_topic_ids := pr_topic_ids r @ [k] \<rparr>)
        (app\<lparr> app_core := (app_core app)\<lparr> ac_topics := tr \<rparr> \<rparr>))"
      if "\<forall>e \<in> set (tr_entries tr). \<forall>ch. inert vs (cr_put (te_channel e) ch)" for k tr
      by (rule guarded_record, rule guarded_core [OF g]) (use that in simp_all)
    then show ?thesis
      using g guarded_topics [OF g] assms
      by (auto simp: C_Topic register_debug_topic_dyn_def topic_register_def Let_def)
  qed
qed

text \<open>A site of the build among the watched ones: it is a cell of the world of its own.\<close>

definition site_among :: "('w, 'm) watched \<Rightarrow> usize \<Rightarrow> ('w, ('o, 'c, 'm) hook_site) shared_ref \<Rightarrow> bool" where
  "site_among vs addr site \<longleftrightarrow> (\<forall>s w. sr_get site (sr_put site s w) = s) \<and>
     (\<forall>(a, v) \<in> set vs. (a = addr \<and> v = (\<lambda>w. view_site (sr_get site w))) \<or> (\<forall>s w. v (sr_put site s w) = v w))"

lemma site_among_cases:
  assumes "site_among vs addr site" and "(a, v) \<in> set vs"
  obtains (own) "a = addr" "v = (\<lambda>w. view_site (sr_get site w))" | (other) "\<And>s w. v (sr_put site s w) = v w"
  using assms by (fastforce simp: site_among_def)

lemma refused_reads:
  assumes "slot_memory M good" and "restore_refused M good addr (Some a, b)"
  shows "good (mps_memory (ah_slot a))" and "slot_current M (ah_slot a) = Some addr"
  using assms(2) slot_memory.cas_err [OF assms(1)] by (auto simp: restore_refused_def slot_current_def)

lemma settled_cases:
  assumes "slot_memory M good" and "settled M good addr (Some a, b) \<or> armed M good addr (Some a, b)"
  shows "good (mps_memory (ah_slot a))"
    and "slot_current M (ah_slot a) = Some (mps_original (ah_slot a)) \<or> slot_current M (ah_slot a) = Some addr"
  using assms(2) refused_reads [OF assms(1), of addr a b]
  by (auto simp: settled_def slot_back_def armed_def)

lemma restore_slot_settles:
  assumes M: "slot_memory M good" and good: "good (mps_memory (ah_slot a))"
    and cur: "slot_current M (ah_slot a) = Some (mps_original (ah_slot a)) \<or> slot_current M (ah_slot a) = Some addr"
    and s: "slot_restore M id addr (ah_slot a) = (r, s')"
  shows "settled M good addr (Some (a\<lparr> ah_slot := s' \<rparr>), b)"
proof -
  note w = slot_memory.restore_word [OF M good s]
  show ?thesis
  proof (cases "slot_current M s' = Some (mps_original s')")
    case True
    with w show ?thesis by (simp add: settled_def slot_back_def)
  next
    case False
    with w have r: "r \<noteq> Inr ()" by auto
    with w False cur have addr: "so_read M (mps_memory (ah_slot a)) = Some addr"
      by (auto simp: slot_current_def)
    from s r obtain e where "so_cas M addr (mps_original (ah_slot a)) (mps_memory (ah_slot a)) = (Inl e, mps_memory s')"
      using slot_memory.cas_ok [OF M good]
      by (auto simp: slot_restore_def Let_def split: prod.splits sum.splits if_splits)
    with w good addr have "restore_refused M good addr (Some (a\<lparr> ah_slot := s' \<rparr>), b)"
      by (auto simp: restore_refused_def)
    then show ?thesis by (simp add: settled_def)
  qed
qed

lemma settled_flag: "settled M good addr (x, b) \<longleftrightarrow> settled M good addr (x, c)"
  by (simp add: settled_def slot_back_def restore_refused_def)

lemma restore_action_settles:
  assumes M: "slot_memory M good" and st: "hs_replacement st = addr" and run: "hook_restore_action M id st i = (r, i')"
    and before: "settled M good addr (view_site (Some i)) \<or> armed M good addr (view_site (Some i))"
  shows "settled M good addr (view_site (Some i'))"
proof (cases "si_active i")
  case None
  with run before show ?thesis
    by (auto simp: hook_restore_action_def with_slot_def view_site_def armed_def settled_def slot_back_def split: if_splits)
next
  case (Some a)
  obtain rs s' where s: "slot_restore M id addr (ah_slot a) = (rs, s')" by fastforce
  from before Some have "settled M good addr (Some a, si_installed i) \<or> armed M good addr (Some a, si_installed i)"
    by (simp add: view_site_def)
  note c = settled_cases [OF M this]
  have new: "settled M good addr (Some (a\<lparr> ah_slot := s' \<rparr>), b)" for b by (rule restore_slot_settles [OF M c s])
  show ?thesis
  proof (cases "si_installed i")
    case True
    with run s st Some new show ?thesis
      by (auto simp: hook_restore_action_def with_slot_def view_site_def split: sum.splits hook_error.splits)
  next
    case False
    with run have "i' = i" by (simp add: hook_restore_action_def)
    with before False show ?thesis by (auto simp: armed_def view_site_def)
  qed
qed

lemma restore_entry_disarms:
  assumes "slot_memory M good" and "site_among vs addr site" and "hs_replacement st = addr"
  shows "harmless M good vs (hook_restore_entry M id site st)"
    and "disarms M good addr (\<lambda>w. view_site (sr_get site w)) (hook_restore_entry M id site st)"
proof -
  have own: "settled M good addr (view_site (sr_get site w)) \<or> armed M good addr (view_site (sr_get site w)) \<Longrightarrow>
      settled M good addr (view_site (sr_get site (snd (restore_fn (hook_restore_entry M id site st) w))))" for w
  proof (cases "sr_get site w")
    case (Some i)
    obtain r i' where "hook_restore_action M id st i = (r, i')" by fastforce
    with restore_action_settles [OF assms(1,3) this] assms(2) Some
    show "settled M good addr (view_site (sr_get site w)) \<or> armed M good addr (view_site (sr_get site w)) \<Longrightarrow> ?thesis"
      by (auto simp: hook_restore_entry_def site_among_def)
  qed (simp add: hook_restore_entry_def settled_def slot_back_def view_site_def)
  have other: "v (snd (restore_fn (hook_restore_entry M id site st) w)) = v w" if "\<And>s w. v (sr_put site s w) = v w" for v w
    using that by (simp add: hook_restore_entry_def split: option.split prod.split)
  show "harmless M good vs (hook_restore_entry M id site st)"
    unfolding harmless_def
  proof (intro ballI)
    fix x
    assume "x \<in> set vs"
    then have "(fst x, snd x) \<in> set vs" by simp
    from assms(2) this show "case x of (addr, v) \<Rightarrow> \<forall>w.
       (settled M good addr (v w) \<longrightarrow> settled M good addr (v (snd (restore_fn (hook_restore_entry M id site st) w)))) \<and>
       (armed M good addr (v w) \<longrightarrow> armed M good addr (v (snd (restore_fn (hook_restore_entry M id site st) w))) \<or>
          settled M good addr (v (snd (restore_fn (hook_restore_entry M id site st) w))))"
      by (cases rule: site_among_cases) (use own other [of "snd x"] in \<open>auto simp: split_beta\<close>)
  qed
  show "disarms M good addr (\<lambda>w. view_site (sr_get site w)) (hook_restore_entry M id site st)"
    using own by (auto simp: disarms_def hook_restore_entry_def)
qed

text \<open>An installation over a published site that has no live slot yet.\<close>

lemma hook_install_exact:
  assumes M: "slot_memory M good" and R: "hands_out good (ht_mechanism T) R"
    and "si_active inner = None" and "si_replacement inner = f"
    and "hook_install T M id R (Some inner) = (r, s, registered)"
  shows "case r of Inl _ \<Rightarrow> settled M good (ht_replacement_addr T f) (view_site s)
    | Inr st \<Rightarrow> registered \<and> hs_replacement st = ht_replacement_addr T f \<and> armed M good (ht_replacement_addr T f) (view_site s)"
proof (cases "case R of None \<Rightarrow> None | Some R \<Rightarrow> (case hook_bind T M R inner of Inl e \<Rightarrow> None | Inr ms \<Rightarrow> Some ms)")
  case None
  with assms(3,5) show ?thesis
    by (auto simp: hook_install_def view_site_def settled_def slot_back_def split: option.splits sum.splits)
next
  case (Some ms)
  then obtain R' meth slot where R': "R = Some R'" and b: "hook_bind T M R' inner = Inr (meth, slot)" and ms: "ms = (meth, slot)"
    by (cases ms) (auto split: option.splits sum.splits)
  let ?addr = "ht_replacement_addr T f"
  from b obtain m where h: "hook_memory T R' meth (ht_replacement_addr T (si_replacement inner)) = Inr m"
    and sb: "slot_bind M m = Inr slot"
    by (auto simp: hook_bind_def)
  from slot_memory.bind_reads [OF M sb] R h R' have good: "good (mps_memory slot)"
    and cur: "slot_current M slot = Some (mps_original slot)"
    by (auto simp: slot_current_def dest: hands_outD)
  obtain ri s1 where i: "slot_install M id ?addr slot = (ri, s1)" by fastforce
  note w = slot_memory.install_word [OF M good i]
  have slot: "slot\<lparr> mps_memory := mps_memory slot \<rparr> = slot" by simp
  show ?thesis
  proof (cases "ri = Inr ()")
    case True
    with w assms(3-5) b R' i show ?thesis
      by (auto simp: hook_install_def Let_def view_site_def armed_def slot)
  next
    case False
    with w have ri: "ri = Inl SlotConflict" by simp
    with w cur have "settled M good ?addr (Some \<lparr> ah_slot = s1, ah_replacement_addr = ?addr \<rparr>, c)" for c
      by (simp add: settled_def slot_back_def)
    with ri assms(3-5) b R' i show ?thesis
      by (auto simp: hook_install_def Let_def view_site_def slot)
  qed
qed

text \<open>The chain on a site that is published already, and on a fresh one.\<close>

lemma run_hook_chain:
  "run_build i (hook_chain T M env R site c i' f k) app =
    (case sr_get site (app_world app) of
       Some s \<Rightarrow> (Returns (Inl (Hook SiteAlreadyRegistered)), app\<lparr> app_world := sr_put site (Some s) (app_world app) \<rparr>)
     | None \<Rightarrow> run_build i (hook_install_through T M env R site k)
         (app\<lparr> app_world := sr_put site (snd (hook_handler c i' f None)) (app_world app) \<rparr>))"
  by (simp add: hook_chain_def hook_publish_def hook_handler_def Let_def try_result_def split: option.split)

lemma guarded_put:
  assumes g: "guarded M good vs i app" and site: "site_among vs addr site" and as: "\<forall>a \<in> set as. harmless M good vs a"
    and s: "settled M good addr (view_site s) \<or>
      armed M good addr (view_site s) \<and> (\<exists>a \<in> set as. disarms M good addr (\<lambda>w. view_site (sr_get site w)) a)"
  shows "guarded M good vs i (map_owner i (\<lambda>r. r\<lparr> pr_effects := pr_effects r @ as \<rparr>)
    (app\<lparr> app_world := sr_put site s (app_world app) \<rparr>))"
proof -
  from g obtain r where r: "pm_record i (app_plugins app) = Some r"
    and e: "\<forall>a \<in> set (pr_effects r). harmless M good vs a" "\<forall>e \<in> set (pr_inserted r). inert vs (le_remove e)"
    and v: "\<forall>(addr, v) \<in> set vs. settled M good addr (v (app_world app)) \<or>
         armed M good addr (v (app_world app)) \<and> (\<exists>a \<in> set (pr_effects r). disarms M good addr v a)"
    and t: "\<forall>e \<in> set (tr_entries (ac_topics (app_core app))). \<forall>ch. inert vs (cr_put (te_channel e) ch)"
    by (auto simp: guarded_def)
  let ?w = "sr_put site s (app_world app)"
  have "\<forall>(a, v) \<in> set vs. settled M good a (v ?w) \<or> armed M good a (v ?w) \<and> (\<exists>x \<in> set (pr_effects r @ as). disarms M good a v x)"
  proof (intro ballI)
    fix x
    assume "x \<in> set vs"
    then have x: "(fst x, snd x) \<in> set vs" by simp
    from site x show "case x of (a, v) \<Rightarrow> settled M good a (v ?w) \<or> armed M good a (v ?w) \<and> (\<exists>x \<in> set (pr_effects r @ as). disarms M good a v x)"
    proof (cases rule: site_among_cases)
      case own
      have "sr_get site ?w = s" using site by (simp add: site_among_def)
      with s show ?thesis by (auto simp: split_beta own)
    next
      case other
      with v x show ?thesis by (fastforce simp: split_beta)
    qed
  qed
  with r e t as show ?thesis by (simp add: guarded_def pm_record_update ball_Un)
qed

lemma build_keeps_hook_chain:
  fixes k :: "(plugin_error, hook_state) result \<Rightarrow> ('w, 'j, 'p) build"
    and site :: "('w, ('o, 'c, 'm) hook_site) shared_ref"
  assumes M: "slot_memory M good" and R: "hands_out good (ht_mechanism T) R" and site: "site_among vs (ht_replacement_addr T f) site" and k: "\<And>r. build_keeps i (guarded M good vs i) (k r)"
  shows "build_keeps i (guarded M good vs i) (hook_chain T M id R site c i' f k)"
  unfolding build_keeps_def
proof (intro allI impI)
  fix app :: "('w, 'j, 'p) app"
  assume g: "guarded M good vs i app"
  let ?w = "app_world app" and ?addr = "ht_replacement_addr T f"
  have put: "sr_get site (sr_put site s w) = s" for s w using site by (simp add: site_among_def)
  have same: "guarded M good vs i (app\<lparr> app_world := sr_put site s ?w \<rparr>)" if "view_site s = view_site (sr_get site ?w)" for s
  proof (rule guarded_world [OF g])
    fix a v
    assume "(a, v) \<in> set vs"
    with site show "v (sr_put site s ?w) = v ?w"
      by (cases rule: site_among_cases) (simp_all add: put that)
  qed
  show "guarded M good vs i (snd (run_build i (hook_chain T M id R site c i' f k) app))"
  proof (cases "sr_get site ?w")
    case (Some s)
    with same [of "Some s"] show ?thesis by (simp add: run_hook_chain)
  next
    case None
    define inner :: "('o, 'c, 'm) site_inner" where "inner = the (snd (hook_handler c i' f None))"
    have inner: "snd (hook_handler c i' f None) = Some inner" "si_active inner = None" "si_replacement inner = f"
      by (simp_all add: inner_def hook_handler_def Let_def)
    define app1 where "app1 = app\<lparr> app_world := sr_put site (Some inner) ?w \<rparr>"
    have g1: "guarded M good vs i app1"
      using same [of "Some inner"] by (simp add: app1_def None view_site_def inner hook_handler_def Let_def inner_def)
    obtain r s registered where h: "hook_install T M id R (Some inner) = (r, s, registered)" by (metis prod.exhaust)
    note x = hook_install_exact [OF M R inner(2,3) h]
    have step: "guarded M good vs i (map_owner i (\<lambda>r. r\<lparr> pr_effects := pr_effects r @ as \<rparr>)
        (app1\<lparr> app_world := sr_put site s (app_world app1) \<rparr>))" if "\<forall>a \<in> set as. harmless M good vs a"
      "settled M good ?addr (view_site s) \<or> armed M good ?addr (view_site s) \<and> (\<exists>a \<in> set as. disarms M good ?addr (\<lambda>w. view_site (sr_get site w)) a)" for as
      by (rule guarded_put [OF g1 site that])
    have run: "run_build i (hook_chain T M id R site c i' f k) app = run_build i (hook_install_through T M id R site k) app1"
      by (simp add: run_hook_chain None app1_def inner(1))
    have get: "sr_get site (app_world app1) = Some inner" by (simp add: app1_def put)
    show ?thesis
    proof (cases r)
      case (Inl e)
      with x step [of "[]"] k [of r] show ?thesis
        unfolding run hook_install_through_def by (simp add: get h build_keeps_def)
    next
      case (Inr st)
      with x have st: "hs_replacement st = ?addr" and "registered" "armed M good ?addr (view_site s)" by simp_all
      with step [of "[hook_restore_entry M id site st]"] restore_entry_disarms [OF M site st] k [of r] Inr show ?thesis
        unfolding run hook_install_through_def by (simp add: get h build_keeps_def)
    qed
  qed
qed

end
