(* ===== verification/Shipped_Plugins_Correct.thy ===== *)
theory Shipped_Plugins_Correct
  imports Shipped_Plugins Facade_Correct Dump_Capture_Correct Dump_State_Correct
begin

text \<open>
  What the shipped plugins leave behind: no replacement after a failed build, whichever step failed.
\<close>

section \<open>A failed build\<close>

lemma guarded_map:
  "(\<And>x. inert vs (sr_put r x)) \<Longrightarrow> effect_keeps (guarded M good vs i) (\<lambda>w. sr_put r (f w) w)"
  by (rule guarded_effect) (fastforce simp: inert_def)

lemma guarded_insert:
  "(\<And>t v. inert vs (wo_insert W t v)) \<Longrightarrow> (\<And>t. inert vs (wo_remove W t)) \<Longrightarrow>
     call_keeps i (guarded M good vs i) (C_Insert (resource_insert_of W t n v))"
  by (rule guarded_host_call) (fastforce simp: resource_insert_of_def inert_def)

lemma failed_add_unhooks:
  assumes m: "manager_ok (app_plugins app)" and n: "length (pm_records (app_plugins app)) + 1 < 2 ^ 64"
    and topics: "\<forall>e \<in> set (tr_entries (ac_topics (app_core app))). \<forall>ch. inert vs (cr_put (te_channel e) ch)"
    and empty: "\<forall>(addr, v) \<in> set vs. settled M good addr (v (app_world app))"
    and b: "\<And>i. build_keeps i (guarded M good vs i) (pl_build p i (ac_config (app_core app)))"
    and run: "add_plugin rg p app = (Returns (), app')"
    and failed: "\<not> is_active (OwnerId (of_nat (length (pm_records (app_plugins app))))) (app_plugins app')"
  shows "\<forall>(addr, v) \<in> set vs. settled M good addr (v (app_world app'))"
proof -
  obtain i m' where bo: "begin_owner (pl_name p) (app_plugins app) = (i, m')" by fastforce
  note new = begin_owner_ok [OF m n bo]
  let ?app = "app\<lparr> app_plugins := m' \<rparr>" and ?b = "pl_build p i (ac_config (app_core app))"
  obtain s app1 where rb: "run_build i ?b ?app = (s, app1)" by fastforce
  from new have "pm_record i m' = Some (plugin_record_new i (pl_name p))"
    using find_first_None [of "\<lambda>r. pr_id r = i" "pm_records (app_plugins app)"]
    by (auto simp: pm_record_def plugin_record_new_def find_first_append_none)
  with topics empty have "guarded M good vs i ?app" by (auto simp: guarded_def plugin_record_new_def)
  with b [of i] rb have g: "guarded M good vs i app1" by (metis build_keeps_def snd_conv)
  from run_build_quiet [of i ?b ?app] rb obtain f where f: "quiet f" "app_plugins app1 = pm_update i f m'" by auto
  have "is_active i (app_plugins app1) = is_active i m'"
    unfolding f(2) using f(1) by (intro is_active_update) (simp_all add: quiet_def)
  with new have act: "is_active i (app_plugins app1)" by blast
  have "app' = build_rollback rg i app1"
  proof (rule ccontr)
    assume "app' \<noteq> build_rollback rg i app1"
    with run bo rb have "app' = sync_inventory rg app1" by (auto simp: add_plugin_def split: flow.splits sum.splits)
    with act failed new show False by simp
  qed
  with rollback_unhooks [OF g] show ?thesis by (auto simp: build_rollback_def)
qed

subsection \<open>Frame rate\<close>

text \<open>The two static sites, and that they are cells of their own in the world.\<close>

definition fps_watched :: "('w, 'v, 'e, 'c, 'm, 's, 'j, 'p) fps_glue \<Rightarrow> ('w, 'm) watched" where
  "fps_watched G =
     [(ht_replacement_addr (fx_rate_target G) (fx_rate_fn G), \<lambda>w. view_site (sr_get (fx_rate_site G) w)),
      (ht_replacement_addr (fx_vsync_target G) (fx_vsync_fn G), \<lambda>w. view_site (sr_get (fx_vsync_site G) w))]"

definition fps_apart :: "('w, 'v, 'e, 'c, 'm, 's, 'j, 'p) fps_glue \<Rightarrow> bool" where
  "fps_apart G \<longleftrightarrow> (let vs = fps_watched G in
     site_among vs (ht_replacement_addr (fx_rate_target G) (fx_rate_fn G)) (fx_rate_site G) \<and>
     site_among vs (ht_replacement_addr (fx_vsync_target G) (fx_vsync_fn G)) (fx_vsync_site G) \<and>
     (\<forall>x. inert vs (sr_put (fx_state G) x)) \<and> (\<forall>x. inert vs (sr_put (fx_world G) x)) \<and>
     (\<forall>t v. inert vs (wo_insert (fx_ops G) t v)) \<and> (\<forall>t. inert vs (wo_remove (fx_ops G) t)) \<and>
     (\<forall>ch. inert vs (cr_put (tg_channel (fx_get_topic G)) ch)) \<and> (\<forall>ch. inert vs (cr_put (tg_channel (fx_set_topic G)) ch)))"

lemma fps_apartD:
  assumes "fps_apart G"
  shows "site_among (fps_watched G) (ht_replacement_addr (fx_rate_target G) (fx_rate_fn G)) (fx_rate_site G)"
    and "site_among (fps_watched G) (ht_replacement_addr (fx_vsync_target G) (fx_vsync_fn G)) (fx_vsync_site G)"
    and "inert (fps_watched G) (sr_put (fx_state G) st)" and "inert (fps_watched G) (sr_put (fx_world G) fw)"
    and "inert (fps_watched G) (wo_insert (fx_ops G) t v)" and "inert (fps_watched G) (wo_remove (fx_ops G) t)"
    and "inert (fps_watched G) (cr_put (tg_channel (fx_get_topic G)) ch)"
    and "inert (fps_watched G) (cr_put (tg_channel (fx_set_topic G)) ch)"
  using assms by (simp_all add: fps_apart_def Let_def)

lemma fps_build_keeps:
  assumes "slot_memory M good" and "fps_apart G"
    and "hands_out good (ht_mechanism (fx_rate_target G)) R" and "hands_out good (ht_mechanism (fx_vsync_target G)) R"
  shows "build_keeps i (guarded M good (fps_watched G) i) (fps_build G C M id R i config)"
  unfolding fps_build_def main_to_callback_latest_def
  by (intro build_keeps_rules build_keeps_hook_chain)
    (simp_all add: guarded_effect guarded_host_call guarded_insert guarded_map fps_apartD [OF assms(2)] assms(1,3,4))

subsection \<open>Translation dump\<close>

definition dump_watched :: "('w, 'v, 'g, 'q, 'l, 'm, 's, 'j, 'p) dump_glue \<Rightarrow> ('w, 'm) watched" where
  "dump_watched G =
     [(dx_addr G LOCALIZATION_GET_TEXT_OR_NULL_TARGET, \<lambda>w. view_site (sr_get (dx_text_or_null_site G) w)),
      (dx_addr G LOCALIZATION_GET_TEXT_TARGET, \<lambda>w. view_site (sr_get (dx_text_site G) w)),
      (dx_addr G DATA_FILE_GET_BYTES_TARGET, \<lambda>w. view_site (sr_get (dx_bytes_site G) w)),
      (dx_addr G LIVE_MV_UPDATE_LYRICS_TARGET, \<lambda>w. view_site (sr_get (dx_update_lyrics_site G) w)),
      (dx_addr G TIMELINE_SET_LYRIC_TARGET, \<lambda>w. view_site (sr_get (dx_set_lyric_site G) w)),
      (dx_addr G TMP_TEXT_SET_TEXT_TARGET, \<lambda>w. view_site (sr_get (dx_tmp_text_site G) w))]"

definition dump_apart :: "('w, 'v, 'g, 'q, 'l, 'm, 's, 'j, 'p) dump_glue \<Rightarrow> bool" where
  "dump_apart G \<longleftrightarrow> (let vs = dump_watched G in
     site_among vs (dx_addr G LOCALIZATION_GET_TEXT_OR_NULL_TARGET) (dx_text_or_null_site G) \<and>
     site_among vs (dx_addr G LOCALIZATION_GET_TEXT_TARGET) (dx_text_site G) \<and>
     site_among vs (dx_addr G DATA_FILE_GET_BYTES_TARGET) (dx_bytes_site G) \<and>
     site_among vs (dx_addr G LIVE_MV_UPDATE_LYRICS_TARGET) (dx_update_lyrics_site G) \<and>
     site_among vs (dx_addr G TIMELINE_SET_LYRIC_TARGET) (dx_set_lyric_site G) \<and>
     site_among vs (dx_addr G TMP_TEXT_SET_TEXT_TARGET) (dx_tmp_text_site G) \<and>
     (\<forall>x. inert vs (sr_put (dx_world G) x)) \<and>
     (\<forall>t v. inert vs (wo_insert (dx_ops G) t v)) \<and> (\<forall>t. inert vs (wo_remove (dx_ops G) t)) \<and>
     inert vs (dx_register_records G) \<and> inert vs (dx_register_lyrics G) \<and>
     (\<forall>ch. inert vs (cr_put (tg_channel (dx_status_topic G)) ch)) \<and> (\<forall>ch. inert vs (cr_put (tg_channel (dx_flush_topic G)) ch)) \<and>
     (\<forall>ch. inert vs (cr_put (tg_channel (dx_dic_topic G)) ch)) \<and> (\<forall>ch. inert vs (cr_put (tg_channel (dx_scenario_topic G)) ch)) \<and>
     (\<forall>ch. inert vs (cr_put (tg_channel (dx_lyrics_topic G)) ch)))"

lemma dump_apartD:
  assumes "dump_apart G"
  shows "site_among (dump_watched G) (dx_addr G LOCALIZATION_GET_TEXT_OR_NULL_TARGET) (dx_text_or_null_site G)"
    and "site_among (dump_watched G) (dx_addr G LOCALIZATION_GET_TEXT_TARGET) (dx_text_site G)"
    and "site_among (dump_watched G) (dx_addr G DATA_FILE_GET_BYTES_TARGET) (dx_bytes_site G)"
    and "site_among (dump_watched G) (dx_addr G LIVE_MV_UPDATE_LYRICS_TARGET) (dx_update_lyrics_site G)"
    and "site_among (dump_watched G) (dx_addr G TIMELINE_SET_LYRIC_TARGET) (dx_set_lyric_site G)"
    and "site_among (dump_watched G) (dx_addr G TMP_TEXT_SET_TEXT_TARGET) (dx_tmp_text_site G)"
    and "inert (dump_watched G) (sr_put (dx_world G) dw)"
    and "inert (dump_watched G) (wo_insert (dx_ops G) t v)" and "inert (dump_watched G) (wo_remove (dx_ops G) t)"
    and "inert (dump_watched G) (dx_register_records G)" and "inert (dump_watched G) (dx_register_lyrics G)"
    and "inert (dump_watched G) (cr_put (tg_channel (dx_status_topic G)) ch)"
    and "inert (dump_watched G) (cr_put (tg_channel (dx_flush_topic G)) ch)"
    and "inert (dump_watched G) (cr_put (tg_channel (dx_dic_topic G)) ch)"
    and "inert (dump_watched G) (cr_put (tg_channel (dx_scenario_topic G)) ch)"
    and "inert (dump_watched G) (cr_put (tg_channel (dx_lyrics_topic G)) ch)"
  using assms unfolding dump_apart_def Let_def by blast+

lemma dump_target_simps [simp]:
  "ht_replacement_addr (dump_target t a raw) f = a" "ht_mechanism (dump_target t a raw) = EntryPatchMech"
  by (simp_all add: dump_target_def)

lemma dump_hooks_keeps:
  assumes "slot_memory M good" and "dump_apart G" and R: "hands_out good EntryPatchMech R" and "\<And>h os. build_keeps i (guarded M good (dump_watched G) i) (k h os)"
  shows "build_keeps i (guarded M good (dump_watched G) i) (dump_hooks G M id R i k)"
  unfolding dump_hooks_def optional_hook_def Let_def
  by (intro build_keeps_try_result build_keeps_hook_chain assms(4)) (simp_all add: dump_apartD [OF assms(2)] assms(1) R)

lemma dump_register_keeps:
  assumes "dump_apart G"
  shows "build_keeps i (guarded M good (dump_watched G) i) (dump_register G i)"
  unfolding dump_register_def
  by (intro build_keeps_rules) (simp_all add: guarded_effect guarded_host_call dump_apartD [OF assms])

lemma dump_build_keeps:
  assumes "slot_memory M good" and "dump_apart G" and "hands_out good EntryPatchMech R"
  shows "build_keeps i (guarded M good (dump_watched G) i) (dump_build G M id R root i config)"
  unfolding dump_build_def Let_def dump_records_box_def dump_lyrics_box_def callback_to_main_bounded_def shared_ref.simps
  by (intro build_keeps_rules build_keeps_get dump_hooks_keeps dump_register_keeps)
    (simp_all add: guarded_host_call guarded_insert guarded_map dump_apartD [OF assms(2)] assms)

subsection \<open>Either plugin\<close>


subsubsection \<open>A world for the frame rate plugin\<close>

record fps_demo_world =
  fz_rate :: "((engine, fps_setting option) setter_fn, usize, usize) hook_site"
  fz_vsync :: "((engine, fps_setting option) setter_fn, usize, usize) hook_site"
  fz_state :: fps_state
  fz_fps :: "(engine, fps_setting option) fps_world"
  fz_resources :: "type_id \<Rightarrow> nat option"
  fz_channels :: "bool \<Rightarrow> (unit, unit) debug_topic_channel"

definition fps_demo_topic :: "bool \<Rightarrow> (fps_demo_world, unit, unit, 'req, 'res) topic_glue" where
  "fps_demo_topic b = \<lparr> tg_channel = \<lparr> cr_get = (\<lambda>w. fz_channels w b),
       cr_put = (\<lambda>ch w. w\<lparr> fz_channels := (fz_channels w)(b := ch) \<rparr>) \<rparr>,
     tg_decode = (\<lambda>_. Inl ''bad request''), tg_downcast = (\<lambda>_. None), tg_params = (\<lambda>_. True), tg_apply = id,
     tg_to_value = (\<lambda>_. Inr ()) \<rparr>"

definition fps_demo_glue :: "(fps_demo_world, nat, engine, fps_setting option, usize, unit, unit, unit) fps_glue" where
  "fps_demo_glue = \<lparr> fx_ops = \<lparr> wo_contains = (\<lambda>t w. fz_resources w t \<noteq> None),
       wo_insert = (\<lambda>t v w. w\<lparr> fz_resources := (fz_resources w)(t \<mapsto> v) \<rparr>),
       wo_remove = (\<lambda>t w. w\<lparr> fz_resources := (fz_resources w)(t := None) \<rparr>) \<rparr>,
     fx_state_res = (1, \<lambda>_. 1), fx_writer_res = (2, 2), fx_hooks_res = (3, \<lambda>_ _. 3),
     fx_state = \<lparr> sr_get = fz_state, sr_put = (\<lambda>x w. w\<lparr> fz_state := x \<rparr>) \<rparr>,
     fx_world = \<lparr> sr_get = fz_fps, sr_put = (\<lambda>x w. w\<lparr> fz_fps := x \<rparr>) \<rparr>,
     fx_rate_site = \<lparr> sr_get = fz_rate, sr_put = (\<lambda>x w. w\<lparr> fz_rate := x \<rparr>) \<rparr>,
     fx_vsync_site = \<lparr> sr_get = fz_vsync, sr_put = (\<lambda>x w. w\<lparr> fz_vsync := x \<rparr>) \<rparr>,
     fx_rate_target = fh_rate_target fps_demo_hooks, fx_vsync_target = fh_vsync_target fps_demo_hooks,
     fx_rate_fn = set_rate, fx_vsync_fn = set_vsync, fx_container = 7,
     fx_startup_state = \<lparr> ss_load = (\<lambda>_. Some ()), ss_store = (\<lambda>_ w. w), ss_new = (\<lambda>w. ((), w)),
       ss_get_mut = (\<lambda>_ _. Some ()), ss_apply = (\<lambda>_ w. w) \<rparr>,
     fx_get_topic = fps_demo_topic False, fx_set_topic = fps_demo_topic True \<rparr>"

text \<open>The resolver finds the frame rate setter and refuses the vSync setter.\<close>

definition half_resolver :: "usize method_resolver" where
  "half_resolver = \<lparr> mr_resolve = (\<lambda>t. if t_method t = ''set_targetFrameRate''
       then Inr (demo_method\<lparr> m_assembly := t_assembly t, m_namespace := t_namespace t, m_class := t_class t,
         m_method := t_method t, m_param_count := t_param_count t, m_is_static := t_is_static t,
         m_return_type := t_return_type t, m_parameter_types := t_parameter_types t \<rparr>)
       else Inl SignatureMismatch),
     mr_slot_memory = (\<lambda>_. 8), mr_entry_patch_memory = (\<lambda>_ _. Inl SlotMalformed) \<rparr>"

definition fps_demo_start :: fps_demo_world where
  "fps_demo_start = \<lparr> fz_rate = None, fz_vsync = None, fz_state = fps_state_new False,
     fz_fps = fps_world_new plain_cell (30, 1), fz_resources = (\<lambda>_. None), fz_channels = (\<lambda>_. channel_new (OwnerId 0)) \<rparr>"

lemma raw_never_refuses: "\<not> restore_refused raw_slot_memory good addr x"
  by (auto simp: restore_refused_def slot_simps split: option.splits if_splits)

lemma fps_demo_apart: "fps_apart fps_demo_glue"
  by (simp add: fps_apart_def fps_watched_def site_among_def inert_def fps_demo_glue_def fps_demo_topic_def Let_def)

abbreviation fps_demo_app :: "(fps_demo_world, unit, unit) app" where
  "fps_demo_app \<equiv> app_new fps_demo_start default_config (DataRoot [])"

abbreviation half_plugin :: "(fps_demo_world, unit, unit) plugin" where
  "half_plugin \<equiv> fps_plugin fps_demo_glue plain_cell raw_slot_memory id (Some half_resolver)"

lemma half_build:
  "\<exists>app' s a. add_plugin gate_new half_plugin fps_demo_app = (Returns (), app') \<and>
     \<not> is_active (OwnerId 0) (app_plugins app') \<and>
     fz_rate (app_world app') = Some s \<and> si_active s = Some a \<and> mps_original (ah_slot a) = 8"
  by (simp add: add_plugin_def fps_plugin_def fps_build_def app_new_def app_core_new_def begin_owner_def Let_def
      fps_demo_glue_def try_call_def try_result_def main_to_callback_latest_def hook_chain_def hook_publish_def
      hook_install_through_def hook_install_def hook_handler_def insert_resource_dyn_def resource_insert_of_def
      register_container_dyn_def register_route_dyn_def route_push_def route_table_new_def pm_record_def pm_update_def
      plugin_record_new_def fps_demo_start_def fps_demo_hooks_def half_resolver_def demo_method_def
      RATE_TARGET_def VSYNC_TARGET_def hook_simps slot_simps build_rollback_def owner_rollback_plugins is_active_def
      owner_rollback_def owner_close_gate_def owner_fail_pending_def owner_remove_resources_def owner_run_restores_def
      owner_retire_def topic_registry_new_def fail_pending_requests_def hook_restore_entry_def execute_restore_def hook_restore_action_def)

subsubsection \<open>An entry patch for the dump plugin\<close>

text \<open>\<open>demo_os\<close> has a page left for the staging area, so it grants every remap that stays in its page.\<close>

definition demo_ready :: "process \<Rightarrow> bool" where
  "demo_ready p \<longleftrightarrow> pr_stage p \<noteq> None \<or> 0x300000 \<notin> set (pr_pages p)"

lemma demo_staging:
  "demo_ready p \<Longrightarrow> \<exists>stage p1. staging_page demo_os p = (Inr stage, p1) \<and> pr_stage p1 = Some stage"
  by (auto simp: demo_ready_def staging_page_def page_size_def demo_os_def Let_def split: option.split)

lemma demo_remap:
  assumes ap: "apart 12 A p" "page_of 12 addr \<in> A" and fit: "unat (addr - page_of 12 addr) + length bytes \<le> 2 ^ 12"
    and ready: "demo_ready p"
  shows "\<exists>p'. remap_patch demo_os addr bytes p = (Inr (), p') \<and> demo_ready p'"
proof -
  note ps = os_page_size [OF demo_os_laws]
  let ?page = "page_of 12 addr" and ?off = "addr - page_of 12 addr"
  obtain stage p1 where st: "staging_page demo_os p = (Inr stage, p1)" "pr_stage p1 = Some stage"
    using demo_staging [OF ready] by blast
  from staging_page_spec [OF demo_os_laws ap(1) st(1)] st(2) ap(2) have stage: "page_of 12 stage = stage" "stage \<noteq> ?page"
    by (auto simp: apart_def)
  define p3 where "p3 = p1\<lparr> pr_mem := write_bytes (stage + ?off) bytes (copy_bytes ?page stage (2 ^ 12) (pr_mem p1)) \<rparr>"
  obtain p4 where rm: "os_remap demo_os ?page (2 ^ 12) stage p3 = (True, p4)" by (simp add: demo_os_def)
  have m3: "pr_mem p3 = write_bytes (stage + ?off) bytes (copy_bytes ?page stage (2 ^ 12) (pr_mem p1))" by (simp add: p3_def)
  note sr = staged_remap [OF demo_os_laws fit stage m3 rm]
  have page: "addr AND NOT (2 ^ 12 - 1) = ?page" unfolding ps(2) page_of_def by (rule refl)
  have "remap_patch demo_os addr bytes p = (Inr (), p4)"
    using fit sr(2) rm unfolding remap_patch_def Let_def ps(1) sum.case page ps(3) st(1) prod.case
    by (simp add: demo_os_def p3_def)
  moreover have "demo_ready p4" using sr(4) st(2) by (simp add: demo_ready_def p3_def)
  ultimately show ?thesis by blast
qed

definition demo_patch :: "entry_patch_memory \<times> process \<Rightarrow> bool" where
  "demo_patch m \<longleftrightarrow> ep_wf 12 demo_os m \<and> demo_ready (snd m) \<and> ep_entry (fst m) = 0x1000 \<and>
     ep_replacement (fst m) = 0x5000 \<and> ep_trampoline (fst m) = 0x200000 \<and> length (ep_patch (fst m)) = 4"

lemma demo_patch_cas:
  assumes m: "demo_patch m" and c: "ep_compare_exchange demo_os e n m = (r, m')"
  shows "demo_patch m'"
    and "ep_read m = Some e \<Longrightarrow> e = 0x5000 \<and> n = 0x200000 \<or> e = 0x200000 \<and> n = 0x5000 \<Longrightarrow> r = Inr ()"
proof -
  obtain ep p where mp: "m = (ep, p)" by fastforce
  have e: "ep_entry ep = 0x1000" "ep_replacement ep = 0x5000" "ep_trampoline ep = 0x200000"
    "length (ep_patch ep) = 4" "length (ep_original ep) = 4" and ready: "demo_ready p"
    and ap: "apart 12 {page_of 12 0x1000, page_of 12 0x200000} p"
    using m by (auto simp: demo_patch_def ep_wf_def mp)
  have page: "page_of 12 (0x1000 :: usize) = 0x1000" by (simp add: page_of_12)
  have go: "\<exists>p'. remap_patch demo_os 0x1000 bs p = (Inr (), p') \<and> demo_ready p'" if "length bs = 4" for bs
    using demo_remap [where addr = "0x1000" and bytes = bs, OF ap] ready that by (simp add: page)
  obtain p1 p2 where p: "remap_patch demo_os 0x1000 (ep_patch ep) p = (Inr (), p1)" "demo_ready p1"
    "remap_patch demo_os 0x1000 (ep_original ep) p = (Inr (), p2)" "demo_ready p2"
    using go [of "ep_patch ep"] go [of "ep_original ep"] e by blast
  note step = c [unfolded ep_compare_exchange_def mp fst_conv Let_def ep_patch_entry_def ep_unpatch_entry_def prod.case e p]
  have wf: "ep_wf 12 demo_os m'" using ep_cas_cases [where k = 12, OF _ c] m by (simp add: demo_patch_def)
  have st: "ep_static (fst m') = ep_static ep" using cas_static [OF c] by (simp add: mp)
  have "demo_ready (snd m')" using step ready p(2,4) by (auto split: if_splits)
  with wf st e show "demo_patch m'" by (simp add: demo_patch_def ep_static_def)
  show "r = Inr ()" if "ep_read m = Some e" "e = 0x5000 \<and> n = 0x200000 \<or> e = 0x200000 \<and> n = 0x5000"
    using step that e by (auto simp: ep_read_def ep_state_word_def mp split: if_splits)
qed

lemma demo_patch_memory: "slot_memory (entry_patch_slot demo_os) demo_patch"
proof unfold_locales
  fix m m' :: "entry_patch_memory \<times> process" and e n a
  assume m: "demo_patch m"
  then have wf: "ep_wf 12 demo_os m" by (simp add: demo_patch_def)
  show "so_read (entry_patch_slot demo_os) m = Some e \<and> so_read (entry_patch_slot demo_os) m' = Some n \<and> demo_patch m'"
    if "so_cas (entry_patch_slot demo_os) e n m = (Inr (), m')"
    using entry_patch.cas_ok [OF wf that] demo_patch_cas(1) [OF m] that by (simp add: entry_patch_slot_def)
  show "so_read (entry_patch_slot demo_os) m' = so_read (entry_patch_slot demo_os) m \<and> demo_patch m'"
    if "so_cas (entry_patch_slot demo_os) e n m = (Inl a, m')"
    using entry_patch.cas_err [OF wf that] demo_patch_cas(1) [OF m] that by (simp add: entry_patch_slot_def)
  show "\<exists>a m'. so_cas (entry_patch_slot demo_os) e n m = (Inl a, m')" if "so_read (entry_patch_slot demo_os) m \<noteq> Some e"
    using entry_patch.cas_mismatch [OF wf that] .
qed

lemma demo_never_refuses:
  "mps_original (ah_slot a) = 0x200000 \<Longrightarrow>
     \<not> restore_refused (entry_patch_slot demo_os) demo_patch 0x5000 (Some a, b)"
  using demo_patch_cas(2) [where e = "0x5000" and n = "0x200000"] by (fastforce simp: restore_refused_def entry_patch_slot_def)

lemma demo_patch_bound:
  obtains e p0 where "entry_patch_new demo_os Entry_Patch_Correct.demo_method 0x5000 demo_process = (Inr e, p0)" and "demo_patch (e, p0)"
    and "ep_read (e, p0) = Some 0x200000"
proof -
  obtain e p0 where n: "entry_patch_new demo_os Entry_Patch_Correct.demo_method 0x5000 demo_process = (Inr e, p0)"
    and e: "ep_entry e = 0x1000" "ep_trampoline e = 0x200000" "\<not> ep_installed e"
    using demo_new by blast
  have hk: "hookable 12 demo_process (ep_entry e) 0x5000"
  proof -
    have "page_of 12 (0x1000 :: usize) = 0x1000" "page_of 12 (0x5000 :: usize) = 0x5000"
      by (simp_all add: page_of_12)
    moreover have "page_of 12 (0x1000 + of_nat i) = 0x1000" if "i < 16" for i
    proof (rule page_of_add)
      show "unat (of_nat i :: usize) < 2 ^ 12" using that by (simp add: unat_of_nat)
    qed (simp_all add: page_of_12)
    ultimately show ?thesis by (simp add: hookable_def e demo_process_def)
  qed
  note w = entry_patch_new_wf [OF demo_os_laws n hk]
  have "length (ep_patch e) = 4"
    using w e by (simp add: entry_patch_bytes_def Let_def BRANCH_IMM26_WORDS_def)
  moreover have "demo_ready p0"
  proof -
    from n obtain ops where ops: "build_trampoline demo_os 0x1000 ops demo_process = (Inr 0x200000, p0)" "length ops \<le> 4"
      using e by (auto simp: entry_patch_new_def Let_def chunks4_length read_bytes_def entry_patch_bytes_def BRANCH_IMM26_WORDS_def
          split: if_splits prod.splits sum.splits)
    with build_trampoline_frame [OF demo_os_laws ops(1)] show ?thesis by (simp add: demo_ready_def demo_process_def)
  qed
  ultimately have "demo_patch (e, p0)" using w e by (simp add: demo_patch_def)
  with n e show thesis by (intro that [of e p0]) (simp_all add: ep_read_def ep_state_word_def)
qed

subsubsection \<open>A world for the dump plugin\<close>

type_synonym demo_queue = "nat \<times> dump_record list"
type_synonym demo_lyrics_queue = "nat \<times> lyrics_record list"

record dump_demo_world =
  dz_text_or_null :: "((nat, demo_queue, demo_lyrics_queue) get_text_fn, usize, entry_patch_memory \<times> process) hook_site"
  dz_text :: "((nat, demo_queue, demo_lyrics_queue) get_text_fn, usize, entry_patch_memory \<times> process) hook_site"
  dz_bytes :: "((nat, demo_queue, demo_lyrics_queue) get_bytes_fn, usize, entry_patch_memory \<times> process) hook_site"
  dz_update_lyrics :: "((nat, demo_queue, demo_lyrics_queue) lyrics_fn, usize, entry_patch_memory \<times> process) hook_site"
  dz_set_lyric :: "((nat, demo_queue, demo_lyrics_queue) lyrics_fn, usize, entry_patch_memory \<times> process) hook_site"
  dz_tmp_text :: "((nat, demo_queue, demo_lyrics_queue) lyrics_fn, usize, entry_patch_memory \<times> process) hook_site"
  dz_state :: dump_state
  dz_dump :: demo_world
  dz_records :: "dump_record list option"
  dz_lyrics :: "lyrics_record list option"
  dz_resources :: "type_id \<Rightarrow> nat option"
  dz_channels :: "nat \<Rightarrow> (unit, unit) debug_topic_channel"

definition dump_demo_topic :: "nat \<Rightarrow> (dump_demo_world, unit, unit, 'req, 'res) topic_glue" where
  "dump_demo_topic n = \<lparr> tg_channel = \<lparr> cr_get = (\<lambda>w. dz_channels w n),
       cr_put = (\<lambda>ch w. w\<lparr> dz_channels := (dz_channels w)(n := ch) \<rparr>) \<rparr>,
     tg_decode = (\<lambda>_. Inl ''bad request''), tg_downcast = (\<lambda>_. None), tg_params = (\<lambda>_. True), tg_apply = id,
     tg_to_value = (\<lambda>_. Inr ()) \<rparr>"

definition dump_demo_glue ::
  "(dump_demo_world, nat, nat, demo_queue, demo_lyrics_queue, entry_patch_memory \<times> process, unit, unit, unit) dump_glue" where
  "dump_demo_glue = \<lparr> dx_ops = \<lparr> wo_contains = (\<lambda>t w. dz_resources w t \<noteq> None),
       wo_insert = (\<lambda>t v w. w\<lparr> dz_resources := (dz_resources w)(t \<mapsto> v) \<rparr>),
       wo_remove = (\<lambda>t w. w\<lparr> dz_resources := (dz_resources w)(t := None) \<rparr>) \<rparr>,
     dx_state_res = (1, \<lambda>_. 1), dx_sites_res = (2, 2), dx_hook_res = (3, \<lambda>_ _. 3),
     dx_state = \<lparr> sr_get = dz_state, sr_put = (\<lambda>x w. w\<lparr> dz_state := x \<rparr>) \<rparr>,
     dx_world = \<lparr> sr_get = dz_dump, sr_put = (\<lambda>x w. w\<lparr> dz_dump := x \<rparr>) \<rparr>,
     dx_sites = demo_sites,
     dx_text_or_null_site = \<lparr> sr_get = dz_text_or_null, sr_put = (\<lambda>x w. w\<lparr> dz_text_or_null := x \<rparr>) \<rparr>,
     dx_text_site = \<lparr> sr_get = dz_text, sr_put = (\<lambda>x w. w\<lparr> dz_text := x \<rparr>) \<rparr>,
     dx_bytes_site = \<lparr> sr_get = dz_bytes, sr_put = (\<lambda>x w. w\<lparr> dz_bytes := x \<rparr>) \<rparr>,
     dx_update_lyrics_site = \<lparr> sr_get = dz_update_lyrics, sr_put = (\<lambda>x w. w\<lparr> dz_update_lyrics := x \<rparr>) \<rparr>,
     dx_set_lyric_site = \<lparr> sr_get = dz_set_lyric, sr_put = (\<lambda>x w. w\<lparr> dz_set_lyric := x \<rparr>) \<rparr>,
     dx_tmp_text_site = \<lparr> sr_get = dz_tmp_text, sr_put = (\<lambda>x w. w\<lparr> dz_tmp_text := x \<rparr>) \<rparr>,
     dx_addr = (\<lambda>_. 0x5000), dx_text_raw = (\<lambda>_ _ _ _ _ w. (Returns 9, w)), dx_bytes_raw = (\<lambda>_ _ _ w. (Returns 9, w)),
     dx_lyrics_raw = (\<lambda>_ _ _ _ w. (Returns (), w)), dx_container = 7,
     dx_records_recv = \<lparr> sr_get = dz_records, sr_put = (\<lambda>x w. w\<lparr> dz_records := x \<rparr>) \<rparr>,
     dx_lyrics_recv = \<lparr> sr_get = dz_lyrics, sr_put = (\<lambda>x w. w\<lparr> dz_lyrics := x \<rparr>) \<rparr>,
     dx_register_records = id, dx_register_lyrics = id, dx_json = demo_json, dx_unreadable = False,
     dx_mkdir_fails = False, dx_faults = (\<lambda>_. (no_faults, no_faults)), dx_file_faults = (\<lambda>_. no_faults),
     dx_game = \<lparr> gm_string_new = (\<lambda>_ g. (1, g)), gm_is_key_exist = (\<lambda>_ _ g. (False, g)),
       gm_get_bytes = (\<lambda>_ _ g. (0, g)), gm_mem = (\<lambda>_ _. 0) \<rparr>,
     dx_show = (\<lambda>_. ''error''), dx_stuck = (\<lambda>w. (Panics, w)),
     dx_update_state = \<lparr> ss_load = (\<lambda>_. Some ()), ss_store = (\<lambda>_ w. w), ss_new = (\<lambda>w. ((), w)),
       ss_get_mut = (\<lambda>_ _. Some ([], [])), ss_apply = (\<lambda>_ w. w) \<rparr>,
     dx_status_topic = dump_demo_topic 0, dx_flush_topic = dump_demo_topic 1, dx_dic_topic = dump_demo_topic 2,
     dx_scenario_topic = dump_demo_topic 3, dx_lyrics_topic = dump_demo_topic 4 \<rparr>"

lemma dump_demo_fields:
  "dx_ops dump_demo_glue = \<lparr> wo_contains = (\<lambda>t w. dz_resources w t \<noteq> None), wo_insert = (\<lambda>t v w. w\<lparr> dz_resources := (dz_resources w)(t \<mapsto> v) \<rparr>), wo_remove = (\<lambda>t w. w\<lparr> dz_resources := (dz_resources w)(t := None) \<rparr>) \<rparr>"
  "dx_state_res dump_demo_glue = (1, \<lambda>_. 1)"
  "dx_sites_res dump_demo_glue = (2, 2)"
  "dx_hook_res dump_demo_glue = (3, \<lambda>_ _. 3)"
  "dx_state dump_demo_glue = \<lparr> sr_get = dz_state, sr_put = (\<lambda>x w. w\<lparr> dz_state := x \<rparr>) \<rparr>"
  "dx_world dump_demo_glue = \<lparr> sr_get = dz_dump, sr_put = (\<lambda>x w. w\<lparr> dz_dump := x \<rparr>) \<rparr>"
  "dx_sites dump_demo_glue = demo_sites"
  "dx_text_or_null_site dump_demo_glue = \<lparr> sr_get = dz_text_or_null, sr_put = (\<lambda>x w. w\<lparr> dz_text_or_null := x \<rparr>) \<rparr>"
  "dx_text_site dump_demo_glue = \<lparr> sr_get = dz_text, sr_put = (\<lambda>x w. w\<lparr> dz_text := x \<rparr>) \<rparr>"
  "dx_bytes_site dump_demo_glue = \<lparr> sr_get = dz_bytes, sr_put = (\<lambda>x w. w\<lparr> dz_bytes := x \<rparr>) \<rparr>"
  "dx_update_lyrics_site dump_demo_glue = \<lparr> sr_get = dz_update_lyrics, sr_put = (\<lambda>x w. w\<lparr> dz_update_lyrics := x \<rparr>) \<rparr>"
  "dx_set_lyric_site dump_demo_glue = \<lparr> sr_get = dz_set_lyric, sr_put = (\<lambda>x w. w\<lparr> dz_set_lyric := x \<rparr>) \<rparr>"
  "dx_tmp_text_site dump_demo_glue = \<lparr> sr_get = dz_tmp_text, sr_put = (\<lambda>x w. w\<lparr> dz_tmp_text := x \<rparr>) \<rparr>"
  "dx_addr dump_demo_glue = (\<lambda>_. 0x5000)"
  "dx_text_raw dump_demo_glue = (\<lambda>_ _ _ _ _ w. (Returns 9, w))"
  "dx_bytes_raw dump_demo_glue = (\<lambda>_ _ _ w. (Returns 9, w))"
  "dx_lyrics_raw dump_demo_glue = (\<lambda>_ _ _ _ w. (Returns (), w))"
  "dx_container dump_demo_glue = 7"
  "dx_records_recv dump_demo_glue = \<lparr> sr_get = dz_records, sr_put = (\<lambda>x w. w\<lparr> dz_records := x \<rparr>) \<rparr>"
  "dx_lyrics_recv dump_demo_glue = \<lparr> sr_get = dz_lyrics, sr_put = (\<lambda>x w. w\<lparr> dz_lyrics := x \<rparr>) \<rparr>"
  "dx_register_records dump_demo_glue = id"
  "dx_register_lyrics dump_demo_glue = id"
  "dx_json dump_demo_glue = demo_json"
  "dx_unreadable dump_demo_glue = False"
  "dx_mkdir_fails dump_demo_glue = False"
  "dx_faults dump_demo_glue = (\<lambda>_. (no_faults, no_faults))"
  "dx_file_faults dump_demo_glue = (\<lambda>_. no_faults)"
  "dx_game dump_demo_glue = \<lparr> gm_string_new = (\<lambda>_ g. (1, g)), gm_is_key_exist = (\<lambda>_ _ g. (False, g)), gm_get_bytes = (\<lambda>_ _ g. (0, g)), gm_mem = (\<lambda>_ _. 0) \<rparr>"
  "dx_show dump_demo_glue = (\<lambda>_. ''error'')"
  "dx_stuck dump_demo_glue = (\<lambda>w. (Panics, w))"
  "dx_update_state dump_demo_glue = \<lparr> ss_load = (\<lambda>_. Some ()), ss_store = (\<lambda>_ w. w), ss_new = (\<lambda>w. ((), w)), ss_get_mut = (\<lambda>_ _. Some ([], [])), ss_apply = (\<lambda>_ w. w) \<rparr>"
  "dx_status_topic dump_demo_glue = dump_demo_topic 0"
  "dx_flush_topic dump_demo_glue = dump_demo_topic 1"
  "dx_dic_topic dump_demo_glue = dump_demo_topic 2"
  "dx_scenario_topic dump_demo_glue = dump_demo_topic 3"
  "dx_lyrics_topic dump_demo_glue = dump_demo_topic 4"
  by (simp_all only: dump_demo_glue_def dump_glue.simps)

lemma dump_demo_apart: "dump_apart dump_demo_glue"
  unfolding dump_apart_def Let_def dump_watched_def dump_demo_fields
  by (intro conjI allI; simp add: site_among_def inert_def dump_demo_topic_def)

text \<open>The resolver finds the first target, whose entry it can patch, and refuses the optional ones.\<close>

definition patch_resolver :: "(entry_patch_memory \<times> process) method_resolver" where
  "patch_resolver = \<lparr> mr_resolve = (\<lambda>t. if t = LOCALIZATION_GET_TEXT_OR_NULL_TARGET
       then Inr (demo_method\<lparr> m_assembly := t_assembly t, m_namespace := t_namespace t, m_class := t_class t,
         m_method := t_method t, m_param_count := t_param_count t, m_is_static := t_is_static t,
         m_return_type := t_return_type t, m_parameter_types := t_parameter_types t \<rparr>)
       else Inl SignatureMismatch),
     mr_slot_memory = (\<lambda>_. (\<lparr> ep_entry = 0, ep_replacement = 0, ep_trampoline = 0, ep_patch = [], ep_original = [],
       ep_installed = False, ep_failure = mutex_new None \<rparr>, demo_process)),
     mr_entry_patch_memory = (\<lambda>method addr. if addr = 0x5000
       then (case entry_patch_new demo_os Entry_Patch_Correct.demo_method addr demo_process of (Inl e, p) \<Rightarrow> Inl e | (Inr e, p) \<Rightarrow> Inr (e, p))
       else Inl SlotMalformed) \<rparr>"

lemma patch_resolver_hands_out: "hands_out demo_patch EntryPatchMech (Some patch_resolver)"
proof -
  obtain e p0 where "entry_patch_new demo_os Entry_Patch_Correct.demo_method 0x5000 demo_process = (Inr e, p0)"
    and "demo_patch (e, p0)" by (rule demo_patch_bound)
  then show ?thesis by (simp add: hands_out_def patch_resolver_def split: if_splits)
qed

text \<open>The resource of the hooks is there already, so the build fails behind its first hook.\<close>

definition dump_demo_start :: dump_demo_world where
  "dump_demo_start = \<lparr> dz_text_or_null = None, dz_text = None, dz_bytes = None, dz_update_lyrics = None,
     dz_set_lyric = None, dz_tmp_text = None, dz_state = \<lparr> ds_path = [], ds_entries = [], ds_dirty = False, ds_frames = 0,
       ds_lyrics = [], ds_lyrics_dirty = False, ds_scenario_cursor = 0, ds_lyrics_cursor = 0 \<rparr>, dz_dump = demo_world,
     dz_records = Some [], dz_lyrics = Some [], dz_resources = [3 \<mapsto> 0], dz_channels = (\<lambda>_. channel_new (OwnerId 0)) \<rparr>"

abbreviation dump_demo_app :: "(dump_demo_world, unit, unit) app" where
  "dump_demo_app \<equiv> app_new dump_demo_start default_config (DataRoot [])"

abbreviation patching_plugin :: "(dump_demo_world, unit, unit) plugin" where
  "patching_plugin \<equiv> dump_plugin dump_demo_glue (entry_patch_slot demo_os) id (Some patch_resolver) (DataRoot [])"

lemma optional_targets:
  "LOCALIZATION_GET_TEXT_TARGET \<noteq> LOCALIZATION_GET_TEXT_OR_NULL_TARGET"
  "DATA_FILE_GET_BYTES_TARGET \<noteq> LOCALIZATION_GET_TEXT_OR_NULL_TARGET"
  "LIVE_MV_UPDATE_LYRICS_TARGET \<noteq> LOCALIZATION_GET_TEXT_OR_NULL_TARGET"
  "TIMELINE_SET_LYRIC_TARGET \<noteq> LOCALIZATION_GET_TEXT_OR_NULL_TARGET"
  "TMP_TEXT_SET_TEXT_TARGET \<noteq> LOCALIZATION_GET_TEXT_OR_NULL_TARGET"
  by (simp_all add: LOCALIZATION_GET_TEXT_TARGET_def LOCALIZATION_GET_TEXT_OR_NULL_TARGET_def DATA_FILE_GET_BYTES_TARGET_def
      LIVE_MV_UPDATE_LYRICS_TARGET_def TIMELINE_SET_LYRIC_TARGET_def TMP_TEXT_SET_TEXT_TARGET_def localization_target_def)

text \<open>A refused target leaves its site published and unhooked.\<close>

lemma refused_chain:
  assumes "sr_get site (app_world app) = None" and "\<And>s w. sr_get site (sr_put site s w) = s"
    and "mr_resolve r (ht_target T) = Inl e"
  shows "\<exists>s. run_build i (optional_hook T M env (Some r) site c i' f k) app =
    run_build i (k None) (app\<lparr> app_world := sr_put site s (sr_put site s (app_world app)) \<rparr>)"
  using assms by (simp add: optional_hook_def run_hook_chain hook_install_through_def hook_install_def hook_bind_def hook_handler_def Let_def)
    blast

lemma patching_install:
  obtains m s1 where "mr_entry_patch_memory patch_resolver meth 0x5000 = Inr m"
    and "so_read (entry_patch_slot demo_os) m = Some 0x200000"
    and "slot_install (entry_patch_slot demo_os) id 0x5000 \<lparr> mps_memory = m, mps_original = 0x200000 \<rparr> = (Inr (), s1)"
    and "mps_original s1 = 0x200000"
proof -
  obtain e p0 where n: "entry_patch_new demo_os Entry_Patch_Correct.demo_method 0x5000 demo_process = (Inr e, p0)"
    and p: "demo_patch (e, p0)" and r: "ep_read (e, p0) = Some 0x200000" by (rule demo_patch_bound)
  obtain ri m' where c: "ep_compare_exchange demo_os 0x200000 0x5000 (e, p0) = (ri, m')" by (metis surj_pair)
  from demo_patch_cas(2) [OF p c r] have ri: "ri = Inr ()" by simp
  with entry_patch.cas_ok [of 12 demo_os "(e, p0)" "0x200000" "0x5000" m'] p c
  have "so_read (entry_patch_slot demo_os) m' = Some 0x5000" by (simp add: demo_patch_def entry_patch_slot_def)
  with n r c ri show thesis
    by (intro that [of "(e, p0)" "\<lparr> mps_memory = m', mps_original = 0x200000 \<rparr>"]) (simp_all add: patch_resolver_def slot_install_def entry_patch_slot_def)
qed


end
