(* ===== verification/Bundle.thy ===== *)
theory Bundle
  imports Bytes
begin

text \<open>
  The archive reader of \<open>experiments/resources-route/src/main.rs\<close>: the header of a UnityFS v8 bundle,
  its block table, the guessed paddings and the expansion of the blocks.  The two decompressors are
  parameters (the crates \<open>lz4_flex\<close> and \<open>lzma_rs\<close>).  Offsets are natural numbers: every sum the code
  forms stays below \<open>2 ^ 50\<close>, far inside a \<open>usize\<close>.
\<close>

section \<open>The decompressors\<close>

text \<open>\<open>bc_lz4 input n\<close>: decompression into a buffer of \<open>n\<close> zeroes; the buffer as it is left, and how many
  bytes of it were written.  \<open>None\<close> is an error.\<close>

record bundle_codecs =
  bc_lz4 :: "u8 list \<Rightarrow> nat \<Rightarrow> (u8 list \<times> nat) option"
  bc_lzma :: "u8 list \<Rightarrow> u8 list option"

text \<open>The buffer keeps its length, and no more than its length is written.\<close>

definition codec_laws :: "bundle_codecs \<Rightarrow> bool" where
  "codec_laws C \<longleftrightarrow>
     (\<forall>input n out k. bc_lz4 C input n = Some (out, k) \<longrightarrow> length out = n \<and> k \<le> n)"

section \<open>Header\<close>

definition be32 :: "u8 list \<Rightarrow> nat \<Rightarrow> u32 option" where
  "be32 raw off = map_option u32_from_be (slice raw off 4)"

definition UNITY_MAGIC :: "u8 list" where
  "UNITY_MAGIC = [0x55, 0x6E, 0x69, 0x74, 0x79, 0x46, 0x53, 0]"

text \<open>Behind the next NUL at or after \<open>pos\<close>.\<close>

definition skip_cstring :: "u8 list \<Rightarrow> nat \<Rightarrow> nat option" where
  "skip_cstring raw pos =
     (if length raw < pos then None
      else map_option (\<lambda>k. pos + (k + 1)) (position (\<lambda>b. b = 0) (drop pos raw)))"

record bundle_block =
  bk_off :: nat
  bk_len :: nat
  bk_size :: nat
  bk_flags :: u16

record unity_bundle =
  bu_raw :: "u8 list"
  bu_blocks :: "bundle_block list"
  bu_info_pad :: nat
  bu_data_pad :: nat

definition block_method :: "bundle_block \<Rightarrow> nat" where
  "block_method b = unat (bk_flags b AND 0x3F)"

section \<open>Block table\<close>

definition decode_info :: "bundle_codecs \<Rightarrow> nat \<Rightarrow> nat \<Rightarrow> u8 list \<Rightarrow> u8 list option" where
  "decode_info C meth uinfo_size info_raw =
     (if meth = 0 then Some info_raw
      else if meth = 1 then bc_lzma C info_raw
      else map_option (\<lambda>(out, n). take n out) (bc_lz4 C info_raw uinfo_size))"

definition block_at :: "u8 list \<Rightarrow> nat \<Rightarrow> bundle_block option" where
  "block_at info i =
     (let p = 20 + i * 10 in
      case be32 info p of
        None \<Rightarrow> None
      | Some uncomp \<Rightarrow>
          (case be32 info (p + 4) of
             None \<Rightarrow> None
           | Some clen \<Rightarrow>
               Some \<lparr> bk_off = 0, bk_len = unat clen, bk_size = unat uncomp,
                 bk_flags = u16_from_be (info ! (p + 8)) (info ! (p + 9)) \<rparr>))"

definition total_comp :: "bundle_block list \<Rightarrow> nat" where
  "total_comp blocks = sum_list (map bk_len blocks)"

fun assign_offsets :: "nat \<Rightarrow> bundle_block list \<Rightarrow> bundle_block list" where
  "assign_offsets off [] = []"
| "assign_offsets off (b # bs) = b\<lparr> bk_off := off \<rparr> # assign_offsets (off + bk_len b) bs"

text \<open>Whether the first block expands when the data starts at \<open>coff\<close>; a stored block says nothing, an LZMA
  block is refused.\<close>

definition first_block_ok :: "bundle_codecs \<Rightarrow> u8 list \<Rightarrow> bundle_block \<Rightarrow> nat \<Rightarrow> bool" where
  "first_block_ok C raw b coff =
     (let first_comp = block_method b in
      if first_comp \<noteq> 0 then
        (if first_comp = 2 \<or> first_comp = 3
         then bc_lz4 C (take (bk_len b) (drop coff raw)) (bk_size b) \<noteq> None
         else False)
      else True)"

fun find_data_pad :: "bundle_codecs \<Rightarrow> u8 list \<Rightarrow> bundle_block list \<Rightarrow> nat \<Rightarrow> nat list \<Rightarrow> nat option" where
  "find_data_pad C raw blocks info_end [] = None"
| "find_data_pad C raw blocks info_end (data_pad # pads) =
     (let coff = info_end + data_pad in
      if length raw < coff + total_comp blocks then None
      else if first_block_ok C raw (hd blocks) coff then Some data_pad
      else find_data_pad C raw blocks info_end pads)"

definition INFO_PADS :: "nat list" where "INFO_PADS = [14, 2, 4, 6, 8, 10, 12, 16]"

text \<open>The loop over the paddings of the block table.  A table that does not decompress ends the whole
  parse; one that is too short, or whose data fits nowhere, leads to the next padding.\<close>

fun parse_infos ::
  "bundle_codecs \<Rightarrow> u8 list \<Rightarrow> nat \<Rightarrow> nat \<Rightarrow> nat \<Rightarrow> nat \<Rightarrow> nat list \<Rightarrow> unity_bundle option" where
  "parse_infos C raw pos cinfo uinfo_size meth [] = None"
| "parse_infos C raw pos cinfo uinfo_size meth (info_pad # pads) =
     (let info_start = pos + 20 + info_pad;
          next = parse_infos C raw pos cinfo uinfo_size meth pads in
      case slice raw info_start cinfo of
        None \<Rightarrow> next
      | Some info_raw \<Rightarrow>
          (case decode_info C meth uinfo_size info_raw of
             None \<Rightarrow> None
           | Some info \<Rightarrow>
               (case be32 info 16 of
                  None \<Rightarrow> next
                | Some count \<Rightarrow>
                    (let bcount = unat count in
                     if bcount = 0 \<or> 65536 < bcount \<or> length info < 20 + bcount * 10 then next
                     else
                       (case those (map (block_at info) [0..<bcount]) of
                          None \<Rightarrow> None
                        | Some blocks \<Rightarrow>
                            (let info_end = info_start + cinfo in
                             case find_data_pad C raw blocks info_end [0..<25] of
                               None \<Rightarrow> next
                             | Some data_pad \<Rightarrow>
                                 Some \<lparr> bu_raw = raw, bu_blocks = assign_offsets (info_end + data_pad) blocks,
                                   bu_info_pad = info_pad, bu_data_pad = data_pad \<rparr>))))))"

definition parse_bundle :: "bundle_codecs \<Rightarrow> u8 list \<Rightarrow> unity_bundle option" where
  "parse_bundle C raw =
     (if length raw < 96 \<or> take 8 (drop 4 raw) \<noteq> UNITY_MAGIC then None
      else
        (case Option.bind (skip_cstring raw 16) (skip_cstring raw) of
           None \<Rightarrow> None
         | Some pos \<Rightarrow>
             (case (be32 raw (pos + 8), be32 raw (pos + 12), be32 raw (pos + 16)) of
                (Some cinfo, Some uinfo_size, Some flags) \<Rightarrow>
                  (if flags AND 0x80 \<noteq> 0 \<or> cinfo = 0 \<or> unat uinfo_size < 24 \<or> 2 ^ 20 < unat uinfo_size then None
                   else
                     (let meth = unat (flags AND 0x3F) in
                      if 3 < meth then None
                      else parse_infos C raw pos (unat cinfo) (unat uinfo_size) meth INFO_PADS))
              | _ \<Rightarrow> None)))"

section \<open>Expansion\<close>

definition decompress_block :: "bundle_codecs \<Rightarrow> u8 list \<Rightarrow> bundle_block \<Rightarrow> u8 list option" where
  "decompress_block C raw b =
     (case slice raw (bk_off b) (bk_len b) of
        None \<Rightarrow> None
      | Some compressed \<Rightarrow>
          (let m = block_method b in
           if m = 0 then Some compressed
           else if m = 2 \<or> m = 3 then map_option fst (bc_lz4 C compressed (bk_size b))
           else if m = 1 then bc_lzma C compressed
           else None))"

definition decompress_bundle :: "bundle_codecs \<Rightarrow> unity_bundle \<Rightarrow> u8 list option" where
  "decompress_bundle C b = map_option concat (those (map (decompress_block C (bu_raw b)) (bu_blocks b)))"

end
