(* ===== verification/Utf8.thy ===== *)
theory Utf8
  imports Unicode Bytes
begin

text \<open>
  UTF-8 as the standard library reads and writes it: the encoding of a string, the strict decoder
  \<open>str::from_utf8\<close> and the decoder \<open>String::from_utf8_lossy\<close>, which puts U+FFFD for every maximal
  prefix of a broken sequence.
\<close>

section \<open>Encoding\<close>

definition utf8_char :: "nat \<Rightarrow> u8 list" where
  "utf8_char c =
     (if c < 0x80 then [of_nat c]
      else if c < 0x800 then [of_nat (0xC0 + c div 64), of_nat (0x80 + c mod 64)]
      else if c < 0x10000 then
        [of_nat (0xE0 + c div 4096), of_nat (0x80 + c div 64 mod 64), of_nat (0x80 + c mod 64)]
      else [of_nat (0xF0 + c div 262144), of_nat (0x80 + c div 4096 mod 64), of_nat (0x80 + c div 64 mod 64),
        of_nat (0x80 + c mod 64)])"

definition utf8_bytes :: "ustr \<Rightarrow> u8 list" where
  "utf8_bytes s = concat (map utf8_char s)"

section \<open>Decoding\<close>

text \<open>A byte behind the end reads as zero, which continues no sequence.\<close>

definition byte_at :: "u8 list \<Rightarrow> nat \<Rightarrow> nat" where
  "byte_at bs i = (if i < length bs then unat (bs ! i) else 0)"

definition tail_byte :: "nat \<Rightarrow> bool" where
  "tail_byte b \<longleftrightarrow> 0x80 \<le> b \<and> b < 0xC0"

text \<open>The second byte of a sequence of three or four: overlong forms, surrogates and values beyond the
  last scalar are cut off here.\<close>

definition second_byte :: "nat \<Rightarrow> nat \<Rightarrow> bool" where
  "second_byte a b \<longleftrightarrow> tail_byte b \<and> (a = 0xE0 \<longrightarrow> 0xA0 \<le> b) \<and> (a = 0xED \<longrightarrow> b \<le> 0x9F) \<and>
     (a = 0xF0 \<longrightarrow> 0x90 \<le> b) \<and> (a = 0xF4 \<longrightarrow> b \<le> 0x8F)"

text \<open>The first character of a non-empty byte string, or \<open>None\<close>, and the number of bytes it takes.\<close>

definition utf8_step :: "u8 list \<Rightarrow> nat option \<times> nat" where
  "utf8_step bs =
     (let a = byte_at bs 0; b = byte_at bs 1; c = byte_at bs 2; d = byte_at bs 3 in
      if a < 0x80 then (Some a, 1)
      else if 0xC2 \<le> a \<and> a \<le> 0xDF then
        (if tail_byte b then (Some (a mod 32 * 64 + b mod 64), 2) else (None, 1))
      else if 0xE0 \<le> a \<and> a \<le> 0xEF then
        (if \<not> second_byte a b then (None, 1)
         else if \<not> tail_byte c then (None, 2)
         else (Some (a mod 16 * 4096 + b mod 64 * 64 + c mod 64), 3))
      else if 0xF0 \<le> a \<and> a \<le> 0xF4 then
        (if \<not> second_byte a b then (None, 1)
         else if \<not> tail_byte c then (None, 2)
         else if \<not> tail_byte d then (None, 3)
         else (Some (a mod 8 * 262144 + b mod 64 * 4096 + c mod 64 * 64 + d mod 64), 4))
      else (None, 1))"

lemma utf8_step_pos: "utf8_step bs = (r, k) \<Longrightarrow> 0 < k"
  by (auto simp: utf8_step_def Let_def split: if_splits)

function from_utf8_lossy :: "u8 list \<Rightarrow> ustr" where
  "from_utf8_lossy bs =
     (if bs = [] then []
      else (case utf8_step bs of (r, k) \<Rightarrow>
        (case r of Some c \<Rightarrow> c | None \<Rightarrow> 0xFFFD) # from_utf8_lossy (drop k bs)))"
  by pat_completeness auto
termination
  by (relation "measure length") (auto dest: utf8_step_pos [OF sym])

function from_utf8 :: "u8 list \<Rightarrow> ustr option" where
  "from_utf8 bs =
     (if bs = [] then Some []
      else (case utf8_step bs of
        (None, k) \<Rightarrow> None
      | (Some c, k) \<Rightarrow> map_option ((#) c) (from_utf8 (drop k bs))))"
  by pat_completeness auto
termination
  by (relation "measure length") (auto dest: utf8_step_pos [OF sym])

declare from_utf8_lossy.simps [simp del] from_utf8.simps [simp del]

section \<open>What is decoded\<close>

lemma block_mod:
  fixes n :: nat
  assumes "k * n \<le> x" "x < k * n + n"
  shows "x = k * n + x mod n"
proof -
  obtain y where "x = k * n + y" using assms(1) le_iff_add by blast
  with assms(2) show ?thesis by simp
qed

lemma scalar_parts:
  fixes a b c d :: nat
  shows "a < 32 \<Longrightarrow> b < 64 \<Longrightarrow> scalar (a * 64 + b)"
    and "a < 16 \<Longrightarrow> b < 64 \<Longrightarrow> c < 64 \<Longrightarrow> a = 13 \<longrightarrow> b < 32 \<Longrightarrow> scalar (a * 4096 + b * 64 + c)"
    and "a \<le> 4 \<Longrightarrow> b < 64 \<Longrightarrow> c < 64 \<Longrightarrow> d < 64 \<Longrightarrow> a = 4 \<longrightarrow> b < 16 \<Longrightarrow> a = 0 \<longrightarrow> 16 \<le> b \<Longrightarrow>
      scalar (a * 262144 + b * 4096 + c * 64 + d)"
proof -
  show "a < 32 \<Longrightarrow> b < 64 \<Longrightarrow> scalar (a * 64 + b)" by (simp add: scalar_def)
  show "a < 16 \<Longrightarrow> b < 64 \<Longrightarrow> c < 64 \<Longrightarrow> a = 13 \<longrightarrow> b < 32 \<Longrightarrow> scalar (a * 4096 + b * 64 + c)"
    by (cases "a = 13"; cases "a < 13") (simp_all add: scalar_def)
  show "a \<le> 4 \<Longrightarrow> b < 64 \<Longrightarrow> c < 64 \<Longrightarrow> d < 64 \<Longrightarrow> a = 4 \<longrightarrow> b < 16 \<Longrightarrow> a = 0 \<longrightarrow> 16 \<le> b \<Longrightarrow>
      scalar (a * 262144 + b * 4096 + c * 64 + d)"
    by (cases "a = 0"; cases "a = 4") (simp_all add: scalar_def)
qed

lemma tail_byte_value: "tail_byte x \<Longrightarrow> x = 0x80 + x mod 64"
  using block_mod [of 2 64 x] by (simp add: tail_byte_def)

lemma step_scalar:
  assumes "utf8_step bs = (Some ch, k)"
  shows "scalar ch"
proof -
  define a b c d where "a = byte_at bs 0" "b = byte_at bs 1" "c = byte_at bs 2" "d = byte_at bs 3"
  consider (one) "a < 0x80" "ch = a" | (two) "ch = a mod 32 * 64 + b mod 64"
    | (three) "0xE0 \<le> a" "a \<le> 0xEF" "second_byte a b" "ch = a mod 16 * 4096 + b mod 64 * 64 + c mod 64"
    | (four) "0xF0 \<le> a" "a \<le> 0xF4" "second_byte a b" "ch = a mod 8 * 262144 + b mod 64 * 4096 + c mod 64 * 64 + d mod 64"
    using assms unfolding utf8_step_def a_b_c_d_def [symmetric] Let_def by (simp split: if_splits)
  then show ?thesis
  proof cases
    case one
    then show ?thesis by (simp add: scalar_def)
  next
    case two
    then show ?thesis by (simp add: scalar_parts)
  next
    case three
    then have "b = 0x80 + b mod 64" "a = 0xE0 + a mod 16"
      using block_mod [of 14 16 a] by (auto simp: second_byte_def dest: tail_byte_value)
    then have "a mod 16 = 13 \<longrightarrow> b mod 64 < 32" using three(3) by (auto simp: second_byte_def)
    then show ?thesis unfolding three(4) by (intro scalar_parts) simp_all
  next
    case four
    then have ab: "b = 0x80 + b mod 64" "a = 0xF0 + a mod 8"
      using block_mod [of 30 8 a] by (auto simp: second_byte_def dest: tail_byte_value)
    then have "a mod 8 \<le> 4" using four(2) by linarith
    moreover have "a mod 8 = 4 \<longrightarrow> b mod 64 < 16" "a mod 8 = 0 \<longrightarrow> 16 \<le> b mod 64"
      using ab four(3) by (auto simp: second_byte_def)
    ultimately show ?thesis unfolding four(4) by (intro scalar_parts) simp_all
  qed
qed

lemma from_utf8_valid: "from_utf8 bs = Some s \<Longrightarrow> valid_ustr s"
proof (induction bs arbitrary: s rule: from_utf8.induct)
  case (1 bs)
  then show ?case
    by (subst (asm) from_utf8.simps) (auto simp: valid_ustr_def step_scalar split: if_splits prod.splits option.splits)
qed

lemma from_utf8_lossy_valid: "valid_ustr (from_utf8_lossy bs)"
proof (induction bs rule: from_utf8_lossy.induct)
  case (1 bs)
  show ?case
  proof (cases "bs = []")
    case False
    obtain r k where s: "utf8_step bs = (r, k)" by fastforce
    have "scalar (case r of Some c \<Rightarrow> c | None \<Rightarrow> 0xFFFD)"
      using s by (cases r) (simp add: scalar_def, simp add: step_scalar)
    with 1 [OF False s [symmetric]] False s show ?thesis
      by (subst from_utf8_lossy.simps) (simp add: valid_ustr_def)
  qed (simp add: from_utf8_lossy.simps valid_ustr_def)
qed

section \<open>Encoding and decoding\<close>

lemma byte_value: "n < 256 \<Longrightarrow> unat (of_nat n :: u8) = n"
  by (simp add: unat_of_nat)

lemma byte_at_simps [simp]:
  "byte_at (b # bs) 0 = unat b" "byte_at (b # bs) (Suc i) = byte_at bs i"
  by (simp_all add: byte_at_def)

lemma char_parts:
  fixes c :: nat
  shows "c = c div 64 * 64 + c mod 64" and "c = c div 4096 * 4096 + c div 64 mod 64 * 64 + c mod 64"
    and "c = c div 262144 * 262144 + c div 4096 mod 64 * 4096 + c div 64 mod 64 * 64 + c mod 64"
proof -
  have 1: "x = x div 64 * 64 + x mod 64" for x :: nat by (rule div_mult_mod_eq [symmetric])
  show "c = c div 64 * 64 + c mod 64" by (rule 1)
  have d: "x div 4096 = x div 64 div 64" "x div 262144 = x div 4096 div 64" for x :: nat
    by (simp_all add: div_mult2_eq [symmetric])
  have 2: "x = x div 4096 * 4096 + x div 64 mod 64 * 64 + x mod 64" for x :: nat
    using 1 [of x] 1 [of "x div 64"] unfolding d by linarith
  then show "c = c div 4096 * 4096 + c div 64 mod 64 * 64 + c mod 64" .
  show "c = c div 262144 * 262144 + c div 4096 mod 64 * 4096 + c div 64 mod 64 * 64 + c mod 64"
    using 2 [of c] 1 [of "c div 4096"] unfolding d(2) by linarith
qed

lemma second_three:
  fixes x y z :: nat
  assumes "x < 16" "y < 64" "z < 64" "0x800 \<le> x * 4096 + y * 64 + z" "scalar (x * 4096 + y * 64 + z)"
  shows "second_byte (0xE0 + x) (0x80 + y)"
  using assms by (auto simp: second_byte_def tail_byte_def scalar_def)

lemma second_four:
  fixes x y z w :: nat
  assumes "y < 64" "z < 64" "w < 64" "0x10000 \<le> x * 262144 + y * 4096 + z * 64 + w"
    "x * 262144 + y * 4096 + z * 64 + w < 0x110000"
  shows "x \<le> 4" and "second_byte (0xF0 + x) (0x80 + y)"
  using assms by (auto simp: second_byte_def tail_byte_def)

lemma utf8_step_parts:
  fixes a b c d :: u8
  shows "unat b = 0x80 + y \<Longrightarrow> y < 64 \<Longrightarrow> unat a = 0xC0 + x \<Longrightarrow> 2 \<le> x \<Longrightarrow> x < 32 \<Longrightarrow>
      utf8_step (a # b # rest) = (Some (x * 64 + y), 2)"
    and "unat b = 0x80 + y \<Longrightarrow> y < 64 \<Longrightarrow> unat c = 0x80 + z \<Longrightarrow> z < 64 \<Longrightarrow> unat a = 0xE0 + x \<Longrightarrow> x < 16 \<Longrightarrow>
      second_byte (0xE0 + x) (0x80 + y) \<Longrightarrow> utf8_step (a # b # c # rest) = (Some (x * 4096 + y * 64 + z), 3)"
    and "unat b = 0x80 + y \<Longrightarrow> y < 64 \<Longrightarrow> unat c = 0x80 + z \<Longrightarrow> z < 64 \<Longrightarrow> unat d = 0x80 + w \<Longrightarrow> w < 64 \<Longrightarrow>
      unat a = 0xF0 + x \<Longrightarrow> x \<le> 4 \<Longrightarrow> second_byte (0xF0 + x) (0x80 + y) \<Longrightarrow>
      utf8_step (a # b # c # d # rest) = (Some (x * 262144 + y * 4096 + z * 64 + w), 4)"
proof -
  have m: "n < 64 \<Longrightarrow> (0x80 + n) mod 64 = n" "n < 32 \<Longrightarrow> (0xC0 + n) mod 32 = n" "n < 16 \<Longrightarrow> (0xE0 + n) mod 16 = n"
    "n < 8 \<Longrightarrow> (0xF0 + n) mod 8 = n" for n :: nat
    using block_mod [of 2 64 "0x80 + n"] block_mod [of 6 32 "0xC0 + n"] block_mod [of 14 16 "0xE0 + n"] block_mod [of 30 8 "0xF0 + n"]
    by simp_all
  show "unat b = 0x80 + y \<Longrightarrow> y < 64 \<Longrightarrow> unat a = 0xC0 + x \<Longrightarrow> 2 \<le> x \<Longrightarrow> x < 32 \<Longrightarrow>
      utf8_step (a # b # rest) = (Some (x * 64 + y), 2)"
    by (simp add: utf8_step_def tail_byte_def m)
  show "unat b = 0x80 + y \<Longrightarrow> y < 64 \<Longrightarrow> unat c = 0x80 + z \<Longrightarrow> z < 64 \<Longrightarrow> unat a = 0xE0 + x \<Longrightarrow> x < 16 \<Longrightarrow>
      second_byte (0xE0 + x) (0x80 + y) \<Longrightarrow> utf8_step (a # b # c # rest) = (Some (x * 4096 + y * 64 + z), 3)"
    by (simp add: utf8_step_def tail_byte_def m numeral_2_eq_2)
  show "unat b = 0x80 + y \<Longrightarrow> y < 64 \<Longrightarrow> unat c = 0x80 + z \<Longrightarrow> z < 64 \<Longrightarrow> unat d = 0x80 + w \<Longrightarrow> w < 64 \<Longrightarrow>
      unat a = 0xF0 + x \<Longrightarrow> x \<le> 4 \<Longrightarrow> second_byte (0xF0 + x) (0x80 + y) \<Longrightarrow>
      utf8_step (a # b # c # d # rest) = (Some (x * 262144 + y * 4096 + z * 64 + w), 4)"
    by (simp add: utf8_step_def tail_byte_def m numeral_2_eq_2 numeral_3_eq_3)
qed

lemma utf8_step_char:
  assumes "scalar c"
  shows "utf8_step (utf8_char c @ rest) = (Some c, length (utf8_char c))"
proof -
  define x y z where "x = c div 4096" "y = c div 64 mod 64" "z = c mod 64"
  have yz: "y < 64" "z < 64" by (simp_all add: x_y_z_def)
  have tb: "tail_byte (0x80 + n)" if "n < 64" for n using that by (simp add: tail_byte_def)
  consider (one) "c < 0x80" | (two) "0x80 \<le> c" "c < 0x800" | (three) "0x800 \<le> c" "c < 0x10000" | (four) "0x10000 \<le> c" "c < 0x110000"
    using assms by (force simp: scalar_def)
  then show ?thesis
  proof cases
    case one
    then show ?thesis by (simp add: utf8_char_def utf8_step_def byte_value)
  next
    case two
    define q where "q = c div 64"
    have c: "c = q * 64 + z" using char_parts(1) [of c] by (simp add: x_y_z_def q_def)
    have q: "q < 32" "2 \<le> q" using two yz c by linarith+
    show ?thesis
      using utf8_step_parts(1) [of "of_nat (0x80 + z)" z "of_nat (0xC0 + q)" q rest] two q yz unfolding c [symmetric]
      by (simp add: utf8_char_def byte_value q_def [symmetric] x_y_z_def(3) [symmetric] del: of_nat_add)
  next
    case three
    have c: "c = x * 4096 + y * 64 + z" using char_parts(2) [of c] by (simp add: x_y_z_def)
    have x: "x < 16" using three c yz by linarith
    have s: "second_byte (0xE0 + x) (0x80 + y)" using second_three [OF x yz] three assms c by simp
    show ?thesis
      using utf8_step_parts(2) [of "of_nat (0x80 + y)" y "of_nat (0x80 + z)" z "of_nat (0xE0 + x)" x rest] three x yz s
      unfolding c [symmetric]
      by (simp add: utf8_char_def byte_value x_y_z_def [symmetric] del: of_nat_add)
  next
    case four
    define p v where "p = c div 262144" "v = c div 4096 mod 64"
    have v: "v < 64" by (simp add: p_v_def)
    have c: "c = p * 262144 + v * 4096 + y * 64 + z" using char_parts(3) [of c] by (simp add: x_y_z_def p_v_def)
    note s = second_four [OF v yz, of p, folded c, OF four]
    show ?thesis
      using utf8_step_parts(3) [of "of_nat (0x80 + v)" v "of_nat (0x80 + y)" y "of_nat (0x80 + z)" z "of_nat (0xF0 + p)" p rest]
        four s v yz unfolding c [symmetric]
      by (simp add: utf8_char_def byte_value x_y_z_def(2,3) [symmetric] p_v_def [symmetric] del: of_nat_add)
  qed
qed

lemma utf8_char_not_empty [simp]: "utf8_char c \<noteq> []"
  by (simp add: utf8_char_def)

lemma from_utf8_bytes: "valid_ustr s \<Longrightarrow> from_utf8 (utf8_bytes s) = Some s"
proof (induction s)
  case (Cons c s)
  then show ?case
    by (subst from_utf8.simps) (simp add: utf8_bytes_def valid_ustr_def utf8_step_char)
qed (simp add: utf8_bytes_def from_utf8.simps)

lemma from_utf8_lossy_bytes: "valid_ustr s \<Longrightarrow> from_utf8_lossy (utf8_bytes s) = s"
proof (induction s)
  case (Cons c s)
  then show ?case
    by (subst from_utf8_lossy.simps) (simp add: utf8_bytes_def valid_ustr_def utf8_step_char)
qed (simp add: utf8_bytes_def from_utf8_lossy.simps)

end
