(* ===== verification/Text_Scan.thy ===== *)
theory Text_Scan
  imports Bundle Utf8 Hook Entry_Reloc "HOL-Library.Product_Lexorder"
begin

text \<open>
  The text searches of \<open>experiments/resources-route/src/main.rs\<close> over the expanded data of a bundle, and
  the scan built from them.  A string is the list of its characters, so an offset into one counts
  characters; \<open>char::is_alphanumeric\<close> is a table of Unicode and a parameter.
\<close>

section \<open>Characters\<close>

definition is_kana :: "nat \<Rightarrow> bool" where
  "is_kana u \<longleftrightarrow> 0x3041 \<le> u \<and> u \<le> 0x3096 \<or> 0x30A1 \<le> u \<and> u \<le> 0x30F6"

definition is_cjk :: "nat \<Rightarrow> bool" where
  "is_cjk u \<longleftrightarrow> 0x4E00 \<le> u \<and> u \<le> 0x9FFF"

definition u16_at :: "u8 list \<Rightarrow> nat \<Rightarrow> nat" where
  "u16_at data i = unat (u16_from_le (data ! i) (data ! (i + 1)))"

section \<open>Positions\<close>

text \<open>The loop of both substring searches: on from behind the last hit, until \<open>cap\<close> hits are noted.  The
  needle is not empty (\<open>windows(0)\<close> panics; see the callers).\<close>

lemma find_window_bound:
  assumes "pat \<noteq> []" and "find_window pat xs = Some k"
  shows "k + length pat \<le> length xs \<and> 0 < length pat"
  using assms by (simp add: find_window_Some occurs_at_def)

function find_hits :: "u8 list \<Rightarrow> u8 list \<Rightarrow> nat \<Rightarrow> nat \<Rightarrow> nat \<Rightarrow> nat list" where
  "find_hits pat data start hits cap =
     (if pat = [] then []
      else (case find_window pat (drop start data) of
        None \<Rightarrow> []
      | Some rel \<Rightarrow>
          (start + rel) # (if cap \<le> hits + 1 then [] else find_hits pat data (start + rel + length pat) (hits + 1) cap)))"
  by pat_completeness auto
termination
proof (relation "measure (\<lambda>(pat, data, start, hits, cap). length data - start)")
  fix pat data :: "u8 list" and start hits cap rel
  assume "pat \<noteq> []" and "find_window pat (drop start data) = Some rel"
  from find_window_bound [OF this] this(1)
  show "((pat, data, start + rel + length pat, hits + 1, cap), pat, data, start, hits, cap)
      \<in> measure (\<lambda>(pat, data, start, hits, cap). length data - start)" by (cases pat) auto
qed simp

declare find_hits.simps [simp del]

definition to_ascii_lowercase :: "u8 list \<Rightarrow> u8 list" where
  "to_ascii_lowercase data = map (\<lambda>b. if 0x41 \<le> b \<and> b \<le> 0x5A then b + 0x20 else b) data"

definition LYRIC :: "u8 list" where "LYRIC = [0x6C, 0x79, 0x72, 0x69, 0x63]"

definition find_lyric_positions :: "u8 list \<Rightarrow> nat \<Rightarrow> nat list" where
  "find_lyric_positions data cap = find_hits LYRIC (to_ascii_lowercase data) 0 0 cap"

text \<open>The loop over the code units, with the start and the length of the run at hand.\<close>

function kana_loop :: "u8 list \<Rightarrow> nat \<Rightarrow> nat \<Rightarrow> nat \<Rightarrow> nat \<Rightarrow> nat \<Rightarrow> nat list \<Rightarrow> nat list" where
  "kana_loop data min_run cap i run_start run_len positions =
     (let pushed = (if min_run \<le> run_len \<and> length positions < cap then positions @ [run_start] else positions) in
      if i + 1 < length data then
        (if is_kana (u16_at data i)
         then kana_loop data min_run cap (i + 2) (if run_len = 0 then i else run_start) (run_len + 1) positions
         else kana_loop data min_run cap (i + 2) run_start 0 pushed)
      else pushed)"
  by pat_completeness auto
termination
  by (relation "measure (\<lambda>(data, min_run, cap, i, run_start, run_len, positions). length data - i)") auto

declare kana_loop.simps [simp del]

definition find_utf16_kana_positions :: "u8 list \<Rightarrow> nat \<Rightarrow> nat \<Rightarrow> nat list" where
  "find_utf16_kana_positions data min_run cap = kana_loop data min_run cap 0 0 0 []"

section \<open>Lines around a position\<close>

text \<open>\<open>split\<close>: the pieces between the elements that satisfy \<open>p\<close>, at least one.\<close>

fun split_on :: "('a \<Rightarrow> bool) \<Rightarrow> 'a list \<Rightarrow> 'a list list" where
  "split_on p [] = [[]]"
| "split_on p (x # xs) =
     (if p x then [] # split_on p xs
      else (case split_on p xs of [] \<Rightarrow> [[x]] | c # cs \<Rightarrow> (x # c) # cs))"

text \<open>\<open>data[from..to]\<close> with \<open>radius\<close> bytes on either side.\<close>

definition around_bytes :: "u8 list \<Rightarrow> nat \<Rightarrow> nat \<Rightarrow> u8 list" where
  "around_bytes data around radius =
     (let from = around - radius; to = min (around + radius) (length data) in take (to - from) (drop from data))"

definition utf8_line :: "nat \<Rightarrow> u8 list \<Rightarrow> ustr list \<Rightarrow> ustr list" where
  "utf8_line cap chunk lines =
     (if length chunk < 8 \<or> cap \<le> length lines then lines
      else (case from_utf8 chunk of
        None \<Rightarrow> lines
      | Some s \<Rightarrow>
          (let t = trim s in
           if 4 \<le> length t \<and> (\<exists>c \<in> set t. is_kana c \<or> is_cjk c) then lines @ [t] else lines)))"

definition extract_utf8_lines :: "u8 list \<Rightarrow> nat \<Rightarrow> nat \<Rightarrow> ustr list" where
  "extract_utf8_lines data around cap =
     fold (utf8_line cap) (split_on (\<lambda>b. b = 0x0A \<or> b = 0) (around_bytes data around 8192)) []"

definition line_unit :: "nat \<Rightarrow> bool" where
  "line_unit u \<longleftrightarrow> is_kana u \<or> is_cjk u \<or> u = 0x0A \<or> u = 0x20"

function run16 :: "u8 list \<Rightarrow> nat \<Rightarrow> nat \<Rightarrow> nat" where
  "run16 data to j = (if j + 1 < to then (if line_unit (u16_at data j) then Suc (run16 data to (j + 2)) else 0) else 0)"
  by pat_completeness auto
termination
  by (relation "measure (\<lambda>(data, to, j). to - j)") auto

declare run16.simps [simp del]

definition units_string :: "u8 list \<Rightarrow> nat \<Rightarrow> nat \<Rightarrow> ustr" where
  "units_string data i units = filter scalar (map (\<lambda>k. u16_at data (i + 2 * k)) [0..<units])"

function utf16_loop :: "u8 list \<Rightarrow> nat \<Rightarrow> nat \<Rightarrow> nat \<Rightarrow> ustr list \<Rightarrow> ustr list" where
  "utf16_loop data to cap i lines =
     (if i + 1 < to \<and> length lines < cap then
        (let units = run16 data to i in
         if 8 \<le> units then
           (let t = trim (units_string data i units) in
            utf16_loop data to cap (i + 2 * units + 2) (if 4 \<le> length t then lines @ [t] else lines))
         else utf16_loop data to cap (i + 2) lines)
      else lines)"
  by pat_completeness auto
termination
  by (relation "measure (\<lambda>(data, to, cap, i, lines). to - i)") auto

declare utf16_loop.simps [simp del]

definition extract_utf16_lines :: "u8 list \<Rightarrow> nat \<Rightarrow> nat \<Rightarrow> ustr list" where
  "extract_utf16_lines data around cap = utf16_loop data (min (around + 8192) (length data)) cap (around - 8192) []"

definition printable :: "u8 \<Rightarrow> bool" where
  "printable b \<longleftrightarrow> 0x20 \<le> b \<and> b < 0x7F"

definition extract_ascii_strings :: "u8 list \<Rightarrow> nat \<Rightarrow> nat \<Rightarrow> ustr list" where
  "extract_ascii_strings data around cap =
     map from_utf8_lossy (take cap (filter (\<lambda>chunk. 12 \<le> length chunk)
       (split_on (\<lambda>b. \<not> printable b) (around_bytes data around 2048))))"

definition looks_like_lyric_line :: "ustr \<Rightarrow> bool" where
  "looks_like_lyric_line s \<longleftrightarrow> length s \<le> 48 \<and> (\<exists>c \<in> set s. is_kana c) \<and> (\<exists>c \<in> set s. is_cjk c)"

definition looks_like_glyph_table :: "ustr \<Rightarrow> bool" where
  "looks_like_glyph_table s =
     (let kana = filter is_kana s; distinct_kana = remdups kana in
      if length kana < 24 \<or> length distinct_kana < 20 then False
      else
        (let inc = length (filter (\<lambda>(a, b). a < b) (zip kana (tl kana))) in
         length kana * 8 \<le> inc * 10))"

section \<open>Titles\<close>

fun normalize_spaces :: "u8 list \<Rightarrow> u8 list" where
  "normalize_spaces [] = []"
| "normalize_spaces (a # rest) =
     (if a = 0xC2 \<and> 1 \<le> length rest \<and> rest ! 0 = 0xA0 then 0x20 # normalize_spaces (drop 1 rest)
      else if a = 0xE3 \<and> 2 \<le> length rest \<and> rest ! 0 = 0x80 \<and> rest ! 1 = 0x80 then 0x20 # normalize_spaces (drop 2 rest)
      else a # normalize_spaces rest)"

definition replace_char :: "nat \<Rightarrow> ustr \<Rightarrow> ustr" where
  "replace_char sp t = map (\<lambda>c. if c = sp then 0x20 else c) t"

definition title_variants :: "ustr \<Rightarrow> ustr list" where
  "title_variants t = t # concat (map (\<lambda>sp. if sp \<in> set t then [replace_char sp t] else []) [0xA0, 0x3000])"

text \<open>A string as Unity serializes it: its length and its bytes.\<close>

definition serialized_title :: "ustr \<Rightarrow> u8 list" where
  "serialized_title v = u32_to_le (of_nat (length (utf8_bytes v))) @ utf8_bytes v"

definition u16_wordy :: "nat \<Rightarrow> bool" where
  "u16_wordy u \<longleftrightarrow> 0x3041 \<le> u \<and> u \<le> 0x30FF \<or> is_cjk u \<or> 0x30 \<le> u \<and> u \<le> 0x39 \<or> 0x41 \<le> u \<and> u \<le> 0x5A \<or>
     0x61 \<le> u \<and> u \<le> 0x7A"

definition utf16le_bytes :: "ustr \<Rightarrow> u8 list" where
  "utf16le_bytes v = concat (map (\<lambda>u. [ucast u, ucast (drop_bit 8 u)]) (encode_utf16 v))"

text \<open>The search for a title in UTF-16, with a boundary before and behind it.\<close>

function wide_match :: "u8 list \<Rightarrow> u8 list \<Rightarrow> nat \<Rightarrow> bool" where
  "wide_match data units from =
     (if units = [] then False
      else (case find_window units (drop from data) of
        None \<Rightarrow> False
      | Some rel \<Rightarrow>
          (let s = from + rel; behind = s + length units;
               before_ok = (s < 2 \<or> \<not> u16_wordy (u16_at data (s - 2)));
               after_ok = (length data < behind + 2 \<or> \<not> u16_wordy (u16_at data behind)) in
           if before_ok \<and> after_ok then True
           else if length data < s + 2 + length units then False
           else wide_match data units (s + 2))))"
  by pat_completeness auto
termination
  by (relation "measure (\<lambda>(data, units, from). length data - from)") auto

declare wide_match.simps [simp del]

text \<open>The search in the decoded text: found, given up for all variants, or on to the next variant with the
  cursor as it is.\<close>

datatype word_search = Found | Give_Up | Next_Variant nat

definition wordy :: "(nat \<Rightarrow> bool) \<Rightarrow> nat \<Rightarrow> bool" where
  "wordy A c \<longleftrightarrow> A c \<or> is_kana c \<or> is_cjk c"

definition word_at :: "(nat \<Rightarrow> bool) \<Rightarrow> ustr \<Rightarrow> ustr \<Rightarrow> nat \<Rightarrow> bool" where
  "word_at A s v i \<longleftrightarrow> (i = 0 \<or> \<not> wordy A (s ! (i - 1))) \<and> (length s \<le> i + length v \<or> \<not> wordy A (s ! (i + length v)))"

function word_loop :: "(nat \<Rightarrow> bool) \<Rightarrow> ustr \<Rightarrow> ustr \<Rightarrow> nat \<Rightarrow> word_search" where
  "word_loop A norm v from =
     (if v = [] then Give_Up
      else (case find_window v (drop from norm) of
        None \<Rightarrow> Next_Variant from
      | Some rel \<Rightarrow>
          (let s = from + rel in
           if word_at A norm v s then Found
           else if length norm \<le> s + length v then Give_Up
           else word_loop A norm v (s + length v))))"
  by pat_completeness auto
termination
proof (relation "measure (\<lambda>(A, norm, v, from). length norm - from)")
  fix A norm start rel s and v :: ustr
  assume "v \<noteq> []" and "s = start + rel" and "\<not> length norm \<le> s + length v"
  then show "((A, norm, v, s + length v), A, norm, v, start) \<in> measure (\<lambda>(A, norm, v, from). length norm - from)"
    by (cases v) auto
qed simp

declare word_loop.simps [simp del]

fun variants_loop :: "(nat \<Rightarrow> bool) \<Rightarrow> ustr \<Rightarrow> ustr list \<Rightarrow> nat \<Rightarrow> bool" where
  "variants_loop A norm [] from = False"
| "variants_loop A norm (v # vs) from =
     (case word_loop A norm v from of
        Found \<Rightarrow> True
      | Give_Up \<Rightarrow> False
      | Next_Variant from' \<Rightarrow> variants_loop A norm vs from')"

definition title_matches :: "(nat \<Rightarrow> bool) \<Rightarrow> u8 list \<Rightarrow> ustr \<Rightarrow> bool" where
  "title_matches A data t =
     (if t = [] then False
      else
        (let variants = title_variants t in
         if \<exists>v \<in> set variants. find_window (serialized_title v) data \<noteq> None then True
         else if \<exists>v \<in> set variants. wide_match data (utf16le_bytes v) 0 then True
         else variants_loop A (from_utf8_lossy (normalize_spaces data)) variants 0))"

definition match_titles :: "(nat \<Rightarrow> bool) \<Rightarrow> u8 list \<Rightarrow> (ustr \<times> ustr) list \<Rightarrow> (ustr \<times> ustr) list" where
  "match_titles A data titles = filter (\<lambda>x. title_matches A data (snd x)) titles"

section \<open>Music ids\<close>

text \<open>The maximal runs of elements that satisfy \<open>p\<close>.\<close>

function runs :: "('a \<Rightarrow> bool) \<Rightarrow> 'a list \<Rightarrow> 'a list list" where
  "runs p [] = []"
| "runs p (x # xs) = (if p x then (x # takeWhile p xs) # runs p (dropWhile p xs) else runs p xs)"
  by pat_completeness auto
termination
  by (relation "measure (\<lambda>(p, xs). length xs)") (auto simp: less_Suc_eq_le length_dropWhile_le)

definition is_digit :: "u8 \<Rightarrow> bool" where
  "is_digit b \<longleftrightarrow> 0x30 \<le> b \<and> b \<le> 0x39"

definition is_alnum :: "u8 \<Rightarrow> bool" where
  "is_alnum b \<longleftrightarrow> is_digit b \<or> 0x41 \<le> b \<and> b \<le> 0x5A \<or> 0x61 \<le> b \<and> b \<le> 0x7A"

text \<open>\<open>*counts.entry(v).or_insert(0) += 1\<close>\<close>

fun count_up :: "nat \<Rightarrow> (nat \<times> nat) list \<Rightarrow> (nat \<times> nat) list" where
  "count_up v [] = [(v, 1)]"
| "count_up v ((k, n) # counts) = (if k = v then (k, n + 1) # counts else (k, n) # count_up v counts)"

definition token_id :: "u8 list \<Rightarrow> nat option" where
  "token_id tok =
     (if length tok = 3 \<and> list_all is_digit tok then
        (let v = digits_value (map unat tok) 0 in if 1 \<le> v \<and> v \<le> 176 then Some v else None)
      else None)"

definition count_token :: "u8 list \<Rightarrow> (nat \<times> nat) list \<Rightarrow> (nat \<times> nat) list" where
  "count_token tok counts = (case token_id tok of None \<Rightarrow> counts | Some v \<Rightarrow> count_up v counts)"

definition extract_music_ids :: "u8 list \<Rightarrow> (nat \<times> nat) list" where
  "extract_music_ids data =
     sort (fold (\<lambda>run. fold count_token (runs is_alnum run)) (runs printable data) [])"

section \<open>The scan\<close>

record scan_hit =
  sh_via_lyric_name :: bool
  sh_matched :: "(ustr \<times> ustr) list"
  sh_mids :: "(nat \<times> nat) list"
  sh_lines :: "ustr list"

definition scan_lines :: "u8 list \<Rightarrow> nat list \<Rightarrow> ustr list" where
  "scan_lines data name_positions =
     (let named = concat (map (\<lambda>p. take 2 (extract_utf8_lines data p 4)) name_positions);
          wide = filter looks_like_lyric_line (concat (map (\<lambda>p. extract_utf16_lines data p 2) name_positions));
          kana_lines = (if name_positions = [] then
            filter (\<lambda>l. looks_like_lyric_line l \<and> \<not> looks_like_glyph_table l)
              (concat (map (\<lambda>p. extract_utf16_lines data p 3) (find_utf16_kana_positions data 12 2))) else []) in
      take 8 (named @ wide @ kana_lines))"

definition scan_data :: "(nat \<Rightarrow> bool) \<Rightarrow> u8 list \<Rightarrow> (ustr \<times> ustr) list \<Rightarrow> scan_hit option" where
  "scan_data A data titles =
     (let name_positions = find_lyric_positions data 8;
          matched = (if titles \<noteq> [] \<and> name_positions \<noteq> [] then match_titles A data titles else []);
          mids = (if name_positions = [] then [] else extract_music_ids data);
          lines = scan_lines data name_positions in
      if lines = [] \<and> matched = [] then None
      else Some \<lparr> sh_via_lyric_name = name_positions \<noteq> [], sh_matched = matched, sh_mids = mids, sh_lines = lines \<rparr>)"

text \<open>An empty filter makes \<open>windows(0)\<close> panic.\<close>

definition scan_bundle ::
  "bundle_codecs \<Rightarrow> (nat \<Rightarrow> bool) \<Rightarrow> u8 list \<Rightarrow> u8 list option \<Rightarrow> (ustr \<times> ustr) list \<Rightarrow> scan_hit option flow" where
  "scan_bundle C A raw text_filter titles =
     (case Option.bind (parse_bundle C raw) (decompress_bundle C) of
        None \<Rightarrow> Returns None
      | Some data \<Rightarrow>
          (case text_filter of
             None \<Rightarrow> Returns (scan_data A data titles)
           | Some f \<Rightarrow>
               (if f = [] then Panics
                else if find_window f data = None then Returns None
                else Returns (scan_data A data titles))))"

text \<open>What is behind a path: \<open>None\<close> when it cannot be read.\<close>

definition read_if_unityfs :: "u8 list option \<Rightarrow> u8 list option" where
  "read_if_unityfs content =
     (case content of
        None \<Rightarrow> None
      | Some bs \<Rightarrow> if length bs < 12 then None else if take 8 (drop 4 bs) \<noteq> UNITY_MAGIC then None else Some bs)"

fun scan_files ::
  "bundle_codecs \<Rightarrow> (nat \<Rightarrow> bool) \<Rightarrow> u8 list option \<Rightarrow> (ustr \<times> ustr) list \<Rightarrow> ('f \<times> u8 list option) list
     \<Rightarrow> ('f \<times> scan_hit) list flow" where
  "scan_files C A text_filter titles [] = Returns []"
| "scan_files C A text_filter titles ((path, content) # files) =
     (case scan_files C A text_filter titles files of
        Panics \<Rightarrow> Panics
      | Returns rest \<Rightarrow>
          (case read_if_unityfs content of
             None \<Rightarrow> Returns rest
           | Some raw \<Rightarrow>
               (case scan_bundle C A raw text_filter titles of
                  Panics \<Rightarrow> Panics
                | Returns None \<Rightarrow> Returns rest
                | Returns (Some hit) \<Rightarrow> Returns ((path, hit) # rest))))"

text \<open>The counters printed over the results: all, by name, by a run of kana only, with a title.\<close>

definition scan_summary :: "('f \<times> scan_hit) list \<Rightarrow> nat \<times> nat \<times> nat \<times> nat" where
  "scan_summary results =
     (let via_name = length (filter (\<lambda>r. sh_via_lyric_name (snd r)) results);
          matched_bundles = length (filter (\<lambda>r. sh_matched (snd r) \<noteq> []) results) in
      (length results, via_name, length results - via_name, matched_bundles))"

definition report_mids :: "scan_hit \<Rightarrow> (nat \<times> nat) list" where
  "report_mids hit = filter (\<lambda>m. 2 \<le> snd m) (sh_mids hit)"

subsection \<open>Statistics\<close>

type_synonym scan_stats = "nat \<times> nat \<times> nat \<times> nat"

definition file_stats :: "bundle_codecs \<Rightarrow> u8 list option \<Rightarrow> scan_stats" where
  "file_stats C content =
     (case read_if_unityfs content of
        None \<Rightarrow> (1, 0, 0, 0)
      | Some raw \<Rightarrow>
          (case map_option (decompress_bundle C) (parse_bundle C raw) of
             Some (Some _) \<Rightarrow> (1, 1, 1, 1)
           | Some None \<Rightarrow> (1, 1, 1, 0)
           | None \<Rightarrow> (1, 1, 0, 0)))"

definition add_stats :: "scan_stats \<Rightarrow> scan_stats \<Rightarrow> scan_stats" where
  "add_stats a b = (case a of (a0, a1, a2, a3) \<Rightarrow> (case b of (b0, b1, b2, b3) \<Rightarrow> (a0 + b0, a1 + b1, a2 + b2, a3 + b3)))"

text \<open>The parallel reduction: the files are cut into pieces, each piece may start from the identity, and
  the pieces are combined in any grouping that keeps their order.\<close>

datatype reduction = Piece "scan_stats list" | Join reduction reduction

fun piece_items :: "reduction \<Rightarrow> scan_stats list" where
  "piece_items (Piece xs) = xs"
| "piece_items (Join l r) = piece_items l @ piece_items r"

fun reduce :: "reduction \<Rightarrow> scan_stats" where
  "reduce (Piece xs) = foldl add_stats (0, 0, 0, 0) xs"
| "reduce (Join l r) = add_stats (reduce l) (reduce r)"

subsection \<open>The table of titles\<close>

definition str_lines :: "ustr \<Rightarrow> ustr list" where
  "str_lines s =
     (let pieces = split_on (\<lambda>c. c = 0x0A) s;
          strip_cr = (\<lambda>l. if l \<noteq> [] \<and> last l = 0x0D then butlast l else l) in
      map strip_cr (butlast pieces) @ (if last pieces = [] then [] else [last pieces]))"

definition split_once_tab :: "ustr \<Rightarrow> (ustr \<times> ustr) option" where
  "split_once_tab l = map_option (\<lambda>k. (take k l, drop (k + 1) l)) (position (\<lambda>c. c = 9) l)"

definition parse_titles :: "ustr option \<Rightarrow> (ustr \<times> ustr) list" where
  "parse_titles content = (case content of None \<Rightarrow> [] | Some s \<Rightarrow> List.map_filter split_once_tab (str_lines s))"

subsection \<open>One file\<close>

record lyric_position =
  lp_at :: nat
  lp_ascii :: "ustr list"
  lp_utf8 :: "ustr list"
  lp_utf16 :: "ustr list"

datatype inspection =
    Read_Failed
  | Parse_Failed
  | Decompress_Failed nat nat nat nat
  | Dump_Strings "ustr list" "ustr list"
  | Needle_Hits "lyric_position list"
  | Lyric_Positions "lyric_position list"

definition inspect_single ::
  "bundle_codecs \<Rightarrow> u8 list option \<Rightarrow> bool \<Rightarrow> u8 list option \<Rightarrow> inspection flow" where
  "inspect_single C content dump_strings needle =
     (case content of
        None \<Rightarrow> Returns Read_Failed
      | Some raw \<Rightarrow>
          (case parse_bundle C raw of
             None \<Rightarrow> Returns Parse_Failed
           | Some b \<Rightarrow>
               (case decompress_bundle C b of
                  None \<Rightarrow> Returns (Decompress_Failed (length (bu_blocks b)) (bu_info_pad b) (bu_data_pad b)
                    (sum_list (map bk_size (bu_blocks b))))
                | Some data \<Rightarrow>
                    if dump_strings then
                      Returns (Dump_Strings (extract_utf8_lines data (length data div 2) 400)
                        (map from_utf8_lossy (filter (\<lambda>run. 6 \<le> length run) (runs printable data))))
                    else
                      (case needle of
                         Some f \<Rightarrow>
                           if f = [] then Panics
                           else Returns (Needle_Hits (map (\<lambda>p. \<lparr> lp_at = p, lp_ascii = extract_ascii_strings data p 8,
                             lp_utf8 = extract_utf8_lines data p 4, lp_utf16 = [] \<rparr>) (find_hits f data 0 0 5)))
                       | None \<Rightarrow>
                           Returns (Lyric_Positions (map (\<lambda>p. \<lparr> lp_at = p, lp_ascii = extract_ascii_strings data p 6,
                             lp_utf8 = extract_utf8_lines data p 4, lp_utf16 = extract_utf16_lines data p 2 \<rparr>)
                             (find_lyric_positions data 5)))))))"

end
