(* ===== verification/Bundle_Correct.thy ===== *)
theory Bundle_Correct
  imports Bundle
begin

text \<open>
  What the archive reader guarantees: the blocks it finds lie one behind the other inside the file, so
  that only a decompressor can refuse to expand them, and a bundle written in the documented layout is
  read back.
\<close>

section \<open>Lists of options\<close>

lemma those_Some: "those xs = Some ys \<Longrightarrow> xs = map Some ys"
  by (induction xs arbitrary: ys) (auto split: option.splits)

lemma those_map_Some [simp]: "those (map Some ys) = Some ys"
  by (induction ys) simp_all

lemma those_None: "those xs = None \<longleftrightarrow> None \<in> set xs"
  by (induction xs) (auto split: option.splits)

section \<open>Offsets\<close>

lemma assign_offsets_length [simp]: "length (assign_offsets off bs) = length bs"
  by (induction bs arbitrary: off) simp_all

lemma assign_offsets_empty [simp]: "assign_offsets off bs = [] \<longleftrightarrow> bs = []"
  by (cases bs) simp_all

lemma assign_offsets_within:
  "x \<in> set (assign_offsets off bs) \<Longrightarrow> off \<le> bk_off x \<and> bk_off x + bk_len x \<le> off + total_comp bs"
proof (induction bs arbitrary: off)
  case (Cons b bs)
  show ?case
  proof (cases "x = b\<lparr> bk_off := off \<rparr>")
    case False
    with Cons.prems have "x \<in> set (assign_offsets (off + bk_len b) bs)" by simp
    from Cons.IH [OF this] show ?thesis by (simp add: total_comp_def)
  qed (simp add: total_comp_def)
qed simp

lemma assign_offsets_next:
  "Suc i < length bs \<Longrightarrow> bk_off (assign_offsets off bs ! Suc i) =
     bk_off (assign_offsets off bs ! i) + bk_len (assign_offsets off bs ! i)"
proof (induction bs arbitrary: off i)
  case (Cons b bs)
  show ?case
  proof (cases i)
    case 0
    with Cons.prems show ?thesis by (cases bs) simp_all
  next
    case (Suc j)
    with Cons show ?thesis by simp
  qed
qed simp

lemma assign_offsets_hd: "bs \<noteq> [] \<Longrightarrow> hd (assign_offsets off bs) = (hd bs)\<lparr> bk_off := off \<rparr>"
  by (cases bs) simp_all

lemma block_method_off [simp]: "block_method (b\<lparr> bk_off := off \<rparr>) = block_method b"
  by (simp add: block_method_def)

lemma first_block_ok_off [simp]: "first_block_ok C raw (b\<lparr> bk_off := off \<rparr>) coff = first_block_ok C raw b coff"
  by (simp add: first_block_ok_def)

section \<open>What a parsed bundle holds\<close>

lemma find_data_pad_Some:
  "find_data_pad C raw blocks info_end pads = Some d \<Longrightarrow>
     d \<in> set pads \<and> info_end + d + total_comp blocks \<le> length raw \<and> first_block_ok C raw (hd blocks) (info_end + d)"
  by (induction C raw blocks info_end pads rule: find_data_pad.induct) (auto simp: Let_def split: if_splits)

text \<open>\<open>laid_out C raw b\<close>: the blocks of \<open>b\<close> follow one another inside \<open>raw\<close>, and the first one expands.\<close>

definition laid_out :: "bundle_codecs \<Rightarrow> u8 list \<Rightarrow> unity_bundle \<Rightarrow> bool" where
  "laid_out C raw b \<longleftrightarrow> bu_raw b = raw \<and> bu_blocks b \<noteq> [] \<and> length (bu_blocks b) \<le> 65536 \<and>
     bu_info_pad b \<in> set INFO_PADS \<and> bu_data_pad b \<le> 24 \<and>
     (\<forall>x \<in> set (bu_blocks b). bk_off x + bk_len x \<le> length raw) \<and>
     (\<forall>i. Suc i < length (bu_blocks b) \<longrightarrow>
        bk_off (bu_blocks b ! Suc i) = bk_off (bu_blocks b ! i) + bk_len (bu_blocks b ! i)) \<and>
     first_block_ok C raw (hd (bu_blocks b)) (bk_off (hd (bu_blocks b)))"

lemma parse_infos_laid_out:
  "parse_infos C raw pos cinfo uinfo meth pads = Some b \<Longrightarrow> set pads \<subseteq> set INFO_PADS \<Longrightarrow> laid_out C raw b"
proof (induction pads)
  case (Cons pad pads)
  show ?case
  proof (cases "parse_infos C raw pos cinfo uinfo meth pads = Some b")
    case True
    with Cons show ?thesis by simp
  next
    case False
    with Cons.prems(1) obtain info blocks d and count :: u32 where
      n: "unat count \<noteq> 0" "unat count \<le> 65536" and bs: "those (map (block_at info) [0..<unat count]) = Some blocks"
      and d: "find_data_pad C raw blocks (pos + 20 + pad + cinfo) [0..<25] = Some d"
      and b: "b = \<lparr> bu_raw = raw, bu_blocks = assign_offsets (pos + 20 + pad + cinfo + d) blocks,
         bu_info_pad = pad, bu_data_pad = d \<rparr>"
      by (auto simp: Let_def not_less split: option.splits if_splits)
    from those_Some [OF bs] have len: "length blocks = unat count" by (metis length_map length_upt diff_zero)
    with n have ne: "blocks \<noteq> []" by auto
    note dp = find_data_pad_Some [OF d]
    have "bk_off x + bk_len x \<le> length raw" if "x \<in> set (bu_blocks b)" for x
      using assign_offsets_within [of x] that dp b by fastforce
    with dp n ne Cons.prems(2) show ?thesis
      by (auto simp: laid_out_def b len assign_offsets_next assign_offsets_hd)
  qed
qed simp

lemma parse_bundle_laid_out:
  assumes "parse_bundle C raw = Some b"
  shows "laid_out C raw b"
proof -
  from assms obtain pos cinfo uinfo meth where "parse_infos C raw pos cinfo uinfo meth INFO_PADS = Some b"
    by (auto simp: parse_bundle_def Let_def split: if_splits option.splits)
  then show ?thesis by (rule parse_infos_laid_out) simp
qed

text \<open>How long a block is once it is expanded; a block that a decompressor refuses.\<close>

definition expanded_size :: "bundle_block \<Rightarrow> nat" where
  "expanded_size b = (if block_method b = 0 then bk_len b else bk_size b)"

definition refused_block :: "bundle_codecs \<Rightarrow> u8 list \<Rightarrow> bundle_block \<Rightarrow> bool" where
  "refused_block C raw b \<longleftrightarrow> (let input = take (bk_len b) (drop (bk_off b) raw); m = block_method b in
     m = 1 \<and> bc_lzma C input = None \<or> (m = 2 \<or> m = 3) \<and> bc_lz4 C input (bk_size b) = None \<or> 3 < m)"

lemma decompress_block_None:
  "bk_off b + bk_len b \<le> length raw \<Longrightarrow> decompress_block C raw b = None \<longleftrightarrow> refused_block C raw b"
  by (auto simp: decompress_block_def refused_block_def slice_def Let_def)

lemma decompress_block_size:
  "codec_laws C \<Longrightarrow> decompress_block C raw b = Some out \<Longrightarrow> block_method b \<noteq> 1 \<Longrightarrow> length out = expanded_size b"
  by (auto simp: decompress_block_def expanded_size_def codec_laws_def Let_def slice_length split: option.splits if_splits)

lemma first_block_not_refused:
  "first_block_ok C raw b (bk_off b) \<Longrightarrow> \<not> refused_block C raw b \<and> block_method b \<noteq> 1"
  by (auto simp: first_block_ok_def refused_block_def Let_def split: if_splits)

text \<open>
  A bundle that is accepted lies inside its file: its blocks, at most 65,536 of them, follow one
  another without a gap and none reaches behind the last byte, whatever the sizes in the header say.  So
  expanding it can only fail in a block behind the first whose decompressor refuses it or whose method is
  unknown; and what comes out has exactly the size the block table announces.
\<close>

theorem bundle_blocks_in_file:
  assumes laws: "codec_laws C" and parse: "parse_bundle C raw = Some b"
  shows "(\<forall>x \<in> set (bu_blocks b). bk_off x + bk_len x \<le> length raw) \<and>
    (\<forall>i. Suc i < length (bu_blocks b) \<longrightarrow>
      bk_off (bu_blocks b ! Suc i) = bk_off (bu_blocks b ! i) + bk_len (bu_blocks b ! i)) \<and>
    bu_blocks b \<noteq> [] \<and> length (bu_blocks b) \<le> 65536 \<and> bu_data_pad b \<le> 24 \<and>
    (case decompress_bundle C b of
       None \<Rightarrow> \<exists>x \<in> set (tl (bu_blocks b)). refused_block C raw x
     | Some out \<Rightarrow> (\<forall>x \<in> set (bu_blocks b). block_method x \<noteq> 1) \<longrightarrow>
         length out = sum_list (map expanded_size (bu_blocks b)))"
proof -
  from parse_bundle_laid_out [OF parse]
  have raw: "bu_raw b = raw" and ne: "bu_blocks b \<noteq> []" and lim: "length (bu_blocks b) \<le> 65536" "bu_data_pad b \<le> 24"
    and inside: "\<forall>x \<in> set (bu_blocks b). bk_off x + bk_len x \<le> length raw"
    and next_block: "\<forall>i. Suc i < length (bu_blocks b) \<longrightarrow>
      bk_off (bu_blocks b ! Suc i) = bk_off (bu_blocks b ! i) + bk_len (bu_blocks b ! i)"
    and first: "first_block_ok C raw (hd (bu_blocks b)) (bk_off (hd (bu_blocks b)))"
    unfolding laid_out_def by blast+
  have "case decompress_bundle C b of
       None \<Rightarrow> \<exists>x \<in> set (tl (bu_blocks b)). refused_block C raw x
     | Some out \<Rightarrow> (\<forall>x \<in> set (bu_blocks b). block_method x \<noteq> 1) \<longrightarrow>
         length out = sum_list (map expanded_size (bu_blocks b))"
  proof (cases "those (map (decompress_block C raw) (bu_blocks b))")
    case None
    then obtain x where "x \<in> set (bu_blocks b)" "refused_block C raw x"
      using inside by (auto simp: those_None decompress_block_None [THEN iffD1])
    with first_block_not_refused [OF first] ne have "x \<in> set (tl (bu_blocks b))" by (cases "bu_blocks b") auto
    with None \<open>refused_block C raw x\<close> show ?thesis by (auto simp: decompress_bundle_def raw)
  next
    case (Some outs)
    have "length (concat outs) = sum_list (map expanded_size bs)"
      if "map (decompress_block C raw) bs = map Some outs" "\<forall>x \<in> set bs. block_method x \<noteq> 1" for bs
      using that by (induction bs arbitrary: outs) (auto simp: decompress_block_size [OF laws] map_eq_Cons_conv Cons_eq_map_conv)
    with those_Some [OF Some] Some show ?thesis by (simp add: decompress_bundle_def raw)
  qed
  with inside next_block ne lim show ?thesis by blast
qed

section \<open>Reading a bundle back\<close>

text \<open>The documented layout: a table row, the block table, the whole file.\<close>

definition block_row :: "bundle_block \<Rightarrow> u8 list" where
  "block_row b = u32_to_be (of_nat (bk_size b)) @ u32_to_be (of_nat (bk_len b)) @ u16_to_be (bk_flags b)"

definition block_table :: "u8 list \<Rightarrow> bundle_block list \<Rightarrow> u8 list" where
  "block_table hash rows = hash @ u32_to_be (of_nat (length rows)) @ concat (map block_row rows)"

record bundle_header =
  hd_prefix :: "u8 list"
  hd_version :: "u8 list"
  hd_unity :: "u8 list"
  hd_engine :: "u8 list"
  hd_platform :: "u8 list"
  hd_size :: "u8 list"
  hd_uinfo :: u32
  hd_flags :: u32
  hd_pad :: "u8 list"

definition header_ok :: "bundle_header \<Rightarrow> bool" where
  "header_ok h \<longleftrightarrow> length (hd_prefix h) = 4 \<and> length (hd_version h) = 4 \<and> 0 \<notin> set (hd_unity h) \<and>
     0 \<notin> set (hd_engine h) \<and> length (hd_platform h) = 4 \<and> length (hd_size h) = 4 \<and> length (hd_pad h) = 14 \<and>
     24 \<le> unat (hd_uinfo h) \<and> unat (hd_uinfo h) \<le> 2 ^ 20 \<and> hd_flags h AND 0x80 = 0 \<and> unat (hd_flags h AND 0x3F) \<le> 3"

definition strings_end :: "bundle_header \<Rightarrow> nat" where
  "strings_end h = 18 + length (hd_unity h) + length (hd_engine h)"

definition bundle_image :: "bundle_header \<Rightarrow> u8 list \<Rightarrow> u8 list \<Rightarrow> u8 list \<Rightarrow> u8 list" where
  "bundle_image h info_c dpad data =
     hd_prefix h @ UNITY_MAGIC @ hd_version h @ hd_unity h @ 0 # hd_engine h @ 0 # hd_platform h @ hd_size h @
     u32_to_be (of_nat (length info_c)) @ u32_to_be (hd_uinfo h) @ u32_to_be (hd_flags h) @ hd_pad h @ info_c @ dpad @ data"

lemma be32_at: "length xs = a \<Longrightarrow> be32 (xs @ u32_to_be w @ ys) a = Some w"
  by (simp add: be32_def slice_append u32_be_round_trip)

lemma skip_cstring_at: "length xs = a \<Longrightarrow> 0 \<notin> set s \<Longrightarrow> skip_cstring (xs @ s @ 0 # ys) a = Some (a + length s + 1)"
  using position_append [of s "\<lambda>b. b = 0" 0 ys] by (auto simp: skip_cstring_def)

lemma block_row_length [simp]: "length (block_row b) = 10"
  by (simp add: block_row_def)

lemma block_rows_length [simp]: "length (concat (map block_row rows)) = 10 * length rows"
  by (induction rows) simp_all

lemma u16_be_bytes: "u16_from_be (xs ! 0) (xs ! 1) = w" if "xs = u16_to_be w" for w
  using that u16_be_round_trip by simp

lemma block_at_row:
  assumes pre: "length pre = 20 + i * 10" and b: "bk_size b < 2 ^ 32" "bk_len b < 2 ^ 32"
  shows "block_at (pre @ block_row b @ post) i = Some (b\<lparr> bk_off := 0 \<rparr>)"
proof -
  let ?info = "pre @ block_row b @ post"
  have "be32 ?info (20 + i * 10) = Some (of_nat (bk_size b))"
    unfolding block_row_def by (simp add: be32_at pre)
  moreover have "be32 ((pre @ u32_to_be (of_nat (bk_size b))) @ u32_to_be (of_nat (bk_len b)) @ u16_to_be (bk_flags b) @ post)
      (20 + i * 10 + 4) = Some (of_nat (bk_len b))"
    by (intro be32_at) (simp add: pre)
  then have "be32 ?info (20 + i * 10 + 4) = Some (of_nat (bk_len b))" by (simp add: block_row_def)
  moreover have "?info ! (20 + i * 10 + 8) = u16_to_be (bk_flags b) ! 0" "?info ! (20 + i * 10 + 9) = u16_to_be (bk_flags b) ! 1"
    by (simp_all add: nth_append pre block_row_def)
  ultimately show ?thesis using b by (simp add: block_at_def Let_def unat_of_nat u16_be_round_trip [simplified])
qed

lemma block_table_rows:
  assumes hash: "length hash = 16" and rows: "\<forall>b \<in> set rows. bk_size b < 2 ^ 32 \<and> bk_len b < 2 ^ 32"
  shows "those (map (block_at (block_table hash rows @ rest)) [0..<length rows]) = Some (map (\<lambda>b. b\<lparr> bk_off := 0 \<rparr>) rows)"
proof -
  have "block_at (block_table hash rows @ rest) i = Some ((rows ! i)\<lparr> bk_off := 0 \<rparr>)" if i: "i < length rows" for i
  proof -
    let ?pre = "hash @ u32_to_be (of_nat (length rows)) @ concat (map block_row (take i rows))"
    have "rows = take i rows @ rows ! i # drop (Suc i) rows" using i by (rule id_take_nth_drop)
    then have "concat (map block_row rows) =
        concat (map block_row (take i rows)) @ block_row (rows ! i) @ concat (map block_row (drop (Suc i) rows))"
      by (metis concat.simps(2) concat_append list.simps(9) map_append)
    then have "block_table hash rows @ rest = ?pre @ block_row (rows ! i) @ concat (map block_row (drop (Suc i) rows)) @ rest"
      by (simp add: block_table_def)
    moreover have "length ?pre = 20 + i * 10" using i hash by simp
    ultimately show ?thesis using rows i block_at_row [of ?pre i "rows ! i"] by (metis nth_mem)
  qed
  then have "map (block_at (block_table hash rows @ rest)) [0..<length rows] = map Some (map (\<lambda>b. b\<lparr> bk_off := 0 \<rparr>) rows)"
    by (intro nth_equalityI) simp_all
  then show ?thesis by (simp only: those_map_Some)
qed

lemma find_data_pad_at:
  "k \<le> n \<Longrightarrow> n < m \<Longrightarrow> info_end + n + total_comp blocks \<le> length raw \<Longrightarrow>
     first_block_ok C raw (hd blocks) (info_end + n) \<Longrightarrow>
     \<forall>d. k \<le> d \<longrightarrow> d < n \<longrightarrow> \<not> first_block_ok C raw (hd blocks) (info_end + d) \<Longrightarrow>
     find_data_pad C raw blocks info_end [k..<m] = Some n"
proof (induction "n - k" arbitrary: k)
  case 0
  then show ?case by (simp add: upt_conv_Cons Let_def)
next
  case (Suc x)
  then have "find_data_pad C raw blocks info_end [Suc k..<m] = Some n" by simp
  with Suc.hyps(2) Suc.prems show ?case by (simp add: upt_conv_Cons Let_def)
qed

text \<open>\<open>expands C b c p\<close>: the stored bytes \<open>c\<close> of the block \<open>b\<close> stand for \<open>p\<close>.\<close>

definition expands :: "bundle_codecs \<Rightarrow> bundle_block \<Rightarrow> u8 list \<Rightarrow> u8 list \<Rightarrow> bool" where
  "expands C b c p \<longleftrightarrow> (let m = block_method b in
     m = 0 \<and> p = c \<or> m = 1 \<and> bc_lzma C c = Some p \<or> (m = 2 \<or> m = 3) \<and> map_option fst (bc_lz4 C c (bk_size b)) = Some p)"

definition chunk_ok :: "bundle_codecs \<Rightarrow> bundle_block \<times> u8 list \<times> u8 list \<Rightarrow> bool" where
  "chunk_ok C x \<longleftrightarrow> (case x of (b, c, p) \<Rightarrow>
     bk_len b = length c \<and> length c < 2 ^ 32 \<and> bk_size b < 2 ^ 32 \<and> expands C b c p)"

abbreviation stored_bytes :: "(bundle_block \<times> u8 list \<times> u8 list) list \<Rightarrow> u8 list" where
  "stored_bytes chunks \<equiv> concat (map (\<lambda>x. fst (snd x)) chunks)"

abbreviation plain_bytes :: "(bundle_block \<times> u8 list \<times> u8 list) list \<Rightarrow> u8 list" where
  "plain_bytes chunks \<equiv> concat (map (\<lambda>x. snd (snd x)) chunks)"

lemma decompress_chunks:
  "\<forall>x \<in> set chunks. chunk_ok C x \<Longrightarrow> length pre = off \<Longrightarrow>
     those (map (decompress_block C (pre @ stored_bytes chunks))
       (assign_offsets off (map (\<lambda>x. (fst x)\<lparr> bk_off := 0 \<rparr>) chunks))) = Some (map (\<lambda>x. snd (snd x)) chunks)"
proof (induction chunks arbitrary: pre off)
  case (Cons x chunks)
  obtain b c p where x: "x = (b, c, p)" by (cases x)
  with Cons.prems have b: "bk_len b = length c" "expands C b c p" by (simp_all add: chunk_ok_def)
  have "decompress_block C (pre @ c @ stored_bytes chunks) (b\<lparr> bk_off := off \<rparr>) = Some p"
    using b Cons.prems(2) by (auto simp: decompress_block_def slice_append expands_def Let_def)
  moreover have "those (map (decompress_block C ((pre @ c) @ stored_bytes chunks))
      (assign_offsets (off + length c) (map (\<lambda>x. (fst x)\<lparr> bk_off := 0 \<rparr>) chunks))) = Some (map (\<lambda>x. snd (snd x)) chunks)"
    using Cons.prems by (intro Cons.IH) simp_all
  ultimately show ?case by (simp add: x b(1))
qed simp

lemma total_comp_chunks:
  "\<forall>x \<in> set chunks. chunk_ok C x \<Longrightarrow>
     total_comp (map (\<lambda>x. (fst x)\<lparr> bk_off := 0 \<rparr>) chunks) = length (stored_bytes chunks)"
  by (induction chunks) (auto simp: total_comp_def chunk_ok_def)

lemma first_chunk_ok:
  assumes "chunk_ok C (b, c, p)" and "block_method b \<noteq> 1" and "length pre = off"
  shows "first_block_ok C (pre @ c @ post) b off"
  using assms by (auto simp: chunk_ok_def expands_def first_block_ok_def Let_def)

lemma image_fields:
  assumes h: "header_ok h" and img: "img = bundle_image h info_c dpad data"
    and pos: "pos = strings_end h"
  shows "length img = pos + 34 + length info_c + length dpad + length data"
    and "take 8 (drop 4 img) = UNITY_MAGIC"
    and "Option.bind (skip_cstring img 16) (skip_cstring img) = Some pos"
    and "be32 img (pos + 8) = Some (of_nat (length info_c))"
    and "be32 img (pos + 12) = Some (hd_uinfo h)" and "be32 img (pos + 16) = Some (hd_flags h)"
    and "slice img (pos + 20 + 14) (length info_c) = Some info_c"
proof -
  from h have len: "length (hd_prefix h) = 4" "length (hd_version h) = 4" "length (hd_platform h) = 4"
    "length (hd_size h) = 4" "length (hd_pad h) = 14" and s: "0 \<notin> set (hd_unity h)" "0 \<notin> set (hd_engine h)"
    by (simp_all add: header_ok_def)
  have magic: "length UNITY_MAGIC = 8" by (simp add: UNITY_MAGIC_def)
  note defs = img bundle_image_def pos strings_end_def len magic
  show "length img = pos + 34 + length info_c + length dpad + length data" by (simp add: defs)
  show "take 8 (drop 4 img) = UNITY_MAGIC" by (simp add: defs)
  let ?a = "hd_prefix h @ UNITY_MAGIC @ hd_version h"
  let ?tail = "hd_platform h @ hd_size h @ u32_to_be (of_nat (length info_c)) @ u32_to_be (hd_uinfo h) @
    u32_to_be (hd_flags h) @ hd_pad h @ info_c @ dpad @ data"
  have "skip_cstring (?a @ hd_unity h @ 0 # hd_engine h @ 0 # ?tail) 16 = Some (16 + length (hd_unity h) + 1)"
    by (rule skip_cstring_at) (simp_all add: len magic s)
  moreover have "skip_cstring ((?a @ hd_unity h @ [0]) @ hd_engine h @ 0 # ?tail) (16 + length (hd_unity h) + 1) =
      Some (16 + length (hd_unity h) + 1 + length (hd_engine h) + 1)"
    by (rule skip_cstring_at) (simp_all add: len magic s)
  ultimately show "Option.bind (skip_cstring img 16) (skip_cstring img) = Some pos" by (simp add: img bundle_image_def pos strings_end_def)
  let ?b = "?a @ hd_unity h @ 0 # hd_engine h @ 0 # hd_platform h @ hd_size h"
  have "be32 (?b @ u32_to_be (of_nat (length info_c)) @ u32_to_be (hd_uinfo h) @ u32_to_be (hd_flags h) @ hd_pad h @ info_c @ dpad @ data)
      (pos + 8) = Some (of_nat (length info_c))"
    by (rule be32_at) (simp add: defs)
  then show "be32 img (pos + 8) = Some (of_nat (length info_c))" by (simp add: img bundle_image_def)
  have "be32 ((?b @ u32_to_be (of_nat (length info_c))) @ u32_to_be (hd_uinfo h) @ u32_to_be (hd_flags h) @ hd_pad h @ info_c @ dpad @ data)
      (pos + 12) = Some (hd_uinfo h)"
    by (rule be32_at) (simp add: defs)
  then show "be32 img (pos + 12) = Some (hd_uinfo h)" by (simp add: img bundle_image_def)
  have "be32 ((?b @ u32_to_be (of_nat (length info_c)) @ u32_to_be (hd_uinfo h)) @ u32_to_be (hd_flags h) @ hd_pad h @ info_c @ dpad @ data)
      (pos + 16) = Some (hd_flags h)"
    by (rule be32_at) (simp add: defs)
  then show "be32 img (pos + 16) = Some (hd_flags h)" by (simp add: img bundle_image_def)
  have "slice ((?b @ u32_to_be (of_nat (length info_c)) @ u32_to_be (hd_uinfo h) @ u32_to_be (hd_flags h) @ hd_pad h) @ info_c @ dpad @ data)
      (pos + 20 + 14) (length info_c) = Some info_c"
    by (rule slice_append) (simp_all add: defs)
  then show "slice img (pos + 20 + 14) (length info_c) = Some info_c" by (simp add: img bundle_image_def)
qed

lemma parse_infos_first:
  assumes "slice raw (pos + 20 + pad) cinfo = Some info_raw" and "decode_info C meth uinfo info_raw = Some info"
    and "be32 info 16 = Some count" and "unat count \<noteq> 0" "unat count \<le> 65536" "20 + unat count * 10 \<le> length info"
    and "those (map (block_at info) [0..<unat count]) = Some blocks"
    and "find_data_pad C raw blocks (pos + 20 + pad + cinfo) [0..<25] = Some d"
  shows "parse_infos C raw pos cinfo uinfo meth (pad # pads) = Some \<lparr> bu_raw = raw,
    bu_blocks = assign_offsets (pos + 20 + pad + cinfo + d) blocks, bu_info_pad = pad, bu_data_pad = d \<rparr>"
  using assms by (simp add: Let_def del: upt_Suc)

lemma parse_image:
  assumes h: "header_ok h" and hash: "length hash = 16"
    and info: "decode_info C (unat (hd_flags h AND 0x3F)) (unat (hd_uinfo h)) info_c = Some (block_table hash (map fst chunks) @ nodes)"
    and info_c: "info_c \<noteq> []" "length info_c < 2 ^ 32"
    and chunks: "\<forall>x \<in> set chunks. chunk_ok C x" "chunks \<noteq> []" "length chunks \<le> 65536" "block_method (fst (hd chunks)) \<noteq> 1"
    and img: "img = bundle_image h info_c dpad (stored_bytes chunks)" "96 \<le> length img"
    and dpad: "length dpad \<le> 24"
    and first: "\<forall>d < length dpad. \<not> first_block_ok C img (fst (hd chunks)) (strings_end h + 34 + length info_c + d)"
  shows "\<exists>pre. img = pre @ stored_bytes chunks \<and>
    parse_bundle C img = Some \<lparr> bu_raw = img,
      bu_blocks = assign_offsets (length pre) (map (\<lambda>x. (fst x)\<lparr> bk_off := 0 \<rparr>) chunks),
      bu_info_pad = 14, bu_data_pad = length dpad \<rparr>"
proof -
  define pos where "pos = strings_end h"
  note f = image_fields [OF h img(1) pos_def]
  let ?stop = "pos + 34 + length info_c" and ?rows = "map (\<lambda>x. (fst x)\<lparr> bk_off := 0 \<rparr>) chunks"
  obtain pre where pre: "img = pre @ stored_bytes chunks" "length pre = ?stop + length dpad"
  proof
    show "img = bundle_image h info_c dpad [] @ stored_bytes chunks" by (simp add: img(1) bundle_image_def)
    show "length (bundle_image h info_c dpad []) = ?stop + length dpad"
      using image_fields(1) [OF h refl pos_def, of info_c dpad "[]"] by simp
  qed
  obtain x xs where cons: "chunks = x # xs" using chunks(2) by (cases chunks) auto
  have ok: "first_block_ok C img (fst x) (?stop + length dpad)"
    using first_chunk_ok [of C "fst x" "fst (snd x)" "snd (snd x)" pre "?stop + length dpad" "stored_bytes xs"] chunks pre
    by (simp add: cons)
  have pad: "find_data_pad C img ?rows ?stop [0..<25] = Some (length dpad)"
    using total_comp_chunks [OF chunks(1)] f(1) first ok dpad
    by (intro find_data_pad_at) (simp_all add: cons pos_def)
  have "\<forall>b \<in> set (map fst chunks). bk_size b < 2 ^ 32 \<and> bk_len b < 2 ^ 32"
    using chunks(1) by (force simp: chunk_ok_def)
  from block_table_rows [OF hash this, of nodes]
  have rows: "those (map (block_at (block_table hash (map fst chunks) @ nodes)) [0..<length chunks]) = Some ?rows"
    by (simp add: comp_def)
  have count: "be32 (block_table hash (map fst chunks) @ nodes) 16 = Some (of_nat (length chunks))"
    using be32_at [OF hash] by (simp add: block_table_def)
  have n: "unat (of_nat (length chunks) :: u32) = length chunks" using chunks(3) by (simp add: unat_of_nat)
  let ?b = "\<lparr> bu_raw = img, bu_blocks = assign_offsets (?stop + length dpad) ?rows, bu_info_pad = 14, bu_data_pad = length dpad \<rparr>"
  have e: "pos + 20 + 14 + length info_c = ?stop" by simp
  have table: "20 + length chunks * 10 \<le> length (block_table hash (map fst chunks) @ nodes)"
    using block_rows_length [of "map fst chunks"] by (simp only: block_table_def length_append hash u32_to_be_length length_map)
  have "parse_infos C img pos (length info_c) (unat (hd_uinfo h)) (unat (hd_flags h AND 0x3F)) INFO_PADS = Some ?b"
    unfolding INFO_PADS_def e [symmetric]
    using parse_infos_first [OF f(7) info count, of ?rows "length dpad"] n rows pad chunks(2,3) table
    by (simp only: e length_0_conv simp_thms)
  moreover have "(of_nat (length info_c) :: u32) \<noteq> 0"
  proof
    assume "(of_nat (length info_c) :: u32) = 0"
    then have "unat (of_nat (length info_c) :: u32) = 0" by simp
    with info_c show False by (simp add: unat_of_nat)
  qed
  moreover from h info_c have "hd_flags h AND 0x80 = 0" "unat (of_nat (length info_c) :: u32) = length info_c"
    "\<not> unat (hd_uinfo h) < 24" "\<not> 2 ^ 20 < unat (hd_uinfo h)" "\<not> 3 < unat (hd_flags h AND 0x3F)"
    by (simp_all add: header_ok_def unat_of_nat)
  ultimately have "parse_bundle C img = Some ?b"
    using f img(2) by (simp add: parse_bundle_def Let_def)
  with pre show ?thesis by auto
qed


subsubsection \<open>A concrete bundle\<close>

text \<open>One stored block of 40 zeroes, the table stored as well.\<close>

definition stored_codecs :: bundle_codecs where
  "stored_codecs = \<lparr> bc_lz4 = (\<lambda>_ _. None), bc_lzma = (\<lambda>_. None) \<rparr>"

definition demo_header :: bundle_header where
  "demo_header = \<lparr> hd_prefix = [0xBA, 1, 0, 0], hd_version = [0, 0, 0, 8], hd_unity = [53], hd_engine = [54], hd_platform = [0, 0, 0, 0],
     hd_size = [0, 0, 0, 0], hd_uinfo = 30, hd_flags = 0x240, hd_pad = replicate 14 0 \<rparr>"

definition demo_chunk :: "bundle_block \<times> u8 list \<times> u8 list" where
  "demo_chunk = (\<lparr> bk_off = 0, bk_len = 40, bk_size = 40, bk_flags = 0 \<rparr>, replicate 40 7, replicate 40 7)"

abbreviation demo_image :: "u8 list" where
  "demo_image \<equiv> bundle_image demo_header (block_table (replicate 16 0) [fst demo_chunk]) [] (replicate 40 7)"

lemma demo_bundle:
  shows "header_ok demo_header" and "\<forall>x \<in> set [demo_chunk]. chunk_ok stored_codecs x"
    and "decode_info stored_codecs (unat (hd_flags demo_header AND 0x3F)) (unat (hd_uinfo demo_header))
      (block_table (replicate 16 0) [fst demo_chunk]) = Some (block_table (replicate 16 0) (map fst [demo_chunk]) @ [])"
    and "length (block_table (replicate 16 0) [fst demo_chunk]) = 30" and "block_method (fst demo_chunk) = 0"
  by (simp_all add: header_ok_def demo_header_def chunk_ok_def demo_chunk_def expands_def block_method_def decode_info_def
      block_table_def)

lemma demo_image_eq: "demo_image = bundle_image demo_header (block_table (replicate 16 0) [fst demo_chunk]) [] (stored_bytes [demo_chunk])"
  by (simp add: demo_chunk_def)

lemma demo_image_length: "96 \<le> length demo_image"
  using image_fields(1) [OF demo_bundle(1) refl refl, of "block_table (replicate 16 0) [fst demo_chunk]" "[]" "replicate 40 7"]
    demo_bundle(4) by (simp add: strings_end_def demo_header_def)


theorem bundle_blocks_in_file_witness:
  "\<exists>b. parse_bundle stored_codecs demo_image = Some b \<and>
     (\<forall>x \<in> set (bu_blocks b). bk_off x + bk_len x \<le> length demo_image)"
proof -
  have ne: "block_table (replicate 16 0) [fst demo_chunk] \<noteq> []" using demo_bundle(4) by auto
  from parse_image [OF demo_bundle(1) _ demo_bundle(3) ne _ demo_bundle(2) _ _ _ demo_image_eq demo_image_length]
  obtain b where b: "parse_bundle stored_codecs demo_image = Some b" using demo_bundle(4,5) by auto
  have "codec_laws stored_codecs" by (simp add: codec_laws_def stored_codecs_def)
  from bundle_blocks_in_file [OF this b] b show ?thesis by blast
qed

section \<open>Where the search for the paddings stops\<close>

text \<open>A block table that does not decompress at the first padding ends the search: the other paddings are
  never tried.  And no bundle whose first block is LZMA is accepted, although the expansion handles it.\<close>

lemma info_pad_not_retried:
  assumes "slice raw (pos + 20 + 14) cinfo = Some info_raw" and "decode_info C meth uinfo info_raw = None"
  shows "parse_infos C raw pos cinfo uinfo meth INFO_PADS = None"
  using assms by (simp add: INFO_PADS_def)

lemma lzma_first_rejected: "parse_bundle C raw = Some b \<Longrightarrow> block_method (hd (bu_blocks b)) \<noteq> 1"
  using parse_bundle_laid_out [of C raw b] first_block_not_refused unfolding laid_out_def by blast

end
