(* ===== verification/Text_Scan_Correct.thy ===== *)
theory Text_Scan_Correct
  imports Text_Scan Bundle_Correct
begin

text \<open>
  What the text searches find: every occurrence of the object name and nothing else, every long run of
  kana, every music id with its count; that folding the spaces of a text byte by byte is folding its
  characters; that the statistics do not depend on how the files are distributed; and that a hit holds
  proper strings.
\<close>

section \<open>Occurrences\<close>

definition unbordered :: "'a list \<Rightarrow> bool" where
  "unbordered pat \<longleftrightarrow> (\<forall>k. 0 < k \<longrightarrow> k < length pat \<longrightarrow> drop k pat \<noteq> take (length pat - k) pat)"

lemma unbordered_apart:
  assumes u: "unbordered pat" and i: "occurs_at pat xs i" and j: "occurs_at pat xs j" and "i < j"
  shows "i + length pat \<le> j"
proof (rule ccontr)
  assume "\<not> ?thesis"
  then obtain k where k: "j = i + k" "0 < k" "k < length pat" using \<open>i < j\<close> less_imp_add_positive by (auto simp: not_le)
  have "drop k pat = drop k (take (length pat) (drop i xs))" using i by (simp add: occurs_at_def)
  also have "\<dots> = take (length pat - k) (take (length pat) (drop j xs))" by (simp add: drop_take k add.commute min_def)
  also have "\<dots> = take (length pat - k) pat" using j by (simp add: occurs_at_def)
  finally show False using u k by (simp add: unbordered_def)
qed

lemma find_hits_exact:
  "unbordered pat \<Longrightarrow> pat \<noteq> [] \<Longrightarrow> start \<le> length data \<Longrightarrow> hits < cap \<Longrightarrow>
     find_hits pat data start hits cap = take (cap - hits) (filter (occurs_at pat data) [start..<length data])"
proof (induction pat data start hits cap rule: find_hits.induct)
  case (1 pat data start hits cap)
  note u = 1(2) and ne = 1(3) and start = 1(4) and cap = 1(5)
  show ?case
  proof (cases "find_window pat (drop start data)")
    case None
    then have "\<not> occurs_at pat data i" if "start \<le> i" for i
      using find_window_None [OF ne, of "drop start data"] occurs_at_drop [OF start, of pat "i - start"] that by simp
    then have "filter (occurs_at pat data) [start..<length data] = []" by (auto simp: filter_empty_conv)
    with None ne show ?thesis by (simp add: find_hits.simps [of pat])
  next
    case (Some rel)
    define s where "s = start + rel"
    from Some have occ: "occurs_at pat data s" and before: "\<And>i. start \<le> i \<Longrightarrow> i < s \<Longrightarrow> \<not> occurs_at pat data i"
      unfolding find_window_Some [OF ne] by (auto simp: occurs_at_drop [OF start] s_def) (metis add_diff_inverse_nat nat_add_left_cancel_less not_less)
    have len: "s + length pat \<le> length data" using occ by (simp add: occurs_at_def)
    have pos: "0 < length pat" using ne by simp
    have after: "\<not> occurs_at pat data i" if "s < i" "i < s + length pat" for i
      using unbordered_apart [OF u occ _ that(1)] that(2) by auto
    have "[start..<length data] = [start..<s] @ s # [Suc s..<s + length pat] @ [s + length pat..<length data]"
    proof -
      have "[start..<length data] = [start..<s] @ [s..<length data]" using len s_def by (metis upt_add_eq_append le_add1 le_Suc_ex add_leD1)
      moreover have "[s..<length data] = s # [Suc s..<length data]" using len ne by (intro upt_conv_Cons) (cases pat, auto)
      moreover have "[Suc s..<length data] = [Suc s..<s + length pat] @ [s + length pat..<length data]"
        using len pos by (metis upt_add_eq_append Suc_leI le_Suc_ex less_add_same_cancel1)
      ultimately show ?thesis by simp
    qed
    then have "filter (occurs_at pat data) [start..<length data] =
        filter (occurs_at pat data) [start..<s] @ s # filter (occurs_at pat data) [Suc s..<s + length pat] @
          filter (occurs_at pat data) [s + length pat..<length data]"
      using occ by simp
    also have "filter (occurs_at pat data) [start..<s] = []" using before by (auto simp: filter_empty_conv)
    also have "filter (occurs_at pat data) [Suc s..<s + length pat] = []" using after by (auto simp: filter_empty_conv)
    finally have split: "filter (occurs_at pat data) [start..<length data] =
        s # filter (occurs_at pat data) [s + length pat..<length data]" by simp
    show ?thesis
    proof (cases "cap \<le> hits + 1")
      case True
      then have "cap - hits = 1" using cap by simp
      with True Some ne show ?thesis unfolding split by (simp add: find_hits.simps [of pat data start] s_def)
    next
      case False
      then have "cap - hits = Suc (cap - (hits + 1))" using cap by simp
      with 1(1) [OF ne Some False u ne] False Some ne len show ?thesis
        unfolding split by (simp add: find_hits.simps [of pat data start] s_def)
    qed
  qed
qed

lemma LYRIC_unbordered: "unbordered LYRIC"
  unfolding unbordered_def
proof (intro allI impI)
  fix k :: nat assume "0 < k" "k < length LYRIC"
  then consider "k = 1" | "k = 2" | "k = 3" | "k = 4" by (force simp: LYRIC_def)
  then show "drop k LYRIC \<noteq> take (length LYRIC - k) LYRIC" by cases (simp_all add: LYRIC_def)
qed

text \<open>
  The search for the object name reports the positions at which the five letters stand, in either
  case, in ascending order and without a gap: the first \<open>cap\<close> of them, and at least one if there is one.
\<close>

theorem lyric_positions_exact:
  "find_lyric_positions data cap =
     take (max 1 cap) (filter (occurs_at LYRIC (to_ascii_lowercase data)) [0..<length data])"
proof -
  have ne: "LYRIC \<noteq> []" by (simp add: LYRIC_def)
  have len: "length (to_ascii_lowercase data) = length data" by (simp add: to_ascii_lowercase_def)
  show ?thesis
  proof (cases "cap = 0")
    case True
    have "find_hits LYRIC (to_ascii_lowercase data) 0 0 0 = find_hits LYRIC (to_ascii_lowercase data) 0 0 1"
      using ne by (simp add: find_hits.simps [of LYRIC] split: option.split)
    with True find_hits_exact [OF LYRIC_unbordered ne, of 0 "to_ascii_lowercase data" 0 1] len
    show ?thesis by (simp add: find_lyric_positions_def)
  next
    case False
    with find_hits_exact [OF LYRIC_unbordered ne, of 0 "to_ascii_lowercase data" 0 cap] len
    show ?thesis by (simp add: find_lyric_positions_def max_def)
  qed
qed

section \<open>Runs of kana\<close>

text \<open>The code unit \<open>k\<close> is kana; a run of at least \<open>n\<close> begins there.\<close>

definition kana_unit :: "u8 list \<Rightarrow> nat \<Rightarrow> bool" where
  "kana_unit data k \<longleftrightarrow> is_kana (u16_at data (2 * k))"

definition run_begins :: "u8 list \<Rightarrow> nat \<Rightarrow> nat \<Rightarrow> bool" where
  "run_begins data n k \<longleftrightarrow> (k = 0 \<or> \<not> kana_unit data (k - 1)) \<and> k + n \<le> length data div 2 \<and>
     (\<forall>j < n. kana_unit data (k + j))"

lemma kana_loop_exact:
  assumes pos: "0 < n"
  shows "m \<le> length data div 2 \<Longrightarrow> rl \<le> m \<Longrightarrow> \<forall>j. m - rl \<le> j \<longrightarrow> j < m \<longrightarrow> kana_unit data j \<Longrightarrow>
    m - rl = 0 \<or> \<not> kana_unit data (m - rl - 1) \<Longrightarrow> 0 < rl \<longrightarrow> rs = 2 * (m - rl) \<Longrightarrow>
    ps = take cap (map ((*) 2) (filter (run_begins data n) [0..<m - rl])) \<Longrightarrow>
    kana_loop data n cap (2 * m) rs rl ps = take cap (map ((*) 2) (filter (run_begins data n) [0..<length data div 2]))"
proof (induction "length data div 2 - m" arbitrary: m rs rl ps)
  case (Suc x)
  note inv = Suc.prems
  have m: "2 * m + 1 < length data" using Suc.hyps(2) by linarith
  show ?case
  proof (cases "kana_unit data m")
    case True
    have "kana_loop data n cap (2 * Suc m) (if rl = 0 then 2 * m else rs) (rl + 1) ps =
        take cap (map ((*) 2) (filter (run_begins data n) [0..<length data div 2]))"
      using Suc.hyps(2) inv True by (intro Suc.hyps(1)) (auto simp: less_Suc_eq)
    with True m show ?thesis by (subst kana_loop.simps) (simp add: kana_unit_def Let_def)
  next
    case False
    have inner: "\<not> run_begins data n k" if "m - rl < k" "k \<le> m" for k
      using that inv(3) False pos by (cases "k = m") (auto simp: run_begins_def)
    have first: "run_begins data n (m - rl) \<longleftrightarrow> n \<le> rl"
    proof
      assume r: "run_begins data n (m - rl)"
      show "n \<le> rl"
      proof (rule ccontr)
        assume "\<not> n \<le> rl"
        with r have "kana_unit data (m - rl + rl)" unfolding run_begins_def by (metis not_le)
        with inv(2) False show False by simp
      qed
    next
      assume "n \<le> rl"
      with inv show "run_begins data n (m - rl)" by (auto simp: run_begins_def)
    qed
    have "[0..<Suc m] = [0..<m - rl] @ (m - rl) # [Suc (m - rl)..<Suc m]"
      using upt_add_eq_append [of 0 "m - rl" "Suc rl"] upt_conv_Cons [of "m - rl" "Suc m"] inv(2) by (simp del: upt_Suc)
    moreover have "filter (run_begins data n) [Suc (m - rl)..<Suc m] = []" using inner by (auto simp: filter_empty_conv)
    ultimately have f: "filter (run_begins data n) [0..<Suc m] =
        filter (run_begins data n) [0..<m - rl] @ (if n \<le> rl then [m - rl] else [])"
      using first by simp
    let ?ps = "if n \<le> rl \<and> length ps < cap then ps @ [rs] else ps"
    have "?ps = take cap (map ((*) 2) (filter (run_begins data n) [0..<Suc m]))"
      using inv(5,6) pos unfolding f by auto
    then have "kana_loop data n cap (2 * Suc m) rs 0 ?ps =
        take cap (map ((*) 2) (filter (run_begins data n) [0..<length data div 2]))"
      using Suc.hyps(2) False by (intro Suc.hyps(1)) auto
    with False m show ?thesis by (subst kana_loop.simps) (simp add: kana_unit_def Let_def)
  qed
next
  case 0
  then have m: "m = length data div 2" by simp
  note inv = 0(2-)
  have "\<not> run_begins data n k" if "m - rl < k" for k
    using that inv(3) m pos by (cases "k \<le> m") (auto simp: run_begins_def)
  moreover have "run_begins data n (m - rl) \<longleftrightarrow> n \<le> rl"
    using inv m by (auto simp: run_begins_def)
  moreover have "[0..<m] = [0..<m - rl] @ (if rl = 0 then [] else (m - rl) # [Suc (m - rl)..<m])"
  proof (cases "rl = 0")
    case False
    with inv(2) have "m - rl < m" by linarith
    with False inv(2) show ?thesis using upt_add_eq_append [of 0 "m - rl" rl] by (simp add: upt_conv_Cons del: upt_Suc)
  qed simp
  ultimately have f: "filter (run_begins data n) [0..<m] =
      filter (run_begins data n) [0..<m - rl] @ (if n \<le> rl then [m - rl] else [])"
    using pos by (auto simp: filter_empty_conv)
  have "\<not> 2 * m + 1 < length data" using m by linarith
  then have "kana_loop data n cap (2 * m) rs rl ps = (if n \<le> rl \<and> length ps < cap then ps @ [rs] else ps)"
    by (subst kana_loop.simps) (simp add: Let_def)
  also have "\<dots> = take cap (map ((*) 2) (filter (run_begins data n) [0..<m]))"
    using inv(5,6) pos unfolding f by auto
  finally show ?case by (simp add: m)
qed

text \<open>
  The search for runs of kana reports the byte offsets at which a maximal run of at least \<open>n\<close> kana
  code units begins, in ascending order: the first \<open>cap\<close> of them.
\<close>

theorem kana_runs_exact:
  assumes "0 < n"
  shows "find_utf16_kana_positions data n cap =
    take cap (map ((*) 2) (filter (run_begins data n) [0..<length data div 2]))"
  using kana_loop_exact [OF assms, of 0 data 0 0 "[]" cap] by (simp add: find_utf16_kana_positions_def)

definition demo_kana :: "u8 list" where
  "demo_kana = [0x42, 0x30, 0x44, 0x30, 0, 0, 0x46, 0x30]"

lemma demo_kana_units: "map (kana_unit demo_kana) [0, 1, 2, 3] = [True, True, False, True]"
  by (simp add: kana_unit_def is_kana_def u16_at_def u16_from_le_def demo_kana_def)

theorem kana_runs_exact_witness: "find_utf16_kana_positions demo_kana 2 5 = [0]"
proof -
  have len: "length demo_kana div 2 = 4" by (simp add: demo_kana_def)
  have "run_begins demo_kana 2 0" "\<not> run_begins demo_kana 2 1" "\<not> run_begins demo_kana 2 2" "\<not> run_begins demo_kana 2 3"
    using demo_kana_units len by (auto simp: run_begins_def All_less_Suc numeral_2_eq_2)
  moreover have "[0..<4] = [0, 1, 2, 3 :: nat]" by (simp add: upt_conv_Cons)
  ultimately show ?thesis using kana_runs_exact [of 2 demo_kana 5] len by simp
qed

section \<open>Music ids\<close>

lemma runs_append:
  "zs = [] \<or> \<not> p (hd zs) \<Longrightarrow> runs p (ys @ zs) = runs p ys @ runs p zs"
proof (induction p ys rule: runs.induct)
  case (2 p x xs)
  show ?case
  proof (cases "p x")
    case True
    have t: "takeWhile p (xs @ zs) = takeWhile p xs" "dropWhile p (xs @ zs) = dropWhile p xs @ zs"
      using "2.prems" by (cases zs; induction xs; auto)+
    from "2.IH"(1) [OF True "2.prems"] True show ?thesis by (simp add: t)
  qed (use 2 in simp)
qed simp

lemma runs_within_runs:
  "(\<And>x. p x \<Longrightarrow> q x) \<Longrightarrow> concat (map (runs p) (runs q xs)) = runs p xs"
proof (induction q xs rule: runs.induct)
  case (2 q x xs)
  show ?case
  proof (cases "q x")
    case True
    have "dropWhile q xs = [] \<or> \<not> p (hd (dropWhile q xs))"
      using hd_dropWhile [of q xs] "2.prems" by blast
    from runs_append [where p = p and zs = "dropWhile q xs", OF this, of "x # takeWhile q xs"] "2.IH"(1) [OF True "2.prems"] True show ?thesis by simp
  next
    case False
    with 2 show ?thesis by auto
  qed
qed simp

text \<open>\<open>stands_alone p pat xs i\<close>: the block \<open>pat\<close> stands at position \<open>i\<close> of \<open>xs\<close>, and the
  elements before and behind it, where there are any, do not satisfy \<open>p\<close>.\<close>

definition stands_alone :: "('a \<Rightarrow> bool) \<Rightarrow> 'a list \<Rightarrow> 'a list \<Rightarrow> nat \<Rightarrow> bool" where
  "stands_alone p pat xs i \<longleftrightarrow>
     i + length pat \<le> length xs \<and> take (length pat) (drop i xs) = pat
   \<and> (i = 0 \<or> \<not> p (xs ! (i - 1)))
   \<and> (i + length pat = length xs \<or> \<not> p (xs ! (i + length pat)))"

lemma filter_upt_add:
  "filter P [0..<m + n] = filter P [0..<m] @ map (\<lambda>k. m + k) (filter (\<lambda>k. P (m + k)) [0..<n])"
proof -
  have "[m..<m + n] = map (\<lambda>k. m + k) [0..<n]"
    using map_add_upt [of m n, symmetric] by (simp only: add.commute [of m])
  then show ?thesis using upt_add_eq_append [of 0 m n] by (simp add: filter_map comp_def)
qed

lemma stands_alone_outside:
  assumes "\<not> p x" and "list_all p pat" and "pat \<noteq> []"
  shows "\<not> stands_alone p pat (x # xs) 0"
    and "stands_alone p pat (x # xs) (Suc k) \<longleftrightarrow> stands_alone p pat xs k"
proof -
  show "\<not> stands_alone p pat (x # xs) 0" using assms by (cases pat) (auto simp: stands_alone_def)
  show "stands_alone p pat (x # xs) (Suc k) \<longleftrightarrow> stands_alone p pat xs k"
    using assms(1) by (cases k) (simp_all add: stands_alone_def)
qed

lemma stands_alone_first:
  assumes "list_all p r" and "rest = [] \<or> \<not> p (hd rest)" and "list_all p pat" and "pat \<noteq> []"
  shows "stands_alone p pat (r @ rest) 0 \<longleftrightarrow> r = pat"
proof
  assume st: "stands_alone p pat (r @ rest) 0"
  have "\<not> length pat < length r"
  proof
    assume l: "length pat < length r"
    then have "p (r ! length pat)" using assms(1) by (simp add: list_all_length)
    with st l show False by (simp add: stands_alone_def nth_append)
  qed
  moreover have "\<not> length r < length pat"
  proof
    assume l: "length r < length pat"
    have ne: "rest \<noteq> []" using l st by (auto simp: stands_alone_def)
    have "pat ! length r = take (length pat) (r @ rest) ! length r" using st by (simp add: stands_alone_def)
    also have "\<dots> = hd rest"
      unfolding nth_take [OF l] using ne by (simp add: nth_append hd_conv_nth)
    finally have "p (hd rest)" using assms(3) l by (metis list_all_length)
    with ne assms(2) show False by simp
  qed
  ultimately have "length pat = length r" by simp
  with st show "r = pat" by (simp add: stands_alone_def)
next
  assume "r = pat"
  with assms(2) show "stands_alone p pat (r @ rest) 0"
    by (cases rest) (auto simp: stands_alone_def nth_append)
qed

lemma stands_alone_inside:
  assumes "list_all p r" and "0 < i" and "i < length r"
  shows "\<not> stands_alone p pat (r @ rest) i"
proof -
  have i: "i - 1 < length r" using assms by simp
  then have "p ((r @ rest) ! (i - 1))" using assms(1) by (simp add: list_all_length nth_append)
  with assms(2) show ?thesis by (simp add: stands_alone_def)
qed

lemma stands_alone_behind:
  assumes "r \<noteq> []" and "list_all p r" and "rest = [] \<or> \<not> p (hd rest)" and "list_all p pat" and "pat \<noteq> []"
  shows "stands_alone p pat (r @ rest) (length r + k) \<longleftrightarrow> stands_alone p pat rest k"
proof (cases k)
  case 0
  have "\<not> stands_alone p pat rest 0"
    using assms(3-5) by (cases rest; cases pat) (auto simp: stands_alone_def)
  moreover have "p (r ! (length r - 1))" using assms(1,2) by (simp add: list_all_length)
  ultimately show ?thesis using 0 assms(1) by (simp add: stands_alone_def nth_append)
next
  case (Suc j)
  then show ?thesis by (simp add: stands_alone_def nth_append add.assoc)
qed

lemma runs_positions:
  assumes pat: "list_all p pat" "pat \<noteq> []"
  shows "length (filter (\<lambda>tok. tok = pat) (runs p xs)) =
    length (filter (stands_alone p pat xs) [0..<length xs])"
  using pat
proof (induction p xs rule: runs.induct)
  case (2 p x xs)
  show ?case
  proof (cases "p x")
    case True
    define r where "r = x # takeWhile p xs"
    define rest where "rest = dropWhile p xs"
    have xs: "x # xs = r @ rest" by (simp add: r_def rest_def)
    have r: "list_all p r" "r \<noteq> []" using True by (auto simp: r_def list_all_iff dest: set_takeWhileD)
    have rest: "rest = [] \<or> \<not> p (hd rest)" using hd_dropWhile [of p xs] by (auto simp: rest_def)
    have "filter (stands_alone p pat (r @ rest)) [0..<length r] = (if r = pat then [0] else [])"
    proof -
      have "[0..<length r] = 0 # [1..<length r]" using r by (simp add: upt_conv_Cons)
      moreover have "filter (stands_alone p pat (r @ rest)) [1..<length r] = []"
        using stands_alone_inside [OF r(1)] by (auto simp: filter_empty_conv)
      ultimately show ?thesis
        using stands_alone_first [OF r(1) rest "2.prems"] by (cases "r = pat") simp_all
    qed
    moreover have "filter (\<lambda>k. stands_alone p pat (r @ rest) (length r + k)) [0..<length rest] =
        filter (stands_alone p pat rest) [0..<length rest]"
      using stands_alone_behind [OF r(2) r(1) rest "2.prems"] by simp
    ultimately have "length (filter (stands_alone p pat (r @ rest)) [0..<length (r @ rest)]) =
        (if r = pat then 1 else 0) + length (filter (stands_alone p pat rest) [0..<length rest])"
      by (simp add: filter_upt_add del: upt_Suc)
    moreover have "runs p (x # xs) = r # runs p rest" using True by (simp add: r_def rest_def)
    ultimately show ?thesis using "2.IH"(1) [OF True "2.prems"] unfolding xs rest_def by simp
  next
    case False
    have "[0..<length (x # xs)] = 0 # map Suc [0..<length xs]"
      by (simp add: upt_conv_Cons map_Suc_upt del: upt_Suc)
    with "2.IH"(2) [OF False "2.prems"] False stands_alone_outside [OF False "2.prems"]
    show ?thesis by (simp add: filter_map comp_def del: upt_Suc)
  qed
qed simp

text \<open>The three decimal digits of an id, and how often they stand in the data with neither a letter
  nor a digit before or behind them.  Nothing here refers to the scan.\<close>

definition id_digits :: "nat \<Rightarrow> u8 list" where
  "id_digits v = map (\<lambda>d. of_nat (48 + d)) [v div 100, v div 10 mod 10, v mod 10]"

definition letter_or_digit :: "u8 \<Rightarrow> bool" where
  "letter_or_digit b \<longleftrightarrow> unat b \<in> {48..57} \<union> {65..90} \<union> {97..122}"

definition id_stands :: "u8 list \<Rightarrow> nat \<Rightarrow> nat \<Rightarrow> bool" where
  "id_stands data v i \<longleftrightarrow> stands_alone letter_or_digit (id_digits v) data i"

definition music_count :: "u8 list \<Rightarrow> nat \<Rightarrow> nat" where
  "music_count data v = length (filter (id_stands data v) [0..<length data])"

lemma letter_or_digit: "letter_or_digit = is_alnum"
  by (auto simp: fun_eq_iff letter_or_digit_def is_alnum_def is_digit_def word_le_nat_alt)

lemma is_digit_unat: "is_digit b \<longleftrightarrow> (\<exists>d. d \<le> 9 \<and> b = of_nat (48 + d))"
proof
  assume d: "is_digit b"
  have "b = of_nat (48 + (unat b - 48))" using d by (simp add: is_digit_def word_le_nat_alt)
  moreover have "unat b - 48 \<le> 9" using d by (auto simp: is_digit_def word_le_nat_alt)
  ultimately show "\<exists>d. d \<le> 9 \<and> b = of_nat (48 + d)" by blast
next
  assume "\<exists>d. d \<le> 9 \<and> b = of_nat (48 + d)"
  then show "is_digit b" by (auto simp: is_digit_def word_le_nat_alt unat_of_nat take_bit_nat_def simp del: of_nat_add)
qed

lemma digits_value_three:
  "a \<le> 9 \<Longrightarrow> b \<le> 9 \<Longrightarrow> c \<le> 9 \<Longrightarrow>
    digits_value (map unat [of_nat (48 + a) :: u8, of_nat (48 + b), of_nat (48 + c)]) 0 = 100 * a + 10 * b + c"
  by (simp add: unat_of_nat take_bit_nat_def del: of_nat_add)

lemma token_id_digits:
  assumes "1 \<le> v" and "v \<le> 176"
  shows "token_id tok = Some v \<longleftrightarrow> tok = id_digits v"
proof
  assume t: "token_id tok = Some v"
  then have "length tok = 3" "list_all is_digit tok" by (auto simp: token_id_def split: if_splits)
  then obtain a b c where tok: "tok = map (\<lambda>d. of_nat (48 + d)) [a, b, c]" and le: "a \<le> 9" "b \<le> 9" "c \<le> 9"
    by (auto simp: numeral_3_eq_3 length_Suc_conv is_digit_unat simp del: of_nat_add)
  have "v = 100 * a + 10 * b + c"
    using t digits_value_three [OF le] unfolding tok token_id_def by (auto simp: Let_def split: if_splits)
  then have v: "v = c + 10 * (b + 10 * a)" by simp
  have "v mod 10 = c" unfolding v mod_mult_self2 using le by simp
  moreover have "v div 10 = b + 10 * a"
    unfolding v using le by (subst div_mult_self2) simp_all
  moreover have "(b + 10 * a) mod 10 = b" unfolding mod_mult_self2 using le by simp
  moreover have "(b + 10 * a) div 10 = a" using le by (subst div_mult_self2) simp_all
  ultimately have "v mod 10 = c" "v div 10 mod 10 = b" "v div 100 = a" by (simp_all add: div_mult2_eq [of v 10 10, simplified])
  then show "tok = id_digits v" by (simp add: tok id_digits_def)
next
  assume tok: "tok = id_digits v"
  have le: "v div 100 \<le> 9" "v div 10 mod 10 \<le> 9" "v mod 10 \<le> 9" using assms by linarith+
  have "list_all is_digit tok" using le by (auto simp: tok id_digits_def is_digit_unat simp del: of_nat_add)
  moreover have "100 * (v div 100) + 10 * (v div 10 mod 10) + v mod 10 = v"
    using div_mult_mod_eq [of v 10] div_mult_mod_eq [of "v div 10" 10] div_mult2_eq [of v 10 10, simplified]
    by linarith
  then have "digits_value (map unat tok) 0 = v"
    using digits_value_three [OF le] by (simp add: tok id_digits_def del: of_nat_add)
  ultimately show "token_id tok = Some v"
    using \<open>digits_value (map unat tok) 0 = v\<close> assms by (simp add: token_id_def) (simp add: tok id_digits_def)
qed

definition token_count :: "u8 list list \<Rightarrow> nat \<Rightarrow> nat" where
  "token_count toks v = length (filter (\<lambda>tok. token_id tok = Some v) toks)"

lemma music_count_tokens:
  assumes "1 \<le> v" and "v \<le> 176"
  shows "music_count data v = token_count (runs is_alnum data) v"
proof -
  have le: "v div 100 \<le> 9" "v div 10 mod 10 \<le> 9" "v mod 10 \<le> 9" using assms by linarith+
  have "list_all is_alnum (id_digits v)" "id_digits v \<noteq> []"
    using le by (auto simp: id_digits_def is_alnum_def is_digit_unat simp del: of_nat_add)
  moreover have "id_stands data v = stands_alone is_alnum (id_digits v) data"
    by (simp add: fun_eq_iff id_stands_def letter_or_digit)
  ultimately show ?thesis
    using assms runs_positions [of is_alnum "id_digits v" data]
    by (simp add: music_count_def token_count_def token_id_digits)
qed

lemma token_count_simps [simp]:
  "token_count [] v = 0"
  "token_count (tok # toks) v = (if token_id tok = Some v then 1 else 0) + token_count toks v"
  by (simp_all add: token_count_def)

lemma token_id_range: "token_id tok = Some v \<Longrightarrow> 1 \<le> v \<and> v \<le> 176"
  by (auto simp: token_id_def Let_def split: if_splits)

lemma count_up_keys: "distinct (map fst m) \<Longrightarrow> distinct (map fst (count_up v m)) \<and> set (map fst (count_up v m)) = insert v (set (map fst m))"
  by (induction v m rule: count_up.induct) auto

lemma count_up_map: "distinct (map fst m) \<Longrightarrow>
    map_of (count_up v m) = (map_of m)(v \<mapsto> (case map_of m v of None \<Rightarrow> 1 | Some n \<Rightarrow> n + 1))"
  by (induction v m rule: count_up.induct) (auto simp: fun_eq_iff)

lemma count_tokens:
  "distinct (map fst m) \<Longrightarrow> distinct (map fst (fold count_token toks m)) \<and>
    map_of (fold count_token toks m) = (\<lambda>v. case map_of m v of
      None \<Rightarrow> if token_count toks v = 0 then None else Some (token_count toks v)
    | Some n \<Rightarrow> Some (n + token_count toks v))"
proof (induction toks arbitrary: m)
  case Nil
  then show ?case by (auto simp: fun_eq_iff split: option.split)
next
  case (Cons tok toks)
  show ?case
  proof (cases "token_id tok")
    case None
    then have "token_count (tok # toks) = token_count toks" by (simp add: fun_eq_iff)
    with None Cons show ?thesis unfolding count_token_def by (simp only: fold_simps option.case comp_def id_def)
  next
    case (Some v)
    from Cons.IH [of "count_up v m"] count_up_keys [OF Cons.prems, of v] Cons.prems Some show ?thesis
      by (auto simp: count_token_def fun_eq_iff count_up_map split: option.split)
  qed
qed

lemma fold_concat: "fold (\<lambda>xs. fold f (g xs)) xss m = fold f (concat (map g xss)) m"
  by (induction xss arbitrary: m) simp_all

lemma extract_music_ids_tokens:
  "extract_music_ids data = map (\<lambda>v. (v, token_count (runs is_alnum data) v)) (filter (\<lambda>v. 0 < token_count (runs is_alnum data) v) [1..<177])"
proof (rule sorted_distinct_set_unique)
  have alnum: "is_alnum b \<Longrightarrow> printable b" for b
    unfolding is_alnum_def is_digit_def printable_def word_le_nat_alt word_less_nat_alt by auto
  let ?m = "fold count_token (runs is_alnum data) []"
  have e: "extract_music_ids data = sort ?m"
    by (simp add: extract_music_ids_def fold_concat runs_within_runs alnum)
  have d: "distinct (map fst ?m)"
    and m: "map_of ?m = (\<lambda>v. if token_count (runs is_alnum data) v = 0 then None else Some (token_count (runs is_alnum data) v))"
    using count_tokens [of "[]" "runs is_alnum data"] by simp_all
  show "sorted (extract_music_ids data)" by (simp add: e)
  show "distinct (extract_music_ids data)" using d by (simp add: e distinct_map)
  let ?ids = "filter (\<lambda>v. 0 < token_count (runs is_alnum data) v) [1..<177]"
  have "sorted_wrt (<) ?ids" by (rule sorted_wrt_filter) (rule sorted_wrt_upt)
  then show "sorted (map (\<lambda>v. (v, token_count (runs is_alnum data) v)) ?ids)"
    by (simp add: sorted_map less_eq_prod_def) (erule sorted_wrt_mono_rel [rotated], simp)
  show "distinct (map (\<lambda>v. (v, token_count (runs is_alnum data) v)) ?ids)" by (auto simp: distinct_map intro: inj_onI)
  have range: "0 < token_count (runs is_alnum data) v \<Longrightarrow> 1 \<le> v \<and> v < 177" for v
    using token_id_range by (fastforce simp: token_count_def filter_empty_conv)
  have "(v, n) \<in> set ?m \<longleftrightarrow> 0 < token_count (runs is_alnum data) v \<and> n = token_count (runs is_alnum data) v" for v n
    using map_of_eq_Some_iff [OF d, of v n] unfolding m by (auto split: if_splits)
  then show "set (extract_music_ids data) = set (map (\<lambda>v. (v, token_count (runs is_alnum data) v)) ?ids)"
    using range by (auto simp: e image_iff)
qed

lemma extract_music_ids_eq:
  "extract_music_ids data = map (\<lambda>v. (v, music_count data v)) (filter (\<lambda>v. 0 < music_count data v) [1..<177])"
  unfolding extract_music_ids_tokens
  by (intro map_cong filter_cong refl) (simp_all add: music_count_tokens del: upt_Suc)

lemma music_ids_ascending:
  "sorted_wrt (<) (map fst (extract_music_ids data)) \<and>
   (\<forall>(v, n) \<in> set (extract_music_ids data). 1 \<le> v \<and> v \<le> 176 \<and> 0 < n)"
  by (auto simp: extract_music_ids_eq comp_def intro!: sorted_wrt_filter simp del: upt_Suc)

text \<open>
  C40: the ids extracted from a file are exactly those between 1 and 176 whose three decimal digits stand
  somewhere in it with neither an ASCII letter nor an ASCII digit directly before or behind them, each once,
  in ascending order, with the number of such positions.  The count is over positions of the bytes and does
  not use the code's runs and tokens.
\<close>

theorem music_ids_exact:
  "extract_music_ids data = map (\<lambda>v. (v, music_count data v)) (filter (\<lambda>v. 0 < music_count data v) [1..<177])"
  by (rule extract_music_ids_eq)

section \<open>The lines of a hit\<close>

lemma trim_subset: "set (trim s) \<subseteq> set s"
  unfolding trim_def by (auto dest!: set_dropWhileD)

lemma trim_valid: "valid_ustr s \<Longrightarrow> valid_ustr (trim s)"
  using trim_subset [of s] by (auto simp: valid_ustr_def list_all_iff)

lemma fold_keeps: "P m \<Longrightarrow> (\<And>x m. P m \<Longrightarrow> P (f x m)) \<Longrightarrow> P (fold f xs m)"
  by (induction xs arbitrary: m) auto

lemma utf8_lines_valid: "\<forall>l \<in> set (extract_utf8_lines data p cap). valid_ustr l"
  unfolding extract_utf8_lines_def
  by (rule fold_keeps) (auto simp: utf8_line_def Let_def trim_valid from_utf8_valid split: option.split)

lemma utf16_lines_valid: "\<forall>l \<in> set lines. valid_ustr l \<Longrightarrow> \<forall>l \<in> set (utf16_loop data to cap i lines). valid_ustr l"
proof (induction data to cap i lines rule: utf16_loop.induct)
  case (1 data to cap i lines)
  have "valid_ustr (trim (units_string data i n))" for n
    by (rule trim_valid) (simp add: units_string_def valid_ustr_def list_all_iff)
  with 1 show ?case by (subst utf16_loop.simps) (simp add: Let_def)
qed

lemma scan_lines_valid: "\<forall>l \<in> set (scan_lines data ps). valid_ustr l"
proof -
  have wide: "\<forall>l \<in> set (extract_utf16_lines data p cap). valid_ustr l" for p cap
    unfolding extract_utf16_lines_def by (rule utf16_lines_valid) simp
  show ?thesis
    using utf8_lines_valid wide unfolding scan_lines_def Let_def
    by (auto dest!: in_set_takeD)
qed

text \<open>
  C39: a hit holds what the report prints from it: at most eight lines, each a proper string; titles of the
  table only; each music id once, in ascending order, between 1 and 176, with a positive count.  A hit has
  a line or a title, and one without the object name has no title, no id, and only short lines that mix
  kana and kanji.
\<close>

theorem scan_hit_well_formed:
  assumes "scan_data A data titles = Some hit"
  shows "length (sh_lines hit) \<le> 8 \<and> (\<forall>l \<in> set (sh_lines hit). valid_ustr l) \<and> set (sh_matched hit) \<subseteq> set titles \<and>
    sorted_wrt (<) (map fst (sh_mids hit)) \<and> (\<forall>(v, n) \<in> set (sh_mids hit). 1 \<le> v \<and> v \<le> 176 \<and> 0 < n) \<and>
    (sh_lines hit \<noteq> [] \<or> sh_matched hit \<noteq> []) \<and>
    (\<not> sh_via_lyric_name hit \<longrightarrow> sh_matched hit = [] \<and> sh_mids hit = [] \<and>
       (\<forall>l \<in> set (sh_lines hit). looks_like_lyric_line l \<and> \<not> looks_like_glyph_table l))"
proof -
  let ?ps = "find_lyric_positions data 8"
  have hit: "hit = \<lparr> sh_via_lyric_name = ?ps \<noteq> [],
      sh_matched = if titles \<noteq> [] \<and> ?ps \<noteq> [] then match_titles A data titles else [],
      sh_mids = if ?ps = [] then [] else extract_music_ids data, sh_lines = scan_lines data ?ps \<rparr>"
    and some: "sh_lines hit \<noteq> [] \<or> sh_matched hit \<noteq> []"
    using assms by (auto simp: scan_data_def Let_def split: if_splits)
  have lines: "length (sh_lines hit) \<le> 8" "\<forall>l \<in> set (sh_lines hit). valid_ustr l"
    using scan_lines_valid [of data ?ps] by (simp_all add: hit scan_lines_def Let_def)
  have none: "\<forall>l \<in> set (scan_lines data []). looks_like_lyric_line l \<and> \<not> looks_like_glyph_table l"
    unfolding scan_lines_def Let_def by (auto dest!: in_set_takeD)
  have titles: "set (sh_matched hit) \<subseteq> set titles" by (auto simp: hit match_titles_def)
  have mids: "sorted_wrt (<) (map fst (extract_music_ids data)) \<and>
      (\<forall>(v, n) \<in> set (extract_music_ids data). 1 \<le> v \<and> v \<le> 176 \<and> 0 < n)"
    by (rule music_ids_ascending)
  show ?thesis using some lines titles none mids by (auto simp: hit)
qed

definition demo_scan :: "u8 list" where
  "demo_scan = LYRIC @ [0x0A, 0xE3, 0x81, 0x82, 0xE3, 0x81, 0x84, 0xE3, 0x81, 0x86, 0xE3, 0x81, 0x88, 0]"

lemma demo_scan_lines: "extract_utf8_lines demo_scan 0 4 = [[0x3042, 0x3044, 0x3046, 0x3048]]"
  by (simp add: extract_utf8_lines_def around_bytes_def demo_scan_def LYRIC_def utf8_line_def from_utf8.simps utf8_step_def
      byte_at_def tail_byte_def second_byte_def trim_def is_white_def is_kana_def Let_def)

lemma demo_scan_hit: "\<exists>hit. scan_data (\<lambda>_. False) demo_scan [] = Some hit"
proof -
  have "find_window LYRIC (to_ascii_lowercase demo_scan) = Some 0"
    by (simp add: find_window_Some LYRIC_def occurs_at_def demo_scan_def to_ascii_lowercase_def)
  moreover have "LYRIC \<noteq> []" by (simp add: LYRIC_def)
  ultimately obtain ps where "find_lyric_positions demo_scan 8 = 0 # ps"
    by (simp add: find_lyric_positions_def find_hits.simps [of LYRIC _ 0])
  then have "scan_lines demo_scan (find_lyric_positions demo_scan 8) \<noteq> []"
    by (simp add: scan_lines_def demo_scan_lines Let_def)
  then show ?thesis by (simp add: scan_data_def Let_def)
qed

theorem scan_hit_well_formed_witness:
  "\<exists>hit. scan_data (\<lambda>_. False) demo_scan [] = Some hit \<and> sh_matched hit = [] \<and> sh_lines hit \<noteq> [] \<and>
     length (sh_lines hit) \<le> 8"
  using demo_scan_hit scan_hit_well_formed [of "\<lambda>_. False" demo_scan "[]"] by force

section \<open>Spaces\<close>

definition fold_space :: "nat \<Rightarrow> nat" where
  "fold_space c = (if c = 0xA0 \<or> c = 0x3000 then 0x20 else c)"

lemma normalize_plain: "a \<noteq> 0xC2 \<Longrightarrow> a \<noteq> 0xE3 \<Longrightarrow> normalize_spaces (a # rest) = a # normalize_spaces rest"
  by simp

lemma byte_is: "n < 256 \<Longrightarrow> m < 256 \<Longrightarrow> (of_nat n :: u8) = of_nat m \<longleftrightarrow> n = m"
  by (metis byte_value)

lemma byte_is_special:
  assumes "n < 256"
  shows "(of_nat n :: u8) = 0xC2 \<longleftrightarrow> n = 0xC2" "(of_nat n :: u8) = 0xE3 \<longleftrightarrow> n = 0xE3"
    "(of_nat n :: u8) = 0xA0 \<longleftrightarrow> n = 0xA0" "(of_nat n :: u8) = 0x80 \<longleftrightarrow> n = 0x80"
  using byte_is [OF assms, of "0xC2"] byte_is [OF assms, of "0xE3"] byte_is [OF assms, of "0xA0"] byte_is [OF assms, of "0x80"] by simp_all

lemma tail_plain: "normalize_spaces (of_nat (0x80 + n mod 64) # rest) = of_nat (0x80 + n mod 64) # normalize_spaces rest"
proof -
  have "0x80 + n mod 64 < 256" "0x80 + n mod 64 \<noteq> 0xC2" "0x80 + n mod 64 \<noteq> 0xE3"
    using mod_less_divisor [of 64 n] by linarith+
  with byte_is_special(1,2) [of "0x80 + n mod 64"] show ?thesis by (intro normalize_plain) simp_all
qed

lemma two_parts: "c div 64 = 2 \<Longrightarrow> c mod 64 = 32 \<Longrightarrow> c = (160 :: nat)"
  using div_mult_mod_eq [of c 64] by (simp only:)

lemma three_parts: "c div 4096 = 3 \<Longrightarrow> c div 64 mod 64 = 0 \<Longrightarrow> c mod 64 = 0 \<Longrightarrow> c = (12288 :: nat)"
proof -
  assume a: "c div 4096 = 3" "c div 64 mod 64 = 0" "c mod 64 = 0"
  then have "c div 64 div 64 = 3" using div_mult2_eq [of c 64 64] by simp
  then have "c div 64 = 192" using a(2) div_mult_mod_eq [of "c div 64" 64] by (simp only:)
  then show "c = 12288" using a(3) div_mult_mod_eq [of c 64] by (simp only:)
qed

lemma normalize_char:
  assumes "c < 0x110000"
  shows "normalize_spaces (utf8_char c @ rest) = utf8_char (fold_space c) @ normalize_spaces rest"
proof -
  consider (one) "c < 0x80" | (two) "0x80 \<le> c" "c < 0x800" | (three) "0x800 \<le> c" "c < 0x10000" | (four) "0x10000 \<le> c"
    by linarith
  then show ?thesis
  proof cases
    case one
    with byte_is_special [of c] show ?thesis by (simp add: utf8_char_def fold_space_def normalize_plain)
  next
    case two
    let ?a = "0xC0 + c div 64" and ?b = "0x80 + c mod 64"
    have lt: "?a < 256" "?b < 256" "?a \<noteq> 0xE3" using two by linarith+
    have iff: "?a = 0xC2 \<and> ?b = 0xA0 \<longleftrightarrow> c = 0xA0" using two_parts [of c] by auto
    have ch: "utf8_char c = [of_nat ?a, of_nat ?b]" using two by (simp add: utf8_char_def)
    show ?thesis
    proof (cases "c = 0xA0")
      case True
      then show ?thesis by (simp add: utf8_char_def fold_space_def)
    next
      case False
      with iff byte_is_special(1) [OF lt(1)] byte_is_special(3) [OF lt(2)]
      have "\<not> ((of_nat ?a :: u8) = 0xC2 \<and> (of_nat ?b :: u8) = 0xA0)" by blast
      moreover have "(of_nat ?a :: u8) \<noteq> 0xE3" using byte_is_special(2) [OF lt(1)] lt(3) by blast
      ultimately have "normalize_spaces (of_nat ?a # of_nat ?b # rest) = of_nat ?a # normalize_spaces (of_nat ?b # rest)"
        by (auto simp del: of_nat_add)
      with tail_plain [of c rest] False two show ?thesis
        unfolding ch fold_space_def by (simp add: ch del: of_nat_add)
    qed
  next
    case three
    let ?a = "0xE0 + c div 4096" and ?b = "0x80 + c div 64 mod 64" and ?c = "0x80 + c mod 64"
    have lt: "?a < 256" "?b < 256" "?c < 256" "?a \<noteq> 0xC2" using three by linarith+
    have iff: "?a = 0xE3 \<and> ?b = 0x80 \<and> ?c = 0x80 \<longleftrightarrow> c = 0x3000" using three_parts [of c] by auto
    have ch: "utf8_char c = [of_nat ?a, of_nat ?b, of_nat ?c]" using three by (simp add: utf8_char_def)
    show ?thesis
    proof (cases "c = 0x3000")
      case True
      then show ?thesis by (simp add: utf8_char_def fold_space_def)
    next
      case False
      with iff byte_is_special(2) [OF lt(1)] byte_is_special(4) [OF lt(2)] byte_is_special(4) [OF lt(3)]
      have "\<not> ((of_nat ?a :: u8) = 0xE3 \<and> (of_nat ?b :: u8) = 0x80 \<and> (of_nat ?c :: u8) = 0x80)" by blast
      moreover have "(of_nat ?a :: u8) \<noteq> 0xC2" using byte_is_special(1) [OF lt(1)] lt(4) by blast
      ultimately have "normalize_spaces (of_nat ?a # of_nat ?b # of_nat ?c # rest) =
          of_nat ?a # normalize_spaces (of_nat ?b # of_nat ?c # rest)"
        by (auto simp del: of_nat_add)
      with tail_plain [of "c div 64" "of_nat ?c # rest"] tail_plain [of c rest] False three show ?thesis
        unfolding ch fold_space_def by (simp add: ch del: of_nat_add)
    qed
  next
    case four
    let ?a = "0xF0 + c div 262144"
    have "?a < 256" "?a \<noteq> 0xC2" "?a \<noteq> 0xE3" using assms by linarith+
    with byte_is_special(1,2) [of ?a] have "(of_nat ?a :: u8) \<noteq> 0xC2" "(of_nat ?a :: u8) \<noteq> 0xE3" by blast+
    then have "normalize_spaces (of_nat ?a # ys) = of_nat ?a # normalize_spaces ys" for ys by (rule normalize_plain)
    with tail_plain four show ?thesis by (simp add: utf8_char_def fold_space_def del: of_nat_add normalize_spaces.simps)
  qed
qed

lemma normalize_text:
  "valid_ustr s \<Longrightarrow> normalize_spaces (utf8_bytes s) = utf8_bytes (map fold_space s)"
proof (induction s)
  case (Cons c s)
  then have "c < 0x110000" by (auto simp: valid_ustr_def scalar_def)
  from normalize_char [OF this, of "utf8_bytes s"] Cons show ?case by (simp add: utf8_bytes_def valid_ustr_def)
qed (simp add: utf8_bytes_def)

text \<open>
  Folding the spaces of a text byte by byte is folding its characters: the no-break space and the
  ideographic space become an ordinary space, and no other character is touched or split.
\<close>

theorem normalize_spaces_characters:
  assumes "valid_ustr s"
  shows "normalize_spaces (utf8_bytes s) = utf8_bytes (map fold_space s)"
  using assms by (rule normalize_text)

theorem normalize_spaces_characters_witness:
  "normalize_spaces (utf8_bytes [0x3042, 0x3000, 0xE3]) = utf8_bytes [0x3042, 0x20, 0xE3]"
proof -
  have "valid_ustr [0x3042, 0x3000, 0xE3]" by (simp add: valid_ustr_def scalar_def)
  from normalize_spaces_characters [OF this] show ?thesis by (simp add: fold_space_def)
qed

text \<open>A title with both kinds of space never matches in a text: each of its variants keeps one of them, and
  the text has neither.\<close>

lemma fold_space_folded: "fold_space c \<noteq> 0xA0" "fold_space c \<noteq> 0x3000"
  by (simp_all add: fold_space_def)

lemma word_loop_missing:
  assumes "c \<in> set v" and "c \<notin> set norm"
  shows "word_loop A norm v from = Next_Variant from"
proof -
  have ne: "v \<noteq> []" using assms(1) by auto
  have "find_window v (drop from norm) = None"
  proof (rule ccontr)
    assume "find_window v (drop from norm) \<noteq> None"
    then obtain k where "occurs_at v (drop from norm) k" using find_window_Some [OF ne] by blast
    then have "set v \<subseteq> set norm" unfolding occurs_at_def by (metis set_drop_subset set_take_subset subset_trans)
    with assms show False by blast
  qed
  with ne show ?thesis by (simp add: word_loop.simps [of A norm v])
qed

lemma both_spaces_unmatched:
  assumes "valid_ustr s" and "0xA0 \<in> set t" and "0x3000 \<in> set t"
  shows "\<not> variants_loop A (from_utf8_lossy (normalize_spaces (utf8_bytes s))) (title_variants t) from"
proof -
  let ?norm = "map fold_space s"
  have "valid_ustr ?norm" using assms(1) by (auto simp: valid_ustr_def list_all_iff fold_space_def scalar_def)
  then have norm: "from_utf8_lossy (normalize_spaces (utf8_bytes s)) = ?norm"
    by (simp add: normalize_text [OF assms(1)] from_utf8_lossy_bytes)
  have no: "0xA0 \<notin> set ?norm" "0x3000 \<notin> set ?norm" by (auto simp: fold_space_folded [symmetric])
  have nbsp: "0x3000 \<in> set (replace_char 0xA0 t)" and wide: "0xA0 \<in> set (replace_char 0x3000 t)"
    using assms(2,3) by (force simp: replace_char_def)+
  show ?thesis
    unfolding norm title_variants_def
    by (simp add: assms(2,3) word_loop_missing [OF assms(2) no(1)] word_loop_missing [OF nbsp no(2)] word_loop_missing [OF wide no(1)])
qed

section \<open>Statistics\<close>

interpretation stats: comm_monoid add_stats "(0, 0, 0, 0)"
  by unfold_locales (auto simp: add_stats_def split: prod.splits)

lemma foldl_stats: "foldl add_stats a xs = add_stats a (foldl add_stats (0, 0, 0, 0) xs)"
proof (induction xs arbitrary: a)
  case (Cons x xs)
  show ?case using Cons.IH [of "add_stats a x"] Cons.IH [of x] by (simp add: stats.assoc)
qed simp

lemma reduce_in_order: "reduce r = foldl add_stats (0, 0, 0, 0) (piece_items r)"
  by (induction r) (simp_all add: foldl_stats [of "foldl add_stats (0, 0, 0, 0) _"])

definition expanded :: "bundle_codecs \<Rightarrow> u8 list option \<Rightarrow> u8 list option" where
  "expanded C content = Option.bind (Option.bind (read_if_unityfs content) (parse_bundle C)) (decompress_bundle C)"

text \<open>
  Whatever way the parallel reduction cuts and joins the files, the statistics count the files, those
  with the UnityFS magic, those whose header parses and those that expand completely, and each count is at
  most the one before.
\<close>

theorem statistics_count:
  assumes "piece_items r = map (file_stats C) contents"
  shows "reduce r =
      (length contents,
       length (filter (\<lambda>c. read_if_unityfs c \<noteq> None) contents),
       length (filter (\<lambda>c. Option.bind (read_if_unityfs c) (parse_bundle C) \<noteq> None) contents),
       length (filter (\<lambda>c. expanded C c \<noteq> None) contents))"
proof -
  have one: "file_stats C c = (1, if read_if_unityfs c \<noteq> None then 1 else 0,
      if Option.bind (read_if_unityfs c) (parse_bundle C) \<noteq> None then 1 else 0, if expanded C c \<noteq> None then 1 else 0)" for c
    by (auto simp: file_stats_def expanded_def split: option.split)
  have "foldl add_stats (0, 0, 0, 0) (map (file_stats C) contents) =
      (length contents,
       length (filter (\<lambda>c. read_if_unityfs c \<noteq> None) contents),
       length (filter (\<lambda>c. Option.bind (read_if_unityfs c) (parse_bundle C) \<noteq> None) contents),
       length (filter (\<lambda>c. expanded C c \<noteq> None) contents))"
  proof (induction contents)
    case (Cons c contents)
    have "foldl add_stats (0, 0, 0, 0) (map (file_stats C) (c # contents)) =
        add_stats (file_stats C c) (foldl add_stats (0, 0, 0, 0) (map (file_stats C) contents))"
      by (simp add: foldl_stats [of "file_stats C c"])
    with Cons show ?case by (simp only:) (simp add: add_stats_def one)
  qed simp
  with assms show ?thesis by (simp add: reduce_in_order)
qed

theorem statistics_count_witness:
  "reduce (Join (Piece [file_stats stored_codecs None]) (Piece [])) = (1, 0, 0, 0)"
  using statistics_count [of "Join (Piece [file_stats stored_codecs None]) (Piece [])" stored_codecs "[None]"]
  by (simp add: read_if_unityfs_def expanded_def)

end
