(* ===== verification/Probe.thy ===== *)
theory Probe
  imports Entry_Patch Hook
begin

text \<open>
  The feasibility experiment \<open>experiments/entry-patch/src/main.rs\<close>, from which the entry patch of the
  runtime grew: its patch bytes, the classifier that refuses what cannot be copied, its trampoline page,
  its page remap, the two experiments and their counters.  The process and its system calls are those of
  \<open>Entry_Patch\<close>.  Executing machine code is the parameter \<open>run\<close>: what a call of an address returns, and
  how often the replacements it passes through count a hit.  A failed assertion aborts the program
  (\<open>Panics\<close>).
\<close>

type_synonym i64 = "64 word"

section \<open>The functions under test\<close>

definition ep_plain_sum :: "i64 \<Rightarrow> i64 \<Rightarrow> i64" where "ep_plain_sum a b = a + b"

definition ep_inner :: "i64 \<Rightarrow> i64" where "ep_inner x = word_rotl 7 x XOR 0x5A5A"

definition ep_frame_fn :: "i64 \<Rightarrow> i64 \<Rightarrow> i64" where
  "ep_frame_fn a b = (let buf = [a, b, a XOR b, a * 3] in ep_inner (of_nat (length buf)) + sum_list buf)"

definition ep_global_fn :: "i64 \<Rightarrow> i64 \<Rightarrow> i64" where "ep_global_fn a b = 1234 + a"

section \<open>The patch and the classifier\<close>

definition probe_patch_bytes :: "usize \<Rightarrow> usize \<Rightarrow> u8 list" where
  "probe_patch_bytes entry replacement =
     (let offset = uint replacement - uint entry; imm26 = drop_bit 2 offset in
      if offset AND 3 = 0 \<and> - (2 ^ 25) \<le> imm26 \<and> imm26 < 2 ^ 25
      then u32_to_le (0x14000000 OR (word_of_int imm26 AND 0x03FFFFFF))
      else u32_to_le LDR_X16_LITERAL_8 @ u32_to_le BR_X16 @ u64_to_le replacement)"

definition op_refused :: "u32 \<Rightarrow> string option" where
  "op_refused w =
     (if w = PACIBSP then None
      else if drop_bit 26 w = 5 \<or> drop_bit 26 w = 0x25 then Some ''b/bl in prologue''
      else
        (let top8 = drop_bit 24 w in
         if top8 AND 0xFE = 0x54 then Some ''b.cond in prologue''
         else if top8 AND 0x9F = 0x10 \<or> top8 AND 0x9F = 0x90 then Some ''adr/adrp in prologue''
         else if top8 AND 0x1F = 0x18 then Some ''literal load in prologue''
         else if top8 AND 0x7E = 0x34 then Some ''cbz/cbnz in prologue''
         else if top8 AND 0x7E = 0x36 then Some ''tbz/tbnz in prologue''
         else if w AND 0xFFFFFC1F = 0xD65F0000 then Some ''ret in prologue''
         else None))"

fun prologue_is_verbatim_safe :: "u32 list \<Rightarrow> (string, unit) result" where
  "prologue_is_verbatim_safe [] = Inr ()"
| "prologue_is_verbatim_safe (w # ws) =
     (case op_refused w of Some reason \<Rightarrow> Inl reason | None \<Rightarrow> prologue_is_verbatim_safe ws)"

section \<open>Pages\<close>

definition probe_page_size :: "os \<Rightarrow> usize flow" where
  "probe_page_size os =
     (if os_sysconf_pagesize os \<le> 0 then Panics else Returns (word_of_int (os_sysconf_pagesize os)))"

definition probe_staging_page :: "os \<Rightarrow> process \<Rightarrow> ((string, usize) result \<times> process) flow" where
  "probe_staging_page os p =
     (case pr_stage p of
        Some stage \<Rightarrow> Returns (Inr stage, p)
      | None \<Rightarrow>
          (case probe_page_size os of
             Panics \<Rightarrow> Panics
           | Returns ps \<Rightarrow>
               (case os_mmap os ps True p of
                  (None, p') \<Rightarrow> Returns (Inl ''mmap staging failed'', p')
                | (Some mem, p') \<Rightarrow> Returns (Inr mem, p'\<lparr> pr_stage := Some mem \<rparr>))))"

definition probe_remap_patch :: "os \<Rightarrow> usize \<Rightarrow> u8 list \<Rightarrow> process \<Rightarrow> ((string, unit) result \<times> process) flow" where
  "probe_remap_patch os addr bytes p =
     (case probe_page_size os of
        Panics \<Rightarrow> Panics
      | Returns ps \<Rightarrow>
          (let page = addr AND NOT (ps - 1); off = addr - page in
           if unat off + length bytes > unat ps then Panics
           else
             (case probe_staging_page os p of
                Panics \<Rightarrow> Panics
              | Returns (Inl e, p1) \<Rightarrow> Returns (Inl e, p1)
              | Returns (Inr stage, p1) \<Rightarrow>
                  if \<not> os_mprotect os stage ps PROT_RW p1 then Returns (Inl ''stage->RW failed'', p1)
                  else
                    (let p2 = p1\<lparr> pr_mem := copy_bytes page stage (unat ps) (pr_mem p1) \<rparr>;
                         p3 = p2\<lparr> pr_mem := write_bytes (stage + off) bytes (pr_mem p2) \<rparr> in
                     if \<not> os_mprotect os stage ps PROT_RX p3 then Returns (Inl ''stage->RX failed'', p3)
                     else
                       (case os_remap os page ps stage p3 of
                          (False, p4) \<Rightarrow> Returns (Inl ''remap overwrite'', p4)
                        | (True, p4) \<Rightarrow>
                            if read_bytes (pr_mem p4) (page + off) (length bytes) \<noteq> bytes then Panics
                            else Returns (Inr (), p4))))))"

definition probe_trampoline :: "os \<Rightarrow> usize \<Rightarrow> u32 list \<Rightarrow> process \<Rightarrow> ((string, usize) result \<times> process) flow" where
  "probe_trampoline os entry insns p =
     (case probe_page_size os of
        Panics \<Rightarrow> Panics
      | Returns ps \<Rightarrow>
          (case os_mmap os ps False p of
             (None, p1) \<Rightarrow> Returns (Inl ''mmap failed'', p1)
           | (Some base, p1) \<Rightarrow>
               (let n = of_nat (length insns);
                    m1 = write_words base insns (pr_mem p1);
                    m2 = write_bytes (base + n * 4) (u32_to_le LDR_X16_LITERAL_8) m1;
                    m3 = write_bytes (base + n * 4 + 4) (u32_to_le BR_X16) m2;
                    m4 = write_bytes (base + n * 4 + 8) (u64_to_le (entry + n * 4)) m3;
                    p2 = p1\<lparr> pr_mem := m4 \<rparr> in
                if \<not> os_mprotect os base ps PROT_RX p2 then Returns (Inl ''mprotect trampoline failed'', p2)
                else Returns (Inr base, p2))))"

section \<open>Calls\<close>

text \<open>The statics: the trampoline of each function, the hits, and the counters of \<open>main\<close>.\<close>

datatype tramp_slot = TRAMP_PLAIN | TRAMP_FRAME | TRAMP_GLOBAL

record probe =
  pb_process :: process
  pb_slots :: "tramp_slot \<Rightarrow> usize"
  pb_hits :: nat
  pb_passed :: nat
  pb_skipped :: nat
  pb_failed :: nat

type_synonym machine = "process \<Rightarrow> (tramp_slot \<Rightarrow> usize) \<Rightarrow> usize \<Rightarrow> i64 \<Rightarrow> i64 \<Rightarrow> i64 \<times> nat"

definition call_at :: "machine \<Rightarrow> usize \<Rightarrow> i64 \<Rightarrow> i64 \<Rightarrow> probe \<Rightarrow> i64 \<times> probe" where
  "call_at run addr a b s =
     (case run (pb_process s) (pb_slots s) addr a b of (v, h) \<Rightarrow> (v, s\<lparr> pb_hits := pb_hits s + h \<rparr>))"

text \<open>The body of the three replacements; each has its own slot.\<close>

definition replacement_call :: "machine \<Rightarrow> tramp_slot \<Rightarrow> i64 \<Rightarrow> i64 \<Rightarrow> probe \<Rightarrow> i64 \<times> probe" where
  "replacement_call run slot a b s =
     (case call_at run (pb_slots s slot) a b (s\<lparr> pb_hits := pb_hits s + 1 \<rparr>) of (v, s') \<Rightarrow> (v * 2, s'))"

text \<open>A worker makes as many rounds as it finds \<open>stop\<close> unset.  The memory does not change while the
  workers run, so running one after the other gives what any interleaving gives.\<close>

fun hammer_loop :: "machine \<Rightarrow> usize \<Rightarrow> usize \<Rightarrow> nat \<Rightarrow> i64 \<Rightarrow> nat \<Rightarrow> probe \<Rightarrow> nat \<times> probe" where
  "hammer_loop run entry tramp 0 i bad s = (bad, s)"
| "hammer_loop run entry tramp (Suc rounds) i bad s =
     (case call_at run tramp i 3 s of (original, s1) \<Rightarrow>
        (case call_at run entry i 3 s1 of (got, s2) \<Rightarrow>
           hammer_loop run entry tramp rounds (i + 1)
             (if got \<noteq> original \<and> got \<noteq> original * 2 then bad + 1 else bad) s2))"

fun hammer_workers :: "machine \<Rightarrow> usize \<Rightarrow> usize \<Rightarrow> nat list \<Rightarrow> nat \<Rightarrow> probe \<Rightarrow> nat \<times> probe" where
  "hammer_workers run entry tramp [] bad s = (bad, s)"
| "hammer_workers run entry tramp (rounds # workers) bad s =
     (case hammer_loop run entry tramp rounds 0 0 s of (b, s') \<Rightarrow>
        hammer_workers run entry tramp workers (bad + b) s')"

section \<open>One case\<close>

record probe_case =
  pc_entry :: usize
  pc_replacement :: usize
  pc_slot :: tramp_slot

definition fail :: "probe \<Rightarrow> probe" where "fail s = s\<lparr> pb_failed := pb_failed s + 1 \<rparr>"
definition pass :: "probe \<Rightarrow> probe" where "pass s = s\<lparr> pb_passed := pb_passed s + 1 \<rparr>"
definition skip :: "probe \<Rightarrow> probe" where "skip s = s\<lparr> pb_skipped := pb_skipped s + 1 \<rparr>"

definition prologue_at :: "usize \<Rightarrow> nat \<Rightarrow> probe \<Rightarrow> u32 list" where
  "prologue_at entry n s = map u32_from_le (chunks4 (read_bytes (pr_mem (pb_process s)) entry (n * 4)))"

definition store_trampoline :: "tramp_slot \<Rightarrow> usize \<Rightarrow> process \<Rightarrow> probe \<Rightarrow> probe" where
  "store_trampoline slot tramp p s = s\<lparr> pb_process := p, pb_slots := (pb_slots s)(slot := tramp) \<rparr>"

text \<open>The calls while the patch is in place.\<close>

definition hooked_checks :: "machine \<Rightarrow> usize \<Rightarrow> usize \<Rightarrow> i64 \<Rightarrow> nat list \<Rightarrow> probe \<Rightarrow> probe" where
  "hooked_checks run entry tramp baseline workers s =
     (let (marked, s1) = call_at run entry 2 3 s;
          (original_b, s2) = call_at run tramp (- 7) 11 s1;
          (marked_b, s3) = call_at run entry (- 7) 11 s2;
          hits = pb_hits s3 - pb_hits s;
          s4 = (if hits \<noteq> 2 \<or> marked \<noteq> baseline * 2 \<or> marked_b \<noteq> original_b * 2 then fail s3 else pass s3);
          (bad, s5) = hammer_workers run entry tramp workers 0 s4 in
      if bad \<noteq> 0 then fail s5 else s5)"

definition restored_checks :: "machine \<Rightarrow> usize \<Rightarrow> usize \<Rightarrow> i64 \<Rightarrow> probe \<Rightarrow> probe" where
  "restored_checks run entry tramp baseline s =
     (let (restored, s1) = call_at run entry 2 3 s;
          (restored_again, s2) = call_at run entry 5 6 s1 in
      if restored \<noteq> baseline then fail s2
      else (let (original, s3) = call_at run tramp 5 6 s2 in if restored_again \<noteq> original then fail s3 else s3))"

definition run_case :: "machine \<Rightarrow> os \<Rightarrow> nat list \<Rightarrow> probe_case \<Rightarrow> probe \<Rightarrow> probe flow" where
  "run_case run os workers c s =
     (let entry = pc_entry c; patch = probe_patch_bytes entry (pc_replacement c); n_insns = length patch div 4;
          (baseline, s1) = call_at run entry 2 3 s;
          ops = prologue_at entry n_insns s1 in
      case prologue_is_verbatim_safe ops of
        Inl reason \<Rightarrow> Returns (skip s1)
      | Inr _ \<Rightarrow>
          (case probe_trampoline os entry ops (pb_process s1) of
             Panics \<Rightarrow> Panics
           | Returns (Inl e, p) \<Rightarrow> Returns (fail (s1\<lparr> pb_process := p \<rparr>))
           | Returns (Inr tramp, p) \<Rightarrow>
               (let (via_tramp, s2) = call_at run tramp 2 3 (store_trampoline (pc_slot c) tramp p s1) in
                if via_tramp \<noteq> baseline then Returns (fail s2)
                else
                  (let original = read_bytes (pr_mem (pb_process s2)) entry (length patch) in
                   case probe_remap_patch os entry patch (pb_process s2) of
                     Panics \<Rightarrow> Panics
                   | Returns (Inl e, p) \<Rightarrow> Returns (fail (s2\<lparr> pb_process := p \<rparr>))
                   | Returns (Inr _, p) \<Rightarrow>
                       (let s3 = hooked_checks run entry tramp baseline workers (s2\<lparr> pb_process := p \<rparr>) in
                        case probe_remap_patch os entry original (pb_process s3) of
                          Panics \<Rightarrow> Panics
                        | Returns (Inl e, p) \<Rightarrow> Returns (fail (s3\<lparr> pb_process := p \<rparr>))
                        | Returns (Inr _, p) \<Rightarrow>
                            Returns (restored_checks run entry tramp baseline (s3\<lparr> pb_process := p \<rparr>)))))))"

fun run_cases :: "machine \<Rightarrow> os \<Rightarrow> nat list \<Rightarrow> probe_case list \<Rightarrow> probe \<Rightarrow> probe flow" where
  "run_cases run os workers [] s = Returns s"
| "run_cases run os workers (c # cs) s =
     (case run_case run os workers c s of
        Panics \<Rightarrow> Panics
      | Returns s' \<Rightarrow> run_cases run os workers cs s')"

section \<open>The forced far jump\<close>

definition far_patch :: "usize \<Rightarrow> u8 list" where
  "far_patch replacement = u32_to_le LDR_X16_LITERAL_8 @ u32_to_le BR_X16 @ u64_to_le replacement"

text \<open>The hits of this experiment are printed; the check compares the count of the whole run.\<close>

definition far_checks :: "machine \<Rightarrow> usize \<Rightarrow> usize \<Rightarrow> i64 \<Rightarrow> probe \<Rightarrow> probe" where
  "far_checks run entry tramp baseline s =
     (let (marked, s1) = call_at run entry 2 3 s;
          (marked2, s2) = call_at run entry 2 3 s1;
          (original_b, s3) = call_at run tramp (- 7) 11 s2;
          (marked_b, s4) = call_at run entry (- 7) 11 s3 in
      if marked \<noteq> baseline * 2 \<or> marked_b \<noteq> original_b * 2 \<or> pb_hits s4 < 2 then fail s4 else pass s4)"

definition run_far :: "machine \<Rightarrow> os \<Rightarrow> probe_case \<Rightarrow> probe \<Rightarrow> probe flow" where
  "run_far run os c s =
     (let entry = pc_entry c; ops = prologue_at entry 4 s in
      case prologue_is_verbatim_safe ops of
        Inl reason \<Rightarrow> Returns (skip s)
      | Inr _ \<Rightarrow>
          (let (baseline, s1) = call_at run entry 2 3 s in
           case probe_trampoline os entry ops (pb_process s1) of
             Returns (Inr tramp, p) \<Rightarrow>
               (let s2 = store_trampoline TRAMP_FRAME tramp p s1; far = far_patch (pc_replacement c);
                    original = read_bytes (pr_mem (pb_process s2)) entry 16;
                    (via_tramp4, s3) = call_at run tramp 2 3 s2 in
                if via_tramp4 \<noteq> baseline then Returns (fail s3)
                else
                  (case probe_remap_patch os entry far (pb_process s3) of
                     Returns (Inr _, p) \<Rightarrow>
                       (let s4 = far_checks run entry tramp baseline (s3\<lparr> pb_process := p \<rparr>) in
                        case probe_remap_patch os entry original (pb_process s4) of
                          Returns (Inr _, p) \<Rightarrow>
                            (let (restored, s5) = call_at run entry 2 3 (s4\<lparr> pb_process := p \<rparr>) in
                             Returns (if restored \<noteq> baseline then fail s5 else s5))
                        | _ \<Rightarrow> Panics)
                   | _ \<Rightarrow> Panics))
           | _ \<Rightarrow> Panics))"

section \<open>The program\<close>

text \<open>\<open>cases\<close> are the three functions, \<open>frame\<close> the one of the far jump.  The result is the state with
  the counters that are printed, and the exit code.\<close>

definition run_probe :: "machine \<Rightarrow> os \<Rightarrow> bool \<Rightarrow> nat list \<Rightarrow> probe_case list \<Rightarrow> probe_case \<Rightarrow> probe \<Rightarrow> (probe \<times> int) flow" where
  "run_probe run os far_only workers cases frame s =
     (case (if far_only then Returns s else run_cases run os workers cases s) of
        Panics \<Rightarrow> Panics
      | Returns s1 \<Rightarrow>
          (case run_far run os frame s1 of
             Panics \<Rightarrow> Panics
           | Returns s2 \<Rightarrow> Returns (s2, if 0 < pb_failed s2 then 1 else 0)))"

end
