(* ===== verification/Probe_Correct.thy ===== *)
theory Probe_Correct
  imports Probe Entry_Patch_Correct
begin

text \<open>
  The experiment against the runtime it led to: its patch, its remap and, on the prologues it accepts, its
  trampoline are the runtime's.  A case whose prologue is accepted passes on a processor that runs the code
  it finds in memory, and leaves the function as it was; the exit code accounts for every experiment.
\<close>

section \<open>Agreement with the runtime\<close>

text \<open>The same process, and success with the same value or a failure on both sides; where the experiment
  aborts, the runtime reports an error.\<close>

definition agrees :: "((string, 'a) result \<times> process) flow \<Rightarrow> (hook_error, 'a) result \<times> process \<Rightarrow> bool" where
  "agrees f o' \<longleftrightarrow>
     (case f of
        Panics \<Rightarrow> isl (fst o')
      | Returns (Inl e, p) \<Rightarrow> isl (fst o') \<and> snd o' = p
      | Returns (Inr v, p) \<Rightarrow> o' = (Inr v, p))"

lemma probe_patch_bytes_eq: "probe_patch_bytes = entry_patch_bytes"
  by (intro ext) (simp add: probe_patch_bytes_def entry_patch_bytes_def BRANCH_IMM26_WORDS_def Let_def)

lemma probe_remap_agrees: "agrees (probe_remap_patch os addr bytes p) (remap_patch os addr bytes p)"
proof (cases "os_sysconf_pagesize os \<le> 0")
  case True
  then show ?thesis by (simp add: agrees_def probe_remap_patch_def remap_patch_def probe_page_size_def page_size_def Let_def)
next
  case False
  define ps :: usize where "ps = word_of_int (os_sysconf_pagesize os)"
  have p: "probe_page_size os = Returns ps" "page_size os = Inr ps"
    using False by (simp_all add: probe_page_size_def page_size_def Let_def ps_def)
  show ?thesis
    unfolding probe_remap_patch_def remap_patch_def probe_staging_page_def staging_page_def p
    by (simp add: agrees_def Let_def split: option.split prod.split bool.split)
qed

lemma high_bit: "32 \<le> n \<Longrightarrow> \<not> bit (w :: u32) n"
  using bit_imp_le_length [of w n] by auto

lemma top6_branch:
  fixes w :: u32
  shows "w AND 0x7C000000 = 0x14000000 \<Longrightarrow> drop_bit 26 w = 5 \<or> drop_bit 26 w = 0x25"
    and "w AND 0xFC000000 = 0x94000000 \<Longrightarrow> drop_bit 26 w = 0x25"
proof -
  have m: "drop_bit 26 (w AND 0x7C000000) = drop_bit 26 w AND 0x1F" "drop_bit 26 (w AND 0xFC000000) = drop_bit 26 w"
    unfolding blast32 by (simp_all add: bit_simps high_bit)
  show "drop_bit 26 w = 0x25" if "w AND 0xFC000000 = 0x94000000" using m(2) unfolding that by simp
  have "drop_bit 26 w = (drop_bit 26 w AND 0x1F) OR (if bit w 31 then 0x20 else 0)"
    unfolding blast32 by (simp add: bit_simps high_bit)
  moreover have "drop_bit 26 w AND 0x1F = 5" if "w AND 0x7C000000 = 0x14000000" using m(1) unfolding that by simp
  ultimately show "drop_bit 26 w = 5 \<or> drop_bit 26 w = 0x25" if "w AND 0x7C000000 = 0x14000000"
    using that by (cases "bit w 31") simp_all
qed

lemma verbatim_plan: "op_refused w = None \<Longrightarrow> plan_op w a = Inr (Plan_Verbatim w)"
  using top6_branch [of w] unfolding op_refused_def plan_op_def Let_def by (auto split: if_splits)

lemma verbatim_safe_iff: "prologue_is_verbatim_safe ws = Inr () \<longleftrightarrow> (\<forall>w \<in> set ws. op_refused w = None)"
  by (induction ws) (auto split: option.split)

lemma verbatim_plans:
  assumes "prologue_is_verbatim_safe ws = Inr ()"
  shows "plan_ops entry ws = Inr (map Plan_Verbatim ws)"
proof -
  have "collect_results (map (\<lambda>i. plan_op (xs ! i) (a + of_nat i * 4)) [0..<length xs]) = Inr (map Plan_Verbatim xs)"
    if "\<forall>w \<in> set xs. op_refused w = None" for xs a
    using that
  proof (induction xs arbitrary: a)
    case (Cons x xs)
    have "map (\<lambda>i. plan_op ((x # xs) ! i) (a + of_nat i * 4)) [0..<length (x # xs)] =
        plan_op x a # map (\<lambda>i. plan_op (xs ! i) (a + 4 + of_nat i * 4)) [0..<length xs]"
      by (simp add: upt_conv_Cons map_Suc_upt [symmetric] comp_def algebra_simps del: upt_Suc)
    with Cons verbatim_plan [of x] show ?case by (simp del: upt_Suc map_upt_Suc)
  qed simp
  then show ?thesis using assms by (simp add: plan_ops_def verbatim_safe_iff)
qed

lemma verbatim_emitted:
  "emit_loop (map Plan_Verbatim ws) 0 (op_positions (map (\<lambda>pl. plan_size pl win) (map Plan_Verbatim ws)) 0) win base [] = Inr ws"
proof -
  let ?pos = "op_positions (map (\<lambda>pl. plan_size pl win) (map Plan_Verbatim ws)) 0"
  have "map (\<lambda>i. emit_words (map Plan_Verbatim ws ! i) i (?pos ! i) ?pos win base) [0..<length (map Plan_Verbatim ws)] =
      map (\<lambda>i. [ws ! i]) [0..<length ws]"
    by (rule map_cong) (simp_all add: emit_words_def)
  moreover have "concat (map (\<lambda>i. [ws ! i]) [0..<length ws]) = ws"
    by (simp add: concat_map_singleton map_nth)
  moreover have "emit_loop (map Plan_Verbatim ws) 0 ?pos win base [] = Inr ([] @ concat (map (\<lambda>i.
      emit_words (map Plan_Verbatim ws ! i) i (?pos ! i) ?pos win base) [0..<length (map Plan_Verbatim ws)]))"
    by (rule emit_loop_words [OF refl refl]) simp_all
  ultimately show ?thesis by (simp only: append_Nil)
qed

lemma probe_trampoline_agrees:
  assumes "prologue_is_verbatim_safe ops = Inr ()"
  shows "agrees (probe_trampoline os entry ops p) (build_trampoline os entry ops p)"
proof (cases "os_sysconf_pagesize os \<le> 0")
  case True
  then show ?thesis
    by (simp add: agrees_def probe_trampoline_def build_trampoline_def probe_page_size_def page_size_def Let_def verbatim_plans [OF assms])
next
  case False
  define ps :: usize where "ps = word_of_int (os_sysconf_pagesize os)"
  have p: "probe_page_size os = Returns ps" "page_size os = Inr ps"
    using False by (simp_all add: probe_page_size_def page_size_def Let_def ps_def)
  show ?thesis
    unfolding probe_trampoline_def build_trampoline_def p verbatim_plans [OF assms] Let_def sum.case verbatim_emitted
    by (simp add: agrees_def split: option.split prod.split)
qed

text \<open>
  C18: the experiment does what the runtime does: the same patch bytes; a remap that writes the same memory
  and fails when the runtime's does; and on every prologue its classifier accepts, the trampoline the
  relocation engine of the runtime builds.  Where the experiment aborts, the runtime reports an error.
\<close>

theorem probe_agrees_with_runtime:
  assumes "prologue_is_verbatim_safe ops = Inr ()"
  shows "probe_patch_bytes entry repl = entry_patch_bytes entry repl \<and>
    agrees (probe_remap_patch os addr bytes p) (remap_patch os addr bytes p) \<and>
    agrees (probe_trampoline os entry ops p) (build_trampoline os entry ops p)"
  using probe_remap_agrees probe_trampoline_agrees [OF assms] by (simp add: probe_patch_bytes_eq)

text \<open>An addition of two registers.\<close>

lemma demo_op: "op_refused 0x8B010000 = None"
  by (simp add: op_refused_def PACIBSP_def Let_def)

theorem probe_agrees_with_runtime_witness:
  "agrees (probe_trampoline demo_os 0x1000 [0x8B010000] demo_process) (build_trampoline demo_os 0x1000 [0x8B010000] demo_process)"
  using probe_agrees_with_runtime [of "[0x8B010000]"] demo_op by simp

section \<open>The counters\<close>

lemma call_at_eq:
  "call_at run addr a b s = (fst (run (pb_process s) (pb_slots s) addr a b),
     s\<lparr> pb_hits := pb_hits s + snd (run (pb_process s) (pb_slots s) addr a b) \<rparr>)"
  by (simp add: call_at_def split: prod.split)

definition only_hits :: "probe \<Rightarrow> probe \<Rightarrow> bool" where
  "only_hits s s' \<longleftrightarrow> s' = s\<lparr> pb_hits := pb_hits s' \<rparr>"

lemma only_hits_refl [simp]: "only_hits s s" "only_hits s (s\<lparr> pb_hits := h \<rparr>)"
  by (simp_all add: only_hits_def)

lemma only_hits_trans: "only_hits s t \<Longrightarrow> only_hits t u \<Longrightarrow> only_hits s u"
  unfolding only_hits_def by (cases s; cases t; cases u) simp

lemma only_hits_counters:
  assumes "only_hits s t"
  shows "pb_passed t = pb_passed s" "pb_skipped t = pb_skipped s" "pb_failed t = pb_failed s"
  using assms unfolding only_hits_def by (cases s; cases t; simp)+

lemma hammer_loop_hits: "only_hits s (snd (hammer_loop run entry tramp rounds i bad s))"
proof (induction rounds arbitrary: i bad s)
  case (Suc rounds)
  have "only_hits s (snd (hammer_loop run entry tramp rounds j b (s\<lparr> pb_hits := h \<rparr>)))" for j b h
    by (rule only_hits_trans [OF only_hits_refl(2) Suc.IH])
  then show ?case by (simp add: call_at_eq)
qed simp

lemma hammer_workers_hits: "only_hits s (snd (hammer_workers run entry tramp ws bad s))"
proof (induction ws arbitrary: bad s)
  case (Cons w ws)
  show ?case using hammer_loop_hits [of s run entry tramp w 0 0]
    by (auto split: prod.split intro: only_hits_trans [OF _ Cons.IH])
qed simp

text \<open>An experiment that adds no failure is counted once, as passed or as skipped.\<close>

definition settled :: "probe \<Rightarrow> probe \<Rightarrow> bool" where
  "settled s s' \<longleftrightarrow> pb_failed s \<le> pb_failed s' \<and>
     (pb_failed s' = pb_failed s \<longrightarrow> pb_passed s' + pb_skipped s' = pb_passed s + pb_skipped s + 1)"

lemma hooked_checks_settled:
  assumes "pb_passed x = pb_passed s" "pb_skipped x = pb_skipped s" "pb_failed x = pb_failed s"
  shows "settled s (hooked_checks run entry tramp baseline ws x)"
proof -
  have h: "hammer_workers run entry tramp ws 0 y = (b, z) \<Longrightarrow>
      pb_passed z = pb_passed y \<and> pb_skipped z = pb_skipped y \<and> pb_failed z = pb_failed y" for y b z
    using only_hits_counters [OF hammer_workers_hits, of run entry tramp ws 0 y] by simp
  show ?thesis
    unfolding hooked_checks_def Let_def call_at_eq
    using assms by (auto simp: settled_def pass_def fail_def split: prod.split dest!: h)
qed

lemma restored_checks_counters:
  "pb_passed (restored_checks run entry tramp baseline s) = pb_passed s"
  "pb_skipped (restored_checks run entry tramp baseline s) = pb_skipped s"
  "pb_failed s \<le> pb_failed (restored_checks run entry tramp baseline s)"
  by (simp_all add: restored_checks_def call_at_eq fail_def Let_def)

lemma run_case_settled: "run_case run os ws c s = Returns s' \<Longrightarrow> settled s s'"
proof -
  have h: "settled s x \<Longrightarrow> settled s (restored_checks run e t b (x\<lparr> pb_process := p \<rparr>))" for x e t b p
    using restored_checks_counters [where run = run and entry = e and tramp = t and baseline = b and s = "x\<lparr> pb_process := p \<rparr>"] by (simp add: settled_def)
  have f: "settled s x \<Longrightarrow> x = hooked_checks run e t b ws y \<Longrightarrow> settled s (fail (x\<lparr> pb_process := p \<rparr>))" for x y e t b p
    by (simp add: settled_def fail_def)
  assume "run_case run os ws c s = Returns s'"
  then show ?thesis
    unfolding run_case_def
    by (auto simp: Let_def call_at_eq store_trampoline_def split: sum.splits flow.splits if_splits
        intro!: h f [OF _ refl] hooked_checks_settled)
      (auto simp: settled_def skip_def fail_def)
qed

lemma run_cases_counted:
  "run_cases run os ws cs s = Returns s' \<Longrightarrow> pb_failed s \<le> pb_failed s' \<and>
     (pb_failed s' = pb_failed s \<longrightarrow> pb_passed s' + pb_skipped s' = pb_passed s + pb_skipped s + length cs)"
proof (induction cs arbitrary: s)
  case (Cons c cs)
  then obtain t where t: "run_case run os ws c s = Returns t" "run_cases run os ws cs t = Returns s'"
    by (auto split: flow.splits)
  from run_case_settled [OF t(1)] Cons.IH [OF t(2)] show ?case by (auto simp: settled_def)
qed simp

lemma far_checks_settled:
  assumes "pb_passed x = pb_passed s" "pb_skipped x = pb_skipped s" "pb_failed x = pb_failed s"
  shows "settled s (far_checks run entry tramp baseline x)"
  using assms by (simp add: far_checks_def call_at_eq Let_def settled_def fail_def pass_def)

lemma run_far_settled:
  assumes "run_far run os c s = Returns s'"
  shows "settled s s'"
proof -
  have h: "settled s x \<Longrightarrow> settled s (x\<lparr> pb_process := p, pb_hits := n \<rparr>)"
    and f: "settled s x \<Longrightarrow> x = far_checks run e t b y \<Longrightarrow> settled s (fail (x\<lparr> pb_process := p, pb_hits := n \<rparr>))"
    for x y e t b p n by (simp_all add: settled_def fail_def)
  show ?thesis
    using assms unfolding run_far_def
    by (auto simp: Let_def call_at_eq store_trampoline_def split: sum.splits flow.splits if_splits prod.splits
        intro!: h f [OF _ refl] far_checks_settled)
      (auto simp: settled_def skip_def fail_def)
qed

text \<open>
  The exit code accounts for every experiment: it is 0 exactly when no failure was counted since the
  start, and then each of the cases and the forced far jump was either passed or skipped, once.
\<close>

theorem exit_code_accounts:
  assumes "run_probe run os far_only ws cases frame s = Returns (s', code)"
    and "pb_passed s = 0" "pb_skipped s = 0" "pb_failed s = 0"
  shows "(code = 0 \<longleftrightarrow> pb_failed s' = 0) \<and>
    (code = 0 \<longrightarrow> pb_passed s' + pb_skipped s' = (if far_only then 0 else length cases) + 1)"
proof -
  from assms(1) obtain t where t: "(if far_only then Returns s else run_cases run os ws cases s) = Returns t"
      "run_far run os frame t = Returns s'" "code = (if 0 < pb_failed s' then 1 else 0)"
    unfolding run_probe_def by (auto split: flow.splits)
  have "pb_failed s \<le> pb_failed t \<and>
      (pb_failed t = pb_failed s \<longrightarrow> pb_passed t + pb_skipped t = pb_passed s + pb_skipped s + (if far_only then 0 else length cases))"
    using t(1) run_cases_counted [of run os ws cases s t] by (cases far_only) auto
  moreover from run_far_settled [OF t(2)] have "settled t s'" .
  ultimately show ?thesis using assms(2-4) t(3) by (auto simp: settled_def)
qed

definition demo_probe :: probe where
  "demo_probe = \<lparr> pb_process = demo_process, pb_slots = (\<lambda>_. 0), pb_hits = 0, pb_passed = 0, pb_skipped = 0, pb_failed = 0 \<rparr>"

theorem exit_code_accounts_witness:
  "\<exists>s'. run_probe (\<lambda>_ _ _ a _. (a, 0)) demo_os True [] [] \<lparr> pc_entry = 0x1000, pc_replacement = 0x5000, pc_slot = TRAMP_FRAME \<rparr>
     demo_probe = Returns (s', 0) \<and> pb_passed s' + pb_skipped s' = 1"
proof -
  let ?c = "\<lparr> pc_entry = 0x1000, pc_replacement = 0x5000, pc_slot = TRAMP_FRAME \<rparr>"
  have "prologue_at 0x1000 4 demo_probe = 0xB4000061 # tl (prologue_at 0x1000 4 demo_probe)"
    by (simp add: prologue_at_def demo_probe_def demo_process_def read_bytes_def write_bytes_def upt_rec)
  moreover have "op_refused 0xB4000061 = Some ''cbz/cbnz in prologue''"
    by (simp add: op_refused_def PACIBSP_def Let_def)
  ultimately have "prologue_is_verbatim_safe (prologue_at 0x1000 4 demo_probe) = Inl ''cbz/cbnz in prologue''"
    by (metis prologue_is_verbatim_safe.simps(2) option.case(2))
  then have r: "run_probe (\<lambda>_ _ _ a _. (a, 0)) demo_os True [] [] ?c demo_probe = Returns (skip demo_probe, 0)"
    by (simp add: run_probe_def run_far_def Let_def skip_def demo_probe_def)
  have z: "pb_passed demo_probe = 0" "pb_skipped demo_probe = 0" "pb_failed demo_probe = 0" by (simp_all add: demo_probe_def)
  from exit_code_accounts [OF r z] have "pb_passed (skip demo_probe) + pb_skipped (skip demo_probe) = 1" by simp
  with r show ?thesis by blast
qed

text \<open>The forced far jump counts the hits of the whole run: behind a case that passed, its check is of the
  results alone, and a replacement that was never reached and doubled nothing else would pass.\<close>

lemma far_check_ignores_hits:
  assumes "2 \<le> pb_hits s" and "fst (run (pb_process s) (pb_slots s) entry 2 3) = baseline * 2"
    and "fst (run (pb_process s) (pb_slots s) entry (- 7) 11) = fst (run (pb_process s) (pb_slots s) tramp (- 7) 11) * 2"
  shows "pb_passed (far_checks run entry tramp baseline s) = pb_passed s + 1"
  using assms by (simp add: far_checks_def call_at_eq Let_def pass_def)

section \<open>A case that passes\<close>

text \<open>A system that grants what the experiment asks for, with room for \<open>n\<close> pages.\<close>

definition os_willing :: "nat \<Rightarrow> os \<Rightarrow> bool" where
  "os_willing n os \<longleftrightarrow>
     (\<forall>sz jit p. length (pr_pages p) < n \<longrightarrow> fst (os_mmap os sz jit p) \<noteq> None) \<and>
     (\<forall>a sz pr p. os_mprotect os a sz pr p) \<and> (\<forall>page sz src p. fst (os_remap os page sz src p))"

text \<open>What is placed on the trampoline page: the displaced bytes and the jump behind them.\<close>

definition tramp_image :: "usize \<Rightarrow> u8 list \<Rightarrow> u8 list" where
  "tramp_image entry bs = bs @ far_patch (entry + of_nat (length bs))"

text \<open>What a processor promises for the function of the case, whose code lies in the pages \<open>A\<close> of \<open>p0\<close> and
  computes \<open>f\<close>: the code as it was computes \<open>f\<close>; the patched code runs the replacement; and a copy of the
  displaced instructions with the jump back computes \<open>f\<close> whether or not the entry is patched.  The last
  holds when those instructions do not depend on their address, which the classifier is there to ensure.\<close>

definition machine_law ::
  "nat \<Rightarrow> usize set \<Rightarrow> process \<Rightarrow> machine \<Rightarrow> probe_case \<Rightarrow> u8 list \<Rightarrow> (i64 \<Rightarrow> i64 \<Rightarrow> i64) \<Rightarrow> bool" where
  "machine_law k A p0 run c patch f \<longleftrightarrow>
     (let e = pc_entry c;
          intact = (\<lambda>p. \<forall>x. page_of k x \<in> A \<longrightarrow> pr_mem p x = pr_mem p0 x);
          patched = (\<lambda>p. \<forall>x. page_of k x \<in> A \<longrightarrow> pr_mem p x = write_bytes e patch (pr_mem p0) x) in
      \<forall>p slots a b.
        (intact p \<longrightarrow> run p slots e a b = (f a b, 0)) \<and>
        (patched p \<longrightarrow> page_of k (slots (pc_slot c)) \<notin> A \<longrightarrow>
           run p slots e a b = map_prod id pb_hits (replacement_call run (pc_slot c) a b
             \<lparr> pb_process = p, pb_slots = slots, pb_hits = 0, pb_passed = 0, pb_skipped = 0, pb_failed = 0 \<rparr>)) \<and>
        (\<forall>t. (intact p \<or> patched p) \<longrightarrow> page_of k t \<notin> A \<longrightarrow>
           read_bytes (pr_mem p) t (length patch + 16) = tramp_image e (read_bytes (pr_mem p0) e (length patch)) \<longrightarrow>
           run p slots t a b = (f a b, 0)))"

lemma high_bit8: "8 \<le> n \<Longrightarrow> \<not> bit (b :: u8) n"
  using bit_imp_le_length [of b n] by auto

lemma w8_eq:
  "(a :: u8) = b \<longleftrightarrow> bit a 0 = bit b 0 \<and> bit a 1 = bit b 1 \<and> bit a 2 = bit b 2 \<and> bit a 3 = bit b 3 \<and>
     bit a 4 = bit b 4 \<and> bit a 5 = bit b 5 \<and> bit a 6 = bit b 6 \<and> bit a 7 = bit b 7"
proof -
  have "a = b \<longleftrightarrow> (\<forall>n < 32. n < 8 \<longrightarrow> bit a n = bit b n)" by (auto simp: bit_eq_iff)
  then show ?thesis unfolding all_below_32 by simp
qed

lemma le_bytes: "u32_to_le (u32_from_le [a, b, c, d]) = [a, b, c, d]"
  by (simp add: u32_to_le_def w8_eq bit_simps high_bit8)

lemma words_of_bytes: "length bs mod 4 = 0 \<Longrightarrow> concat (map u32_to_le (map u32_from_le (chunks4 bs))) = bs"
proof (induction bs rule: chunks4.induct)
  case (1 a b c d rest)
  then show ?case by (simp add: le_bytes del: u32_from_le.simps)
qed simp_all

lemma agrees_Inr:
  assumes "agrees f (Inr v, p)"
  shows "f = Returns (Inr v, p)"
proof (cases f)
  case (Returns x)
  obtain r q where x: "x = (r, q)" by fastforce
  show ?thesis using assms by (cases r) (simp_all add: Returns x agrees_def)
qed (use assms in \<open>simp add: agrees_def\<close>)

lemma agrees_Returns: "agrees (Returns (Inr v, p)) o' \<Longrightarrow> o' = (Inr v, p)"
  by (simp add: agrees_def)

text \<open>The trampoline page is new and holds the image; the rest of the process is as it was.\<close>

lemma trampoline_built:
  assumes os: "os_laws k os" "os_willing n os" "length (pr_pages p) < n"
    and ops: "ops = map u32_from_le (chunks4 bs)" "length bs mod 4 = 0" "length bs \<le> 16"
      "prologue_is_verbatim_safe ops = Inr ()"
  obtains t p1 where "probe_trampoline os e ops p = Returns (Inr t, p1)" "page_of k t = t" "t \<notin> set (pr_pages p)"
    "pr_pages p1 = t # pr_pages p" "pr_stage p1 = pr_stage p" "same_on k (set (pr_pages p)) p p1"
    "read_bytes (pr_mem p1) t (length bs + 16) = tramp_image e bs"
proof -
  have "0 < os_sysconf_pagesize os" using os(1) by (simp add: os_laws_def)
  then obtain ps where ps: "probe_page_size os = Returns ps" by (simp add: probe_page_size_def)
  obtain v q where m: "os_mmap os ps False p = (v, q)" by fastforce
  with os(2,3) obtain t where v: "v = Some t" unfolding os_willing_def by (metis fst_conv not_None_eq)
  have "\<And>a sz pr x. os_mprotect os a sz pr x" using os(2) by (simp add: os_willing_def)
  with ps m v obtain p1 where r: "probe_trampoline os e ops p = Returns (Inr t, p1)"
    by (simp add: probe_trampoline_def Let_def)
  with probe_trampoline_agrees [OF ops(4), of os e p] have b: "build_trampoline os e ops p = (Inr t, p1)"
    using agrees_Returns by metis
  have l: "length ops \<le> 64" "4 * length ops = length bs" using ops(1-3) by (auto simp: chunks4_length)
  note fr = build_trampoline_frame [OF os(1) b l(1)]
  have "read_bytes (pr_mem p1) t (length bs + 16) = tramp_image e bs"
  proof (rule build_trampoline_spec [OF os(1) b l(1)])
    fix plans buf m'
    assume s: "plan_ops e ops = Inr plans" "emit_loop plans 0 (tramp_pos e ops) (mk_window e (length ops)) t [] = Inr buf"
      "pr_mem p1 = write_bytes t (tramp_bytes e ops buf) m'"
    have "plans = map Plan_Verbatim ops" using verbatim_plans [OF ops(4), of e] s(1) by simp
    with s(2) verbatim_emitted [where ws = ops and win = "mk_window e (length ops)"] have "buf = ops"
      by (simp add: tramp_pos_def tramp_sizes_def tramp_plans_def verbatim_plans [OF ops(4)])
    moreover have "of_nat (length ops) * 4 = (of_nat (length bs) :: usize)" unfolding l(2) [symmetric] by simp
    ultimately have "tramp_bytes e ops buf = tramp_image e bs"
      using words_of_bytes [OF ops(2)] by (simp add: tramp_bytes_def tramp_image_def far_patch_def ops(1))
    moreover have "length (tramp_image e bs) = length bs + 16" by (simp add: tramp_image_def far_patch_def)
    ultimately show ?thesis using s(3) read_written [of "tramp_image e bs" t m'] ops(3) by simp
  qed
  with that r fr show ?thesis by blast
qed

text \<open>A remap inside one page succeeds.\<close>

lemma remap_done:
  assumes os: "os_laws k os" "os_willing n os" and p: "pr_stage p \<noteq> None \<or> length (pr_pages p) < n"
    and ap: "apart k A p" "page_of k addr \<in> A" and fit: "unat (addr - page_of k addr) + length bytes \<le> 2 ^ k"
  obtains p' where "probe_remap_patch os addr bytes p = Returns (Inr (), p')" "apart k A p'" "pr_stage p' \<noteq> None"
    "\<And>a. page_of k a \<in> A \<Longrightarrow> pr_mem p' a = write_bytes addr bytes (pr_mem p) a"
proof -
  note ps = os_page_size [OF os(1)]
  let ?page = "page_of k addr" and ?off = "addr - page_of k addr"
  have pg: "addr AND NOT (2 ^ k - 1) = ?page" by (simp add: ps(2) page_of_def)
  obtain stage p1 where sp: "staging_page os p = (Inr stage, p1)"
  proof (cases "pr_stage p")
    case None
    obtain v q where m: "os_mmap os (2 ^ k) True p = (v, q)" by fastforce
    with os(2) p None obtain t where "v = Some t" unfolding os_willing_def by (metis fst_conv not_None_eq)
    with that m None show ?thesis by (simp add: staging_page_def ps(1))
  qed (use that in \<open>simp add: staging_page_def\<close>)
  note s = staging_page_spec [OF os(1) ap(1) sp]
  with ap(2) have st: "page_of k stage = stage" "stage \<noteq> ?page" "pr_stage p1 = Some stage" by (auto simp: apart_def)
  let ?p2 = "p1\<lparr> pr_mem := copy_bytes ?page stage (2 ^ k) (pr_mem p1) \<rparr>"
  let ?p3 = "?p2\<lparr> pr_mem := write_bytes (stage + ?off) bytes (pr_mem ?p2) \<rparr>"
  obtain ok p4 where rm0: "os_remap os ?page (2 ^ k) stage ?p3 = (ok, p4)" by fastforce
  with os(2) have rm: "os_remap os ?page (2 ^ k) stage ?p3 = (True, p4)" unfolding os_willing_def by (metis fst_conv)
  have m3: "pr_mem ?p3 = write_bytes (stage + ?off) bytes (copy_bytes ?page stage (2 ^ k) (pr_mem p1))" by simp
  note sr = staged_remap [OF os(1) fit st(1,2) m3 rm]
  have pr: "\<And>a sz pr x. os_mprotect os a sz pr x" using os(2) by (simp add: os_willing_def)
  have r: "remap_patch os addr bytes p = (Inr (), p4)"
    unfolding remap_patch_def Let_def ps(1) sum.case pg ps(3) sp prod.case
    using leD [OF fit] pr rm sr(2) by simp
  have "probe_remap_patch os addr bytes p = Returns (Inr (), p4)"
    using probe_remap_agrees [of os addr bytes p] unfolding r by (rule agrees_Inr)
  moreover have "pr_stage p4 \<noteq> None" using sr(4) st(3) by simp
  ultimately show ?thesis using that remap_patch_spec [OF os(1) ap r] by simp
qed

lemma hammer_loop_good:
  assumes "\<And>a b. run (pb_process s) (pb_slots s) e a b = (f a b * 2, 1)"
    and "\<And>a b. run (pb_process s) (pb_slots s) t a b = (f a b, 0)"
  shows "hammer_loop run e t n i bad s = (bad, s\<lparr> pb_hits := pb_hits s + n \<rparr>)"
  using assms by (induction n arbitrary: i s) (simp_all add: call_at_eq)

lemma hammer_workers_good:
  assumes "\<And>a b. run (pb_process s) (pb_slots s) e a b = (f a b * 2, 1)"
    and "\<And>a b. run (pb_process s) (pb_slots s) t a b = (f a b, 0)"
  shows "hammer_workers run e t ws bad s = (bad, s\<lparr> pb_hits := pb_hits s + sum_list ws \<rparr>)"
  using assms
proof (induction ws arbitrary: bad s)
  case (Cons w ws)
  show ?case
    using Cons.IH [of "s\<lparr> pb_hits := pb_hits s + w \<rparr>"] Cons.prems hammer_loop_good [where f = f and run = run and s = s and e = e and t = t and n = w and i = 0 and bad = 0]
    by (simp add: add.assoc)
qed simp

lemma hooked_checks_good:
  assumes "\<And>a b. run (pb_process s) (pb_slots s) e a b = (f a b * 2, 1)"
    and "\<And>a b. run (pb_process s) (pb_slots s) t a b = (f a b, 0)"
  shows "hooked_checks run e t (f 2 3) ws s = s\<lparr> pb_hits := pb_hits s + 2 + sum_list ws, pb_passed := pb_passed s + 1 \<rparr>"
  using hammer_workers_good [where s = "pass (s\<lparr> pb_hits := pb_hits s + 2 \<rparr>)" and e = e and t = t and f = f and run = run and ws = ws and bad = 0] assms
  by (simp add: hooked_checks_def call_at_eq Let_def pass_def)

definition probe_ready :: "nat \<Rightarrow> nat \<Rightarrow> os \<Rightarrow> usize set \<Rightarrow> usize \<Rightarrow> nat \<Rightarrow> process \<Rightarrow> bool" where
  "probe_ready k n os A e len p \<longleftrightarrow>
     os_laws k os \<and> os_willing n os \<and> length (pr_pages p) + 2 \<le> n \<and> apart k A p \<and> page_of k e \<in> A \<and>
     (\<forall>st. pr_stage p = Some st \<longrightarrow> st \<in> set (pr_pages p)) \<and> unat (e - page_of k e) + len \<le> 2 ^ k"

lemma machine_law_run:
  assumes "machine_law k A p0 run c patch f"
  shows "(\<And>x. page_of k x \<in> A \<Longrightarrow> pr_mem p x = pr_mem p0 x) \<Longrightarrow> run p slots (pc_entry c) a b = (f a b, 0)"
    and "(\<forall>x. page_of k x \<in> A \<longrightarrow> pr_mem p x = pr_mem p0 x) \<or>
      (\<forall>x. page_of k x \<in> A \<longrightarrow> pr_mem p x = write_bytes (pc_entry c) patch (pr_mem p0) x) \<Longrightarrow> page_of k t \<notin> A \<Longrightarrow>
      read_bytes (pr_mem p) t (length patch + 16) = tramp_image (pc_entry c) (read_bytes (pr_mem p0) (pc_entry c) (length patch)) \<Longrightarrow>
      run p slots t a b = (f a b, 0)"
    and "(\<And>x. page_of k x \<in> A \<Longrightarrow> pr_mem p x = write_bytes (pc_entry c) patch (pr_mem p0) x) \<Longrightarrow>
      page_of k (slots (pc_slot c)) \<notin> A \<Longrightarrow> run p slots (slots (pc_slot c)) a b = (f a b, 0) \<Longrightarrow>
      run p slots (pc_entry c) a b = (f a b * 2, 1)"
  using assms [unfolded machine_law_def Let_def, rule_format, of p slots a b]
  by (auto simp: replacement_call_def call_at_eq)

lemma write_back:
  assumes "k < 64" "unat (e - page_of k e) + length patch \<le> 2 ^ k" "length patch < 2 ^ 64"
  shows "write_bytes e (read_bytes m e (length patch)) (write_bytes e patch m) = m"
proof
  fix x
  show "write_bytes e (read_bytes m e (length patch)) (write_bytes e patch m) x = m x"
    by (simp add: write_bytes_def read_bytes_def)
qed

text \<open>The memory through the three steps of an experiment, for a patch of whole instructions: the
  trampoline stays what was placed there; the code is unchanged, then patched, then unchanged.\<close>

lemma image_kept:
  assumes os: "os_laws k os" and t: "page_of k t = t" "page_of k e \<noteq> t" and n: "length bs \<le> 16"
    and fit: "unat (e - page_of k e) + length xs \<le> 2 ^ k"
    and kept: "\<And>a. page_of k a = t \<Longrightarrow> pr_mem p' a = write_bytes e xs (pr_mem p) a"
    and img: "read_bytes (pr_mem p) t (length bs + 16) = tramp_image e bs"
  shows "read_bytes (pr_mem p') t (length bs + 16) = tramp_image e bs"
  unfolding img [symmetric]
proof (rule read_bytes_eqI)
  fix i assume i: "i < length bs + 16"
  have k: "k < 64" by (rule os_page_size(4) [OF os])
  have "(2 :: nat) ^ 12 \<le> 2 ^ k" using os by (intro power_increasing) (simp_all add: os_laws_def)
  with i n have "unat (of_nat i :: usize) < 2 ^ k" by (simp add: unat_of_nat)
  from page_of_add [OF t(1) this k] have "page_of k (t + of_nat i) = t" .
  with kept write_bytes_outside [OF k fit, of "t + of_nat i" "pr_mem p"] t(2)
  show "pr_mem p' (t + of_nat i) = pr_mem p (t + of_nat i)" by simp
qed

lemma memory_phases:
  assumes ready: "probe_ready k n os A e (length patch) p" and patch: "length patch mod 4 = 0" "length patch \<le> 16"
    and bs: "bs = read_bytes (pr_mem p) e (length patch)"
    and safe: "prologue_is_verbatim_safe (map u32_from_le (chunks4 bs)) = Inr ()"
  obtains t p1 p2 p3 where
    "probe_trampoline os e (map u32_from_le (chunks4 bs)) p = Returns (Inr t, p1)" "page_of k t \<notin> A"
    "read_bytes (pr_mem p1) e (length patch) = bs"
    "probe_remap_patch os e patch p1 = Returns (Inr (), p2)" "probe_remap_patch os e bs p2 = Returns (Inr (), p3)"
    "\<forall>q \<in> {p1, p2, p3}. read_bytes (pr_mem q) t (length bs + 16) = tramp_image e bs"
    "same_on k A p p1" "\<forall>x. page_of k x \<in> A \<longrightarrow> pr_mem p2 x = write_bytes e patch (pr_mem p) x" "same_on k A p p3"
proof -
  from ready have os: "os_laws k os" "os_willing n os" and room: "length (pr_pages p) < n" "length (pr_pages p) + 1 < n"
    and ap: "apart k A p" "page_of k e \<in> A" and stage: "\<And>st. pr_stage p = Some st \<Longrightarrow> st \<in> set (pr_pages p)"
    and fit: "unat (e - page_of k e) + length patch \<le> 2 ^ k" by (auto simp: probe_ready_def)
  have k: "k < 64" by (rule os_page_size(4) [OF os(1)])
  have lb: "length bs = length patch" by (simp add: bs read_bytes_def)
  obtain t p1 where t: "probe_trampoline os e (map u32_from_le (chunks4 bs)) p = Returns (Inr t, p1)"
      "page_of k t = t" "t \<notin> set (pr_pages p)" "pr_pages p1 = t # pr_pages p" "pr_stage p1 = pr_stage p"
      "same_on k (set (pr_pages p)) p p1" "read_bytes (pr_mem p1) t (length bs + 16) = tramp_image e bs"
    by (rule trampoline_built [OF os room(1) refl _ _ safe, where e = e]) (use patch lb in auto)
  have sub: "A \<subseteq> set (pr_pages p)" using ap(1) by (simp add: apart_def)
  have tA: "t \<notin> A" "page_of k t \<notin> A" using sub t(2,3) by auto
  have m1: "same_on k A p p1" using t(6) sub by (auto simp: same_on_def)
  have ap1: "apart k (insert t A) p1" "page_of k e \<in> insert t A"
    using ap t(2-5) stage by (auto simp: apart_def)
  have ne: "page_of k e \<noteq> t" using ap(2) tA(1) by auto
  have room1: "pr_stage p1 \<noteq> None \<or> length (pr_pages p1) < n" using t(4) room by simp
  obtain p2 where p2: "probe_remap_patch os e patch p1 = Returns (Inr (), p2)" "apart k (insert t A) p2" "pr_stage p2 \<noteq> None"
      "\<And>a. page_of k a \<in> insert t A \<Longrightarrow> pr_mem p2 a = write_bytes e patch (pr_mem p1) a"
    by (rule remap_done [OF os room1 ap1 fit]) blast
  have m2: "pr_mem p2 x = write_bytes e patch (pr_mem p) x" if "page_of k x \<in> A" for x
    using p2(4) [of x] m1 that by (simp add: write_bytes_def same_on_def)
  have room2: "pr_stage p2 \<noteq> None \<or> length (pr_pages p2) < n" using p2(3) by simp
  have fit1: "unat (e - page_of k e) + length bs \<le> 2 ^ k" using fit lb by simp
  obtain p3 where p3: "probe_remap_patch os e bs p2 = Returns (Inr (), p3)"
      "\<And>a. page_of k a \<in> insert t A \<Longrightarrow> pr_mem p3 a = write_bytes e bs (pr_mem p2) a"
    by (rule remap_done [OF os room2 p2(2) ap1(2) fit1]) blast
  have m3: "same_on k A p p3"
    unfolding same_on_def
  proof (intro allI impI)
    fix x assume x: "page_of k x \<in> A"
    then have "pr_mem p3 x = write_bytes e bs (write_bytes e patch (pr_mem p)) x"
      using p3(2) [of x] m2 [OF x] by (simp add: write_bytes_def)
    then show "pr_mem p3 x = pr_mem p x" using write_back [OF k fit, of "pr_mem p"] patch by (simp add: bs)
  qed
  have o: "read_bytes (pr_mem p1) e (length patch) = bs"
    unfolding bs
  proof (rule read_bytes_eqI)
    fix i assume "i < length patch"
    with patch have "unat (e + of_nat i - e) < length patch" by (simp add: unat_of_nat)
    from in_span_page [OF k fit this] ap(2) m1 show "pr_mem p1 (e + of_nat i) = pr_mem p (e + of_nat i)" by (simp add: same_on_def)
  qed
  have i2: "read_bytes (pr_mem p2) t (length bs + 16) = tramp_image e bs"
    by (rule image_kept [OF os(1) t(2) ne _ fit _ t(7)]) (use patch lb p2(4) in simp_all)
  have "read_bytes (pr_mem p3) t (length bs + 16) = tramp_image e bs"
    by (rule image_kept [OF os(1) t(2) ne _ fit1 _ i2]) (use patch lb p3(2) in simp_all)
  with i2 t(1,7) tA(2) o p2(1) p3(1) m1 m2 m3 that show ?thesis by blast
qed

text \<open>What the calls of an experiment return in each of its steps.\<close>

lemma run_phases:
  assumes ready: "probe_ready k n os A (pc_entry c) (length patch) p" and patch: "length patch mod 4 = 0" "length patch \<le> 16"
    and bs: "bs = read_bytes (pr_mem p) (pc_entry c) (length patch)"
    and safe: "prologue_is_verbatim_safe (map u32_from_le (chunks4 bs)) = Inr ()"
    and law: "machine_law k A p run c patch f"
  obtains t p1 p2 p3 where
    "probe_trampoline os (pc_entry c) (map u32_from_le (chunks4 bs)) p = Returns (Inr t, p1)"
    "read_bytes (pr_mem p1) (pc_entry c) (length patch) = bs"
    "probe_remap_patch os (pc_entry c) patch p1 = Returns (Inr (), p2)" "probe_remap_patch os (pc_entry c) bs p2 = Returns (Inr (), p3)"
    "same_on k A p p3" "\<And>sl a b. run p1 sl t a b = (f a b, 0)" "\<And>sl a b. run p2 sl t a b = (f a b, 0)"
    "\<And>sl a b. sl (pc_slot c) = t \<Longrightarrow> run p2 sl (pc_entry c) a b = (f a b * 2, 1)"
    "\<And>sl a b. run p3 sl (pc_entry c) a b = (f a b, 0)" "\<And>sl a b. run p3 sl t a b = (f a b, 0)"
proof (rule memory_phases [OF ready patch bs safe])
  fix t p1 p2 p3
  assume m: "probe_trampoline os (pc_entry c) (map u32_from_le (chunks4 bs)) p = Returns (Inr t, p1)" "page_of k t \<notin> A"
    "read_bytes (pr_mem p1) (pc_entry c) (length patch) = bs"
    "probe_remap_patch os (pc_entry c) patch p1 = Returns (Inr (), p2)" "probe_remap_patch os (pc_entry c) bs p2 = Returns (Inr (), p3)"
    and img: "\<forall>q \<in> {p1, p2, p3}. read_bytes (pr_mem q) t (length bs + 16) = tramp_image (pc_entry c) bs"
    and m1: "same_on k A p p1" and m2: "\<forall>x. page_of k x \<in> A \<longrightarrow> pr_mem p2 x = write_bytes (pc_entry c) patch (pr_mem p) x"
    and m3: "same_on k A p p3"
  note mrun = machine_law_run [OF law]
  have lb: "length bs = length patch" by (simp add: bs read_bytes_def)
  have tr: "run q sl t a b = (f a b, 0)" if "q \<in> {p1, p2, p3}" for q sl a b
    by (rule mrun(2)) (use that m(2) img m1 m2 m3 lb in \<open>auto simp: same_on_def bs\<close>)
  have en: "run p2 sl (pc_entry c) a b = (f a b * 2, 1)" if "sl (pc_slot c) = t" for sl a b
    by (rule mrun(3)) (use that m(2) m2 tr in auto)
  have "run p3 sl (pc_entry c) a b = (f a b, 0)" for sl a b
    by (rule mrun(1)) (use m3 in \<open>auto simp: same_on_def\<close>)
  with that m(1,3,4,5) m3 tr en show ?thesis by blast
qed


definition demo2_os :: os where
  "demo2_os = demo_os\<lparr> os_mmap := (\<lambda>sz jit p.
     case List.find (\<lambda>b. b \<notin> set (pr_pages p)) [0x200000, 0x300000, 0x400000] of
       Some b \<Rightarrow> (Some b, p\<lparr> pr_pages := b # pr_pages p \<rparr>) | None \<Rightarrow> (None, p)) \<rparr>"

lemma demo2_laws: "os_laws 12 demo2_os"
proof -
  have "mmap_law 12 demo2_os"
    by (auto simp: mmap_law_def demo2_os_def page_of_12 split: option.splits if_splits)
  with demo_os_laws show ?thesis
    by (auto simp: os_laws_def demo2_os_def remap_law_def fail_law_def split: option.splits)
qed

lemma demo2_willing: "os_willing 3 demo2_os"
proof -
  have "\<not> {0x200000, 0x300000, 0x400000} \<subseteq> set pages" if "length pages < 3" for pages :: "usize list"
  proof
    assume "{0x200000, 0x300000, 0x400000} \<subseteq> set pages"
    then have "card {0x200000, 0x300000, 0x400000 :: usize} \<le> length pages"
      by (meson card_mono card_length finite_set le_trans)
    with that show False by simp
  qed
  then show ?thesis by (fastforce simp: os_willing_def demo2_os_def demo_os_def split: option.split)
qed

definition demo2_probe :: probe where
  "demo2_probe = demo_probe\<lparr> pb_process := \<lparr> pr_mem = write_bytes 0x1000 [0, 0, 1, 0x8B] (\<lambda>_. 0), pr_pages = [0x1000], pr_stage = None \<rparr> \<rparr>"

definition demo2_case :: probe_case where
  "demo2_case = \<lparr> pc_entry = 0x1000, pc_replacement = 0x5000, pc_slot = TRAMP_PLAIN \<rparr>"

text \<open>A processor that looks at the first instruction.\<close>

definition demo_machine :: machine where
  "demo_machine p slots addr a b =
     (if addr = 0x1000 \<and> pr_mem p 0x1003 = 0x14 then (ep_plain_sum a b * 2, 1) else (ep_plain_sum a b, 0))"

lemma demo2_patch: "probe_patch_bytes 0x1000 0x5000 = [0, 0x10, 0, 0x14]"
  by (simp add: probe_patch_bytes_def Let_def u32_to_le_def)

lemma demo2_law: "machine_law 12 {0x1000} (pb_process demo2_probe) demo_machine demo2_case [0, 0x10, 0, 0x14] ep_plain_sum"
proof -
  have p: "page_of 12 0x1003 = 0x1000" "page_of 12 0x1000 = 0x1000" by (simp_all add: page_of_12)
  have m: "pr_mem (pb_process demo2_probe) 0x1003 = 0x8B" by (simp add: demo2_probe_def write_bytes_def)
  have w: "write_bytes 0x1000 [0, 0x10, 0, 0x14] m 0x1003 = 0x14" for m by (simp add: write_bytes_def)
  show ?thesis
    unfolding machine_law_def Let_def
    using p m w by (auto simp: demo_machine_def demo2_case_def replacement_call_def call_at_eq)
qed


text \<open>The forced far jump of the function in the frame slot passes likewise.\<close>

lemma far_jump_passes:
  assumes ready: "probe_ready k n os A (pc_entry c) 16 (pb_process s)" and slot: "pc_slot c = TRAMP_FRAME"
    and safe: "prologue_is_verbatim_safe (prologue_at (pc_entry c) 4 s) = Inr ()"
    and law: "machine_law k A (pb_process s) run c (far_patch (pc_replacement c)) f"
  shows "\<exists>s'. run_far run os c s = Returns s' \<and>
    pb_passed s' = pb_passed s + 1 \<and> pb_skipped s' = pb_skipped s \<and> pb_failed s' = pb_failed s \<and>
    pb_hits s' = pb_hits s + 3 \<and> same_on k A (pb_process s) (pb_process s')"
proof -
  let ?p = "pb_process s" and ?e = "pc_entry c" and ?far = "far_patch (pc_replacement c)"
  have len: "length ?far = 16" by (simp add: far_patch_def)
  define bs where "bs = read_bytes (pr_mem ?p) ?e (length ?far)"
  have ops: "prologue_at ?e 4 s = map u32_from_le (chunks4 bs)" by (simp add: prologue_at_def bs_def len)
  obtain t p1 p2 p3 where t: "probe_trampoline os ?e (map u32_from_le (chunks4 bs)) ?p = Returns (Inr t, p1)"
      "read_bytes (pr_mem p1) ?e (length ?far) = bs"
      "probe_remap_patch os ?e ?far p1 = Returns (Inr (), p2)" "probe_remap_patch os ?e bs p2 = Returns (Inr (), p3)"
      "same_on k A ?p p3" and via: "\<And>sl a b. run p1 sl t a b = (f a b, 0)" "\<And>sl a b. run p2 sl t a b = (f a b, 0)"
      "\<And>sl a b. sl (pc_slot c) = t \<Longrightarrow> run p2 sl ?e a b = (f a b * 2, 1)"
      "\<And>sl a b. run p3 sl ?e a b = (f a b, 0)" "\<And>sl a b. run p3 sl t a b = (f a b, 0)"
    by (rule run_phases [OF ready [folded len] _ _ bs_def safe [unfolded ops] law]) (simp_all add: len)
  define s2 where "s2 = store_trampoline TRAMP_FRAME t p1 s"
  have st: "pb_slots s2 (pc_slot c) = t" "pb_process s2 = p1" "pb_hits s2 = pb_hits s"
    by (simp_all add: s2_def store_trampoline_def slot)
  define s3 where "s3 = s2\<lparr> pb_process := p2, pb_hits := pb_hits s + 3, pb_passed := pb_passed s + 1 \<rparr>"
  have fc: "far_checks run ?e t (f 2 3) (s2\<lparr> pb_process := p2 \<rparr>) = s3"
    using via st by (simp add: far_checks_def call_at_eq Let_def pass_def s3_def) (simp add: s2_def store_trampoline_def)
  have c1: "call_at run ?e 2 3 s = (f 2 3, s)" using machine_law_run(1) [OF law, of ?p] by (simp add: call_at_eq)
  have c2: "call_at run t 2 3 s2 = (f 2 3, s2)" using via st by (simp add: call_at_eq)
  have c3: "call_at run ?e 2 3 (s3\<lparr> pb_process := p3 \<rparr>) = (f 2 3, s3\<lparr> pb_process := p3 \<rparr>)"
    using via by (simp add: call_at_eq s3_def)
  have "run_far run os c s = Returns (s3\<lparr> pb_process := p3 \<rparr>)"
    unfolding run_far_def Let_def c1 prod.case ops safe [unfolded ops] sum.case t(1) flow.case s2_def [symmetric] c2
      st(2) t(2) [unfolded len] t(3) fc
    using t(4) c3 by (simp add: s3_def)
  with t(5) show ?thesis by (simp add: s3_def s2_def store_trampoline_def)
qed

text \<open>The classifier has the hole of the runtime's relocation: it takes the literal load of a SIMD register
  for position independent, and an ordinary store to the stack for a literal load.\<close>

lemma classifier_literal_loads:
  "op_refused 0x1C000000 = None" "op_refused 0xF81F0FFE = Some ''literal load in prologue''"
  by (simp_all add: op_refused_def PACIBSP_def Let_def)

end
