(* ===== verification/Drain_Worker.thy ===== *)
theory Drain_Worker
  imports Observability
begin

text \<open>
  The observability root and its drain worker, from \<open>crates/runtime/src/observability.rs\<close>, as a step
  relation: any thread may emit an event or ask for the root at any time, and the worker takes one event
  out of the queue per step, as the lazy drain of its loop does.  What the tracing subscriber is told is
  the list of records.
\<close>

section \<open>State\<close>

datatype obs_dispatch = Os_Log string string | Stderr_Fmt

definition SUBSYSTEM :: string where "SUBSYSTEM = ''com.shinysongtools.runtime''"
definition CATEGORY :: string where "CATEGORY = ''runtime''"

text \<open>Whether the client of the system log starts is its own affair.\<close>

definition build_dispatch :: "bool \<Rightarrow> obs_dispatch" where
  "build_dispatch os_log = (if os_log then Os_Log SUBSYSTEM CATEGORY else Stderr_Fmt)"

record observability_root =
  or_created_at :: nat
  or_dispatch :: obs_dispatch

definition uptime :: "nat \<Rightarrow> observability_root \<Rightarrow> nat" where
  "uptime now r = now - or_created_at r"

text \<open>Where the worker stands: inside one drain, with the turns left of it and the number of events it
  has emitted, or asleep.\<close>

datatype drain_pc = Draining nat nat | Sleeping

type_synonym compact_record = "compact_event \<times> string \<times> string"

record 'q obs_world =
  ow_queue :: "'q callback_observability"
  ow_root :: "observability_root option"
  ow_worker :: "drain_pc option"
  ow_log :: "(obs_dispatch \<times> compact_record) list"

definition obs_world_new :: "(compact_event, 'q) array_queue \<Rightarrow> 'q obs_world" where
  "obs_world_new A = \<lparr> ow_queue = obs_new A, ow_root = None, ow_worker = None, ow_log = [] \<rparr>"

section \<open>Operations\<close>

text \<open>A thread that cannot be started is ignored.\<close>

definition spawn_drain_worker :: "bool \<Rightarrow> 'q obs_world \<Rightarrow> 'q obs_world" where
  "spawn_drain_worker spawned w = (if spawned then w\<lparr> ow_worker := Some (Draining 256 0) \<rparr> else w)"

definition root_new :: "bool \<Rightarrow> bool \<Rightarrow> nat \<Rightarrow> 'q obs_world \<Rightarrow> observability_root \<times> 'q obs_world" where
  "root_new os_log spawned now w =
     (let dispatch = build_dispatch os_log in
      (\<lparr> or_created_at = now, or_dispatch = dispatch \<rparr>, spawn_drain_worker spawned w))"

text \<open>\<open>ROOT.get_or_init\<close>\<close>

definition obs_root :: "bool \<Rightarrow> bool \<Rightarrow> nat \<Rightarrow> 'q obs_world \<Rightarrow> observability_root \<times> 'q obs_world" where
  "obs_root os_log spawned now w =
     (case ow_root w of
        Some r \<Rightarrow> (r, w)
      | None \<Rightarrow> (case root_new os_log spawned now w of (r, w') \<Rightarrow> (r, w'\<lparr> ow_root := Some r \<rparr>)))"

text \<open>One turn of the worker: the next event, the end of a drain, or waking up.  The dispatch is the one
  of the root; an emitted record goes there.\<close>

definition worker_turn :: "(compact_event, 'q) array_queue \<Rightarrow> obs_dispatch \<Rightarrow> drain_pc \<Rightarrow> 'q obs_world \<Rightarrow> 'q obs_world" where
  "worker_turn A dispatch at w =
     (case at of
        Sleeping \<Rightarrow> w\<lparr> ow_worker := Some (Draining 256 0) \<rparr>
      | Draining turns drained \<Rightarrow>
          (let finished = (if drained = 0 then Sleeping else Draining 256 0) in
           case turns of
             0 \<Rightarrow> w\<lparr> ow_worker := Some finished \<rparr>
           | Suc turns' \<Rightarrow>
               (case aq_pop A (co_queue (ow_queue w)) of
                  (None, q) \<Rightarrow> w\<lparr> ow_queue := (ow_queue w)\<lparr> co_queue := q \<rparr>, ow_worker := Some finished \<rparr>
                | (Some event, q) \<Rightarrow>
                    w\<lparr> ow_queue := (ow_queue w)\<lparr> co_queue := q \<rparr>, ow_worker := Some (Draining turns' (drained + 1)),
                      ow_log := ow_log w @ [(dispatch, emit_compact_event event)] \<rparr>)))"

datatype obs_label = Emitted compact_event bool | Root_Asked observability_root | Worker

inductive obs_step :: "(compact_event, 'q) array_queue \<Rightarrow> 'q obs_world \<Rightarrow> obs_label \<Rightarrow> 'q obs_world \<Rightarrow> bool" for A where
  Step_Emit: "obs_try_emit A e (ow_queue w) = (ok, ob) \<Longrightarrow> obs_step A w (Emitted e ok) (w\<lparr> ow_queue := ob \<rparr>)"
| Step_Root: "obs_root os_log spawned now w = (r, w') \<Longrightarrow> obs_step A w (Root_Asked r) w'"
| Step_Worker: "ow_worker w = Some at \<Longrightarrow> ow_root w = Some r \<Longrightarrow> obs_step A w Worker (worker_turn A (or_dispatch r) at w)"

inductive_cases obs_step_cases: "obs_step A w l w'"

inductive obs_run :: "(compact_event, 'q) array_queue \<Rightarrow> 'q obs_world \<Rightarrow> obs_label list \<Rightarrow> 'q obs_world \<Rightarrow> bool" for A where
  Run_Nil: "obs_run A w [] w"
| Run_Step: "obs_run A w ls w' \<Longrightarrow> obs_step A w' l w'' \<Longrightarrow> obs_run A w (ls @ [l]) w''"

text \<open>What a run accepted, and how many events it refused.\<close>

fun accepted :: "obs_label list \<Rightarrow> compact_event list" where
  "accepted [] = []"
| "accepted (Emitted e True # ls) = e # accepted ls"
| "accepted (_ # ls) = accepted ls"

fun refused :: "obs_label list \<Rightarrow> nat" where
  "refused [] = 0"
| "refused (Emitted e False # ls) = Suc (refused ls)"
| "refused (_ # ls) = refused ls"

fun roots_seen :: "obs_label list \<Rightarrow> observability_root list" where
  "roots_seen [] = []"
| "roots_seen (Root_Asked r # ls) = r # roots_seen ls"
| "roots_seen (_ # ls) = roots_seen ls"

lemma accepted_append [simp]: "accepted (ls @ ms) = accepted ls @ accepted ms"
  by (induction ls rule: accepted.induct) simp_all

lemma refused_append [simp]: "refused (ls @ ms) = refused ls + refused ms"
  by (induction ls rule: refused.induct) simp_all

lemma roots_seen_append [simp]: "roots_seen (ls @ ms) = roots_seen ls @ roots_seen ms"
  by (induction ls rule: roots_seen.induct) simp_all

section \<open>What the log holds\<close>

text \<open>The invariant of a run from the start: the log and the queue together are the accepted events in
  order, all under the dispatch of the one root; the refused ones are counted.\<close>

definition obs_inv ::
  "('q \<Rightarrow> nat \<times> compact_event list) \<Rightarrow> obs_label list \<Rightarrow> 'q obs_world \<Rightarrow> bool" where
  "obs_inv view ls w \<longleftrightarrow>
     fst (view (co_queue (ow_queue w))) = CALLBACK_EVENT_QUEUE_CAPACITY \<and>
     length (snd (view (co_queue (ow_queue w)))) \<le> CALLBACK_EVENT_QUEUE_CAPACITY \<and>
     map emit_compact_event (accepted ls) = map snd (ow_log w) @ map emit_compact_event (snd (view (co_queue (ow_queue w)))) \<and>
     co_dropped (ow_queue w) = of_nat (refused ls) \<and>
     (\<forall>r \<in> set (roots_seen ls). ow_root w = Some r) \<and>
     (\<forall>x \<in> set (ow_log w). \<exists>r. ow_root w = Some r \<and> fst x = or_dispatch r) \<and>
     (ow_root w = None \<longrightarrow> ow_worker w = None) \<and>
     (\<forall>turns drained. ow_worker w = Some (Draining turns drained) \<longrightarrow> turns + drained = 256)"

lemma obs_inv_emit:
  assumes laws: "array_queue_laws A view" and inv: "obs_inv view ls w" and e: "obs_try_emit A e (ow_queue w) = (ok, ob)"
  shows "obs_inv view (ls @ [Emitted e ok]) (w\<lparr> ow_queue := ob \<rparr>)"
proof -
  obtain c xs where v: "view (co_queue (ow_queue w)) = (c, xs)" by fastforce
  from array_queue_push [OF laws v, of e] e have ok: "ok \<longleftrightarrow> length xs < c"
    by (auto simp: obs_try_emit_def split: prod.splits if_splits)
  with obs_try_emit_view [OF laws v, of e] e inv v show ?thesis
    by (cases ok) (auto simp: obs_inv_def)
qed

lemma obs_inv_root:
  assumes inv: "obs_inv view ls w" and r: "obs_root os_log spawned now w = (r, w')"
  shows "obs_inv view (ls @ [Root_Asked r]) w'"
proof (cases "ow_root w")
  case None
  then have "roots_seen ls = []" using inv by (cases "roots_seen ls") (auto simp: obs_inv_def)
  moreover have "ow_log w = []" using None inv by (cases "ow_log w") (auto simp: obs_inv_def)
  ultimately show ?thesis
    using None r inv
    by (cases spawned) (auto simp: obs_root_def root_new_def spawn_drain_worker_def Let_def obs_inv_def)
qed (use r inv in \<open>auto simp: obs_root_def obs_inv_def\<close>)

lemma obs_inv_worker:
  assumes laws: "array_queue_laws A view" and inv: "obs_inv view ls w" and at: "ow_worker w = Some at" and r: "ow_root w = Some r"
  shows "obs_inv view (ls @ [Worker]) (worker_turn A (or_dispatch r) at w)"
proof -
  obtain c xs where v: "view (co_queue (ow_queue w)) = (c, xs)" by fastforce
  obtain x q where p: "aq_pop A (co_queue (ow_queue w)) = (x, q)" by fastforce
  with array_queue_pop [OF laws v] have x: "x = (case xs of [] \<Rightarrow> None | y # _ \<Rightarrow> Some y)" "view q = (c, tl xs)" by auto
  show ?thesis
    using inv at r v x p
    by (cases xs) (auto simp: obs_inv_def worker_turn_def Let_def split: drain_pc.split nat.split)
qed

lemma obs_inv_step:
  assumes "array_queue_laws A view" "obs_inv view ls w" "obs_step A w l w'"
  shows "obs_inv view (ls @ [l]) w'"
  using assms(3) by (cases rule: obs_step_cases) (use assms(1,2) obs_inv_emit obs_inv_root obs_inv_worker in auto)

lemma obs_inv_run:
  assumes laws: "array_queue_laws A view" and run: "obs_run A (obs_world_new A) ls w"
  shows "obs_inv view ls w"
  using run
proof (induction "obs_world_new A" ls w rule: obs_run.induct)
  case Run_Nil
  then show ?case
    using laws by (simp add: obs_inv_def obs_world_new_def obs_new_def obs_with_capacity_def array_queue_laws_def
        CALLBACK_EVENT_QUEUE_CAPACITY_def)
next
  case (Run_Step ls w l w')
  from obs_inv_step [OF laws Run_Step(2,3)] show ?case .
qed

section \<open>Everything accepted is emitted\<close>

lemma obs_run_trans: "obs_run A w' ms w'' \<Longrightarrow> obs_run A w ls w' \<Longrightarrow> obs_run A w (ls @ ms) w''"
proof (induction w' ms w'' rule: obs_run.induct)
  case (Run_Step w0 ms w1 l w2)
  from obs_run.Run_Step [OF Run_Step(3) [OF Run_Step(4)] Run_Step(2)] show ?case by simp
qed simp

lemma obs_run_one: "obs_step A w l w' \<Longrightarrow> obs_run A w [l] w'"
  using Run_Step [OF Run_Nil, of A w l w'] by simp

lemma worker_pops:
  assumes laws: "array_queue_laws A view" and v: "snd (view (co_queue (ow_queue w))) = x # xs"
    and at: "ow_worker w = Some (Draining (Suc turns) drained)" and r: "ow_root w = Some r"
  shows "\<exists>w'. obs_run A w [Worker] w' \<and> snd (view (co_queue (ow_queue w'))) = xs \<and> ow_worker w' \<noteq> None"
proof -
  obtain c where v': "view (co_queue (ow_queue w)) = (c, x # xs)" using v by (metis prod.collapse)
  obtain y q where p: "aq_pop A (co_queue (ow_queue w)) = (y, q)" by fastforce
  with array_queue_pop [OF laws v'] have "y = Some x" "view q = (c, xs)" by auto
  with obs_run_one [OF Step_Worker [OF at r]] p show ?thesis by (fastforce simp: worker_turn_def Let_def)
qed

lemma worker_emits_next:
  assumes laws: "array_queue_laws A view" and inv: "obs_inv view ls w" and v: "snd (view (co_queue (ow_queue w))) = x # xs"
    and at: "ow_worker w = Some at" and r: "ow_root w = Some r"
  shows "\<exists>ms w'. obs_run A w ms w' \<and> set ms \<subseteq> {Worker} \<and> length ms \<le> 2 \<and>
    snd (view (co_queue (ow_queue w'))) = xs \<and> ow_worker w' \<noteq> None"
proof (cases "\<exists>turns drained. at = Draining (Suc turns) drained")
  case True
  with worker_pops [OF laws v] at r show ?thesis by force
next
  case False
  have "at = Sleeping \<or> at = Draining 0 256"
  proof (cases at)
    case (Draining turns drained)
    with False have "turns = 0" by (cases turns) auto
    with Draining inv at show ?thesis by (simp add: obs_inv_def)
  qed simp
  then have turn: "worker_turn A (or_dispatch r) at w = w\<lparr> ow_worker := Some (Draining (Suc 255) 0) \<rparr>"
    by (auto simp: worker_turn_def)
  let ?w = "w\<lparr> ow_worker := Some (Draining (Suc 255) 0) \<rparr>"
  have one: "obs_run A w [Worker] ?w" using obs_run_one [OF Step_Worker [OF at r], of A] unfolding turn .
  have "snd (view (co_queue (ow_queue ?w))) = x # xs" "ow_worker ?w = Some (Draining (Suc 255) 0)" "ow_root ?w = Some r"
    using v r by simp_all
  from worker_pops [OF laws this] obtain w' where "obs_run A ?w [Worker] w'"
    "snd (view (co_queue (ow_queue w'))) = xs" "ow_worker w' \<noteq> None" by blast
  with obs_run_trans [OF this(1) one] show ?thesis by force
qed

lemma worker_root_kept:
  "obs_run A w ms w' \<Longrightarrow> set ms \<subseteq> {Worker} \<Longrightarrow> ow_root w' = ow_root w \<and> accepted ms = [] \<and> roots_seen ms = []"
proof (induction w ms w' rule: obs_run.induct)
  case (Run_Step w ls w' l w'')
  from Run_Step(2) have "ow_root w'' = ow_root w'" if "l = Worker"
    using that by (cases rule: obs_step_cases) (auto simp: worker_turn_def Let_def split: drain_pc.split nat.split prod.split option.split)
  with Run_Step show ?case by simp
qed simp

lemma obs_inv_worker_run:
  assumes laws: "array_queue_laws A view" and run: "obs_run A w ms w'" and inv: "obs_inv view ls w"
  shows "obs_inv view (ls @ ms) w'"
  using run inv
proof (induction w ms w' rule: obs_run.induct)
  case (Run_Step w ms w' l w'')
  then have i: "obs_inv view (ls @ ms) w'" by blast
  from obs_inv_step [OF laws i Run_Step(2)] show ?case by simp
qed simp

lemma worker_catches_up:
  assumes laws: "array_queue_laws A view"
  shows "obs_inv view ls w \<Longrightarrow> ow_worker w \<noteq> None \<Longrightarrow> snd (view (co_queue (ow_queue w))) = xs \<Longrightarrow>
    \<exists>ms w'. obs_run A w ms w' \<and> set ms \<subseteq> {Worker} \<and> length ms \<le> 2 * length xs \<and> snd (view (co_queue (ow_queue w'))) = []"
proof (induction xs arbitrary: ls w)
  case Nil
  then show ?case using Run_Nil by force
next
  case (Cons x xs)
  then obtain at r where "ow_worker w = Some at" "ow_root w = Some r" by (cases "ow_root w") (auto simp: obs_inv_def)
  from worker_emits_next [OF laws Cons.prems(1,3) this] obtain ms w1
    where m: "obs_run A w ms w1" "set ms \<subseteq> {Worker}" "length ms \<le> 2" "snd (view (co_queue (ow_queue w1))) = xs" "ow_worker w1 \<noteq> None" by blast
  from Cons.IH [OF obs_inv_worker_run [OF laws m(1) Cons.prems(1)] m(5,4)] obtain ns w2
    where n: "obs_run A w1 ns w2" "set ns \<subseteq> {Worker}" "length ns \<le> 2 * length xs" "snd (view (co_queue (ow_queue w2))) = []" by blast
  have "length (ms @ ns) \<le> 2 * length (x # xs)" "set (ms @ ns) \<subseteq> {Worker}" using m n by auto
  with obs_run_trans [OF n(1) m(1)] n(4) show ?case by blast
qed

text \<open>
  C21: however emitting threads, requests for the root and the worker interleave: the records the subscriber
  has seen, followed by the events still queued, are the accepted events in the order they were accepted;
  the refused ones are counted; everyone gets the same root, and every record goes to its subscriber.  And
  at any moment the worker, if its thread started, is at most two turns per queued event away from having
  emitted everything accepted so far.
\<close>

theorem drain_worker_complete:
  assumes "array_queue_laws A view" and "obs_run A (obs_world_new A) ls w"
  shows "map emit_compact_event (accepted ls) =
      map snd (ow_log w) @ map emit_compact_event (snd (view (co_queue (ow_queue w)))) \<and>
    co_dropped (ow_queue w) = of_nat (refused ls) \<and>
    (\<forall>r \<in> set (roots_seen ls). ow_root w = Some r) \<and>
    (\<forall>x \<in> set (ow_log w). \<exists>r. ow_root w = Some r \<and> fst x = or_dispatch r) \<and>
    (ow_worker w \<noteq> None \<longrightarrow>
      (\<exists>ms w'. obs_run A w ms w' \<and> set ms \<subseteq> {Worker} \<and> length ms \<le> 2 * length (snd (view (co_queue (ow_queue w)))) \<and>
         map snd (ow_log w') = map emit_compact_event (accepted ls)))"
proof -
  have inv: "obs_inv view ls w" by (rule obs_inv_run [OF assms])
  have "\<exists>ms w'. obs_run A w ms w' \<and> set ms \<subseteq> {Worker} \<and> length ms \<le> 2 * length (snd (view (co_queue (ow_queue w)))) \<and>
      map snd (ow_log w') = map emit_compact_event (accepted ls)" if alive: "ow_worker w \<noteq> None"
  proof -
    from worker_catches_up [OF assms(1) inv alive refl] obtain ms w'
      where m: "obs_run A w ms w'" "set ms \<subseteq> {Worker}" "length ms \<le> 2 * length (snd (view (co_queue (ow_queue w))))"
        "snd (view (co_queue (ow_queue w'))) = []" by blast
    with obs_inv_worker_run [OF assms(1) m(1) inv] worker_root_kept [OF m(1,2)]
    have "map snd (ow_log w') = map emit_compact_event (accepted ls)" by (simp add: obs_inv_def)
    with m show ?thesis by blast
  qed
  with inv show ?thesis by (simp add: obs_inv_def)
qed

theorem drain_worker_complete_witness:
  "\<exists>w ms w'. obs_run list_queue (obs_world_new list_queue)
       [Root_Asked \<lparr> or_created_at = 7, or_dispatch = Stderr_Fmt \<rparr>, Emitted (event_new 1 CL_Info) True] w \<and>
     obs_run list_queue w ms w' \<and> map snd (ow_log w') = [emit_compact_event (event_new 1 CL_Info)]"
proof -
  let ?r = "\<lparr> or_created_at = 7, or_dispatch = Stderr_Fmt \<rparr>" and ?e = "event_new 1 CL_Info"
  let ?w0 = "obs_world_new list_queue"
  let ?w1 = "?w0\<lparr> ow_root := Some ?r, ow_worker := Some (Draining 256 0) \<rparr>"
  have "obs_root False True 7 ?w0 = (?r, ?w1)"
    by (simp add: obs_root_def obs_world_new_def root_new_def build_dispatch_def spawn_drain_worker_def Let_def)
  from obs_run_one [OF Step_Root [OF this]] have one: "obs_run list_queue ?w0 [Root_Asked ?r] ?w1" .
  obtain ob where ob: "obs_try_emit list_queue ?e (ow_queue ?w1) = (True, ob)"
    by (simp add: obs_try_emit_def obs_world_new_def obs_new_def obs_with_capacity_def list_queue_def CALLBACK_EVENT_QUEUE_CAPACITY_def)
  from Run_Step [OF one Step_Emit [OF this]]
  have run: "obs_run list_queue ?w0 [Root_Asked ?r, Emitted ?e True] (?w1\<lparr> ow_queue := ob \<rparr>)" by simp
  from drain_worker_complete [OF list_queue_laws run] run show ?thesis by fastforce
qed

end
